(* ===== verification/NV_Prelude.thy ===== *)
theory NV_Prelude
  imports Complex_Main
begin

text \<open>
  Shared vocabulary of the development: identifiers, timestamps, Python values, the small
  relational kit the repositories are written with, and the list and lookup lemmas every
  component uses.

  A table is the list of its rows in insertion order. A \<open>SELECT ... WHERE P\<close> is
  \<open>filter P\<close>, a query whose \<open>WHERE\<close> clause fixes a unique key is \<open>find P\<close>, an ORM
  attribute assignment or \<open>UPDATE\<close> is \<open>update_rows\<close>, a \<open>DELETE\<close> is \<open>delete_rows\<close>, and
  an \<open>INSERT\<close> is \<open>insert_row\<close> with the conflict test of the unique constraints that
  \<^verbatim>\<open>src/db/models.py\<close> declares.
\<close>

named_theorems repo_defs \<open>definitions of the repository operations\<close>
named_theorems frame_simps \<open>what an operation leaves unchanged\<close>

subsection \<open>Basic types\<close>

type_synonym uuid = nat
type_synonym millis = int
type_synonym ustr = "nat list" \<comment> \<open>a Python string as its list of code points\<close>
type_synonym bytes = "nat list" \<comment> \<open>a Python bytes value, each element below 256\<close>

definition cps :: "string \<Rightarrow> ustr" where
  "cps s = map of_char s"

datatype py_error =
    ValueError string
  | KeyError string
  | IntegrityError
  | RuntimeError string
  | TypeError string
  | IndexError string
  | AttributeError string

text \<open>A JSON value; numbers are kept apart as Python keeps them, floats as rationals.\<close>

datatype json =
    JNull
  | JBool bool
  | JInt int
  | JFloat rat
  | JStr ustr
  | JList "json list"
  | JObj "(string \<times> json) list"

type_synonym dict = "(string \<times> json) list"

text \<open>\<open>bool(v)\<close> of a JSON value.\<close>

fun json_truthy :: "json \<Rightarrow> bool" where
  "json_truthy JNull = False"
| "json_truthy (JBool b) = b"
| "json_truthy (JInt i) = (i \<noteq> 0)"
| "json_truthy (JFloat q) = (q \<noteq> 0)"
| "json_truthy (JStr s) = (s \<noteq> [])"
| "json_truthy (JList xs) = (xs \<noteq> [])"
| "json_truthy (JObj d) = (d \<noteq> [])"

text \<open>\<open>repr\<close> of a string that holds neither quotes nor escapes.\<close>

definition quoted :: "string \<Rightarrow> string" where
  "quoted s = CHR 0x27 # s @ [CHR 0x27]"

text \<open>Python's \<open>a or b\<close> on optional strings: \<open>None\<close> and the empty string are false.\<close>

fun or_else :: "string option \<Rightarrow> string \<Rightarrow> string" where
  "or_else None d = d"
| "or_else (Some s) d = (if s = [] then d else s)"

fun truthy :: "string option \<Rightarrow> bool" where
  "truthy None = False"
| "truthy (Some s) = (s \<noteq> [])"

lemma truthy_iff: "truthy x \<longleftrightarrow> (\<exists>s. x = Some s \<and> s \<noteq> [])"
  by (cases x) auto

text \<open>\<open>s.split(sep)\<close> for a single character.\<close>

fun split_on :: "'a \<Rightarrow> 'a list \<Rightarrow> 'a list list" where
  "split_on sep [] = [[]]"
| "split_on sep (c # cs) =
     (if c = sep then [] # split_on sep cs
      else (case split_on sep cs of p # ps \<Rightarrow> (c # p) # ps | [] \<Rightarrow> [[c]]))"

lemma split_on_nonempty [simp]: "split_on c xs \<noteq> []"
  by (induction xs) (auto split: list.splits)

lemma split_on_plain: "c \<notin> set xs \<Longrightarrow> split_on c xs = [xs]"
  by (induction xs) auto

lemma split_on_append: "split_on c (xs @ c # ys) = split_on c xs @ split_on c ys"
proof (induction xs)
  case (Cons x xs)
  then show ?case by (cases "split_on c xs") auto
qed simp

subsection \<open>Dictionaries that keep insertion order\<close>

text \<open>
  \<open>{**a, **b}\<close>: the keys of \<open>a\<close> in order, with \<open>b\<close>'s value where \<open>b\<close> has the key, then
  the keys only \<open>b\<close> has.
\<close>

definition dict_merge :: "('k \<times> 'v) list \<Rightarrow> ('k \<times> 'v) list \<Rightarrow> ('k \<times> 'v) list" where
  "dict_merge a b =
     map (\<lambda>(k, v). (k, case map_of b k of Some w \<Rightarrow> w | None \<Rightarrow> v)) a
     @ filter (\<lambda>(k, v). map_of a k = None) b"

lemma map_of_override:
  "map_of (map (\<lambda>(k, v). (k, case f k of Some w \<Rightarrow> w | None \<Rightarrow> v)) a) k
     = map_option (\<lambda>v. case f k of Some w \<Rightarrow> w | None \<Rightarrow> v) (map_of a k)"
  by (induction a) (auto split: option.splits)

lemma map_of_filter_absent:
  "map_of a k = None \<Longrightarrow> map_of (filter (\<lambda>(k, v). map_of a k = None) b) k = map_of b k"
  by (induction b) auto

lemma map_of_filter_present:
  "map_of a k \<noteq> None \<Longrightarrow> map_of (filter (\<lambda>(k, v). map_of a k = None) b) k = None"
  by (induction b) auto

lemma map_of_dict_merge:
  "map_of (dict_merge a b) k = (case map_of b k of Some w \<Rightarrow> Some w | None \<Rightarrow> map_of a k)"
proof (cases "map_of a k")
  case None
  then show ?thesis
    by (simp add: dict_merge_def map_add_def map_of_override map_of_filter_absent
        split: option.split)
next
  case (Some v)
  then show ?thesis
    by (simp add: dict_merge_def map_add_def map_of_override map_of_filter_present
        split: option.split)
qed

subsection \<open>Tables\<close>

definition update_rows :: "('r \<Rightarrow> bool) \<Rightarrow> ('r \<Rightarrow> 'r) \<Rightarrow> 'r list \<Rightarrow> 'r list" where
  "update_rows P f t = map (\<lambda>r. if P r then f r else r) t"

definition delete_rows :: "('r \<Rightarrow> bool) \<Rightarrow> 'r list \<Rightarrow> 'r list \<times> nat" where
  "delete_rows P t = (filter (\<lambda>r. \<not> P r) t, length (filter P t))"

definition insert_row :: "('r \<Rightarrow> 'r \<Rightarrow> bool) \<Rightarrow> 'r \<Rightarrow> 'r list \<Rightarrow> py_error + 'r list" where
  "insert_row clash r t =
     (if list_ex (clash r) t then Inl IntegrityError else Inr (t @ [r]))"

lemma find_map_inv:
  "(\<And>r. Q (g r) = Q r) \<Longrightarrow> find Q (map g t) = map_option g (find Q t)"
  by (induction t) auto

lemma find_update_rows:
  assumes "\<And>r. P r \<Longrightarrow> Q (f r) = Q r"
  shows "find Q (update_rows P f t) = map_option (\<lambda>r. if P r then f r else r) (find Q t)"
  unfolding update_rows_def using assms by (intro find_map_inv) auto

lemma find_append: "find P (xs @ ys) = (case find P xs of Some x \<Rightarrow> Some x | None \<Rightarrow> find P ys)"
  by (induction xs) auto

lemma find_SomeD: "find P xs = Some x \<Longrightarrow> x \<in> set xs \<and> P x"
  by (induction xs) (auto split: if_splits)

lemma find_None: "find P xs = None \<longleftrightarrow> (\<forall>x\<in>set xs. \<not> P x)"
  by (induction xs) auto

lemma find_filter: "find P (filter Q xs) = find (\<lambda>x. Q x \<and> P x) xs"
  by (induction xs) auto

lemma find_sole:
  assumes x: "x \<in> set xs" "P x" and sole: "\<And>y. y \<in> set xs \<Longrightarrow> P y \<Longrightarrow> y = x"
  shows "find P xs = Some x"
proof (cases "find P xs")
  case None
  with x show ?thesis by (simp add: find_None)
next
  case (Some y)
  then have "y = x" using sole find_SomeD by metis
  with Some show ?thesis by simp
qed

lemma filter_update_rows_other:
  "(\<And>r. P r \<Longrightarrow> \<not> Q r \<and> \<not> Q (f r)) \<Longrightarrow> filter Q (update_rows P f t) = filter Q t"
  by (induction t) (auto simp: update_rows_def)

lemma filter_update_rows_drop:
  "(\<And>r. P r \<Longrightarrow> \<not> Q (f r)) \<Longrightarrow> filter Q (update_rows P f t) = filter (\<lambda>r. \<not> P r) (filter Q t)"
  by (induction t) (auto simp: update_rows_def)

lemma map_update_rows:
  "(\<And>r. P r \<Longrightarrow> k (f r) = k r) \<Longrightarrow> map k (update_rows P f t) = map k t"
  by (auto simp: update_rows_def)

lemma length_update_rows [simp]: "length (update_rows P f t) = length t"
  by (simp add: update_rows_def)

lemma set_update_rows:
  "set (update_rows P f t) = (\<lambda>r. if P r then f r else r) ` set t"
  by (simp add: update_rows_def)

lemma list_all_update_rows:
  "list_all Q t \<Longrightarrow> (\<And>r. Q r \<Longrightarrow> P r \<Longrightarrow> Q (f r)) \<Longrightarrow> list_all Q (update_rows P f t)"
  by (auto simp: update_rows_def list_all_iff)

lemma distinct_map_filter': "distinct (map k t) \<Longrightarrow> distinct (map k (filter P t))"
  by (induction t) auto

lemma distinct_key_eq:
  "\<lbrakk>distinct (map k t); r \<in> set t; r' \<in> set t; k r = k r'\<rbrakk> \<Longrightarrow> r = r'"
  by (simp add: distinct_map inj_on_def)

lemma find_by_key:
  "distinct (map k t) \<Longrightarrow> r \<in> set t \<Longrightarrow> find (\<lambda>x. k x = k r) t = Some r"
  by (rule find_sole) (simp_all, metis distinct_key_eq)

lemma length_filter_key_le1: "distinct (map k t) \<Longrightarrow> length (filter (\<lambda>r. k r = x) t) \<le> 1"
proof (induction t)
  case (Cons a t)
  have "filter (\<lambda>r. k r = k a) t = []"
    using Cons.prems by (auto simp: filter_empty_conv) (metis imageI)
  with Cons show ?case by auto
qed simp

lemma length_filter_conj: "length (filter (\<lambda>x. P x \<and> Q x) xs) \<le> length (filter Q xs)"
  by (induction xs) auto

subsection \<open>A table with a unique key\<close>

text \<open>
  What the repositories rely on from a table with a primary key or unique column: an
  insert refuses a key that is already there, and everything else keeps the keys apart, so
  that a lookup by key (\<open>scalar_one_or_none\<close>) sees at most one row.
\<close>

locale keyed_table =
  fixes key :: "'r \<Rightarrow> 'k"
    and ins :: "'r \<Rightarrow> 'r list \<Rightarrow> py_error + 'r list"
  assumes ins_law: "ins r t = (if key r \<in> key ` set t then Inl IntegrityError else Inr (t @ [r]))"
begin

definition well_keyed :: "'r list \<Rightarrow> bool" where
  "well_keyed t \<longleftrightarrow> distinct (map key t)"

lemma ins_keyed: "well_keyed t \<Longrightarrow> ins r t = Inr t' \<Longrightarrow> well_keyed t'"
  by (auto simp: well_keyed_def ins_law split: if_splits)

lemma ins_lookup: "ins r t = Inr t' \<Longrightarrow> find (\<lambda>x. key x = key r) t' = Some r"
  by (auto simp: ins_law find_append find_None split: if_splits option.split dest!: find_SomeD)
    (metis imageI)

lemma ins_refused: "r' \<in> set t \<Longrightarrow> key r' = key r \<Longrightarrow> ins r t = Inl IntegrityError"
  unfolding ins_law by (metis imageI)

lemma update_keyed:
  "well_keyed t \<Longrightarrow> (\<And>r. P r \<Longrightarrow> key (f r) = key r) \<Longrightarrow> well_keyed (update_rows P f t)"
  by (simp add: well_keyed_def map_update_rows)

lemma delete_keyed: "well_keyed t \<Longrightarrow> well_keyed (fst (delete_rows P t))"
  by (simp add: well_keyed_def delete_rows_def distinct_map_filter')

lemma one_row: "well_keyed t \<Longrightarrow> length (filter (\<lambda>r. key r = k) t) \<le> 1"
  unfolding well_keyed_def by (rule length_filter_key_le1)

lemma lookup_member: "well_keyed t \<Longrightarrow> r \<in> set t \<Longrightarrow> find (\<lambda>x. key x = key r) t = Some r"
  by (simp add: well_keyed_def find_by_key)

end

lemma keyed_tableI:
  assumes "\<And>r r'. clash r r' \<longleftrightarrow> key r' = key r"
  shows "keyed_table key (insert_row clash)"
  by unfold_locales (auto simp: insert_row_def list_ex_iff assms intro: rev_image_eqI)

subsection \<open>Errors\<close>

text \<open>Sequencing of fallible steps: the first exception wins.\<close>

definition bindS :: "'e + 'a \<Rightarrow> ('a \<Rightarrow> 'e + 'b) \<Rightarrow> 'e + 'b" where
  "bindS m f = (case m of Inl e \<Rightarrow> Inl e | Inr x \<Rightarrow> f x)"

lemma bindS_simps [simp]: "bindS (Inl e) f = Inl e" "bindS (Inr x) f = f x"
  by (simp_all add: bindS_def)

lemma bindS_Inr: "bindS m f = Inr y \<longleftrightarrow> (\<exists>x. m = Inr x \<and> f x = Inr y)"
  by (cases m) auto

end
