(* ===== verification/Effects.thy ===== *)
theory Effects
  imports NV_Prelude
begin

text \<open>
  Stateful Python code that may raise: an action takes the state and gives either an
  exception or a value, and the state either way. What ran before an exception stays done;
  a handler goes on from the state the exception left.
\<close>

type_synonym ('s, 'e, 'a) act = "'s \<Rightarrow> ('e + 'a) \<times> 's"

definition ret :: "'a \<Rightarrow> ('s, 'e, 'a) act" where
  "ret x s = (Inr x, s)"

definition throw :: "'e \<Rightarrow> ('s, 'e, 'a) act" where
  "throw e s = (Inl e, s)"

definition bindA :: "('s, 'e, 'a) act \<Rightarrow> ('a \<Rightarrow> ('s, 'e, 'b) act) \<Rightarrow> ('s, 'e, 'b) act" where
  "bindA m f s = (case m s of (Inl e, s') \<Rightarrow> (Inl e, s') | (Inr x, s') \<Rightarrow> f x s')"

definition seqA :: "('s, 'e, unit) act \<Rightarrow> ('s, 'e, 'b) act \<Rightarrow> ('s, 'e, 'b) act" where
  "seqA m n = bindA m (\<lambda>_. n)"

definition catchA :: "('s, 'e, 'a) act \<Rightarrow> ('e \<Rightarrow> ('s, 'e, 'a) act) \<Rightarrow> ('s, 'e, 'a) act" where
  "catchA m h s = (case m s of (Inl e, s') \<Rightarrow> h e s' | (Inr x, s') \<Rightarrow> (Inr x, s'))"

definition getsA :: "('s \<Rightarrow> 'a) \<Rightarrow> ('s, 'e, 'a) act" where
  "getsA f s = (Inr (f s), s)"

definition modifyA :: "('s \<Rightarrow> 's) \<Rightarrow> ('s, 'e, unit) act" where
  "modifyA f s = (Inr (), f s)"

lemma bindA_Inr:
  "bindA m f s = (Inr y, s') \<longleftrightarrow> (\<exists>x s1. m s = (Inr x, s1) \<and> f x s1 = (Inr y, s'))"
  by (auto simp: bindA_def split: prod.splits sum.splits)

lemma bindA_Inl:
  "bindA m f s = (Inl e, s') \<longleftrightarrow>
     m s = (Inl e, s') \<or> (\<exists>x s1. m s = (Inr x, s1) \<and> f x s1 = (Inl e, s'))"
  by (auto simp: bindA_def split: prod.splits sum.splits)

lemma seqA_Inr: "seqA m n s = (Inr y, s') \<longleftrightarrow> (\<exists>s1. m s = (Inr (), s1) \<and> n s1 = (Inr y, s'))"
  by (auto simp: seqA_def bindA_Inr)

lemma seqA_Inl:
  "seqA m n s = (Inl e, s') \<longleftrightarrow> m s = (Inl e, s') \<or> (\<exists>s1. m s = (Inr (), s1) \<and> n s1 = (Inl e, s'))"
  by (auto simp: seqA_def bindA_Inl)

lemma catchA_Inr:
  "catchA m h s = (Inr y, s') \<longleftrightarrow>
     m s = (Inr y, s') \<or> (\<exists>e s1. m s = (Inl e, s1) \<and> h e s1 = (Inr y, s'))"
  by (auto simp: catchA_def split: prod.splits sum.splits)

lemma catchA_Inl:
  "catchA m h s = (Inl e', s') \<longleftrightarrow> (\<exists>e s1. m s = (Inl e, s1) \<and> h e s1 = (Inl e', s'))"
  by (auto simp: catchA_def split: prod.splits sum.splits)

lemma ret_simps [simp]: "ret x s = (Inr y, s') \<longleftrightarrow> y = x \<and> s' = s" "ret x s = (Inl e, s') \<longleftrightarrow> False"
  by (auto simp: ret_def)

lemma throw_simps [simp]:
  "throw e s = (Inl e', s') \<longleftrightarrow> e' = e \<and> s' = s" "throw e s = (Inr y, s') \<longleftrightarrow> False"
  by (auto simp: throw_def)

lemma getsA_simps [simp]:
  "getsA f s = (Inr y, s') \<longleftrightarrow> y = f s \<and> s' = s" "getsA f s = (Inl e, s') \<longleftrightarrow> False"
  by (auto simp: getsA_def)

lemma modifyA_simps [simp]:
  "modifyA f s = (Inr y, s') \<longleftrightarrow> s' = f s" "modifyA f s = (Inl e, s') \<longleftrightarrow> False"
  by (auto simp: modifyA_def)

lemmas act_cases = bindA_Inr bindA_Inl seqA_Inr seqA_Inl catchA_Inr catchA_Inl

lemmas act_eval = bindA_def seqA_def catchA_def ret_def throw_def getsA_def modifyA_def

text \<open>
  Invariants over actions: \<open>keeps P m\<close> says that \<open>m\<close> preserves \<open>P\<close> however it ends.
\<close>

definition keeps :: "('s \<Rightarrow> 's \<Rightarrow> bool) \<Rightarrow> ('s, 'e, 'a) act \<Rightarrow> bool" where
  "keeps R m \<longleftrightarrow> (\<forall>s. R s (snd (m s)))"

lemma keeps_bind:
  assumes "transp R" "keeps R m" "\<And>x. keeps R (f x)"
  shows "keeps R (bindA m f)"
  unfolding keeps_def bindA_def
proof
  fix s
  obtain r s1 where m: "m s = (r, s1)" by fastforce
  then have "R s s1" using assms(2) by (metis keeps_def snd_conv)
  moreover have "R s1 (snd (f x s1))" for x using assms(3) by (simp add: keeps_def)
  ultimately show "R s (snd (case m s of (Inl e, s') \<Rightarrow> (Inl e, s') | (Inr x, s') \<Rightarrow> f x s'))"
    using m assms(1) by (auto split: sum.split dest: transpD)
qed

lemma keeps_seq: "transp R \<Longrightarrow> keeps R m \<Longrightarrow> keeps R n \<Longrightarrow> keeps R (seqA m n)"
  unfolding seqA_def by (rule keeps_bind)

lemma keeps_catch:
  assumes "transp R" "keeps R m" "\<And>x. keeps R (h x)"
  shows "keeps R (catchA m h)"
  unfolding keeps_def catchA_def
proof
  fix s
  obtain r s1 where m: "m s = (r, s1)" by fastforce
  then have "R s s1" using assms(2) by (metis keeps_def snd_conv)
  moreover have "R s1 (snd (h x s1))" for x using assms(3) by (simp add: keeps_def)
  ultimately show "R s (snd (case m s of (Inl e, s') \<Rightarrow> h e s' | (Inr x, s') \<Rightarrow> (Inr x, s')))"
    using m assms(1) by (auto split: sum.split dest: transpD)
qed

lemma keeps_basic:
  assumes "reflp R"
  shows "keeps R (ret x)" "keeps R (throw e)" "keeps R (getsA f)"
  using assms by (simp_all add: keeps_def ret_def throw_def getsA_def reflpD)

end
