(* ===== verification/Presets.thy ===== *)
theory Presets
  imports NV_Prelude
begin

text \<open>
  The model presets (\<^verbatim>\<open>src/server/models.py\<close>) and the layering of a request's knobs over
  them (\<open>process_one_job\<close> of \<^verbatim>\<open>src/worker/pipeline.py\<close>): preset, then the voice's default
  settings, then the request's settings, the clamp to the engine's envelope, and last the
  request's explicit parameters. Floats are rationals here.
\<close>

record model_preset =
  mp_model_id :: string
  mp_cfg_value :: rat
  mp_inference_timesteps :: int
  mp_is_default :: bool

definition preset :: "string \<Rightarrow> rat \<Rightarrow> int \<Rightarrow> bool \<Rightarrow> model_preset" where
  "preset i c n d = \<lparr>mp_model_id = i, mp_cfg_value = c, mp_inference_timesteps = n, mp_is_default = d\<rparr>"

definition presets :: "model_preset list" where
  "presets =
     [preset ''voxcpm2-tr-turbo'' (3/2) 8 False,
      preset ''voxcpm2-tr-hd'' 2 16 True,
      preset ''voxcpm2-tr-character'' (5/2) 24 False,
      preset ''voxcpm2-fast'' 2 7 False,
      preset ''voxcpm2-standard'' 2 10 False,
      preset ''voxcpm2-studio'' (5/2) 16 False]"

definition default_model :: model_preset where
  "default_model = hd (filter mp_is_default presets)"

definition resolve_model :: "string option \<Rightarrow> py_error + model_preset" where
  "resolve_model mid =
     (if \<not> truthy mid then Inr default_model
      else case find (\<lambda>p. Some (mp_model_id p) = mid) presets of
             None \<Rightarrow> Inl (ValueError ''unknown model_id'')
           | Some p \<Rightarrow> Inr p)"

lemma resolve_model_in: "resolve_model mid = Inr p \<Longrightarrow> p \<in> set presets"
  by (auto simp: resolve_model_def default_model_def presets_def preset_def split: if_splits option.splits
      dest!: find_SomeD)

subsection \<open>Engine overrides\<close>

text \<open>A JSON number in arithmetic; \<open>True\<close> and \<open>False\<close> count as 1 and 0.\<close>

definition num_of :: "json \<Rightarrow> rat option" where
  "num_of v = (case v of JInt i \<Rightarrow> Some (of_int i) | JFloat q \<Rightarrow> Some q
                | JBool b \<Rightarrow> Some (if b then 1 else 0) | _ \<Rightarrow> None)"

text \<open>\<open>int(x)\<close> of a float truncates toward zero.\<close>

definition trunc :: "rat \<Rightarrow> int" where
  "trunc q = (if 0 \<le> q then \<lfloor>q\<rfloor> else \<lceil>q\<rceil>)"

definition not_null :: "json option \<Rightarrow> json option" where
  "not_null v = (case v of Some JNull \<Rightarrow> None | _ \<Rightarrow> v)"

text \<open>\<open>{**voice_defaults, **(job.voice_settings or {})}\<close>.\<close>

definition layered_settings :: "dict option \<Rightarrow> dict option \<Rightarrow> dict" where
  "layered_settings voice_defaults request =
     dict_merge (case voice_defaults of None \<Rightarrow> [] | Some d \<Rightarrow> d)
                (case request of None \<Rightarrow> [] | Some d \<Rightarrow> d)"

definition clamp_cfg :: "rat \<Rightarrow> rat" where
  "clamp_cfg c = max 1 (min (7/2) c)"

definition clamp_steps :: "int \<Rightarrow> int" where
  "clamp_steps n = max 4 (min 40 n)"

definition shifted_cfg :: "model_preset \<Rightarrow> dict \<Rightarrow> py_error + rat" where
  "shifted_cfg p settings =
     (case not_null (map_of settings ''similarity_boost'') of
        None \<Rightarrow> Inr (mp_cfg_value p)
      | Some v \<Rightarrow> (case num_of v of
                     None \<Rightarrow> Inl (TypeError ''unsupported operand type'')
                   | Some q \<Rightarrow> Inr (mp_cfg_value p + (q - 1/2))))"

definition shifted_steps :: "model_preset \<Rightarrow> dict \<Rightarrow> py_error + int" where
  "shifted_steps p settings =
     (case not_null (map_of settings ''stability'') of
        None \<Rightarrow> Inr (mp_inference_timesteps p)
      | Some v \<Rightarrow> (case num_of v of
                     None \<Rightarrow> Inl (TypeError ''unsupported operand type'')
                   | Some q \<Rightarrow> Inr (trunc (of_int (mp_inference_timesteps p) + (q - 1/2) * 16))))"

definition param_or :: "dict option \<Rightarrow> string \<Rightarrow> json \<Rightarrow> json" where
  "param_or params k d =
     (case params of None \<Rightarrow> d
      | Some ps \<Rightarrow> (case not_null (map_of ps k) of None \<Rightarrow> d | Some v \<Rightarrow> v))"

text \<open>The overrides handed to the engine: \<open>cfg_value\<close> and \<open>inference_timesteps\<close>.\<close>

definition engine_overrides :: "model_preset \<Rightarrow> dict \<Rightarrow> dict option \<Rightarrow> py_error + json \<times> json" where
  "engine_overrides p settings params =
     bindS (shifted_cfg p settings) (\<lambda>c.
     bindS (shifted_steps p settings) (\<lambda>n.
       Inr (param_or params ''cfg_value'' (JFloat (clamp_cfg c)),
            param_or params ''inference_timesteps'' (JInt (clamp_steps n)))))"

text \<open>What the request schema guarantees of explicit parameters (\<open>TTSJobParams\<close>).\<close>

definition params_ok :: "dict option \<Rightarrow> bool" where
  "params_ok params =
     (case params of None \<Rightarrow> True
      | Some ps \<Rightarrow>
          (case not_null (map_of ps ''cfg_value'') of None \<Rightarrow> True
           | Some v \<Rightarrow> (case num_of v of None \<Rightarrow> False | Some q \<Rightarrow> 1 \<le> q \<and> q \<le> 7/2))
          \<and> (case not_null (map_of ps ''inference_timesteps'') of None \<Rightarrow> True
             | Some (JInt n) \<Rightarrow> 4 \<le> n \<and> n \<le> 40 | Some _ \<Rightarrow> False))"

text \<open>
  The engine never leaves its envelope. Whatever the preset, the voice's defaults and the
  request's settings, the \<open>cfg_value\<close> and \<open>inference_timesteps\<close> the engine gets lie in
  1..3.5 and 4..40 when the explicit parameters are schema-valid, and an explicit parameter
  wins over preset and settings.
\<close>

theorem overrides_in_envelope:
  assumes "engine_overrides p settings params = Inr (c, n)" and "params_ok params"
  shows "(\<exists>q. num_of c = Some q \<and> 1 \<le> q \<and> q \<le> 7/2) \<and> (\<exists>i. n = JInt i \<and> 4 \<le> i \<and> i \<le> 40)
         \<and> c = param_or params ''cfg_value'' c \<and> n = param_or params ''inference_timesteps'' n"
proof -
  obtain q i where c: "c = param_or params ''cfg_value'' (JFloat (clamp_cfg q))"
      and n: "n = param_or params ''inference_timesteps'' (JInt (clamp_steps i))"
    using assms(1) by (auto simp: engine_overrides_def bindS_Inr)
  have "1 \<le> clamp_cfg q \<and> clamp_cfg q \<le> 7/2" and "4 \<le> clamp_steps i \<and> clamp_steps i \<le> 40"
    by (auto simp: clamp_cfg_def clamp_steps_def)
  then show ?thesis
    using assms(2) unfolding c n param_or_def params_ok_def
    by (auto simp: num_of_def split: option.splits json.splits)
qed

theorem overrides_in_envelope_witness:
  "(\<exists>q. num_of (JFloat (5/2)) = Some q \<and> 1 \<le> q \<and> q \<le> 7/2) \<and> (\<exists>i. JInt 24 = JInt i \<and> 4 \<le> i \<and> i \<le> 40)
   \<and> JFloat (5/2) = param_or None ''cfg_value'' (JFloat (5/2))
   \<and> JInt 24 = param_or None ''inference_timesteps'' (JInt 24)"
  by (rule overrides_in_envelope [of "preset ''voxcpm2-tr-hd'' 2 16 True"
        "[(''similarity_boost'', JFloat 1), (''stability'', JFloat 1)]"])
    (simp_all add: engine_overrides_def shifted_cfg_def shifted_steps_def preset_def not_null_def num_of_def
      trunc_def clamp_cfg_def clamp_steps_def param_or_def params_ok_def)

end
