(* ===== verification/Wire.thy ===== *)
theory Wire
  imports NV_Prelude
begin

text \<open>
  The wire formats of \<^verbatim>\<open>src/server/queue.py\<close>: the result chunks a worker publishes
  (\<open>TtsResult\<close>), the queued job (\<open>TtsJobPayload\<close>), and the queue's depth figures. The parts
  of the Python library these use (\<open>str(int)\<close>, \<open>int(str)\<close>, UTF-8, base64) are modelled
  here; the JSON text codec is a parameter of the payload's operations.
\<close>

subsection \<open>UTF-8\<close>

definition scalar :: "nat \<Rightarrow> bool" where
  "scalar c \<longleftrightarrow> c < 0xD800 \<or> (0xE000 \<le> c \<and> c < 0x110000)"

definition utf8_char :: "nat \<Rightarrow> bytes" where
  "utf8_char c =
     (if c < 0x80 then [c]
      else if c < 0x800 then [0xC0 + c div 64, 0x80 + c mod 64]
      else if c < 0x10000 then [0xE0 + c div 4096, 0x80 + c div 64 mod 64, 0x80 + c mod 64]
      else [0xF0 + c div 262144, 0x80 + c div 4096 mod 64, 0x80 + c div 64 mod 64, 0x80 + c mod 64])"

definition utf8_encode :: "ustr \<Rightarrow> bytes" where
  "utf8_encode s = concat (map utf8_char s)"

definition cont :: "nat \<Rightarrow> bool" where
  "cont b \<longleftrightarrow> 0x80 \<le> b \<and> b < 0xC0"

definition prepend :: "'a \<Rightarrow> py_error + 'a list \<Rightarrow> py_error + 'a list" where
  "prepend c r = bindS r (\<lambda>s. Inr (c # s))"

abbreviation "bad_utf8 \<equiv> ValueError ''invalid utf-8''"

text \<open>Strict decoding: overlong forms, surrogates and truncated sequences are refused.\<close>

fun utf8_decode :: "bytes \<Rightarrow> py_error + ustr" where
  "utf8_decode [] = Inr []"
| "utf8_decode (b # bs) =
     (if b < 0x80 then prepend b (utf8_decode bs)
      else if 0xC0 \<le> b \<and> b < 0xE0 then
        (case bs of
           c1 # r \<Rightarrow> (let v = (b - 0xC0) * 64 + (c1 - 0x80)
                     in if cont c1 \<and> 0x80 \<le> v then prepend v (utf8_decode r) else Inl bad_utf8)
         | [] \<Rightarrow> Inl bad_utf8)
      else if 0xE0 \<le> b \<and> b < 0xF0 then
        (case bs of
           c1 # c2 # r \<Rightarrow> (let v = (b - 0xE0) * 4096 + (c1 - 0x80) * 64 + (c2 - 0x80)
                          in if cont c1 \<and> cont c2 \<and> 0x800 \<le> v \<and> scalar v
                             then prepend v (utf8_decode r) else Inl bad_utf8)
         | _ \<Rightarrow> Inl bad_utf8)
      else if 0xF0 \<le> b \<and> b < 0xF8 then
        (case bs of
           c1 # c2 # c3 # r \<Rightarrow>
             (let v = (b - 0xF0) * 262144 + (c1 - 0x80) * 4096 + (c2 - 0x80) * 64 + (c3 - 0x80)
              in if cont c1 \<and> cont c2 \<and> cont c3 \<and> 0x10000 \<le> v \<and> scalar v
                 then prepend v (utf8_decode r) else Inl bad_utf8)
         | _ \<Rightarrow> Inl bad_utf8)
      else Inl bad_utf8)"

lemma cont_low [simp]: "cont (0x80 + x mod 64)"
  by (simp add: cont_def)

lemma split64: "(c::nat) div 64 * 64 + c mod 64 = c"
  by simp

lemma split4096: "(c::nat) div 4096 * 4096 + c div 64 mod 64 * 64 + c mod 64 = c"
proof -
  have "c div 64 = c div 4096 * 64 + c div 64 mod 64"
    using div_mult_mod_eq [of "c div 64" 64] by (simp add: div_mult2_eq [of c 64 64, simplified])
  then show ?thesis using split64 [of c] by linarith
qed

lemma split262144:
  "(c::nat) div 262144 * 262144 + c div 4096 mod 64 * 4096 + c div 64 mod 64 * 64 + c mod 64 = c"
proof -
  have "c div 4096 = c div 262144 * 64 + c div 4096 mod 64"
    using div_mult_mod_eq [of "c div 4096" 64] by (simp add: div_mult2_eq [of c 4096 64, simplified])
  then show ?thesis using split4096 [of c] by simp
qed

lemma utf8_decode_char:
  assumes "scalar c"
  shows "utf8_decode (utf8_char c @ bs) = prepend c (utf8_decode bs)"
proof -
  consider "c < 0x80" | "0x80 \<le> c" "c < 0x800" | "0x800 \<le> c" "c < 0x10000" | "0x10000 \<le> c" "c < 0x110000"
    using assms unfolding scalar_def by linarith
  then show ?thesis
  proof cases
    case 1
    then show ?thesis by (simp add: utf8_char_def)
  next
    case 2
    then have "c div 64 < 32" by (simp add: less_mult_imp_div_less)
    with 2 show ?thesis by (simp add: utf8_char_def Let_def split64)
  next
    case 3
    then have "c div 4096 < 16" by (simp add: less_mult_imp_div_less)
    with 3 assms show ?thesis by (simp add: utf8_char_def Let_def split4096 del: utf8_decode.simps(1))
  next
    case 4
    then have "c div 262144 < 8" by (simp add: less_mult_imp_div_less)
    with 4 assms show ?thesis by (simp add: utf8_char_def Let_def split262144 del: utf8_decode.simps(1))
  qed
qed

lemma utf8_roundtrip: "list_all scalar s \<Longrightarrow> utf8_decode (utf8_encode s) = Inr s"
  by (induction s) (simp_all add: utf8_encode_def utf8_decode_char prepend_def)

lemma utf8_ascii: "list_all (\<lambda>c. c < 128) s \<Longrightarrow> utf8_encode s = s"
  by (induction s) (simp_all add: utf8_encode_def utf8_char_def)

subsection \<open>Decimal integers\<close>

fun show_nat :: "nat \<Rightarrow> ustr" where
  "show_nat n = (if n < 10 then [48 + n] else show_nat (n div 10) @ [48 + n mod 10])"

declare show_nat.simps [simp del]

definition show_int :: "int \<Rightarrow> ustr" where
  "show_int i = (if i < 0 then 45 # show_nat (nat (- i)) else show_nat (nat i))"

definition digit :: "nat \<Rightarrow> bool" where
  "digit c \<longleftrightarrow> 48 \<le> c \<and> c \<le> 57"

definition py_space :: "nat \<Rightarrow> bool" where
  "py_space c \<longleftrightarrow> c = 32 \<or> (9 \<le> c \<and> c \<le> 13) \<or> (28 \<le> c \<and> c \<le> 31)
     \<or> c \<in> {0x85, 0xA0, 0x1680, 0x2028, 0x2029, 0x202F, 0x205F, 0x3000}
     \<or> (0x2000 \<le> c \<and> c \<le> 0x200A)"

text \<open>
  The body of \<open>int(s)\<close>: ASCII digits (other Unicode decimals are outside the model), single underscores allowed between two digits. The
  flag says that the previous character was a digit.
\<close>

fun int_body :: "bool \<Rightarrow> nat \<Rightarrow> ustr \<Rightarrow> nat option" where
  "int_body d acc [] = (if d then Some acc else None)"
| "int_body d acc (c # cs) =
     (if digit c then int_body True (acc * 10 + (c - 48)) cs
      else if c = 95 \<and> d then int_body False acc cs
      else None)"

definition strip_spaces :: "ustr \<Rightarrow> ustr" where
  "strip_spaces s = rev (dropWhile py_space (rev (dropWhile py_space s)))"

definition py_int :: "ustr \<Rightarrow> py_error + int" where
  "py_int s =
     (let t = strip_spaces s;
          r = (case t of [] \<Rightarrow> None
               | c # cs \<Rightarrow> if c = 45 then map_option (\<lambda>n. - int n) (int_body False 0 cs)
                           else if c = 43 then map_option int (int_body False 0 cs)
                           else map_option int (int_body False 0 t))
      in case r of None \<Rightarrow> Inl (ValueError ''invalid literal for int() with base 10'') | Some i \<Rightarrow> Inr i)"

lemma show_nat_digits: "list_all digit (show_nat n)"
proof (induction n rule: show_nat.induct)
  case (1 n)
  then show ?case
    by (subst show_nat.simps) (auto simp: digit_def [of "48 + m" for m])
qed

lemma show_nat_nonempty [simp]: "show_nat n \<noteq> []"
  by (subst show_nat.simps) simp

lemma int_body_append:
  "list_all digit xs \<Longrightarrow> xs \<noteq> [] \<Longrightarrow>
     int_body d acc (xs @ ys) = int_body True (foldl (\<lambda>a c. a * 10 + (c - 48)) acc xs) ys"
  by (induction xs arbitrary: d acc) (auto split: if_splits, metis append_Nil foldl.simps(1))

lemma foldl_show_nat: "foldl (\<lambda>a c. a * 10 + (c - 48)) 0 (show_nat n) = n"
proof (induction n rule: show_nat.induct)
  case (1 n)
  then show ?case by (subst show_nat.simps) auto
qed

lemma int_body_show: "int_body False 0 (show_nat n) = Some n"
  using int_body_append [OF show_nat_digits [of n] show_nat_nonempty, of False 0 "[]"]
  by (simp add: foldl_show_nat)

lemma strip_spaces_id: "s \<noteq> [] \<Longrightarrow> list_all (\<lambda>c. \<not> py_space c) s \<Longrightarrow> strip_spaces s = s"
proof -
  assume ne: "s \<noteq> []" and ok: "list_all (\<lambda>c. \<not> py_space c) s"
  have drop: "dropWhile py_space t = t" if "list_all (\<lambda>c. \<not> py_space c) t" for t
    using that by (cases t) simp_all
  show ?thesis unfolding strip_spaces_def using ok by (simp add: drop list_all_iff)
qed

lemma show_int_chars: "list_all (\<lambda>c. digit c \<or> c = 45) (show_int i)"
  using show_nat_digits by (auto simp: show_int_def list_all_iff)

lemma show_int_plain [simp]:
  "list_all (\<lambda>c. c < 128) (show_int i)" "list_all scalar (show_int i)" "show_int i \<noteq> []"
  "strip_spaces (show_int i) = show_int i"
proof -
  note chars = show_int_chars [of i]
  show "list_all (\<lambda>c. c < 128) (show_int i)" and "list_all scalar (show_int i)"
    using chars by (auto simp: list_all_iff digit_def scalar_def)
  show ne: "show_int i \<noteq> []" by (simp add: show_int_def)
  show "strip_spaces (show_int i) = show_int i"
    using chars by (intro strip_spaces_id ne) (auto simp: list_all_iff digit_def py_space_def)
qed

lemma py_int_show: "py_int (show_int i) = Inr i"
proof (cases "i < 0")
  case True
  then have "show_int i = 45 # show_nat (nat (- i))" by (simp add: show_int_def)
  moreover have "strip_spaces (show_int i) = show_int i" by simp
  ultimately show ?thesis using True by (simp only: py_int_def Let_def) (simp add: int_body_show)
next
  case False
  then have s: "show_int i = show_nat (nat i)" by (simp add: show_int_def)
  obtain c cs where c: "show_nat (nat i) = c # cs" by (meson neq_Nil_conv show_nat_nonempty)
  then have "digit c" using show_nat_digits [of "nat i"] by simp
  then have "c \<noteq> 45 \<and> c \<noteq> 43" by (simp add: digit_def)
  then show ?thesis
    using False c int_body_show [of "nat i"] s show_int_plain(4) [of i]
    by (simp add: py_int_def)
qed

subsection \<open>Base64\<close>

definition b64_char :: "nat \<Rightarrow> nat" where
  "b64_char v = (if v < 26 then 65 + v else if v < 52 then 71 + v else if v < 62 then v - 4
                 else if v = 62 then 43 else 47)"

definition b64_val :: "nat \<Rightarrow> nat option" where
  "b64_val c = (if 65 \<le> c \<and> c \<le> 90 then Some (c - 65) else if 97 \<le> c \<and> c \<le> 122 then Some (c - 71)
                else if digit c then Some (c + 4) else if c = 43 then Some 62
                else if c = 47 then Some 63 else None)"

fun b64encode :: "bytes \<Rightarrow> ustr" where
  "b64encode [] = []"
| "b64encode [a] = [b64_char (a div 4), b64_char (a mod 4 * 16), 61, 61]"
| "b64encode [a, b] = [b64_char (a div 4), b64_char (a mod 4 * 16 + b div 16), b64_char (b mod 16 * 4), 61]"
| "b64encode (a # b # c # bs) =
     b64_char (a div 4) # b64_char (a mod 4 * 16 + b div 16) # b64_char (b mod 16 * 4 + c div 64)
     # b64_char (c mod 64) # b64encode bs"

text \<open>
  \<open>b64decode\<close> without validation: characters outside the alphabet are skipped, a pad
  that completes the quantum ends the input, and an incomplete quantum is an error. The
  arguments are the position in the quantum, the pads seen and the bits carried over.
\<close>

fun b64_run :: "nat \<Rightarrow> nat \<Rightarrow> nat \<Rightarrow> ustr \<Rightarrow> py_error + bytes" where
  "b64_run q pads left [] = (if q = 0 then Inr [] else Inl (ValueError ''Incorrect padding''))"
| "b64_run q pads left (c # cs) =
     (if c = 61 then
        (if 2 \<le> q then (if 4 \<le> q + (pads + 1) then Inr [] else b64_run q (pads + 1) left cs)
         else b64_run q pads left cs)
      else case b64_val c of
        None \<Rightarrow> b64_run q pads left cs
      | Some v \<Rightarrow>
          (if q = 0 then b64_run 1 0 v cs
           else if q = 1 then prepend (left * 4 + v div 16) (b64_run 2 0 (v mod 16) cs)
           else if q = 2 then prepend (left * 16 + v div 4) (b64_run 3 0 (v mod 4) cs)
           else prepend (left * 64 + v) (b64_run 0 0 0 cs)))"

definition b64decode :: "ustr \<Rightarrow> py_error + bytes" where
  "b64decode s =
     (if list_all (\<lambda>c. c < 128) s then b64_run 0 0 0 s
      else Inl (ValueError ''string argument should contain only ASCII characters''))"

lemma b64_char_val [simp]: "v < 64 \<Longrightarrow> b64_val (b64_char v) = Some v"
  by (auto simp: b64_val_def b64_char_def digit_def)

lemma b64_char_nopad [simp]: "b64_char v = 61 \<longleftrightarrow> False"
  by (auto simp: b64_char_def)

lemma b64_char_ascii: "v < 64 \<Longrightarrow> b64_char v < 128"
  by (auto simp: b64_char_def)

lemma sextet_bounds [simp]:
  "(a::nat) < 256 \<Longrightarrow> a div 4 < 64" "(a::nat) mod 4 * 16 < 64" "(b::nat) mod 16 * 4 < 64" "(c::nat) mod 64 < 64"
  "(b::nat) < 256 \<Longrightarrow> a mod 4 * 16 + b div 16 < 64" "(c::nat) < 256 \<Longrightarrow> b mod 16 * 4 + c div 64 < 64"
  by auto

lemma sextet_parts [simp]:
  "(b::nat) < 256 \<Longrightarrow> (a mod 4 * 16 + b div 16) div 16 = a mod 4"
  "(b::nat) < 256 \<Longrightarrow> (a mod 4 * 16 + b div 16) mod 16 = b div 16"
  "(c::nat) < 256 \<Longrightarrow> (b mod 16 * 4 + c div 64) div 4 = b mod 16"
  "(c::nat) < 256 \<Longrightarrow> (b mod 16 * 4 + c div 64) mod 4 = c div 64"
  by auto

lemma b64_run_char:
  "v < 64 \<Longrightarrow> b64_run q pads left (b64_char v # cs) =
     (if q = 0 then b64_run 1 0 v cs
      else if q = 1 then prepend (left * 4 + v div 16) (b64_run 2 0 (v mod 16) cs)
      else if q = 2 then prepend (left * 16 + v div 4) (b64_run 3 0 (v mod 4) cs)
      else prepend (left * 64 + v) (b64_run 0 0 0 cs))"
  by simp

lemma b64_roundtrip_run: "list_all (\<lambda>b. b < 256) bs \<Longrightarrow> b64_run 0 0 0 (b64encode bs) = Inr bs"
proof (induction bs rule: b64encode.induct)
  case (2 a)
  then show ?case by (simp add: b64_run_char prepend_def del: b64_run.simps(2)) simp
next
  case (3 a b)
  then have "b div 16 < 16" by auto
  with 3 show ?case by (simp add: b64_run_char prepend_def del: b64_run.simps(2)) simp
next
  case (4 a b c bs)
  then have "b div 16 < 16" "c div 64 < 4" by auto
  with 4 show ?case by (simp add: b64_run_char prepend_def del: b64_run.simps(2))
qed simp

lemma b64encode_ascii: "list_all (\<lambda>b. b < 256) bs \<Longrightarrow> list_all (\<lambda>c. c < 128) (b64encode bs)"
  by (induction bs rule: b64encode.induct) (auto simp: b64_char_ascii)

lemma b64_roundtrip: "list_all (\<lambda>b. b < 256) bs \<Longrightarrow> b64decode (b64encode bs) = Inr bs"
  by (simp add: b64decode_def b64encode_ascii b64_roundtrip_run)

lemma b64encode_empty_iff: "b64encode bs = [] \<longleftrightarrow> bs = []"
  by (cases bs rule: b64encode.cases) simp_all

subsection \<open>Result chunks\<close>

record tts_result =
  tr_request_id :: ustr
  tr_seq :: int
  tr_pcm_bytes :: bytes
  tr_sentence_text :: "ustr option"
  tr_final :: bool
  tr_error :: "ustr option"
  tr_attempt :: int

text \<open>A key or value of a stream entry: the client library hands out bytes or strings.\<close>

datatype pystr = PStr ustr | PBytes bytes

type_synonym entry_fields = "(pystr \<times> pystr) list"

definition opt_field :: "string \<Rightarrow> ustr option \<Rightarrow> (string \<times> ustr) list" where
  "opt_field k v = (case v of None \<Rightarrow> [] | Some s \<Rightarrow> [(k, s)])"

definition result_encode :: "tts_result \<Rightarrow> (string \<times> ustr) list" where
  "result_encode r =
     [(''request_id'', tr_request_id r),
      (''seq'', show_int (tr_seq r)),
      (''attempt'', show_int (tr_attempt r)),
      (''pcm_b64'', b64encode (tr_pcm_bytes r)),
      (''final'', cps (if tr_final r then ''true'' else ''false''))]
     @ opt_field ''sentence_text'' (tr_sentence_text r)
     @ opt_field ''error'' (tr_error r)"

definition to_str :: "pystr \<Rightarrow> py_error + ustr" where
  "to_str v = (case v of PStr s \<Rightarrow> Inr s | PBytes b \<Rightarrow> utf8_decode b)"

fun is_bytes :: "pystr \<Rightarrow> bool" where
  "is_bytes (PBytes b) = True"
| "is_bytes (PStr s) = False"

definition field_key :: "entry_fields \<Rightarrow> string \<Rightarrow> pystr" where
  "field_key fs k =
     (case fs of
        (k0, _) # _ \<Rightarrow> if is_bytes k0 then PBytes (utf8_encode (cps k)) else PStr (cps k)
      | [] \<Rightarrow> PStr (cps k))"

definition get_field :: "entry_fields \<Rightarrow> string \<Rightarrow> py_error + ustr option" where
  "get_field fs k =
     (case map_of fs (field_key fs k) of
        None \<Rightarrow> Inr None
      | Some v \<Rightarrow> bindS (to_str v) (\<lambda>s. Inr (Some s)))"

text \<open>Python's \<open>x or d\<close> on an optional text.\<close>

definition text_or :: "ustr option \<Rightarrow> ustr \<Rightarrow> ustr" where
  "text_or v d = (case v of None \<Rightarrow> d | Some s \<Rightarrow> if s = [] then d else s)"

definition result_decode :: "entry_fields \<Rightarrow> py_error + tts_result" where
  "result_decode fs =
     bindS (get_field fs ''request_id'') (\<lambda>rid.
     bindS (get_field fs ''seq'') (\<lambda>sq.
     bindS (py_int (text_or sq (cps ''0''))) (\<lambda>seq.
     bindS (get_field fs ''attempt'') (\<lambda>att.
     bindS (py_int (text_or att (cps ''0''))) (\<lambda>attempt.
     bindS (get_field fs ''pcm_b64'') (\<lambda>b64.
     bindS (if text_or b64 [] = [] then Inr [] else b64decode (text_or b64 [])) (\<lambda>pcm.
     bindS (get_field fs ''final'') (\<lambda>fin.
     bindS (get_field fs ''sentence_text'') (\<lambda>txt.
     bindS (get_field fs ''error'') (\<lambda>err.
       Inr \<lparr>tr_request_id = text_or rid [], tr_seq = seq, tr_pcm_bytes = pcm,
            tr_sentence_text = txt, tr_final = (text_or fin (cps ''false'') = cps ''true''),
            tr_error = err, tr_attempt = attempt\<rparr>))))))))))"

text \<open>
  What a stream read returns for an entry that was added with string fs: the same
  strings when the client decodes responses, their UTF-8 bytes otherwise.
\<close>

definition stored :: "bool \<Rightarrow> ustr \<Rightarrow> pystr" where
  "stored decode_responses s = (if decode_responses then PStr s else PBytes (utf8_encode s))"

definition stream_reply :: "bool \<Rightarrow> (string \<times> ustr) list \<Rightarrow> entry_fields" where
  "stream_reply dr fs = map (\<lambda>(k, v). (stored dr (cps k), stored dr v)) fs"

definition result_ok :: "tts_result \<Rightarrow> bool" where
  "result_ok r \<longleftrightarrow> list_all (\<lambda>b. b < 256) (tr_pcm_bytes r) \<and> list_all scalar (tr_request_id r)
     \<and> (case tr_sentence_text r of None \<Rightarrow> True | Some s \<Rightarrow> list_all scalar s)
     \<and> (case tr_error r of None \<Rightarrow> True | Some s \<Rightarrow> list_all scalar s)"

lemma cps_scalar [simp]: "list_all scalar (cps s)"
proof -
  have "scalar (of_char c)" for c
    using nat_of_char_less_256 [of c] unfolding scalar_def by linarith
  then show ?thesis by (simp add: cps_def list_all_iff)
qed

lemma cps_Nil_iff [simp]: "cps s = [] \<longleftrightarrow> s = []"
  by (simp add: cps_def)

lemma cps_eq_iff [simp]: "cps s = cps s' \<longleftrightarrow> s = s'"
  unfolding cps_def by (rule inj_eq) (simp add: inj_def)

lemma to_str_stored: "list_all scalar s \<Longrightarrow> to_str (stored dr s) = Inr s"
  by (simp add: to_str_def stored_def utf8_roundtrip)

lemma stored_inj: "list_all scalar s \<Longrightarrow> list_all scalar s' \<Longrightarrow> stored dr s = stored dr s' \<longleftrightarrow> s = s'"
  using to_str_stored by (metis sum.inject(2))

lemma is_bytes_stored [simp]: "is_bytes (stored dr s) \<longleftrightarrow> \<not> dr"
  by (simp add: stored_def)

lemma field_key_reply: "fs \<noteq> [] \<Longrightarrow> field_key (stream_reply dr fs) k = stored dr (cps k)"
  by (cases fs) (auto simp: field_key_def stream_reply_def stored_def split: prod.splits)

lemma map_of_reply: "map_of (stream_reply dr fs) (stored dr (cps k)) = map_option (stored dr) (map_of fs k)"
  unfolding stream_reply_def by (induction fs) (auto simp: stored_inj)

lemma get_field_reply:
  assumes "fs \<noteq> []" and "list_all (\<lambda>(k, v). list_all scalar v) fs"
  shows "get_field (stream_reply dr fs) k = Inr (map_of fs k)"
proof (cases "map_of fs k")
  case None
  then show ?thesis by (simp add: get_field_def field_key_reply [OF assms(1)] map_of_reply)
next
  case (Some v)
  have "list_all scalar v" using assms(2) map_of_SomeD [OF Some] by (auto simp: list_all_iff)
  with Some show ?thesis
    by (simp add: get_field_def field_key_reply [OF assms(1)] map_of_reply to_str_stored)
qed

lemma ascii_scalar: "list_all (\<lambda>c. c < 128) s \<Longrightarrow> list_all scalar s"
  by (auto simp: list_all_iff scalar_def)

lemma result_encode_scalar: "result_ok r \<Longrightarrow> list_all (\<lambda>(k, v). list_all scalar v) (result_encode r)"
  by (auto simp: result_encode_def result_ok_def opt_field_def ascii_scalar b64encode_ascii
      split: option.split)

lemma result_encode_ne [simp]: "result_encode r \<noteq> []"
  by (simp add: result_encode_def)

lemma result_encode_fields:
  "map_of (result_encode r) ''request_id'' = Some (tr_request_id r)"
  "map_of (result_encode r) ''seq'' = Some (show_int (tr_seq r))"
  "map_of (result_encode r) ''attempt'' = Some (show_int (tr_attempt r))"
  "map_of (result_encode r) ''pcm_b64'' = Some (b64encode (tr_pcm_bytes r))"
  "map_of (result_encode r) ''final'' = Some (cps (if tr_final r then ''true'' else ''false''))"
  "map_of (result_encode r) ''sentence_text'' = tr_sentence_text r"
  "map_of (result_encode r) ''error'' = tr_error r"
  by (simp_all add: result_encode_def opt_field_def split: option.split)

lemma result_decode_encode:
  assumes "result_ok r"
  shows "result_decode (stream_reply dr (result_encode r)) = Inr r"
proof -
  have get: "get_field (stream_reply dr (result_encode r)) k = Inr (map_of (result_encode r) k)" for k
    by (rule get_field_reply) (simp_all add: result_encode_scalar assms)
  have "list_all (\<lambda>b. b < 256) (tr_pcm_bytes r)" using assms by (simp add: result_ok_def)
  then show ?thesis
    by (simp add: result_decode_def get result_encode_fields text_or_def py_int_show b64_roundtrip
        b64encode_empty_iff)
qed

text \<open>
  The chunk a gateway decodes is the chunk the worker encoded: request id, sequence
  number, attempt, every PCM byte, the final flag, and the sentence text and error message
  with the difference between an absent and an empty one, whether the client library hands
  out strings or bytes.
\<close>

theorem result_chunk_roundtrip:
  assumes "result_ok r"
  shows "result_decode (stream_reply dr (result_encode r)) = Inr r"
  using assms by (rule result_decode_encode)

definition sample_chunk :: tts_result where
  "sample_chunk = \<lparr>tr_request_id = cps ''r1'', tr_seq = -3, tr_pcm_bytes = [0, 255, 17, 128],
     tr_sentence_text = Some [0x15F, 0x1F600], tr_final = False, tr_error = Some [], tr_attempt = 2\<rparr>"

theorem result_chunk_roundtrip_witness:
  "result_decode (stream_reply False (result_encode sample_chunk)) = Inr sample_chunk"
  by (rule result_chunk_roundtrip) (simp add: result_ok_def sample_chunk_def, simp add: scalar_def)

subsection \<open>UUIDs\<close>

definition hex_digit :: "nat \<Rightarrow> nat" where
  "hex_digit v = (if v < 10 then 48 + v else 87 + v)"

definition hex_val :: "nat \<Rightarrow> nat option" where
  "hex_val c = (if digit c then Some (c - 48) else if 97 \<le> c \<and> c \<le> 102 then Some (c - 87)
                else if 65 \<le> c \<and> c \<le> 70 then Some (c - 55) else None)"

fun hex_fixed :: "nat \<Rightarrow> nat \<Rightarrow> ustr" where
  "hex_fixed 0 u = []"
| "hex_fixed (Suc n) u = hex_fixed n (u div 16) @ [hex_digit (u mod 16)]"

definition uuid_str :: "uuid \<Rightarrow> ustr" where
  "uuid_str u =
     (let h = hex_fixed 32 u
      in take 8 h @ [45] @ take 4 (drop 8 h) @ [45] @ take 4 (drop 12 h) @ [45]
         @ take 4 (drop 16 h) @ [45] @ drop 20 h)"

text \<open>\<open>s.replace(p, '')\<close> for a non-empty \<open>p\<close>; the fuel is the length of the string.\<close>

fun remove_sub :: "nat \<Rightarrow> ustr \<Rightarrow> ustr \<Rightarrow> ustr" where
  "remove_sub 0 p s = s"
| "remove_sub (Suc n) p [] = []"
| "remove_sub (Suc n) p (c # cs) =
     (if take (length p) (c # cs) = p then remove_sub n p (drop (length p) (c # cs))
      else c # remove_sub n p cs)"

fun hex_body :: "bool \<Rightarrow> nat \<Rightarrow> ustr \<Rightarrow> nat option" where
  "hex_body d acc [] = (if d then Some acc else None)"
| "hex_body d acc (c # cs) =
     (case hex_val c of
        Some v \<Rightarrow> hex_body True (acc * 16 + v) cs
      | None \<Rightarrow> if c = 95 \<and> d then hex_body False acc cs else None)"

text \<open>\<open>int(s, 16)\<close>: an optional sign, an optional \<open>0x\<close> prefix, then digits.\<close>

definition hex_unsigned :: "ustr \<Rightarrow> nat option" where
  "hex_unsigned s =
     (case s of
        c # x # cs \<Rightarrow>
          if c = 48 \<and> (x = 120 \<or> x = 88)
          then (case cs of y # ys \<Rightarrow> if y = 95 then hex_body False 0 ys else hex_body False 0 cs
                | [] \<Rightarrow> None)
          else hex_body False 0 s
      | _ \<Rightarrow> hex_body False 0 s)"

definition py_hex :: "ustr \<Rightarrow> int option" where
  "py_hex s =
     (case strip_spaces s of
        [] \<Rightarrow> None
      | c # cs \<Rightarrow> if c = 45 then map_option (\<lambda>n. - int n) (hex_unsigned cs)
                  else if c = 43 then map_option int (hex_unsigned cs)
                  else map_option int (hex_unsigned (c # cs)))"

definition strip_chars :: "nat set \<Rightarrow> ustr \<Rightarrow> ustr" where
  "strip_chars S s = rev (dropWhile (\<lambda>c. c \<in> S) (rev (dropWhile (\<lambda>c. c \<in> S) s)))"

definition uuid_parse :: "ustr \<Rightarrow> py_error + uuid" where
  "uuid_parse s =
     (let s1 = remove_sub (length s) (cps ''urn:'') s;
          s2 = remove_sub (length s1) (cps ''uuid:'') s1;
          h = filter (\<lambda>c. c \<noteq> 45) (strip_chars {123, 125} s2)
      in if length h \<noteq> 32 then Inl (ValueError ''badly formed hexadecimal UUID string'')
         else case py_hex h of
                None \<Rightarrow> Inl (ValueError ''invalid literal for int() with base 16'')
              | Some i \<Rightarrow> if i < 0 \<or> i \<ge> 2 ^ 128 then Inl (ValueError ''int is out of range'')
                          else Inr (nat i))"

definition parse_idempotency_key :: "ustr option \<Rightarrow> py_error + uuid" where
  "parse_idempotency_key h =
     (case h of
        None \<Rightarrow> Inl (ValueError ''Idempotency-Key header is required for async jobs'')
      | Some s \<Rightarrow>
          if s = [] then Inl (ValueError ''Idempotency-Key header is required for async jobs'')
          else case uuid_parse (strip_spaces s) of
                 Inl (ValueError m) \<Rightarrow> Inl (ValueError ''Idempotency-Key must be a UUID (canonical or bare-hex form)'')
               | Inl e \<Rightarrow> Inl e
               | Inr u \<Rightarrow> Inr u)"

lemma hex_digit_val: "v < 16 \<Longrightarrow> hex_val (hex_digit v) = Some v"
  by (auto simp: hex_val_def hex_digit_def digit_def)

definition lower_hex :: "nat \<Rightarrow> bool" where
  "lower_hex c \<longleftrightarrow> digit c \<or> (97 \<le> c \<and> c \<le> 102)"

lemma hex_fixed_chars: "list_all lower_hex (hex_fixed n u)"
  by (induction n arbitrary: u) (auto simp: hex_digit_def lower_hex_def digit_def)

lemma length_hex_fixed [simp]: "length (hex_fixed n u) = n"
  by (induction n arbitrary: u) auto

lemma hex_body_append:
  "hex_body d acc xs = Some v \<Longrightarrow> w < 16 \<Longrightarrow>
     hex_body d acc (xs @ [hex_digit w]) = Some (v * 16 + w)"
  by (induction xs arbitrary: d acc) (auto simp: hex_digit_val split: option.splits if_splits)

lemma hex_body_fixed: "hex_body False 0 (hex_fixed (Suc n) u) = Some (u mod 16 ^ Suc n)"
proof (induction n arbitrary: u)
  case 0
  then show ?case by (simp add: hex_digit_val)
next
  case (Suc n)
  have "hex_fixed (Suc (Suc n)) u = hex_fixed (Suc n) (u div 16) @ [hex_digit (u mod 16)]" by simp
  moreover have "u mod 16 ^ Suc (Suc n) = u div 16 mod 16 ^ Suc n * 16 + u mod 16"
    using mod_mult2_eq [of u 16 "16 ^ Suc n"] by (simp add: mult.commute)
  ultimately show ?case
    using hex_body_append [OF Suc.IH [of "u div 16"], of "u mod 16"] by simp
qed

lemma remove_sub_absent:
  assumes "p \<noteq> []" and "hd p \<notin> set s"
  shows "remove_sub n p s = s"
proof -
  obtain q qs where p: "p = q # qs" using assms(1) by (cases p) auto
  have "remove_sub n (q # qs) s = s" if "q \<notin> set s" for n
    using that by (induction n "q # qs" s rule: remove_sub.induct) auto
  then show ?thesis using p assms(2) by simp
qed

lemma strip_chars_id: "set s \<inter> S = {} \<Longrightarrow> strip_chars S s = s"
proof -
  assume dis: "set s \<inter> S = {}"
  have drop: "dropWhile (\<lambda>c. c \<in> S) t = t" if "set t \<inter> S = {}" for t
    using that by (cases t) auto
  show ?thesis unfolding strip_chars_def using dis by (simp add: drop)
qed

lemma uuid_str_chars: "set (uuid_str u) \<subseteq> {c. lower_hex c} \<union> {45}"
proof -
  have "set (hex_fixed 32 u) \<subseteq> {c. lower_hex c}"
    using hex_fixed_chars [of 32 u] by (auto simp: list_all_iff)
  moreover have "set (uuid_str u) \<subseteq> set (hex_fixed 32 u) \<union> {45}"
    unfolding uuid_str_def Let_def by (auto dest: in_set_takeD in_set_dropD)
  ultimately show ?thesis by blast
qed

lemma uuid_str_scalar [simp]: "list_all scalar (uuid_str u)"
  using uuid_str_chars [of u] by (auto simp: list_all_iff lower_hex_def digit_def scalar_def)

lemma uuid_str_nodash: "filter (\<lambda>c. c \<noteq> 45) (uuid_str u) = hex_fixed 32 u"
proof -
  let ?h = "hex_fixed 32 u"
  have keep: "filter (\<lambda>c. c \<noteq> 45) xs = xs" if "set xs \<subseteq> set ?h" for xs
  proof -
    have "45 \<notin> set ?h"
      using hex_fixed_chars [of 32 u] by (auto simp: list_all_iff lower_hex_def digit_def)
    then show ?thesis using that by (auto simp: filter_id_conv)
  qed
  have "filter (\<lambda>c. c \<noteq> 45) (uuid_str u)
      = take 8 ?h @ take 4 (drop 8 ?h) @ take 4 (drop 12 ?h) @ take 4 (drop 16 ?h) @ drop 20 ?h"
    unfolding uuid_str_def Let_def filter_append
    by (simp add: keep set_take_subset set_drop_subset subset_trans [OF set_take_subset set_drop_subset])
  also have "\<dots> = ?h"
    using append_take_drop_id [of 8 ?h] append_take_drop_id [of 4 "drop 8 ?h"]
      append_take_drop_id [of 4 "drop 12 ?h"] append_take_drop_id [of 4 "drop 16 ?h"]
    unfolding drop_drop by (simp only: numeral_plus_numeral arith_simps)
  finally show ?thesis .
qed

lemma uuid_char_facts:
  assumes "c \<in> set (uuid_str u)"
  shows "\<not> py_space c" "c \<noteq> 117" "c \<noteq> 123" "c \<noteq> 125"
proof -
  have "(48 \<le> c \<and> c \<le> 57) \<or> (97 \<le> c \<and> c \<le> 102) \<or> c = 45"
    using assms uuid_str_chars by (auto simp: lower_hex_def digit_def)
  then show "\<not> py_space c" "c \<noteq> 117" "c \<noteq> 123" "c \<noteq> 125" by (auto simp: py_space_def)
qed

lemma py_hex_fixed: "py_hex (hex_fixed 32 u) = Some (int (u mod 2 ^ 128))"
proof -
  let ?h = "hex_fixed 32 u"
  have chars: "lower_hex c" if "c \<in> set ?h" for c
    using that hex_fixed_chars [of 32 u] by (auto simp: list_all_iff)
  have ne: "?h \<noteq> []" using length_hex_fixed [of 32 u] by force
  have "\<not> py_space c" if "c \<in> set ?h" for c
    using chars [OF that] by (auto simp: lower_hex_def digit_def py_space_def)
  then have strip: "strip_spaces ?h = ?h" by (intro strip_spaces_id ne) (simp add: list_all_iff)
  obtain c x cs where h: "?h = c # x # cs"
  proof -
    have "length ?h = Suc (Suc 30)" by simp
    then show thesis using that unfolding length_Suc_conv by blast
  qed
  have "lower_hex c" "lower_hex x" using chars h by auto
  then have c: "c \<noteq> 45" "c \<noteq> 43" "x \<noteq> 120" "x \<noteq> 88" by (auto simp: lower_hex_def digit_def)
  have "hex_body False 0 ?h = Some (u mod 16 ^ 32)"
  proof -
    have "Suc 31 = 32" by simp
    then show ?thesis using hex_body_fixed [of 31 u] by metis
  qed
  then show ?thesis using strip h c by (simp add: py_hex_def hex_unsigned_def)
qed

lemma uuid_parse_str:
  assumes "u < 2 ^ 128"
  shows "uuid_parse (uuid_str u) = Inr u \<and> parse_idempotency_key (Some (uuid_str u)) = Inr u"
proof -
  let ?s = "uuid_str u"
  have plain: "remove_sub n (cps ''urn:'') ?s = ?s" "remove_sub n (cps ''uuid:'') ?s = ?s" for n
    by (rule remove_sub_absent; use uuid_char_facts(2) [of 117 u] in \<open>auto simp: cps_def\<close>)+
  have strip: "strip_chars {123, 125} ?s = ?s"
    using uuid_char_facts(3,4) by (intro strip_chars_id) blast
  have ne: "?s \<noteq> []" by (simp add: uuid_str_def Let_def)
  have nospace: "strip_spaces ?s = ?s"
    using uuid_char_facts(1) by (intro strip_spaces_id ne) (auto simp: list_all_iff)
  have "uuid_parse ?s = Inr u"
    using assms by (simp add: uuid_parse_def Let_def plain strip uuid_str_nodash py_hex_fixed)
  then show ?thesis by (simp add: parse_idempotency_key_def nospace ne)
qed

text \<open>
  \<open>UUID(str(u))\<close> is \<open>u\<close> again for every 128-bit value, and the same through the
  Idempotency-Key header, so the request id the gateway stores, prints onto the queue and
  hands to the worker stays one and the same key.
\<close>

theorem uuid_text_roundtrip:
  assumes "u < 2 ^ 128"
  shows "uuid_parse (uuid_str u) = Inr u \<and> parse_idempotency_key (Some (uuid_str u)) = Inr u"
  using assms by (rule uuid_parse_str)

theorem uuid_text_roundtrip_witness:
  "uuid_parse (uuid_str 0x1234) = Inr 0x1234 \<and> parse_idempotency_key (Some (uuid_str 0x1234)) = Inr 0x1234"
  by (rule uuid_text_roundtrip) simp

subsection \<open>Queued jobs\<close>

record tts_job =
  tj_request_id :: ustr
  tj_tenant_id :: ustr
  tj_api_key_id :: ustr
  tj_voice_id :: string
  tj_text :: ustr
  tj_language :: string
  tj_audio_format :: string
  tj_model_id :: "string option"
  tj_voice_settings :: "dict option"
  tj_params :: "dict option"
  tj_seed :: "int option"
  tj_previous_text :: "ustr option"
  tj_next_text :: "ustr option"
  tj_pronunciation_dict :: "(string \<times> ustr) list option"
  tj_app_label :: "ustr option"
  tj_callback_url :: "ustr option"
  tj_enqueued_at_ms :: "int option"

definition j_opt :: "('a \<Rightarrow> json) \<Rightarrow> 'a option \<Rightarrow> json" where
  "j_opt f v = (case v of None \<Rightarrow> JNull | Some x \<Rightarrow> f x)"

text \<open>\<open>asdict(job)\<close>: the fields in declaration order.\<close>

definition job_asdict :: "tts_job \<Rightarrow> dict" where
  "job_asdict j =
     [(''request_id'', JStr (tj_request_id j)),
      (''tenant_id'', JStr (tj_tenant_id j)),
      (''api_key_id'', JStr (tj_api_key_id j)),
      (''voice_id'', JStr (cps (tj_voice_id j))),
      (''text'', JStr (tj_text j)),
      (''language'', JStr (cps (tj_language j))),
      (''audio_format'', JStr (cps (tj_audio_format j))),
      (''model_id'', j_opt (JStr \<circ> cps) (tj_model_id j)),
      (''voice_settings'', j_opt JObj (tj_voice_settings j)),
      (''params'', j_opt JObj (tj_params j)),
      (''seed'', j_opt JInt (tj_seed j)),
      (''previous_text'', j_opt JStr (tj_previous_text j)),
      (''next_text'', j_opt JStr (tj_next_text j)),
      (''pronunciation_dict'', j_opt (\<lambda>d. JObj (map (\<lambda>(k, v). (k, JStr v)) d)) (tj_pronunciation_dict j)),
      (''app_label'', j_opt JStr (tj_app_label j)),
      (''callback_url'', j_opt JStr (tj_callback_url j)),
      (''enqueued_at_ms'', j_opt JInt (tj_enqueued_at_ms j))]"

definition required_fields :: "string list" where
  "required_fields = [''request_id'', ''tenant_id'', ''api_key_id'', ''voice_id'', ''text'']"

definition defaulted_fields :: dict where
  "defaulted_fields =
     [(''language'', JStr (cps ''tr'')), (''audio_format'', JStr (cps ''wav'')), (''model_id'', JNull),
      (''voice_settings'', JNull), (''params'', JNull), (''seed'', JNull), (''previous_text'', JNull),
      (''next_text'', JNull), (''pronunciation_dict'', JNull), (''app_label'', JNull),
      (''callback_url'', JNull), (''enqueued_at_ms'', JNull)]"

definition known_fields :: "string list" where
  "known_fields = required_fields @ map fst defaulted_fields"

text \<open>
  \<open>cls(**kw)\<close>: the instance as the dictionary of its fields. The dataclass does not check
  types, so a value of any JSON type is stored as it is.
\<close>

definition job_construct :: "dict \<Rightarrow> py_error + dict" where
  "job_construct kw =
     (if list_ex (\<lambda>k. map_of kw k = None) required_fields
      then Inl (TypeError ''__init__() missing required positional arguments'')
      else Inr (map (\<lambda>k. (k, case map_of kw k of
                                Some v \<Rightarrow> v
                              | None \<Rightarrow> (case map_of defaulted_fields k of Some d \<Rightarrow> d | None \<Rightarrow> JNull)))
                 known_fields))"

definition payload_encode :: "(json \<Rightarrow> ustr) \<Rightarrow> tts_job \<Rightarrow> (string \<times> ustr) list" where
  "payload_encode dumps j = [(''payload'', dumps (JObj (job_asdict j)))]"

text \<open>The lookup prefers the bytes key, then requires the string key.\<close>

definition payload_decode :: "(ustr \<Rightarrow> py_error + json) \<Rightarrow> entry_fields \<Rightarrow> py_error + dict" where
  "payload_decode loads fs =
     bindS (case map_of fs (PBytes (utf8_encode (cps ''payload''))) of
              Some v \<Rightarrow> Inr v
            | None \<Rightarrow> (case map_of fs (PStr (cps ''payload'')) of
                         Some v \<Rightarrow> Inr v
                       | None \<Rightarrow> Inl (KeyError ''payload''))) (\<lambda>v.
     bindS (to_str v) (\<lambda>raw.
     bindS (loads raw) (\<lambda>parsed.
       case parsed of
         JObj d \<Rightarrow> job_construct (filter (\<lambda>(k, v). k \<in> set known_fields) d)
       | _ \<Rightarrow> Inl (TypeError ''object has no attribute items''))))"

text \<open>The JSON library's promise for one value: its text decodes to the value again.\<close>

definition json_roundtrips :: "(json \<Rightarrow> ustr) \<Rightarrow> (ustr \<Rightarrow> py_error + json) \<Rightarrow> json \<Rightarrow> bool" where
  "json_roundtrips dumps loads v \<longleftrightarrow> list_all scalar (dumps v) \<and> loads (dumps v) = Inr v"

text \<open>A payload of another release: the known fields after some this release does not know.\<close>

definition payload_encode_with :: "dict \<Rightarrow> (json \<Rightarrow> ustr) \<Rightarrow> tts_job \<Rightarrow> (string \<times> ustr) list" where
  "payload_encode_with extra dumps j = [(''payload'', dumps (JObj (extra @ job_asdict j)))]"

lemma payload_encode_plain: "payload_encode = payload_encode_with []"
  by (simp add: fun_eq_iff payload_encode_def payload_encode_with_def)

lemma known_fields_of_job: "map fst (job_asdict j) = known_fields"
  by (simp add: job_asdict_def known_fields_def required_fields_def defaulted_fields_def)

lemma map_fst_lookup: "distinct (map fst d) \<Longrightarrow> map (\<lambda>k. (k, the (map_of d k))) (map fst d) = d"
proof -
  assume dis: "distinct (map fst d)"
  have "map ((\<lambda>k. (k, the (map_of d k))) \<circ> fst) d = map id d"
    by (rule map_cong) (use dis in \<open>auto simp: map_of_eq_Some_iff\<close>)
  then show ?thesis by simp
qed

lemma distinct_known: "distinct known_fields"
  by (simp add: known_fields_def required_fields_def defaulted_fields_def)

lemma job_construct_asdict:
  assumes "\<And>k. k \<in> set known_fields \<Longrightarrow> map_of kw k = map_of (job_asdict j) k"
  shows "job_construct kw = Inr (job_asdict j)"
proof -
  have some: "map_of (job_asdict j) k \<noteq> None" if "k \<in> set known_fields" for k
    using that by (simp add: map_of_eq_None_iff flip: known_fields_of_job [of j])
  have req: "set required_fields \<subseteq> set known_fields" by (simp add: known_fields_def)
  have "map (\<lambda>k. (k, case map_of kw k of Some v \<Rightarrow> v
            | None \<Rightarrow> (case map_of defaulted_fields k of Some d \<Rightarrow> d | None \<Rightarrow> JNull))) known_fields
        = map (\<lambda>k. (k, the (map_of (job_asdict j) k))) known_fields"
    using some assms by (force simp: option.case_eq_if)
  also have "\<dots> = job_asdict j"
    using map_fst_lookup [of "job_asdict j"] by (simp add: known_fields_of_job distinct_known)
  finally show ?thesis
    using some assms req by (auto simp: job_construct_def list_ex_iff)
qed

lemma map_of_known_filter:
  "k \<in> set known_fields \<Longrightarrow> map_of (filter (\<lambda>(k, v). k \<in> set known_fields) d) k = map_of d k"
  by (induction d) auto

lemma map_of_after_unknown: "k \<notin> set (map fst extra) \<Longrightarrow> map_of (extra @ d) k = map_of d k"
  by (induction extra) auto

text \<open>
  A queued job arrives as it was submitted, through a client that hands out strings or
  bytes, even when the sender's payload carries extra fields this worker does not know.
\<close>

theorem job_payload_roundtrip:
  assumes "json_roundtrips dumps loads (JObj (extra @ job_asdict j))"
    and "set (map fst extra) \<inter> set known_fields = {}"
  shows "payload_decode loads (stream_reply dr (payload_encode_with extra dumps j)) = Inr (job_asdict j)"
proof -
  have "payload_decode loads (stream_reply dr (payload_encode_with extra dumps j))
          = job_construct (filter (\<lambda>(k, v). k \<in> set known_fields) (extra @ job_asdict j))"
    using assms(1) by (simp add: payload_decode_def payload_encode_with_def stream_reply_def stored_def
        to_str_def json_roundtrips_def utf8_roundtrip)
  also have "\<dots> = Inr (job_asdict j)"
    by (rule job_construct_asdict) (use assms(2) in \<open>simp only: map_of_known_filter, intro map_of_after_unknown, blast\<close>)
  finally show ?thesis .
qed

definition sample_job :: tts_job where
  "sample_job = \<lparr>tj_request_id = uuid_str 1, tj_tenant_id = uuid_str 7, tj_api_key_id = uuid_str 2,
     tj_voice_id = ''ada'', tj_text = [77, 0x131], tj_language = ''tr'', tj_audio_format = ''wav'',
     tj_model_id = None, tj_voice_settings = None, tj_params = None, tj_seed = Some 3,
     tj_previous_text = None, tj_next_text = None, tj_pronunciation_dict = None,
     tj_app_label = None, tj_callback_url = None, tj_enqueued_at_ms = Some 100\<rparr>"

theorem job_payload_roundtrip_witness:
  "payload_decode (\<lambda>_. Inr (JObj ([(''attempt'', JInt 1)] @ job_asdict sample_job)))
     (stream_reply False (payload_encode_with [(''attempt'', JInt 1)] (\<lambda>_. cps ''{}'') sample_job))
   = Inr (job_asdict sample_job)"
  by (rule job_payload_roundtrip)
    (simp_all add: json_roundtrips_def known_fields_def required_fields_def defaulted_fields_def)

subsection \<open>Queue depth\<close>

text \<open>A figure out of \<open>XINFO GROUPS\<close>: missing, an integer, or something \<open>int()\<close> refuses.\<close>

datatype raw_num = RawNone | RawInt int | RawBad

record group_row =
  gr_name :: string
  gr_pending :: raw_num
  gr_lag :: raw_num

definition default_group :: string where
  "default_group = ''tts-workers''"

text \<open>\<open>groups\<close> is \<open>None\<close> when the \<open>XINFO GROUPS\<close> call raises.\<close>

definition backlog_depth :: "string \<Rightarrow> int \<Rightarrow> group_row list option \<Rightarrow> int" where
  "backlog_depth grp xlen groups =
     (case groups of
        None \<Rightarrow> xlen
      | Some rows \<Rightarrow>
          (case find (\<lambda>r. gr_name r = grp) rows of
             None \<Rightarrow> xlen
           | Some r \<Rightarrow>
               (case (case gr_pending r of RawNone \<Rightarrow> Some 0 | RawInt i \<Rightarrow> Some i | RawBad \<Rightarrow> None) of
                  None \<Rightarrow> xlen
                | Some pending \<Rightarrow>
                    (case gr_lag r of
                       RawInt lag \<Rightarrow> pending + max 0 lag
                     | _ \<Rightarrow> xlen))))"

definition results_stream_prefix :: string where
  "results_stream_prefix = ''neurovoice.tts.results.''"

definition result_stream_name :: "ustr \<Rightarrow> ustr" where
  "result_stream_name rid = cps results_stream_prefix @ rid"

end
