(* ===== verification/Result_Stream.thy ===== *)
theory Result_Stream
  imports Wire
begin

text \<open>
  The gateway's reader of a request's result stream (\<^verbatim>\<open>src/server/result_stream.py\<close>): the
  attempt-aware deduplication of \<open>consume_result_stream\<close> and the collector of the
  synchronous path, \<open>collect_pcm_until_final\<close>.

  The stream is a list of entries with increasing ids. Each loop iteration is a \<open>poll\<close>: the
  clock test against the deadline and the content of the stream when the read is answered
  (the worker may delete and refill the stream between two polls). A finite list of polls is
  a prefix of a run; \<open>Still_Reading\<close> says that it ended without a decision.
\<close>

type_synonym entry = "nat \<times> entry_fields"

record poll =
  po_expired :: bool
  po_stream :: "entry list"

text \<open>\<open>XREAD COUNT 64\<close> from \<open>last_id\<close>: the first 64 entries with a greater id.\<close>

definition xread :: "nat \<Rightarrow> entry list \<Rightarrow> entry list" where
  "xread last_id s = take 64 (filter (\<lambda>(i, _). last_id < i) s)"

record reader =
  rs_last_id :: nat
  rs_attempt :: int
  rs_seen :: "int set"

definition reader_start :: reader where
  "reader_start = \<lparr>rs_last_id = 0, rs_attempt = -1, rs_seen = {}\<rparr>"

definition is_error :: "tts_result \<Rightarrow> bool" where
  "is_error c = (case tr_error c of None \<Rightarrow> False | Some m \<Rightarrow> m \<noteq> [])"

definition is_terminal :: "tts_result \<Rightarrow> bool" where
  "is_terminal c \<longleftrightarrow> is_error c \<or> tr_final c"

datatype verdict = Skip | Deliver | Finish

definition reader_chunk :: "reader \<Rightarrow> tts_result \<Rightarrow> reader \<times> verdict" where
  "reader_chunk st c =
     (if tr_attempt c < rs_attempt st then (st, Skip)
      else
        (let st1 = (if tr_attempt c > rs_attempt st
                    then st\<lparr>rs_attempt := tr_attempt c, rs_seen := {}\<rparr> else st)
         in if tr_seq c \<in> rs_seen st1 \<and> \<not> is_terminal c then (st1, Skip)
            else if is_terminal c then (st1, Finish)
            else (st1\<lparr>rs_seen := insert (tr_seq c) (rs_seen st1)\<rparr>, Deliver)))"

datatype read_end = Finished | Timed_Out | Decode_Error py_error | Still_Reading

text \<open>The entries of one reply, in order; \<open>Still_Reading\<close> when all were handled.\<close>

fun read_entries :: "reader \<Rightarrow> entry list \<Rightarrow> tts_result list \<times> reader \<times> read_end" where
  "read_entries st [] = ([], st, Still_Reading)"
| "read_entries st ((i, fs) # es) =
     (let st0 = st\<lparr>rs_last_id := i\<rparr>
      in case result_decode fs of
           Inl e \<Rightarrow> ([], st0, Decode_Error e)
         | Inr c \<Rightarrow>
             (case reader_chunk st0 c of
                (st1, Skip) \<Rightarrow> read_entries st1 es
              | (st1, Deliver) \<Rightarrow> (case read_entries st1 es of (cs, r) \<Rightarrow> (c # cs, r))
              | (st1, Finish) \<Rightarrow> ([c], st1, Finished)))"

fun consume_from :: "reader \<Rightarrow> poll list \<Rightarrow> tts_result list \<times> read_end" where
  "consume_from st [] = ([], Still_Reading)"
| "consume_from st (p # ps) =
     (if po_expired p then ([], Timed_Out)
      else case read_entries st (xread (rs_last_id st) (po_stream p)) of
             (cs, st', Still_Reading) \<Rightarrow> (case consume_from st' ps of (ds, e) \<Rightarrow> (cs @ ds, e))
           | (cs, st', e) \<Rightarrow> (cs, e))"

text \<open>
  The generator's chunks and how it ended. The \<open>finally\<close> block deletes the stream on
  every exit (\<open>delete_on_finish\<close>), so the deletion is part of every end but \<open>Still_Reading\<close>.
\<close>

definition consume_result_stream :: "poll list \<Rightarrow> tts_result list \<times> read_end" where
  "consume_result_stream = consume_from reader_start"

definition stream_deleted :: "bool \<Rightarrow> read_end \<Rightarrow> bool" where
  "stream_deleted delete_on_finish e \<longleftrightarrow> delete_on_finish \<and> e \<noteq> Still_Reading"

record collector =
  co_pcm :: bytes
  co_sentences :: nat
  co_error :: "ustr option"
  co_attempt :: int

definition collector_start :: collector where
  "collector_start = \<lparr>co_pcm = [], co_sentences = 0, co_error = None, co_attempt = -1\<rparr>"

text \<open>The drain loop: it stops at the first error or final chunk.\<close>

fun collect_chunks :: "collector \<Rightarrow> tts_result list \<Rightarrow> collector" where
  "collect_chunks st [] = st"
| "collect_chunks st (c # cs) =
     (let st1 = (if tr_attempt c > co_attempt st
                 then st\<lparr>co_attempt := tr_attempt c, co_pcm := [], co_sentences := 0\<rparr> else st)
      in if is_error c then st1\<lparr>co_error := tr_error c\<rparr>
         else if tr_final c then st1
         else collect_chunks (st1\<lparr>co_pcm := co_pcm st1 @ tr_pcm_bytes c,
                                  co_sentences := co_sentences st1 + 1\<rparr>) cs)"

text \<open>The result tuple, or the end that raised instead.\<close>

definition collect_pcm_until_final :: "poll list \<Rightarrow> read_end + bytes \<times> nat \<times> ustr option" where
  "collect_pcm_until_final ps =
     (case consume_result_stream ps of
        (cs, Finished) \<Rightarrow> (let st = collect_chunks collector_start cs
                           in Inr (co_pcm st, co_sentences st, co_error st))
      | (cs, e) \<Rightarrow> Inl e)"

subsection \<open>What the reader delivers\<close>

text \<open>The chunks the replies held, in reading order, up to the one that ended the run.\<close>

fun entries_log :: "reader \<Rightarrow> entry list \<Rightarrow> tts_result list" where
  "entries_log st [] = []"
| "entries_log st ((i, fs) # es) =
     (case result_decode fs of
        Inl e \<Rightarrow> []
      | Inr c \<Rightarrow> c # (case reader_chunk (st\<lparr>rs_last_id := i\<rparr>) c of
                        (st1, Finish) \<Rightarrow> []
                      | (st1, v) \<Rightarrow> entries_log st1 es))"

fun session_log :: "reader \<Rightarrow> poll list \<Rightarrow> tts_result list" where
  "session_log st [] = []"
| "session_log st (p # ps) =
     (if po_expired p then []
      else (let es = xread (rs_last_id st) (po_stream p)
            in entries_log st es @
               (case read_entries st es of
                  (cs, st', Still_Reading) \<Rightarrow> session_log st' ps
                | _ \<Rightarrow> [])))"

text \<open>The audio of one attempt: its audio chunks, the first of every sequence number.\<close>

definition keep_first :: "tts_result list \<Rightarrow> tts_result \<Rightarrow> tts_result list" where
  "keep_first acc c = (if tr_seq c \<in> tr_seq ` set acc then acc else acc @ [c])"

definition attempt_audio :: "int \<Rightarrow> tts_result list \<Rightarrow> tts_result list" where
  "attempt_audio a cs = foldl keep_first [] (filter (\<lambda>c. tr_attempt c = a \<and> \<not> is_terminal c) cs)"

lemma attempt_audio_Nil [simp]: "attempt_audio a [] = []"
  by (simp add: attempt_audio_def)

lemma attempt_audio_snoc:
  "attempt_audio a (cs @ [c]) =
     (if tr_attempt c = a \<and> \<not> is_terminal c then keep_first (attempt_audio a cs) c else attempt_audio a cs)"
  by (simp add: attempt_audio_def)

lemma attempt_audio_older: "list_all (\<lambda>c. tr_attempt c < a) cs \<Longrightarrow> attempt_audio a cs = []"
proof -
  assume "list_all (\<lambda>c. tr_attempt c < a) cs"
  then have "filter (\<lambda>c. tr_attempt c = a \<and> \<not> is_terminal c) cs = []"
    by (auto simp: filter_empty_conv list_all_iff)
  then show ?thesis by (simp add: attempt_audio_def)
qed

text \<open>The reader after the chunks \<open>h\<close>, and the collector after what was delivered of them.\<close>

definition reader_after :: "tts_result list \<Rightarrow> reader \<Rightarrow> bool" where
  "reader_after h st \<longleftrightarrow> list_all (\<lambda>c. tr_attempt c \<le> rs_attempt st) h
     \<and> rs_seen st = tr_seq ` set (attempt_audio (rs_attempt st) h)"

definition collected :: "int \<Rightarrow> tts_result list \<Rightarrow> collector" where
  "collected a h = \<lparr>co_pcm = concat (map tr_pcm_bytes (attempt_audio a h)),
     co_sentences = length (attempt_audio a h), co_error = None, co_attempt = a\<rparr>"

lemma reader_after_last_id [simp]: "reader_after h (st\<lparr>rs_last_id := i\<rparr>) = reader_after h st"
  by (simp add: reader_after_def)

lemma reader_chunk_Skip:
  assumes "reader_after h st" and "reader_chunk st c = (st', Skip)"
  shows "reader_after (h @ [c]) st' \<and> collected (rs_attempt st') (h @ [c]) = collected (rs_attempt st) h"
  using assms
  by (auto simp: reader_after_def reader_chunk_def Let_def attempt_audio_snoc keep_first_def collected_def
      split: if_splits)

lemma reader_chunk_Deliver:
  assumes "reader_after h st" and "reader_chunk st c = (st', Deliver)"
  shows "reader_after (h @ [c]) st' \<and> \<not> is_terminal c
         \<and> collect_chunks (collected (rs_attempt st) h) (c # ds)
             = collect_chunks (collected (rs_attempt st') (h @ [c])) ds"
proof (cases "tr_attempt c > rs_attempt st")
  case True
  then have "attempt_audio (tr_attempt c) h = []"
    using assms(1) by (intro attempt_audio_older) (auto simp: reader_after_def list_all_iff)
  with True assms show ?thesis
    by (auto simp: reader_after_def reader_chunk_def Let_def attempt_audio_snoc keep_first_def
        collected_def is_terminal_def list_all_iff split: if_splits)
next
  case False
  with assms show ?thesis
    by (auto simp: reader_after_def reader_chunk_def Let_def attempt_audio_snoc keep_first_def
        collected_def is_terminal_def split: if_splits)
qed

lemma reader_chunk_Finish:
  assumes "reader_after h st" and "reader_chunk st c = (st', Finish)"
  shows "is_terminal c \<and> list_all (\<lambda>d. tr_attempt d \<le> tr_attempt c) h
         \<and> collect_chunks (collected (rs_attempt st) h) [c]
             = (collected (tr_attempt c) h)\<lparr>co_error := if is_error c then tr_error c else None\<rparr>"
proof (cases "tr_attempt c > rs_attempt st")
  case True
  then have "attempt_audio (tr_attempt c) h = []"
    using assms(1) by (intro attempt_audio_older) (auto simp: reader_after_def list_all_iff)
  with True assms show ?thesis
    by (auto simp: reader_after_def reader_chunk_def Let_def collected_def is_terminal_def list_all_iff
        split: if_splits)
next
  case False
  with assms have "tr_attempt c = rs_attempt st" by (auto simp: reader_chunk_def split: if_splits)
  with assms show ?thesis
    by (auto simp: reader_after_def reader_chunk_def Let_def collected_def is_terminal_def
        split: if_splits)
qed

text \<open>How a finished run relates to the chunks it read.\<close>

definition finished_with :: "tts_result list \<Rightarrow> tts_result list \<Rightarrow> collector \<Rightarrow> bool" where
  "finished_with h l co \<longleftrightarrow>
     (case l of [] \<Rightarrow> False | _ \<Rightarrow>
        (let t = last l; raw = h @ butlast l
         in is_terminal t \<and> list_all (\<lambda>d. tr_attempt d \<le> tr_attempt t) raw
            \<and> co = (collected (tr_attempt t) raw)\<lparr>co_error := if is_error t then tr_error t else None\<rparr>))"

lemma finished_with_Cons: "finished_with (h @ [c]) l co \<Longrightarrow> finished_with h (c # l) co"
  by (auto simp: finished_with_def Let_def split: list.splits if_splits)

lemma finished_with_append: "finished_with (h @ l) l' co \<Longrightarrow> finished_with h (l @ l') co"
proof (induction l arbitrary: h)
  case (Cons c l)
  then show ?case using finished_with_Cons [of h c "l @ l'"] by simp
qed simp

lemma read_entries_log:
  assumes "reader_after h st" and "read_entries st es = (cs, st', e)"
  shows "case e of
           Finished \<Rightarrow> finished_with h (entries_log st es) (collect_chunks (collected (rs_attempt st) h) cs)
         | Still_Reading \<Rightarrow> reader_after (h @ entries_log st es) st'
             \<and> (\<forall>ds. collect_chunks (collected (rs_attempt st) h) (cs @ ds)
                    = collect_chunks (collected (rs_attempt st') (h @ entries_log st es)) ds)
         | _ \<Rightarrow> True"
  using assms
proof (induction st es arbitrary: h cs rule: read_entries.induct)
  case (1 st)
  then show ?case by auto
next
  case (2 st i fs es)
  let ?st0 = "st\<lparr>rs_last_id := i\<rparr>"
  have st0: "reader_after h ?st0" using 2 by simp
  show ?case
  proof (cases "result_decode fs")
    case (Inl x)
    then show ?thesis using 2 by (auto simp: Let_def)
  next
    case (Inr c)
    obtain st1 v where v: "reader_chunk ?st0 c = (st1, v)" by fastforce
    show ?thesis
    proof (cases v)
      case Skip
      note sk = reader_chunk_Skip [OF st0 v [unfolded Skip]]
      have "read_entries st1 es = (cs, st', e)" using 2 Inr v Skip by (simp add: Let_def)
      from "2.IH"(1) [OF refl Inr v [symmetric] Skip conjunct1 [OF sk] this] sk
      show ?thesis using Inr v Skip by (auto split: read_end.splits intro: finished_with_Cons)
    next
      case Deliver
      note de = reader_chunk_Deliver [OF st0 v [unfolded Deliver]]
      obtain cs' where "read_entries st1 es = (cs', st', e)" and cs: "cs = c # cs'"
        using 2 Inr v Deliver by (auto simp: Let_def split: prod.splits)
      from "2.IH"(2) [OF refl Inr v [symmetric] Deliver conjunct1 [OF de] this(1)] de
      show ?thesis using Inr v Deliver cs by (auto split: read_end.splits intro: finished_with_Cons)
    next
      case Finish
      note fi = reader_chunk_Finish [OF st0 v [unfolded Finish]]
      have "cs = [c]" "e = Finished" using 2 Inr v Finish by (auto simp: Let_def)
      then show ?thesis using fi Inr v Finish by (simp add: finished_with_def Let_def)
    qed
  qed
qed

lemma consume_from_log:
  assumes "reader_after h st" and "consume_from st ps = (cs, Finished)"
  shows "finished_with h (session_log st ps) (collect_chunks (collected (rs_attempt st) h) cs)"
  using assms
proof (induction ps arbitrary: h st cs)
  case Nil
  then show ?case by simp
next
  case (Cons p ps)
  let ?es = "xread (rs_last_id st) (po_stream p)"
  have live: "\<not> po_expired p" using Cons.prems by auto
  obtain cs1 st1 e1 where r: "read_entries st ?es = (cs1, st1, e1)" by (metis prod_cases3)
  note log = read_entries_log [OF Cons.prems(1) r]
  show ?case
  proof (cases e1)
    case Finished
    then show ?thesis using log r live Cons.prems(2) by (simp add: Let_def)
  next
    case Still_Reading
    obtain ds e where d: "consume_from st1 ps = (ds, e)" by fastforce
    then have e: "e = Finished" and cs: "cs = cs1 @ ds"
      using Cons.prems(2) live r Still_Reading by simp_all
    from log Still_Reading have inv: "reader_after (h @ entries_log st ?es) st1"
      and co: "collect_chunks (collected (rs_attempt st) h) cs
                 = collect_chunks (collected (rs_attempt st1) (h @ entries_log st ?es)) ds"
      by (simp_all add: cs)
    from Cons.IH [OF inv] d e
    have "finished_with (h @ entries_log st ?es) (session_log st1 ps) (collect_chunks (collected (rs_attempt st) h) cs)"
      by (simp add: co)
    then show ?thesis using finished_with_append live r Still_Reading by (simp add: Let_def)
  qed (use r live Cons.prems(2) in simp_all)
qed

lemma collector_start_collected: "collector_start = collected (-1) []"
  by (simp add: collector_start_def collected_def)

text \<open>
  C26: what the synchronous path returns. When the drain ends, the last chunk it read is an
  error or final chunk of the newest attempt seen, and the body is exactly that attempt's
  audio: the first chunk of each sequence number in arrival order, nothing of the attempts it
  superseded, no chunk twice. The count is the number of those chunks, and the message is the
  error chunk's.
\<close>

theorem collect_latest_attempt:
  "case collect_pcm_until_final ps of
     Inl e \<Rightarrow> e \<noteq> Finished
   | Inr (pcm, n, err) \<Rightarrow>
       (let l = session_log reader_start ps; t = last l; audio = attempt_audio (tr_attempt t) (butlast l)
        in is_terminal t \<and> list_all (\<lambda>c. tr_attempt c \<le> tr_attempt t) (butlast l)
           \<and> pcm = concat (map tr_pcm_bytes audio) \<and> n = length audio
           \<and> distinct (map tr_seq audio)
           \<and> err = (if is_error t then tr_error t else None))"
proof -
  obtain cs e where c: "consume_from reader_start ps = (cs, e)" by fastforce
  have dist: "distinct (map tr_seq (attempt_audio a xs))" for a xs
    by (induction xs rule: rev_induct) (auto simp: attempt_audio_snoc keep_first_def)
  have start: "reader_after [] reader_start" by (simp add: reader_after_def reader_start_def)
  show ?thesis
  proof (cases "e = Finished")
    case True
    have "finished_with [] (session_log reader_start ps) (collect_chunks collector_start cs)"
      using consume_from_log [OF start] c True
      by (simp add: collector_start_collected reader_start_def)
    then show ?thesis
      using c True dist
      by (auto simp: collect_pcm_until_final_def consume_result_stream_def finished_with_def Let_def
          collected_def split: list.splits)
  next
    case False
    then show ?thesis
      using c by (cases e) (simp_all add: collect_pcm_until_final_def consume_result_stream_def)
  qed
qed

subsection \<open>A worker's attempt read back\<close>

text \<open>
  What an attempt leaves on the stream: its audio chunks numbered from 0, then the final
  marker (\<open>publish_chunk\<close> and \<open>publish_final\<close> of \<^verbatim>\<open>src/worker/pipeline.py\<close>).
\<close>

definition audio_chunk :: "ustr \<Rightarrow> int \<Rightarrow> int \<Rightarrow> bytes \<times> ustr option \<Rightarrow> tts_result" where
  "audio_chunk rid a q p = \<lparr>tr_request_id = rid, tr_seq = q, tr_pcm_bytes = fst p,
     tr_sentence_text = snd p, tr_final = False, tr_error = None, tr_attempt = a\<rparr>"

definition final_chunk :: "ustr \<Rightarrow> int \<Rightarrow> int \<Rightarrow> tts_result" where
  "final_chunk rid a q = \<lparr>tr_request_id = rid, tr_seq = q, tr_pcm_bytes = [],
     tr_sentence_text = None, tr_final = True, tr_error = None, tr_attempt = a\<rparr>"

definition error_chunk :: "ustr \<Rightarrow> int \<Rightarrow> int \<Rightarrow> ustr \<Rightarrow> tts_result" where
  "error_chunk rid a q msg = \<lparr>tr_request_id = rid, tr_seq = q, tr_pcm_bytes = [],
     tr_sentence_text = None, tr_final = False, tr_error = Some msg, tr_attempt = a\<rparr>"

fun audio_chunks :: "ustr \<Rightarrow> int \<Rightarrow> int \<Rightarrow> (bytes \<times> ustr option) list \<Rightarrow> tts_result list" where
  "audio_chunks rid a q [] = []"
| "audio_chunks rid a q (p # ps) = audio_chunk rid a q p # audio_chunks rid a (q + 1) ps"

definition entries_of :: "bool \<Rightarrow> nat \<Rightarrow> tts_result list \<Rightarrow> entry list" where
  "entries_of dr i cs = zip [i..<i + length cs] (map (\<lambda>c. stream_reply dr (result_encode c)) cs)"

lemma entries_of_Cons:
  "entries_of dr i (c # cs) = (i, stream_reply dr (result_encode c)) # entries_of dr (Suc i) cs"
  by (simp add: entries_of_def upt_conv_Cons del: upt_Suc)

definition piece_ok :: "bytes \<times> ustr option \<Rightarrow> bool" where
  "piece_ok p \<longleftrightarrow> list_all (\<lambda>b. b < 256) (fst p)
     \<and> (case snd p of None \<Rightarrow> True | Some s \<Rightarrow> list_all scalar s)"

lemma length_audio_chunks [simp]: "length (audio_chunks rid a q ps) = length ps"
  by (induction ps arbitrary: q) auto

lemma audio_chunks_append:
  "audio_chunks rid a q (ps @ qs) = audio_chunks rid a q ps @ audio_chunks rid a (q + int (length ps)) qs"
  by (induction ps arbitrary: q) (auto simp: algebra_simps)

lemma drop_audio_chunks:
  "drop n (audio_chunks rid a q ps) = audio_chunks rid a (q + int (min n (length ps))) (drop n ps)"
  by (induction ps arbitrary: q n) (auto simp: drop_Cons' algebra_simps min_def)

lemma take_audio_chunks: "take n (audio_chunks rid a q ps) = audio_chunks rid a q (take n ps)"
  by (induction ps arbitrary: q n) (auto simp: take_Cons')

lemma decode_audio: "list_all scalar rid \<Longrightarrow> piece_ok p \<Longrightarrow>
    result_decode (stream_reply dr (result_encode (audio_chunk rid a q p))) = Inr (audio_chunk rid a q p)"
  by (rule result_decode_encode) (auto simp: result_ok_def audio_chunk_def piece_ok_def split: option.splits)

lemma decode_final: "list_all scalar rid \<Longrightarrow>
    result_decode (stream_reply dr (result_encode (final_chunk rid a q))) = Inr (final_chunk rid a q)"
  by (rule result_decode_encode) (auto simp: result_ok_def final_chunk_def)

lemma chunk_sel [simp]:
  "tr_attempt (audio_chunk rid a q p) = a" "tr_seq (audio_chunk rid a q p) = q"
  "\<not> is_terminal (audio_chunk rid a q p)" "tr_attempt (final_chunk rid a q) = a"
  "is_terminal (final_chunk rid a q)" "\<not> is_error (final_chunk rid a q)"
  "tr_pcm_bytes (audio_chunk rid a q p) = fst p" "\<not> is_error (audio_chunk rid a q p)"
  "tr_final (final_chunk rid a q)" "\<not> tr_final (audio_chunk rid a q p)"
  by (simp_all add: audio_chunk_def final_chunk_def is_terminal_def is_error_def)

definition ready :: "reader \<Rightarrow> int \<Rightarrow> int \<Rightarrow> bool" where
  "ready st a q \<longleftrightarrow> rs_attempt st < a \<or> (rs_attempt st = a \<and> (\<forall>s\<in>rs_seen st. s < q))"

lemma ready_deliver:
  assumes "ready st a q"
  shows "\<exists>st'. reader_chunk st (audio_chunk rid a q p) = (st', Deliver) \<and> ready st' a (q + 1)
           \<and> rs_last_id st' = rs_last_id st"
  using assms by (auto simp: ready_def reader_chunk_def Let_def)

lemma ready_finish:
  assumes "ready st a q"
  shows "\<exists>st'. reader_chunk st (final_chunk rid a k) = (st', Finish)"
  using assms by (auto simp: ready_def reader_chunk_def Let_def)

lemma read_audio:
  assumes "ready st a q" and "list_all scalar rid" and "list_all piece_ok ps"
  shows "\<exists>st'. ready st' a (q + int (length ps))
           \<and> rs_last_id st' = (if ps = [] then rs_last_id st else i + length ps - 1)
           \<and> (\<forall>es. read_entries st (entries_of dr i (audio_chunks rid a q ps) @ es)
                = (case read_entries st' es of (cs, r) \<Rightarrow> (audio_chunks rid a q ps @ cs, r)))"
  using assms
proof (induction ps arbitrary: st q i)
  case Nil
  then show ?case by (intro exI [of _ st]) (simp add: entries_of_def split: prod.split)
next
  case (Cons p ps)
  let ?st0 = "st\<lparr>rs_last_id := i\<rparr>"
  have "ready ?st0 a q" using Cons.prems(1) by (simp add: ready_def)
  then obtain st1 where s1: "reader_chunk ?st0 (audio_chunk rid a q p) = (st1, Deliver)"
      "ready st1 a (q + 1)" "rs_last_id st1 = i"
    using ready_deliver [of ?st0 a q rid p] by auto
  obtain st2 where st2: "ready st2 a (q + 1 + int (length ps))"
      "rs_last_id st2 = (if ps = [] then rs_last_id st1 else Suc i + length ps - 1)"
      "\<And>es. read_entries st1 (entries_of dr (Suc i) (audio_chunks rid a (q + 1) ps) @ es)
              = (case read_entries st2 es of (cs, r) \<Rightarrow> (audio_chunks rid a (q + 1) ps @ cs, r))"
    using Cons.IH [OF s1(2), of "Suc i"] Cons.prems by auto
  have "result_decode (stream_reply dr (result_encode (audio_chunk rid a q p))) = Inr (audio_chunk rid a q p)"
    using Cons.prems by (intro decode_audio) simp_all
  then show ?case
    using s1 st2 by (intro exI [of _ st2]) (auto simp: entries_of_Cons Let_def algebra_simps split: prod.split)
qed

lemma take_entries_of: "take n (entries_of dr i cs) = entries_of dr i (take n cs)"
proof (induction cs arbitrary: i n)
  case (Cons c cs)
  then show ?case by (cases n) (simp_all add: entries_of_Cons, simp_all add: entries_of_def)
qed (simp add: entries_of_def)

lemma entries_of_append: "entries_of dr i (cs @ ds) = entries_of dr i cs @ entries_of dr (i + length cs) ds"
proof (induction cs arbitrary: i)
  case (Cons c cs)
  then show ?case by (simp add: entries_of_Cons)
qed (simp add: entries_of_def)

lemma filter_entries_of:
  "filter (\<lambda>(x, _). i + j \<le> x) (entries_of dr i cs) = entries_of dr (i + j) (drop j cs)"
proof (induction cs arbitrary: i j)
  case Nil
  then show ?case by (simp add: entries_of_def)
next
  case (Cons c cs)
  show ?case
  proof (cases j)
    case 0
    have "filter (\<lambda>(x, _). Suc i + 0 \<le> x) (entries_of dr (Suc i) cs) = entries_of dr (Suc i) cs"
      using Cons.IH [of "Suc i" 0] by simp
    then have "x \<in> set (entries_of dr (Suc i) cs) \<Longrightarrow> Suc i \<le> fst x" for x
      by (auto simp: filter_id_conv)
    then have "filter (\<lambda>(x, _). i \<le> x) (entries_of dr (Suc i) cs) = entries_of dr (Suc i) cs"
      by (force simp: filter_id_conv)
    with 0 show ?thesis by (simp add: entries_of_Cons)
  next
    case (Suc k)
    then show ?thesis using Cons.IH [of "Suc i" k] by (simp add: entries_of_Cons)
  qed
qed

lemma xread_entries_of: "xread j (entries_of dr 1 cs) = entries_of dr (Suc j) (take 64 (drop j cs))"
  using filter_entries_of [of 1 j dr cs] by (simp add: xread_def less_eq_Suc_le take_entries_of)

lemma consume_attempt:
  assumes "ready st a (int j)" and "rs_last_id st = j" and "j \<le> length ps"
    and "list_all scalar rid" and "list_all piece_ok ps" and "length ps - j < 64 * n"
  shows "consume_from st (replicate n \<lparr>po_expired = False,
            po_stream = entries_of dr 1 (audio_chunks rid a 0 ps @ [final_chunk rid a (int (length ps))])\<rparr>)
         = (drop j (audio_chunks rid a 0 ps @ [final_chunk rid a (int (length ps))]), Finished)"
  using assms
proof (induction n arbitrary: st j)
  case 0
  then show ?case by simp
next
  case (Suc n)
  let ?fin = "final_chunk rid a (int (length ps))"
  let ?all = "audio_chunks rid a 0 ps @ [?fin]"
  let ?now = "take 64 (drop j ps)"
  have pieces: "list_all piece_ok ?now" and pieces': "list_all piece_ok (drop j ps)"
    using Suc.prems(5) by (auto simp: list_all_iff dest!: in_set_takeD in_set_dropD)
  have dropped: "drop j ?all = audio_chunks rid a (int j) (drop j ps) @ [?fin]"
    using Suc.prems(3) by (simp add: drop_audio_chunks min_absorb1)
  show ?case
  proof (cases "length ps - j < 64")
    case True
    then have "xread j (entries_of dr 1 ?all)
        = entries_of dr (Suc j) (audio_chunks rid a (int j) (drop j ps))
          @ entries_of dr (Suc j + (length ps - j)) [?fin]"
      unfolding xread_entries_of dropped by (simp add: entries_of_append)
    moreover obtain st' where "ready st' a (int j + int (length (drop j ps)))"
      and "\<And>es. read_entries st (entries_of dr (Suc j) (audio_chunks rid a (int j) (drop j ps)) @ es)
             = (case read_entries st' es of (cs, r) \<Rightarrow> (audio_chunks rid a (int j) (drop j ps) @ cs, r))"
      using read_audio [OF Suc.prems(1,4) pieces', of "Suc j" dr] by blast
    moreover obtain st2 where "reader_chunk (st'\<lparr>rs_last_id := Suc j + (length ps - j)\<rparr>) ?fin = (st2, Finish)"
    proof -
      have "ready (st'\<lparr>rs_last_id := Suc j + (length ps - j)\<rparr>) a (int j + int (length (drop j ps)))"
        using calculation(2) by (simp add: ready_def)
      then show thesis using ready_finish that by blast
    qed
    moreover have "entries_of dr (Suc j + (length ps - j)) [?fin]
        = [(Suc j + (length ps - j), stream_reply dr (result_encode ?fin))]"
      by (simp add: entries_of_def)
    ultimately have "read_entries st (xread j (entries_of dr 1 ?all)) = (drop j ?all, st2, Finished)"
      unfolding dropped using Suc.prems(4) by (simp add: decode_final Let_def)
    then show ?thesis using Suc.prems(2) by simp
  next
    case False
    then have len: "length ?now = 64" by simp
    have "xread j (entries_of dr 1 ?all) = entries_of dr (Suc j) (audio_chunks rid a (int j) ?now)"
      unfolding xread_entries_of dropped using False by (simp add: take_audio_chunks)
    moreover obtain st' where st': "ready st' a (int j + int (length ?now))"
      and "rs_last_id st' = (if ?now = [] then rs_last_id st else Suc j + length ?now - 1)"
      and "\<And>es. read_entries st (entries_of dr (Suc j) (audio_chunks rid a (int j) ?now) @ es)
             = (case read_entries st' es of (cs, r) \<Rightarrow> (audio_chunks rid a (int j) ?now @ cs, r))"
      using read_audio [OF Suc.prems(1,4) pieces, of "Suc j" dr] by blast
    moreover from this(3) [of "[]"]
    have "read_entries st (entries_of dr (Suc j) (audio_chunks rid a (int j) ?now))
            = (audio_chunks rid a (int j) ?now, st', Still_Reading)" by simp
    moreover have "rs_last_id st' = j + 64" using calculation(3) len by auto
    moreover have "consume_from st' (replicate n \<lparr>po_expired = False, po_stream = entries_of dr 1 ?all\<rparr>)
        = (drop (j + 64) ?all, Finished)"
      using st' len calculation(6) False Suc.prems by (intro Suc.IH) auto
    moreover have "drop j ?all = audio_chunks rid a (int j) ?now @ drop (j + 64) ?all"
    proof -
      have "take 64 (drop j ?all) = audio_chunks rid a (int j) ?now"
        unfolding dropped using False by (simp add: take_audio_chunks)
      then show ?thesis using append_take_drop_id [of 64 "drop j ?all"] by (metis add.commute drop_drop)
    qed
    ultimately show ?thesis using Suc.prems(2) by simp
  qed
qed

lemma concat_audio_pcm: "concat (map tr_pcm_bytes (audio_chunks rid a q ps)) = concat (map fst ps)"
  by (induction ps arbitrary: q) auto

lemma collect_audio:
  assumes "co_attempt st \<le> a"
  shows "collect_chunks st (audio_chunks rid a q ps @ [final_chunk rid a k]) =
     st\<lparr>co_attempt := a,
        co_pcm := (if co_attempt st < a then [] else co_pcm st) @ concat (map fst ps),
        co_sentences := (if co_attempt st < a then 0 else co_sentences st) + length ps\<rparr>"
  using assms by (induction ps arbitrary: st q) (auto simp: Let_def)

lemma consume_whole:
  assumes "0 \<le> a" and "list_all scalar rid" and "list_all piece_ok ps" and "length ps < 64 * n"
  shows "consume_result_stream (replicate n \<lparr>po_expired = False,
            po_stream = entries_of dr 1 (audio_chunks rid a 0 ps @ [final_chunk rid a (int (length ps))])\<rparr>)
         = (audio_chunks rid a 0 ps @ [final_chunk rid a (int (length ps))], Finished)"
proof -
  have "ready reader_start a (int 0)" using assms(1) by (simp add: ready_def reader_start_def)
  then show ?thesis
    using consume_attempt [of reader_start a 0 ps rid n dr] assms
    by (simp add: reader_start_def consume_result_stream_def)
qed

lemma collect_attempt:
  assumes "0 \<le> a" and "list_all scalar rid" and "list_all piece_ok ps" and "length ps < 64 * n"
  shows "collect_pcm_until_final (replicate n \<lparr>po_expired = False,
            po_stream = entries_of dr 1 (audio_chunks rid a 0 ps @ [final_chunk rid a (int (length ps))])\<rparr>)
         = Inr (concat (map fst ps), length ps, None)"
proof -
  have "co_attempt collector_start < a" using assms(1) by (simp add: collector_start_def)
  then show ?thesis
    unfolding collect_pcm_until_final_def consume_whole [OF assms] by (simp add: collect_audio Let_def)
      (simp add: collector_start_def)
qed

text \<open>
  A worker's attempt arrives whole. When the stream holds an attempt's audio chunks
  numbered from 0 and its final marker, enough polls before the deadline give the collector
  the concatenation of all pieces in order, their count and no error; 64 entries per poll
  are enough, whatever the attempt number and the client's decoding mode.
\<close>

theorem attempt_collected_whole:
  assumes "0 \<le> a" and "list_all scalar rid" and "list_all piece_ok ps" and "length ps < 64 * n"
  shows "collect_pcm_until_final (replicate n \<lparr>po_expired = False,
            po_stream = entries_of dr 1 (audio_chunks rid a 0 ps @ [final_chunk rid a (int (length ps))])\<rparr>)
         = Inr (concat (map fst ps), length ps, None)"
  using assms by (rule collect_attempt)

theorem attempt_collected_whole_witness:
  "collect_pcm_until_final (replicate 1 \<lparr>po_expired = False,
     po_stream = entries_of False 1 (audio_chunks (cps ''r'') 2 0 [([1, 2], Some [65]), ([3, 4], None)]
                   @ [final_chunk (cps ''r'') 2 (int (length [([1, 2::nat], Some [65::nat]), ([3, 4], None)]))])\<rparr>)
   = Inr (concat (map fst [([1, 2], Some [65]), ([3, 4], None :: ustr option)]),
          length [([1, 2::nat], Some [65::nat]), ([3, 4], None)], None)"
  by (rule attempt_collected_whole) (simp_all add: piece_ok_def scalar_def)

end
