(* ===== verification/Job_Store.thy ===== *)
theory Job_Store
  imports NV_Prelude Complex_Main
begin

text \<open>
  The table \<open>job_idempotency\<close> and its repository \<^verbatim>\<open>src/repos/idempotency.py\<close>. Each
  operation takes the repository's tenant, the wall clock it reads and the table, and returns
  the table it leaves.
\<close>

subsection \<open>job_idempotency\<close>

record align_row =
  al_seq :: int
  al_start_ms :: int
  al_end_ms :: int
  al_text :: ustr

record job_row =
  jr_request_id :: uuid
  jr_tenant_id :: uuid
  jr_api_key_id :: uuid
  jr_request_hash :: string
  jr_response_uri :: "string option"
  jr_status :: string
  jr_created_at :: millis
  jr_expires_at :: millis
  jr_alignment :: "align_row list option"

type_synonym job_table = "job_row list"

definition job_status_ok :: "job_row \<Rightarrow> bool" where
  "job_status_ok r \<longleftrightarrow> jr_status r \<in> {''processing'', ''complete'', ''failed''}"

definition default_ttl :: millis where
  "default_ttl = 24 * 60 * 60 * 1000"

definition idem_visible :: "uuid \<Rightarrow> millis \<Rightarrow> uuid \<Rightarrow> job_row \<Rightarrow> bool" where
  "idem_visible tenant now rid r \<longleftrightarrow>
     jr_request_id r = rid \<and> jr_tenant_id r = tenant \<and> jr_expires_at r > now"

definition idem_get :: "uuid \<Rightarrow> millis \<Rightarrow> uuid \<Rightarrow> job_table \<Rightarrow> job_row option" where
  [repo_defs]: "idem_get tenant now rid t = find (idem_visible tenant now rid) t"

text \<open>The primary key is \<open>request_id\<close> alone, across tenants and expiry.\<close>

definition job_clash :: "job_row \<Rightarrow> job_row \<Rightarrow> bool" where
  "job_clash r r' \<longleftrightarrow> jr_request_id r' = jr_request_id r"

definition new_job_row :: "uuid \<Rightarrow> millis \<Rightarrow> uuid \<Rightarrow> uuid \<Rightarrow> string \<Rightarrow> millis option \<Rightarrow> job_row" where
  "new_job_row tenant now rid api_key rhash ttl =
     \<lparr>jr_request_id = rid, jr_tenant_id = tenant, jr_api_key_id = api_key,
      jr_request_hash = rhash, jr_response_uri = None, jr_status = ''processing'',
      jr_created_at = now,
      jr_expires_at = now + (case ttl of None \<Rightarrow> default_ttl | Some d \<Rightarrow> if d = 0 then default_ttl else d),
      jr_alignment = None\<rparr>"

definition idem_reserve ::
  "uuid \<Rightarrow> millis \<Rightarrow> uuid \<Rightarrow> uuid \<Rightarrow> string \<Rightarrow> millis option \<Rightarrow> job_table \<Rightarrow> py_error + job_row \<times> job_table" where
  [repo_defs]: "idem_reserve tenant now rid api_key rhash ttl t =
     (let row = new_job_row tenant now rid api_key rhash ttl
      in case insert_row job_clash row t of
           Inl e \<Rightarrow> Inl e
         | Inr t' \<Rightarrow> Inr (row, t'))"

datatype reserve_error = IdempotencyConflict job_row | StoreError py_error

text \<open>
  \<open>reserve_or_get\<close> issues up to four statements. Other sessions commit in between, so the
  operation takes what they do to the table before the first insert (\<open>i1\<close>), between the
  rollback and the second read (\<open>i2\<close>) and before the second insert (\<open>i3\<close>).
\<close>

definition reserve_or_get_among ::
  "(job_table \<Rightarrow> job_table) \<Rightarrow> (job_table \<Rightarrow> job_table) \<Rightarrow> (job_table \<Rightarrow> job_table)
   \<Rightarrow> uuid \<Rightarrow> millis \<Rightarrow> uuid \<Rightarrow> uuid \<Rightarrow> string \<Rightarrow> millis option \<Rightarrow> job_table
   \<Rightarrow> reserve_error + (job_row \<times> bool) \<times> job_table" where
  "reserve_or_get_among i1 i2 i3 tenant now rid api_key rhash ttl t =
     (case idem_get tenant now rid t of
        Some existing \<Rightarrow>
          if jr_request_hash existing \<noteq> rhash then Inl (IdempotencyConflict existing)
          else Inr ((existing, False), t)
      | None \<Rightarrow>
          let t1 = i1 t in
          (case idem_reserve tenant now rid api_key rhash ttl t1 of
             Inr (row, t') \<Rightarrow> Inr ((row, True), t')
           | Inl IntegrityError \<Rightarrow>
               let t2 = i2 t1 in
               (case idem_get tenant now rid t2 of
                  None \<Rightarrow>
                    (case idem_reserve tenant now rid api_key rhash ttl (i3 t2) of
                       Inr (row, t') \<Rightarrow> Inr ((row, True), t')
                     | Inl e \<Rightarrow> Inl (StoreError e))
                | Some winner \<Rightarrow>
                    if jr_request_hash winner \<noteq> rhash then Inl (IdempotencyConflict winner)
                    else Inr ((winner, False), t2))
           | Inl e \<Rightarrow> Inl (StoreError e)))"

definition reserve_or_get ::
  "uuid \<Rightarrow> millis \<Rightarrow> uuid \<Rightarrow> uuid \<Rightarrow> string \<Rightarrow> millis option \<Rightarrow> job_table
   \<Rightarrow> reserve_error + (job_row \<times> bool) \<times> job_table" where
  "reserve_or_get = reserve_or_get_among (\<lambda>t. t) (\<lambda>t. t) (\<lambda>t. t)"

definition idem_delete :: "uuid \<Rightarrow> uuid \<Rightarrow> job_table \<Rightarrow> job_table \<times> nat" where
  [repo_defs]: "idem_delete tenant rid t =
     delete_rows (\<lambda>r. jr_request_id r = rid \<and> jr_tenant_id r = tenant) t"

definition idem_complete ::
  "uuid \<Rightarrow> millis \<Rightarrow> uuid \<Rightarrow> string option \<Rightarrow> align_row list option \<Rightarrow> job_table \<Rightarrow> job_table" where
  [repo_defs]: "idem_complete tenant now rid uri alignment t =
     update_rows (idem_visible tenant now rid)
       (\<lambda>r. r\<lparr>jr_status := ''complete'',
              jr_response_uri := (if uri \<noteq> None then uri else jr_response_uri r),
              jr_alignment := (if alignment \<noteq> None then alignment else jr_alignment r)\<rparr>) t"

definition idem_fail :: "uuid \<Rightarrow> millis \<Rightarrow> uuid \<Rightarrow> job_table \<Rightarrow> job_table" where
  [repo_defs]: "idem_fail tenant now rid t =
     update_rows (idem_visible tenant now rid) (\<lambda>r. r\<lparr>jr_status := ''failed''\<rparr>) t"

definition idem_purge_expired :: "uuid \<Rightarrow> millis \<Rightarrow> job_table \<Rightarrow> job_table \<times> nat" where
  [repo_defs]: "idem_purge_expired tenant now t =
     delete_rows (\<lambda>r. jr_tenant_id r = tenant \<and> jr_expires_at r < now) t"

interpretation jobs: keyed_table jr_request_id "insert_row job_clash"
  by (rule keyed_tableI) (simp add: job_clash_def)

lemma idem_visible_status [simp]:
  "idem_visible T now rid (r\<lparr>jr_status := s\<rparr>) = idem_visible T now rid r"
  "idem_visible T now rid (r\<lparr>jr_response_uri := u\<rparr>) = idem_visible T now rid r"
  "idem_visible T now rid (r\<lparr>jr_alignment := a\<rparr>) = idem_visible T now rid r"
  by (simp_all add: idem_visible_def)

lemma new_job_row_sel [simp]:
  "jr_request_id (new_job_row T now rid k h ttl) = rid"
  "jr_tenant_id (new_job_row T now rid k h ttl) = T"
  "jr_request_hash (new_job_row T now rid k h ttl) = h"
  "jr_status (new_job_row T now rid k h ttl) = ''processing''"
  "jr_response_uri (new_job_row T now rid k h ttl) = None"
  by (simp_all add: new_job_row_def)

lemma new_job_row_visible:
  "(case ttl of None \<Rightarrow> True | Some d \<Rightarrow> d \<ge> 0) \<Longrightarrow> idem_visible T now rid (new_job_row T now rid k h ttl)"
  by (auto simp: idem_visible_def new_job_row_def default_ttl_def split: option.splits)

lemma idem_reserve_cases:
  "idem_reserve T now rid k h ttl t =
     (if rid \<in> jr_request_id ` set t then Inl IntegrityError
      else Inr (new_job_row T now rid k h ttl, t @ [new_job_row T now rid k h ttl]))"
  by (simp add: idem_reserve_def jobs.ins_law Let_def)

lemma idem_get_after_complete:
  "idem_get T now rid (idem_complete T now rid u a t) =
     map_option (\<lambda>r. r\<lparr>jr_status := ''complete'',
        jr_response_uri := (if u \<noteq> None then u else jr_response_uri r),
        jr_alignment := (if a \<noteq> None then a else jr_alignment r)\<rparr>) (idem_get T now rid t)"
  unfolding idem_get_def idem_complete_def
  by (subst find_update_rows) (auto intro!: option.map_cong dest: find_SomeD)

lemma idem_get_after_fail:
  "idem_get T now rid (idem_fail T now rid t) =
     map_option (\<lambda>r. r\<lparr>jr_status := ''failed''\<rparr>) (idem_get T now rid t)"
  unfolding idem_get_def idem_fail_def
  by (subst find_update_rows) (auto intro!: option.map_cong dest: find_SomeD)

lemma idem_get_after_reserve:
  assumes "idem_reserve T now rid k h ttl t = Inr (row, t')" "case ttl of None \<Rightarrow> True | Some d \<Rightarrow> d \<ge> 0"
  shows "idem_get T now rid t' = Some row"
  using assms new_job_row_visible [OF assms(2), of T now rid k h]
  by (auto simp: idem_reserve_cases idem_get_def find_append idem_visible_def
      split: if_splits option.split dest!: find_SomeD)

lemma idem_getD:
  "idem_get T now rid t = Some r \<Longrightarrow>
     r \<in> set t \<and> jr_request_id r = rid \<and> jr_tenant_id r = T \<and> jr_expires_at r > now"
  by (auto simp: idem_get_def idem_visible_def dest!: find_SomeD)

subsection \<open>What one repository call leaves unchanged\<close>

definition foreign_rows :: "uuid \<Rightarrow> job_table \<Rightarrow> job_table" where
  "foreign_rows tenant t = filter (\<lambda>r. jr_tenant_id r \<noteq> tenant) t"

lemma foreign_reserve [frame_simps]:
  "idem_reserve T now rid k h ttl t = Inr (row, t') \<Longrightarrow> foreign_rows T t' = foreign_rows T t"
  by (auto simp: idem_reserve_cases foreign_rows_def split: if_splits)

lemma foreign_delete [frame_simps]: "foreign_rows T (fst (idem_delete T rid t)) = foreign_rows T t"
  by (auto simp: idem_delete_def delete_rows_def foreign_rows_def intro!: filter_cong)

lemma foreign_complete [frame_simps]: "foreign_rows T (idem_complete T now rid u a t) = foreign_rows T t"
  unfolding foreign_rows_def idem_complete_def
  by (rule filter_update_rows_other) (simp add: idem_visible_def)

lemma foreign_fail [frame_simps]: "foreign_rows T (idem_fail T now rid t) = foreign_rows T t"
  unfolding foreign_rows_def idem_fail_def
  by (rule filter_update_rows_other) (simp add: idem_visible_def)

lemma foreign_purge [frame_simps]: "foreign_rows T (fst (idem_purge_expired T now t)) = foreign_rows T t"
  by (auto simp: idem_purge_expired_def delete_rows_def foreign_rows_def intro!: filter_cong)

text \<open>One call of any tenant's repository, and the tables such calls can reach.\<close>

inductive job_step :: "uuid \<Rightarrow> job_table \<Rightarrow> job_table \<Rightarrow> bool" where
  js_reserve: "idem_reserve T now rid k h ttl t = Inr (row, t') \<Longrightarrow> job_step T t t'"
| js_delete: "fst (idem_delete T rid t) = t' \<Longrightarrow> job_step T t t'"
| js_complete: "idem_complete T now rid u a t = t' \<Longrightarrow> job_step T t t'"
| js_fail: "idem_fail T now rid t = t' \<Longrightarrow> job_step T t t'"
| js_purge: "fst (idem_purge_expired T now t) = t' \<Longrightarrow> job_step T t t'"

inductive job_reach :: "job_table \<Rightarrow> bool" where
  jr_empty: "job_reach []"
| jr_step: "job_reach t \<Longrightarrow> job_step T t t' \<Longrightarrow> job_reach t'"

inductive_cases job_stepE: "job_step T t t'"

lemma job_step_keyed: "job_step T t t' \<Longrightarrow> jobs.well_keyed t \<Longrightarrow> jobs.well_keyed t'"
proof (induction rule: job_step.induct)
  case (js_reserve T now rid k h ttl t row t')
  then show ?case
    by (auto simp: idem_reserve_def Let_def split: sum.splits intro: jobs.ins_keyed)
next
  case (js_complete T now rid u a t t')
  then show ?case by (auto simp: idem_complete_def intro!: jobs.update_keyed)
next
  case (js_fail T now rid t t')
  then show ?case by (auto simp: idem_fail_def intro!: jobs.update_keyed)
qed (auto simp: idem_delete_def idem_purge_expired_def intro!: jobs.delete_keyed)

lemma job_step_status:
  "job_step T t t' \<Longrightarrow> list_all job_status_ok t \<Longrightarrow> list_all job_status_ok t'"
  by (induction rule: job_step.induct)
    (auto simp: idem_reserve_cases repo_defs list_all_iff set_update_rows delete_rows_def
      job_status_ok_def split: if_splits)

lemma job_step_foreign: "job_step T t t' \<Longrightarrow> foreign_rows T t' = foreign_rows T t"
  by (induction rule: job_step.induct) (auto simp: frame_simps)

lemma job_reach_inv: "job_reach t \<Longrightarrow> jobs.well_keyed t \<and> list_all job_status_ok t"
proof (induction rule: job_reach.induct)
  case jr_empty
  show ?case by (simp add: jobs.well_keyed_def)
next
  case (jr_step t T t')
  then show ?case by (blast intro: job_step_keyed job_step_status)
qed

text \<open>
  The sequential behaviour of the guarded reserve on every branch. A live row of the
  tenant is replayed when the body hash agrees and is a conflict otherwise; a key nobody
  holds is reserved; and a key held by a row the tenant cannot see (an expired row that was
  not purged, or another tenant's row) ends in the IntegrityError the docstring calls
  impossible to surface, because the second insert meets the same primary key.
\<close>

theorem reserve_or_get_branches:
  "reserve_or_get T now rid k h ttl t =
     (case idem_get T now rid t of
        Some row \<Rightarrow>
          (if jr_request_hash row = h then Inr ((row, False), t) else Inl (IdempotencyConflict row))
      | None \<Rightarrow>
          (if rid \<in> jr_request_id ` set t then Inl (StoreError IntegrityError)
           else Inr ((new_job_row T now rid k h ttl, True), t @ [new_job_row T now rid k h ttl])))"
  by (simp add: reserve_or_get_def reserve_or_get_among_def idem_reserve_cases Let_def
      split: option.split)

text \<open>
  The reserve race. When a rival of the same tenant commits a live row for the key
  after this caller's first read, the caller gets the rival's row as a replay, or a
  conflict when the bodies differ. The raw IntegrityError never reaches it, and it never
  inserts a row of its own.
\<close>

theorem reserve_race_classified:
  assumes "idem_get T now rid t = None"
    and "idem_get T now rid (i1 t) = Some rival"
  shows "reserve_or_get_among i1 (\<lambda>t. t) i3 T now rid k h ttl t =
           (if jr_request_hash rival = h then Inr ((rival, False), i1 t)
            else Inl (IdempotencyConflict rival))"
proof -
  have "rid \<in> jr_request_id ` set (i1 t)"
    using idem_getD [OF assms(2)] by blast
  then show ?thesis
    using assms by (simp add: reserve_or_get_among_def idem_reserve_cases Let_def)
qed

theorem reserve_race_classified_witness:
  "reserve_or_get_among (\<lambda>t. t @ [new_job_row 7 0 1 2 ''h'' None]) (\<lambda>t. t) (\<lambda>t. t) 7 5 1 3 ''h'' None [] =
     Inr ((new_job_row 7 0 1 2 ''h'' None, False), [new_job_row 7 0 1 2 ''h'' None])"
  using reserve_race_classified [of 7 5 1 "[]" "\<lambda>t. t @ [new_job_row 7 0 1 2 ''h'' None]"
      "new_job_row 7 0 1 2 ''h'' None" "\<lambda>t. t" 3 "''h''" None]
  by (simp add: idem_get_def idem_visible_def new_job_row_def default_ttl_def)

text \<open>
  Tables the repositories can reach keep one row per request id and a status out of the
  CHECK list, and a call through one tenant's repository leaves every row of the other
  tenants as it was.
\<close>

theorem job_table_invariant:
  assumes "job_reach t" and "job_step T t t'"
  shows "length (filter (\<lambda>r. jr_request_id r = rid) t') \<le> 1 \<and> list_all job_status_ok t'
         \<and> foreign_rows T t' = foreign_rows T t"
proof -
  from assms have "job_reach t'" by (rule jr_step)
  then have "jobs.well_keyed t' \<and> list_all job_status_ok t'" by (rule job_reach_inv)
  with assms(2) show ?thesis using jobs.one_row job_step_foreign by metis
qed

theorem job_table_invariant_witness:
  "length (filter (\<lambda>r. jr_request_id r = 1) [new_job_row 7 0 1 2 ''h'' None]) \<le> 1
   \<and> list_all job_status_ok [new_job_row 7 0 1 2 ''h'' None]
   \<and> foreign_rows 7 [new_job_row 7 0 1 2 ''h'' None] = foreign_rows 7 []"
proof -
  have "job_step 7 [] [new_job_row 7 0 1 2 ''h'' None]"
    by (rule js_reserve [of _ 0 1 2 "''h''" None]) (simp add: idem_reserve_cases)
  then show ?thesis by (rule job_table_invariant [OF jr_empty])
qed

text \<open>
  Undoing a reservation. Deleting the row right after the reserve (the gateway's answer
  to a failed enqueue) gives back the table as it was, so the same key can be reserved
  again.
\<close>

theorem reserve_then_delete:
  assumes "idem_reserve T now rid k h ttl t = Inr (row, t')"
  shows "idem_delete T rid t' = (t, 1)"
proof -
  from assms have t': "t' = t @ [new_job_row T now rid k h ttl]" and fresh: "rid \<notin> jr_request_id ` set t"
    by (auto simp: idem_reserve_cases split: if_splits)
  from fresh have "filter (\<lambda>r. jr_request_id r = rid \<and> jr_tenant_id r = T) t = []"
    and "filter (\<lambda>r. \<not> (jr_request_id r = rid \<and> jr_tenant_id r = T)) t = t"
    by (auto simp: filter_empty_conv filter_id_conv)
  with t' show ?thesis by (simp add: idem_delete_def delete_rows_def)
qed

theorem reserve_then_delete_witness:
  "idem_delete 7 1 [new_job_row 7 0 1 2 ''h'' None] = ([], 1)"
  by (rule reserve_then_delete [of _ 0 _ 2 "''h''" None _ "new_job_row 7 0 1 2 ''h'' None"])
    (simp add: idem_reserve_cases)

end
