(* ===== verification/Usage_Store.thy ===== *)
theory Usage_Store
  imports NV_Prelude Complex_Main
begin

text \<open>
  \<open>usage_records\<close> (\<^verbatim>\<open>src/db/models.py\<close>) and \<^verbatim>\<open>src/repos/usage.py\<close>: the billing row a
  terminal outcome writes, its CHECK constraints, the unique \<open>request_id\<close>, the gateway's
  later stitch of its own first-byte time, and the per-status dashboard aggregate.
\<close>

record engine_inputs =
  ei_model_id :: "string option"
  ei_hf_revision :: "string option"
  ei_preset_id :: string
  ei_cfg_value :: json
  ei_inference_timesteps :: json
  ei_seed :: "int option"
  ei_voice_settings :: "dict option"
  ei_pronunciation_dict_size :: nat
  ei_previous_text_len :: nat
  ei_next_text_len :: nat
  ei_reference_sha256 :: string

record usage_row =
  ur_occurred_at :: millis
  ur_tenant_id :: uuid
  ur_api_key_id :: uuid
  ur_voice_id :: string
  ur_request_id :: uuid
  ur_text_char_count :: int
  ur_sentence_count :: int
  ur_duration_ms :: int
  ur_elapsed_ms :: int
  ur_queue_wait_ms :: "int option"
  ur_inference_ms :: "int option"
  ur_ttfb_ms :: "int option"
  ur_worker_pickup_ms :: "int option"
  ur_reference_resolve_ms :: "int option"
  ur_first_pcm_ms :: "int option"
  ur_first_audio_ms :: "int option"
  ur_gateway_first_byte_ms :: "int option"
  ur_rtf :: "rat option"
  ur_status :: string
  ur_error_code :: "string option"
  ur_worker_id :: "string option"
  ur_model_version :: "string option"
  ur_app_label :: "ustr option"
  ur_engine_inputs :: "engine_inputs option"

type_synonym usage_table = "usage_row list"

fun opt_nonneg :: "int option \<Rightarrow> bool" where
  "opt_nonneg None = True"
| "opt_nonneg (Some x) = (0 \<le> x)"

definition usage_checks :: "usage_row \<Rightarrow> bool" where
  "usage_checks r \<longleftrightarrow>
     0 \<le> ur_text_char_count r \<and> 0 \<le> ur_sentence_count r \<and> 0 \<le> ur_duration_ms r
     \<and> 0 \<le> ur_elapsed_ms r \<and> opt_nonneg (ur_queue_wait_ms r) \<and> opt_nonneg (ur_inference_ms r)
     \<and> opt_nonneg (ur_ttfb_ms r) \<and> opt_nonneg (ur_worker_pickup_ms r)
     \<and> opt_nonneg (ur_reference_resolve_ms r) \<and> opt_nonneg (ur_first_pcm_ms r)
     \<and> opt_nonneg (ur_first_audio_ms r) \<and> opt_nonneg (ur_gateway_first_byte_ms r)
     \<and> ur_status r \<in> {''ok'', ''error'', ''timeout'', ''partial''}"

definition usage_clash :: "usage_row \<Rightarrow> usage_row \<Rightarrow> bool" where
  "usage_clash r r' \<longleftrightarrow> ur_request_id r' = ur_request_id r"

text \<open>
  \<open>UsageRepo.record\<close>: the row with the caller's columns and the repository's tenant; the
  flush raises when a CHECK fails or the request id is already there.
\<close>

definition usage_record :: "uuid \<Rightarrow> millis \<Rightarrow> usage_row \<Rightarrow> usage_table \<Rightarrow> py_error + usage_table" where
  [repo_defs]: "usage_record tenant now cols t =
     (let rec = cols\<lparr>ur_tenant_id := tenant, ur_occurred_at := now\<rparr>
      in if \<not> usage_checks rec then Inl IntegrityError else insert_row usage_clash rec t)"

definition usage_find :: "uuid \<Rightarrow> uuid \<Rightarrow> usage_table \<Rightarrow> usage_row option" where
  "usage_find tenant rid t =
     find (\<lambda>r. ur_tenant_id r = tenant \<and> ur_request_id r = rid) t"

definition update_gateway_first_byte_ms ::
  "uuid \<Rightarrow> uuid \<Rightarrow> int \<Rightarrow> usage_table \<Rightarrow> py_error + usage_table \<times> nat" where
  [repo_defs]: "update_gateway_first_byte_ms tenant rid first_byte_ms t =
     (if first_byte_ms < 0 then Inl (ValueError ''gateway_first_byte_ms must be non-negative'')
      else
        (let P = (\<lambda>r. ur_tenant_id r = tenant \<and> ur_request_id r = rid)
         in Inr (update_rows P (\<lambda>r. r\<lparr>ur_gateway_first_byte_ms := Some first_byte_ms\<rparr>) t,
                 length (filter P t))))"

record usage_summary =
  us_count :: nat
  us_chars :: int
  us_audio_ms :: int
  us_avg_rtf :: rat

text \<open>SQL's \<open>avg\<close> skips NULLs and is NULL on no rows, which \<open>coalesce\<close> reads as 0.\<close>

definition sql_avg :: "rat list \<Rightarrow> rat" where
  "sql_avg xs = (if xs = [] then 0 else sum_list xs / of_nat (length xs))"

definition summarize :: "usage_row list \<Rightarrow> usage_summary" where
  "summarize g =
     \<lparr>us_count = length g, us_chars = sum_list (map ur_text_char_count g),
      us_audio_ms = sum_list (map ur_duration_ms g),
      us_avg_rtf = sql_avg (List.map_filter ur_rtf g)\<rparr>"

definition summary_last_n_days ::
  "uuid \<Rightarrow> millis \<Rightarrow> int \<Rightarrow> usage_table \<Rightarrow> (string \<times> usage_summary) list" where
  "summary_last_n_days tenant now days t =
     (let since = now - days * 86400000;
          rows = filter (\<lambda>r. ur_tenant_id r = tenant \<and> ur_occurred_at r \<ge> since) t
      in map (\<lambda>s. (s, summarize (filter (\<lambda>r. ur_status r = s) rows)))
           (remdups (map ur_status rows)))"

interpretation usages: keyed_table ur_request_id "insert_row usage_clash"
  by (rule keyed_tableI) (simp add: usage_clash_def)

lemma usage_record_cases:
  "usage_record T now cols t =
     (if \<not> usage_checks (cols\<lparr>ur_tenant_id := T, ur_occurred_at := now\<rparr>)
         \<or> ur_request_id cols \<in> ur_request_id ` set t
      then Inl IntegrityError
      else Inr (t @ [cols\<lparr>ur_tenant_id := T, ur_occurred_at := now\<rparr>]))"
  by (simp add: usage_record_def usages.ins_law Let_def)

lemma usage_findD:
  "usage_find T rid t = Some r \<Longrightarrow> r \<in> set t \<and> ur_tenant_id r = T \<and> ur_request_id r = rid"
  by (auto simp: usage_find_def dest!: find_SomeD)

lemma usage_find_after_record:
  assumes "usage_record T now cols t = Inr t'"
  shows "usage_find T (ur_request_id cols) t' = Some (cols\<lparr>ur_tenant_id := T, ur_occurred_at := now\<rparr>)"
proof -
  from assms have t': "t' = t @ [cols\<lparr>ur_tenant_id := T, ur_occurred_at := now\<rparr>]"
    and fresh: "ur_request_id cols \<notin> ur_request_id ` set t"
    by (auto simp: usage_record_cases split: if_splits)
  from fresh have "find (\<lambda>r. ur_tenant_id r = T \<and> ur_request_id r = ur_request_id cols) t = None"
    by (simp add: find_None) (metis imageI)
  with t' show ?thesis by (simp add: usage_find_def find_append)
qed

definition usage_inv :: "usage_table \<Rightarrow> bool" where
  "usage_inv t \<longleftrightarrow> usages.well_keyed t \<and> list_all usage_checks t"

lemma usage_record_inv: "usage_inv t \<Longrightarrow> usage_record T now cols t = Inr t' \<Longrightarrow> usage_inv t'"
  by (auto simp: usage_inv_def usage_record_def Let_def usages.ins_law split: if_splits
      intro: usages.ins_keyed) (auto simp: usages.well_keyed_def)

lemma usage_stitch_inv:
  assumes "usage_inv t" and "update_gateway_first_byte_ms T rid n t = Inr (t', c)"
  shows "usage_inv t' \<and> c \<le> 1"
proof -
  have key: "usages.well_keyed t" using assms(1) by (simp add: usage_inv_def)
  have "c \<le> length (filter (\<lambda>r. ur_request_id r = rid) t)"
    using assms(2)
    by (auto simp: update_gateway_first_byte_ms_def Let_def length_filter_conj split: if_splits)
  moreover have "length (filter (\<lambda>r. ur_request_id r = rid) t) \<le> 1"
    using key by (rule usages.one_row)
  moreover have "usage_inv t'"
    using assms key unfolding usage_inv_def
    by (auto simp: update_gateway_first_byte_ms_def Let_def split: if_splits
        intro!: usages.update_keyed list_all_update_rows) (simp add: usage_checks_def)
  ultimately show ?thesis by simp
qed

text \<open>
  A request is billed once. Once a usage row for a request id exists, recording it
  again, by any tenant and with any columns, raises the IntegrityError and adds nothing;
  and a successful record keeps one row per request with every CHECK satisfied.
\<close>

theorem billed_at_most_once:
  assumes "usage_inv t" and "usage_record T now cols t = Inr t1"
  shows "usage_inv t1 \<and> usage_find T (ur_request_id cols) t1 \<noteq> None
         \<and> (ur_request_id cols' = ur_request_id cols \<longrightarrow> usage_record T' now' cols' t1 = Inl IntegrityError)"
  using usage_record_inv [OF assms] usage_find_after_record [OF assms(2)] assms(2)
  by (auto simp: usage_record_cases split: if_splits)

definition sample_usage :: usage_row where
  "sample_usage =
     \<lparr>ur_occurred_at = 0, ur_tenant_id = 0, ur_api_key_id = 2, ur_voice_id = ''ayse'', ur_request_id = 1,
      ur_text_char_count = 5, ur_sentence_count = 1, ur_duration_ms = 100, ur_elapsed_ms = 50,
      ur_queue_wait_ms = Some 3, ur_inference_ms = Some 40, ur_ttfb_ms = None, ur_worker_pickup_ms = Some 3,
      ur_reference_resolve_ms = Some 1, ur_first_pcm_ms = Some 9, ur_first_audio_ms = Some 10,
      ur_gateway_first_byte_ms = None, ur_rtf = Some (1/2), ur_status = ''ok'', ur_error_code = None,
      ur_worker_id = None, ur_model_version = None, ur_app_label = None, ur_engine_inputs = None\<rparr>"

theorem billed_at_most_once_witness:
  "usage_record 8 9 sample_usage [sample_usage\<lparr>ur_tenant_id := 7, ur_occurred_at := 4\<rparr>] = Inl IntegrityError"
proof -
  have "usage_inv []" by (simp add: usage_inv_def usages.well_keyed_def)
  moreover have "usage_record 7 4 sample_usage [] = Inr [sample_usage\<lparr>ur_tenant_id := 7, ur_occurred_at := 4\<rparr>]"
    by (simp add: usage_record_cases usage_checks_def sample_usage_def)
  ultimately show ?thesis
    using billed_at_most_once [of "[]" 7 4 sample_usage _ sample_usage 8 9] by blast
qed

lemma sum_groups:
  fixes f :: "'a \<Rightarrow> 'b::comm_monoid_add"
  assumes "distinct ks" "set (map g xs) \<subseteq> set ks"
  shows "sum_list (map (\<lambda>k. sum_list (map f (filter (\<lambda>x. g x = k) xs))) ks) = sum_list (map f xs)"
  using assms(2)
proof (induction xs)
  case (Cons x xs)
  have split: "sum_list (map f (filter (\<lambda>y. g y = k) (x # xs)))
      = (if g x = k then f x else 0) + sum_list (map f (filter (\<lambda>y. g y = k) xs))" for k
    by simp
  have "sum_list (map (\<lambda>k. if g x = k then f x else 0) ks) = f x"
    using assms(1) Cons.prems by (simp add: sum_list_distinct_conv_sum_set sum.delta)
  with Cons show ?case by (simp add: split sum_list_addf del: filter.simps)
qed simp

lemma summary_of_rows:
  fixes rows :: "usage_row list"
  defines "out \<equiv> map (\<lambda>s. (s, summarize (filter (\<lambda>r. ur_status r = s) rows))) (remdups (map ur_status rows))"
  shows "sum_list (map (us_count \<circ> snd) out) = length rows"
    and "sum_list (map (us_chars \<circ> snd) out) = sum_list (map ur_text_char_count rows)"
    and "sum_list (map (us_audio_ms \<circ> snd) out) = sum_list (map ur_duration_ms rows)"
proof -
  have ks: "distinct (remdups (map ur_status rows))" "set (map ur_status rows) \<subseteq> set (remdups (map ur_status rows))"
    by simp_all
  show "sum_list (map (us_count \<circ> snd) out) = length rows"
    using sum_groups [OF ks, of "\<lambda>_. 1 :: nat"] by (simp add: out_def summarize_def o_def sum_list_triv)
  show "sum_list (map (us_chars \<circ> snd) out) = sum_list (map ur_text_char_count rows)"
    using sum_groups [OF ks, of ur_text_char_count] by (simp add: out_def summarize_def o_def)
  show "sum_list (map (us_audio_ms \<circ> snd) out) = sum_list (map ur_duration_ms rows)"
    using sum_groups [OF ks, of ur_duration_ms] by (simp add: out_def summarize_def o_def)
qed

text \<open>
  The dashboard aggregate loses nothing: over the tenant's rows in the window, the
  counts per status add up to the number of rows, and the characters and audio
  milliseconds per status add up to their totals.
\<close>

theorem summary_conserves:
  "sum_list (map (us_count \<circ> snd) (summary_last_n_days T now days t))
     = length (filter (\<lambda>r. ur_tenant_id r = T \<and> ur_occurred_at r \<ge> now - days * 86400000) t)
   \<and> sum_list (map (us_chars \<circ> snd) (summary_last_n_days T now days t))
     = sum_list (map ur_text_char_count
         (filter (\<lambda>r. ur_tenant_id r = T \<and> ur_occurred_at r \<ge> now - days * 86400000) t))
   \<and> sum_list (map (us_audio_ms \<circ> snd) (summary_last_n_days T now days t))
     = sum_list (map ur_duration_ms
         (filter (\<lambda>r. ur_tenant_id r = T \<and> ur_occurred_at r \<ge> now - days * 86400000) t))"
  unfolding summary_last_n_days_def Let_def using summary_of_rows by blast

end
