(* ===== verification/Voice_Store.thy ===== *)
theory Voice_Store
  imports NV_Prelude "HOL-Library.List_Lexorder" "HOL-Library.Char_ord"
begin

text \<open>
  The voice catalog: the \<open>voices\<close> and \<open>voice_access\<close> tables with the constraints of
  \<^verbatim>\<open>src/db/models.py\<close>, the viewer-scoped \<open>VoiceRepo\<close> (\<^verbatim>\<open>src/repos/voice.py\<close>) and the
  owner-scoped \<open>VoiceAccessRepo\<close> (\<^verbatim>\<open>src/repos/voice_access.py\<close>). A mutation that flushes
  returns an error when a CHECK constraint or a unique key refuses the row.
\<close>

subsection \<open>Rows and constraints\<close>

record voice =
  v_id :: uuid
  v_owner :: uuid
  v_voice_id :: string
  v_display_name :: ustr
  v_language :: string
  v_gender :: string
  v_style_tags :: "ustr list"
  v_reference_uri :: string
  v_reference_sha256 :: string
  v_reference_seconds :: rat
  v_reference_sample_rate :: int
  v_source :: string
  v_license_kind :: string
  v_license_ref :: "string option"
  v_visibility :: string
  v_engine_params :: dict
  v_description :: "ustr option"
  v_labels :: "ustr list option"
  v_preview_url :: "string option"
  v_settings_defaults :: "dict option"
  v_adapter_uri :: "string option"
  v_adapter_sha256 :: "string option"
  v_adapter_type :: "string option"
  v_watermark_key_id :: "uuid option"
  v_watermark_enabled :: bool
  v_eval_metrics :: "dict option"
  v_release_status :: string
  v_created_by_key_id :: "uuid option"
  v_created_at :: millis
  v_deleted_at :: "millis option"
  v_frozen_at :: "millis option"
  v_frozen_reason :: "ustr option"
  v_purge_after_at :: "millis option"
  v_purged_at :: "millis option"

definition slug_edge :: "char \<Rightarrow> bool" where
  "slug_edge c \<longleftrightarrow> c \<in> set ''abcdefghijklmnopqrstuvwxyz0123456789''"

definition slug_inner :: "char \<Rightarrow> bool" where
  "slug_inner c \<longleftrightarrow> slug_edge c \<or> c = CHR 0x2D"

text \<open>The slug pattern \<open>[a-z0-9][a-z0-9-]{1,62}[a-z0-9]\<close>, matched against a whole string.\<close>

definition slug_shape :: "string \<Rightarrow> bool" where
  "slug_shape s \<longleftrightarrow> 3 \<le> length s \<and> length s \<le> 64 \<and> slug_edge (hd s) \<and> slug_edge (last s)
     \<and> list_all slug_inner s"

fun opt_le :: "int option \<Rightarrow> int option \<Rightarrow> bool" where
  "opt_le (Some a) (Some b) = (a \<le> b)"
| "opt_le _ _ = True"

definition voice_checks :: "voice \<Rightarrow> bool" where
  "voice_checks v \<longleftrightarrow>
     slug_shape (v_voice_id v)
     \<and> v_language v \<in> {''tr'', ''en''}
     \<and> v_gender v \<in> {''neutral'', ''female'', ''male''}
     \<and> length (v_reference_sha256 v) = 64
     \<and> 0 < v_reference_seconds v \<and> v_reference_seconds v \<le> 60
     \<and> v_source v \<in> {''bootstrap'', ''tenant-enroll'', ''talent-recorded'', ''synthetic-from-prompt'', ''partner-import''}
     \<and> v_license_kind v \<in> {''example'', ''synthetic'', ''user-owned'', ''talent-contract'', ''public-figure'', ''partner-licensed''}
     \<and> v_visibility v \<in> {''private'', ''shared'', ''public''}
     \<and> v_release_status v \<in> {''draft'', ''staging'', ''production'', ''deprecated''}
     \<and> v_adapter_type v \<in> {None, Some ''lora'', Some ''full-finetune''}
     \<and> opt_le (v_frozen_at v) (v_purge_after_at v)
     \<and> opt_le (v_purge_after_at v) (v_purged_at v)"

record access =
  ac_tenant_id :: uuid
  ac_voice_id :: uuid
  ac_permission :: string
  ac_granted_at :: millis
  ac_granted_by :: "uuid option"

type_synonym voice_table = "voice list"
type_synonym access_table = "access list"

text \<open>Primary key \<open>id\<close>, and one row per (owner, slug), soft-deleted rows included.\<close>

definition voice_clash :: "voice \<Rightarrow> voice \<Rightarrow> bool" where
  "voice_clash v w \<longleftrightarrow> v_id w = v_id v \<or> (v_owner w = v_owner v \<and> v_voice_id w = v_voice_id v)"

definition insert_voice :: "voice \<Rightarrow> voice_table \<Rightarrow> py_error + voice_table" where
  "insert_voice v t = (if \<not> voice_checks v then Inl IntegrityError else insert_row voice_clash v t)"

text \<open>An attribute assignment on a loaded row followed by \<open>flush\<close>.\<close>

definition flush_voice ::
  "voice \<Rightarrow> voice_table \<Rightarrow> py_error + voice option \<times> voice_table" where
  "flush_voice v t =
     (if \<not> voice_checks v then Inl IntegrityError
      else Inr (Some v, update_rows (\<lambda>w. v_id w = v_id v) (\<lambda>_. v) t))"

subsection \<open>Lifecycle state\<close>

definition lifecycle_state :: "voice \<Rightarrow> string" where
  "lifecycle_state v =
     (if v_purged_at v \<noteq> None then ''purged''
      else if v_deleted_at v \<noteq> None then ''deleted''
      else if v_purge_after_at v \<noteq> None then ''purge-pending''
      else if v_frozen_at v \<noteq> None then ''frozen''
      else ''active'')"

subsection \<open>Reads\<close>

definition granted_voice_ids :: "uuid \<Rightarrow> access_table \<Rightarrow> uuid list" where
  "granted_voice_ids tenant acc = map ac_voice_id (filter (\<lambda>a. ac_tenant_id a = tenant) acc)"

definition list_accessible :: "uuid \<Rightarrow> bool \<Rightarrow> access_table \<Rightarrow> voice_table \<Rightarrow> voice list" where
  "list_accessible tenant include_deleted acc t =
     (let granted = granted_voice_ids tenant acc;
          q = filter (\<lambda>v. v_owner v = tenant \<or> v_visibility v = ''public'' \<or> v_id v \<in> set granted) t;
          q = (if include_deleted then q else filter (\<lambda>v. v_deleted_at v = None) q)
      in sort_key v_voice_id q)"

definition get_owned :: "uuid \<Rightarrow> string \<Rightarrow> voice_table \<Rightarrow> voice option" where
  "get_owned tenant slug t =
     find (\<lambda>v. v_owner v = tenant \<and> v_voice_id v = slug \<and> v_deleted_at v = None) t"

fun first_of :: "'a list \<Rightarrow> 'a option" where
  "first_of [] = None"
| "first_of (x # _) = Some x"

definition get_accessible :: "uuid \<Rightarrow> string \<Rightarrow> access_table \<Rightarrow> voice_table \<Rightarrow> voice option" where
  "get_accessible tenant slug acc t =
     (case get_owned tenant slug t of
        Some owned \<Rightarrow> Some owned
      | None \<Rightarrow>
          (let granted = granted_voice_ids tenant acc in
           case first_of (sort_key v_created_at
                  (filter (\<lambda>v. v_voice_id v = slug \<and> v_id v \<in> set granted \<and> v_deleted_at v = None) t)) of
             Some shared \<Rightarrow> Some shared
           | None \<Rightarrow>
               first_of (sort_key v_created_at
                  (filter (\<lambda>v. v_voice_id v = slug \<and> v_visibility v = ''public'' \<and> v_deleted_at v = None) t))))"

definition get_by_id :: "uuid \<Rightarrow> voice_table \<Rightarrow> voice option" where
  "get_by_id vid t = find (\<lambda>v. v_id v = vid) t"

subsection \<open>Owner-only writes\<close>

definition create_voice :: "uuid \<Rightarrow> millis \<Rightarrow> voice \<Rightarrow> voice_table \<Rightarrow> py_error + voice \<times> voice_table" where
  "create_voice tenant now cols t =
     (let v = cols\<lparr>v_owner := tenant, v_created_at := now, v_adapter_uri := None,
                   v_adapter_sha256 := None, v_adapter_type := None, v_watermark_key_id := None,
                   v_watermark_enabled := True, v_eval_metrics := None, v_release_status := ''draft'',
                   v_deleted_at := None, v_frozen_at := None, v_frozen_reason := None,
                   v_purge_after_at := None, v_purged_at := None\<rparr>
      in case insert_voice v t of Inl e \<Rightarrow> Inl e | Inr t' \<Rightarrow> Inr (v, t'))"

definition on_owned ::
  "uuid \<Rightarrow> string \<Rightarrow> (voice \<Rightarrow> voice) \<Rightarrow> voice_table \<Rightarrow> py_error + voice option \<times> voice_table" where
  "on_owned tenant slug f t =
     (case get_owned tenant slug t of None \<Rightarrow> Inr (None, t) | Some v \<Rightarrow> flush_voice (f v) t)"

record voice_patch =
  vp_display_name :: "ustr option"
  vp_description :: "ustr option"
  vp_labels :: "ustr list option"
  vp_preview_url :: "string option"
  vp_settings_defaults :: "dict option"
  vp_style_tags :: "ustr list option"
  vp_visibility :: "string option"

definition patch_voice :: "voice_patch \<Rightarrow> voice \<Rightarrow> voice" where
  "patch_voice p v =
     v\<lparr>v_display_name := (case vp_display_name p of Some x \<Rightarrow> x | None \<Rightarrow> v_display_name v),
       v_description := (case vp_description p of Some x \<Rightarrow> Some x | None \<Rightarrow> v_description v),
       v_labels := (case vp_labels p of Some x \<Rightarrow> Some x | None \<Rightarrow> v_labels v),
       v_preview_url := (case vp_preview_url p of Some x \<Rightarrow> Some x | None \<Rightarrow> v_preview_url v),
       v_settings_defaults := (case vp_settings_defaults p of Some x \<Rightarrow> Some x | None \<Rightarrow> v_settings_defaults v),
       v_style_tags := (case vp_style_tags p of Some x \<Rightarrow> x | None \<Rightarrow> v_style_tags v),
       v_visibility := (case vp_visibility p of Some x \<Rightarrow> x | None \<Rightarrow> v_visibility v)\<rparr>"

definition visibility_values :: "string set" where
  "visibility_values = {''private'', ''shared'', ''public''}"

definition update_metadata ::
  "uuid \<Rightarrow> string \<Rightarrow> voice_patch \<Rightarrow> voice_table \<Rightarrow> py_error + voice option \<times> voice_table" where
  "update_metadata tenant slug p t =
     (case get_owned tenant slug t of
        None \<Rightarrow> Inr (None, t)
      | Some v \<Rightarrow>
          (case vp_visibility p of
             Some x \<Rightarrow> if x \<notin> visibility_values then Inl (ValueError ''invalid visibility'')
                       else flush_voice (patch_voice p v) t
           | None \<Rightarrow> flush_voice (patch_voice p v) t))"

definition soft_delete :: "uuid \<Rightarrow> millis \<Rightarrow> string \<Rightarrow> voice_table \<Rightarrow> py_error + voice option \<times> voice_table" where
  "soft_delete tenant now slug t = on_owned tenant slug (\<lambda>v. v\<lparr>v_deleted_at := Some now\<rparr>) t"

definition set_release_status ::
  "uuid \<Rightarrow> string \<Rightarrow> string \<Rightarrow> voice_table \<Rightarrow> py_error + voice option \<times> voice_table" where
  "set_release_status tenant slug st t =
     (if st \<notin> {''draft'', ''staging'', ''production'', ''deprecated''} then Inl (ValueError ''invalid release_status'')
      else on_owned tenant slug (\<lambda>v. v\<lparr>v_release_status := st\<rparr>) t)"

definition set_visibility ::
  "uuid \<Rightarrow> string \<Rightarrow> string \<Rightarrow> voice_table \<Rightarrow> py_error + voice option \<times> voice_table" where
  "set_visibility tenant slug vis t =
     (if vis \<notin> visibility_values then Inl (ValueError ''invalid visibility'')
      else on_owned tenant slug (\<lambda>v. v\<lparr>v_visibility := vis\<rparr>) t)"

subsection \<open>Lifecycle writes, by database id\<close>

definition on_unpurged ::
  "uuid \<Rightarrow> (voice \<Rightarrow> voice) \<Rightarrow> voice_table \<Rightarrow> py_error + voice option \<times> voice_table" where
  "on_unpurged vid f t =
     (case get_by_id vid t of
        None \<Rightarrow> Inr (None, t)
      | Some v \<Rightarrow> if v_purged_at v \<noteq> None then Inr (Some v, t) else flush_voice (f v) t)"

definition day_ms :: millis where
  "day_ms = 86400000"

definition freeze_row :: "millis \<Rightarrow> ustr \<Rightarrow> int option \<Rightarrow> voice \<Rightarrow> voice" where
  "freeze_row now reason days v =
     (let v = (if v_frozen_at v = None then v\<lparr>v_frozen_at := Some now\<rparr> else v);
          v = v\<lparr>v_frozen_reason := Some reason\<rparr>
      in case days of
           None \<Rightarrow> v
         | Some n \<Rightarrow>
             (let scheduled = now + n * day_ms in
              case v_purge_after_at v of
                None \<Rightarrow> v\<lparr>v_purge_after_at := Some scheduled\<rparr>
              | Some p \<Rightarrow> if scheduled > p then v\<lparr>v_purge_after_at := Some scheduled\<rparr> else v))"

definition freeze_voice ::
  "uuid \<Rightarrow> millis \<Rightarrow> ustr \<Rightarrow> int option \<Rightarrow> voice_table \<Rightarrow> py_error + voice option \<times> voice_table" where
  "freeze_voice vid now reason days t = on_unpurged vid (freeze_row now reason days) t"

definition unfreeze_voice :: "uuid \<Rightarrow> voice_table \<Rightarrow> py_error + voice option \<times> voice_table" where
  "unfreeze_voice vid t =
     on_unpurged vid (\<lambda>v. v\<lparr>v_frozen_at := None, v_frozen_reason := None\<rparr>) t"

definition schedule_row :: "millis \<Rightarrow> int \<Rightarrow> voice \<Rightarrow> voice" where
  "schedule_row now days v =
     (let v = (if v_frozen_at v = None
               then v\<lparr>v_frozen_at := Some now,
                      v_frozen_reason := (case v_frozen_reason v of
                         Some r \<Rightarrow> if r = [] then Some (cps ''scheduled for purge'') else Some r
                       | None \<Rightarrow> Some (cps ''scheduled for purge''))\<rparr>
               else v)
      in v\<lparr>v_purge_after_at := Some (now + days * day_ms)\<rparr>)"

definition schedule_purge ::
  "uuid \<Rightarrow> millis \<Rightarrow> int \<Rightarrow> voice_table \<Rightarrow> py_error + voice option \<times> voice_table" where
  "schedule_purge vid now days t = on_unpurged vid (schedule_row now days) t"

definition default_purge_delay_days :: int where
  "default_purge_delay_days = 30"

definition pin_eval ::
  "uuid \<Rightarrow> dict \<Rightarrow> voice_table \<Rightarrow> py_error + voice option \<times> voice_table" where
  "pin_eval vid payload t =
     (if list_ex (\<lambda>k. map_of payload k = None) [''schema_version'', ''evaluated_at'', ''metrics'']
      then Inl (ValueError ''eval_metrics payload missing required keys'')
      else case map_of payload ''metrics'' of
             Some (JObj (m # ms)) \<Rightarrow> on_unpurged vid (\<lambda>v. v\<lparr>v_eval_metrics := Some payload\<rparr>) t
           | _ \<Rightarrow> Inl (ValueError ''eval_metrics payload metrics must be a non-empty dict''))"

definition purge_row :: "millis \<Rightarrow> voice \<Rightarrow> voice" where
  "purge_row ts v =
     v\<lparr>v_reference_uri := '''', v_reference_sha256 := replicate 64 CHR ''0'',
       v_adapter_uri := None, v_adapter_sha256 := None, v_adapter_type := None,
       v_display_name := cps ''[purged voice]'', v_description := None, v_labels := None,
       v_preview_url := None, v_settings_defaults := None, v_engine_params := [],
       v_eval_metrics := None, v_purged_at := Some ts\<rparr>"

definition execute_purge ::
  "uuid \<Rightarrow> millis \<Rightarrow> millis option \<Rightarrow> voice_table \<Rightarrow> py_error + voice option \<times> voice_table" where
  "execute_purge vid now purged_at t =
     on_unpurged vid (purge_row (case purged_at of Some a \<Rightarrow> a | None \<Rightarrow> now)) t"

subsection \<open>Grants\<close>

definition access_grant ::
  "uuid \<Rightarrow> millis \<Rightarrow> string \<Rightarrow> uuid \<Rightarrow> string \<Rightarrow> uuid option \<Rightarrow> voice_table \<Rightarrow> access_table
   \<Rightarrow> py_error + access option \<times> access_table" where
  "access_grant owner now slug grantee permission granted_by t acc =
     (if permission \<notin> {''use'', ''read''} then Inl (ValueError ''invalid permission'')
      else case find (\<lambda>v. v_owner v = owner \<and> v_voice_id v = slug \<and> v_deleted_at v = None) t of
             None \<Rightarrow> Inr (None, acc)
           | Some v \<Rightarrow>
               (let P = (\<lambda>a. ac_voice_id a = v_id v \<and> ac_tenant_id a = grantee) in
                case find P acc of
                  Some existing \<Rightarrow>
                    Inr (Some (existing\<lparr>ac_permission := permission, ac_granted_by := granted_by\<rparr>),
                         update_rows P (\<lambda>a. a\<lparr>ac_permission := permission, ac_granted_by := granted_by\<rparr>) acc)
                | None \<Rightarrow>
                    (let row = \<lparr>ac_tenant_id = grantee, ac_voice_id = v_id v, ac_permission = permission,
                                ac_granted_at = now, ac_granted_by = granted_by\<rparr>
                     in Inr (Some row, acc @ [row]))))"

definition access_revoke ::
  "uuid \<Rightarrow> string \<Rightarrow> uuid \<Rightarrow> voice_table \<Rightarrow> access_table \<Rightarrow> access_table \<times> nat" where
  "access_revoke owner slug grantee t acc =
     (case find (\<lambda>v. v_owner v = owner \<and> v_voice_id v = slug) t of
        None \<Rightarrow> (acc, 0)
      | Some v \<Rightarrow> delete_rows (\<lambda>a. ac_voice_id a = v_id v \<and> ac_tenant_id a = grantee) acc)"

definition list_grants :: "uuid \<Rightarrow> string \<Rightarrow> voice_table \<Rightarrow> access_table \<Rightarrow> access list" where
  "list_grants owner slug t acc =
     (case find (\<lambda>v. v_owner v = owner \<and> v_voice_id v = slug) t of
        None \<Rightarrow> []
      | Some v \<Rightarrow> sort_key ac_granted_at (filter (\<lambda>a. ac_voice_id a = v_id v) acc))"

subsection \<open>The viewer's reads\<close>

lemma first_of_sort: "first_of (sort_key f xs) = Some x \<Longrightarrow> x \<in> set xs"
  by (cases "sort_key f xs") (auto dest: arg_cong [where f = set])

lemma first_of_sort_None: "first_of (sort_key f xs) = None \<longleftrightarrow> xs = []"
proof -
  have "first_of ys = None \<longleftrightarrow> ys = []" for ys :: "'a list" by (cases ys) auto
  moreover have "sort_key f xs = [] \<longleftrightarrow> xs = []"
    by (metis length_0_conv length_sort)
  ultimately show ?thesis by simp
qed

lemma get_ownedD:
  "get_owned T slug t = Some v \<Longrightarrow>
     v \<in> set t \<and> v_owner v = T \<and> v_voice_id v = slug \<and> v_deleted_at v = None"
  by (auto simp: get_owned_def dest!: find_SomeD)

definition viewable :: "uuid \<Rightarrow> access_table \<Rightarrow> voice \<Rightarrow> bool" where
  "viewable T acc v \<longleftrightarrow> v_deleted_at v = None \<and>
     (v_owner v = T \<or> v_visibility v = ''public'' \<or>
      (\<exists>a\<in>set acc. ac_tenant_id a = T \<and> ac_voice_id a = v_id v))"

lemma in_granted: "x \<in> set (granted_voice_ids T acc) \<longleftrightarrow> (\<exists>a\<in>set acc. ac_tenant_id a = T \<and> ac_voice_id a = x)"
  by (auto simp: granted_voice_ids_def)

lemma viewable_granted:
  "viewable T acc v \<longleftrightarrow> v_deleted_at v = None \<and>
     (v_owner v = T \<or> v_visibility v = ''public'' \<or> v_id v \<in> set (granted_voice_ids T acc))"
  by (simp add: viewable_def in_granted)

lemma list_accessible_iff:
  "v \<in> set (list_accessible T False acc t) \<longleftrightarrow> v \<in> set t \<and> viewable T acc v"
  by (auto simp: list_accessible_def Let_def viewable_def in_granted)

lemma get_accessible_Some:
  assumes "get_accessible T slug acc t = Some v"
  shows "v \<in> set t \<and> v_voice_id v = slug \<and> viewable T acc v"
proof (cases "get_owned T slug t")
  case (Some w)
  with assms show ?thesis by (auto simp: get_accessible_def viewable_def dest: get_ownedD)
next
  case None
  with assms show ?thesis
    by (auto simp: get_accessible_def Let_def viewable_def in_granted split: option.splits
        dest!: first_of_sort)
qed

lemma get_accessible_None:
  "get_accessible T slug acc t = None \<longleftrightarrow> (\<forall>v\<in>set t. v_voice_id v = slug \<longrightarrow> \<not> viewable T acc v)"
proof -
  let ?shared = "filter (\<lambda>v. v_voice_id v = slug \<and> v_id v \<in> set (granted_voice_ids T acc) \<and> v_deleted_at v = None) t"
  let ?public = "filter (\<lambda>v. v_voice_id v = slug \<and> v_visibility v = ''public'' \<and> v_deleted_at v = None) t"
  have "get_accessible T slug acc t = None \<longleftrightarrow> get_owned T slug t = None \<and> ?shared = [] \<and> ?public = []"
    using first_of_sort_None [of v_created_at ?shared] first_of_sort_None [of v_created_at ?public]
    by (auto simp: get_accessible_def Let_def split: option.split)
  also have "\<dots> \<longleftrightarrow> (\<forall>v\<in>set t. v_voice_id v = slug \<longrightarrow> \<not> viewable T acc v)"
    unfolding get_owned_def find_None filter_empty_conv viewable_granted
      ball_conj_distrib [symmetric] by (intro ball_cong refl) argo
  finally show ?thesis .
qed

text \<open>
  The viewer check. \<open>get_accessible\<close> answers with a live row of the asked slug that the
  tenant owns, was granted, or that is public, a row \<open>list_accessible\<close> shows too; and it
  answers None exactly when \<open>list_accessible\<close> shows no row with that slug. A tenant that
  owns a live row of the slug always gets its own.
\<close>

theorem get_accessible_viewer:
  "(case get_accessible T slug acc t of
      Some v \<Rightarrow> v \<in> set (list_accessible T False acc t) \<and> v_voice_id v = slug
    | None \<Rightarrow> \<not> (\<exists>v. v \<in> set (list_accessible T False acc t) \<and> v_voice_id v = slug))
   \<and> (case get_owned T slug t of None \<Rightarrow> True | Some w \<Rightarrow> get_accessible T slug acc t = Some w)"
proof (intro conjI)
  show "case get_accessible T slug acc t of
      Some v \<Rightarrow> v \<in> set (list_accessible T False acc t) \<and> v_voice_id v = slug
    | None \<Rightarrow> \<not> (\<exists>v. v \<in> set (list_accessible T False acc t) \<and> v_voice_id v = slug)"
  proof (cases "get_accessible T slug acc t")
    case None
    then show ?thesis using get_accessible_None [of T slug acc t]
      by (simp add: list_accessible_iff) blast
  next
    case (Some v)
    then show ?thesis using get_accessible_Some [OF Some] by (simp add: list_accessible_iff)
  qed
  show "case get_owned T slug t of None \<Rightarrow> True | Some w \<Rightarrow> get_accessible T slug acc t = Some w"
    by (simp add: get_accessible_def split: option.split)
qed

subsection \<open>Writes\<close>

definition voice_inv :: "voice_table \<Rightarrow> bool" where
  "voice_inv t \<longleftrightarrow> distinct (map v_id t) \<and> distinct (map (\<lambda>v. (v_owner v, v_voice_id v)) t)
     \<and> list_all voice_checks t"

text \<open>The identity of a row: what no operation but \<open>create\<close> writes.\<close>

definition same_identity :: "voice \<Rightarrow> voice \<Rightarrow> bool" where
  "same_identity v w \<longleftrightarrow> v_id w = v_id v \<and> v_owner w = v_owner v \<and> v_voice_id w = v_voice_id v"

lemma voice_by_id: "voice_inv t \<Longrightarrow> v \<in> set t \<Longrightarrow> get_by_id (v_id v) t = Some v"
  unfolding get_by_id_def voice_inv_def by (simp add: find_by_key)

lemma flush_voice_rows:
  assumes "flush_voice w t = Inr (r, t')"
  shows "r = Some w \<and> voice_checks w \<and> t' = update_rows (\<lambda>x. v_id x = v_id w) (\<lambda>_. w) t"
  using assms by (auto simp: flush_voice_def split: if_splits)

lemma flush_voice_map:
  assumes inv: "voice_inv t" and v: "v \<in> set t" and id: "same_identity v w"
    and fl: "flush_voice w t = Inr (r, t')"
  shows "voice_inv t'"
    and "get_by_id (v_id v) t' = Some w"
    and "filter (\<lambda>x. v_id x \<noteq> v_id v) t' = filter (\<lambda>x. v_id x \<noteq> v_id v) t"
proof -
  have t': "t' = update_rows (\<lambda>x. v_id x = v_id w) (\<lambda>_. w) t" and chk: "voice_checks w"
    using flush_voice_rows [OF fl] by simp_all
  have sole: "x = v" if "x \<in> set t" "v_id x = v_id v" for x
    using inv v that unfolding voice_inv_def by (metis distinct_key_eq)
  have upd: "t' = map (\<lambda>x. if x = v then w else x) t"
    unfolding t' update_rows_def using sole id by (intro map_cong) (auto simp: same_identity_def)
  have "map v_id t' = map v_id t"
    and "map (\<lambda>v. (v_owner v, v_voice_id v)) t' = map (\<lambda>v. (v_owner v, v_voice_id v)) t"
    using id by (auto simp: upd same_identity_def)
  moreover have "list_all voice_checks t'"
    using inv chk by (auto simp: upd voice_inv_def list_all_iff)
  ultimately show "voice_inv t'" using inv by (simp add: voice_inv_def)
  have "w \<in> set t'" using v by (auto simp: upd)
  with \<open>voice_inv t'\<close> show "get_by_id (v_id v) t' = Some w"
    using voice_by_id id by (metis same_identity_def)
  show "filter (\<lambda>x. v_id x \<noteq> v_id v) t' = filter (\<lambda>x. v_id x \<noteq> v_id v) t"
    unfolding t' using id by (intro filter_update_rows_other) (auto simp: same_identity_def)
qed

text \<open>One call of an owner-only operation by a tenant.\<close>

inductive owner_step :: "uuid \<Rightarrow> voice_table \<Rightarrow> voice option \<Rightarrow> voice_table \<Rightarrow> bool" where
  os_patch: "update_metadata T slug p t = Inr (r, t') \<Longrightarrow> owner_step T t r t'"
| os_delete: "soft_delete T now slug t = Inr (r, t') \<Longrightarrow> owner_step T t r t'"
| os_release: "set_release_status T slug st t = Inr (r, t') \<Longrightarrow> owner_step T t r t'"
| os_visibility: "set_visibility T slug vis t = Inr (r, t') \<Longrightarrow> owner_step T t r t'"

text \<open>All four come down to: look up the owned row, flush a version of it.\<close>

lemma owner_step_shape:
  assumes "owner_step T t r t'"
  shows "(r = None \<and> t' = t) \<or>
         (\<exists>slug v w. get_owned T slug t = Some v \<and> same_identity v w \<and> flush_voice w t = Inr (r, t'))"
  using assms
  by (induction rule: owner_step.induct)
    (force simp: update_metadata_def soft_delete_def set_release_status_def set_visibility_def
      on_owned_def patch_voice_def same_identity_def split: option.splits if_splits)+

text \<open>
  Cross-tenant mutation is impossible. Whatever owner-only call a tenant makes, the
  catalog invariant (unique ids, one row per owner and slug, every CHECK) holds after it,
  the row it returns is its own, every row of another tenant stays as it was, and where
  it returns None (the 404 of the existence-leak rule) nothing changed at all.
\<close>

theorem owner_only_writes:
  assumes "voice_inv t" and "owner_step T t r t'"
  shows "voice_inv t' \<and> filter (\<lambda>v. v_owner v \<noteq> T) t' = filter (\<lambda>v. v_owner v \<noteq> T) t
         \<and> (case r of None \<Rightarrow> t' = t | Some w \<Rightarrow> v_owner w = T \<and> w \<in> set t')"
proof -
  consider "r = None" "t' = t"
    | slug v w where "get_owned T slug t = Some v" "same_identity v w" "flush_voice w t = Inr (r, t')"
    using owner_step_shape [OF assms(2)] by blast
  then show ?thesis
  proof cases
    case 1
    with assms(1) show ?thesis by simp
  next
    case 2
    have v: "v \<in> set t" "v_owner v = T" using get_ownedD [OF 2(1)] by simp_all
    have r: "r = Some w" and t': "t' = update_rows (\<lambda>x. v_id x = v_id w) (\<lambda>_. w) t"
      using flush_voice_rows [OF 2(3)] by simp_all
    have w: "v_owner w = T" "v_id w = v_id v" using 2(2) v by (simp_all add: same_identity_def)
    have own: "v_owner x = T" if "x \<in> set t" "v_id x = v_id w" for x
      using assms(1) v w that unfolding voice_inv_def by (metis distinct_key_eq)
    have "filter (\<lambda>v. v_owner v \<noteq> T) t' = filter (\<lambda>v. v_owner v \<noteq> T) t"
      unfolding t' update_rows_def filter_map o_def
      using own w by (induction t) auto
    moreover have "w \<in> set t'"
      using v w unfolding t' set_update_rows by force
    ultimately show ?thesis
      using flush_voice_map(1) [OF assms(1) v(1) 2(2,3)] r w by simp
  qed
qed

definition sample_voice :: voice where
  "sample_voice =
     \<lparr>v_id = 10, v_owner = 1, v_voice_id = ''ayse'', v_display_name = cps ''Ayse'', v_language = ''tr'',
      v_gender = ''female'', v_style_tags = [], v_reference_uri = ''file:///r.wav'',
      v_reference_sha256 = replicate 64 CHR ''a'', v_reference_seconds = 5, v_reference_sample_rate = 16000,
      v_source = ''tenant-enroll'', v_license_kind = ''user-owned'', v_license_ref = None,
      v_visibility = ''shared'', v_engine_params = [], v_description = None, v_labels = None,
      v_preview_url = None, v_settings_defaults = None, v_adapter_uri = None, v_adapter_sha256 = None,
      v_adapter_type = None, v_watermark_key_id = None, v_watermark_enabled = True, v_eval_metrics = None,
      v_release_status = ''draft'', v_created_by_key_id = None, v_created_at = 0, v_deleted_at = None,
      v_frozen_at = None, v_frozen_reason = None, v_purge_after_at = None, v_purged_at = None\<rparr>"

lemma sample_voice_checks: "voice_checks sample_voice"
  by (simp add: voice_checks_def sample_voice_def slug_shape_def slug_edge_def slug_inner_def)

lemma sample_voice_inv: "voice_inv [sample_voice]"
  using sample_voice_checks by (simp add: voice_inv_def)

theorem owner_only_writes_witness:
  "voice_inv [sample_voice] \<and> filter (\<lambda>v. v_owner v \<noteq> 2) [sample_voice] = [sample_voice]"
proof -
  have "owner_step 2 [sample_voice] None [sample_voice]"
    by (rule os_delete [of _ 0 "''ayse''"])
      (simp add: soft_delete_def on_owned_def get_owned_def sample_voice_def)
  from owner_only_writes [OF sample_voice_inv this] show ?thesis by (simp add: sample_voice_def)
qed

text \<open>
  A grant outlives the switch to private. After the owner sets its voice to
  \<open>private\<close>, a tenant that holds an old \<open>voice_access\<close> row still lists the voice and still
  resolves its slug to it, although the table's comment says private voices ignore grants
  and \<open>set_visibility\<close> calls such rows latent.
\<close>

theorem private_voice_still_granted:
  assumes inv: "voice_inv t" and v: "get_owned owner slug t = Some v"
    and grant: "a \<in> set acc" "ac_tenant_id a = G" "ac_voice_id a = v_id v"
    and sole: "\<forall>u\<in>set t. v_voice_id u = slug \<longrightarrow> u = v"
  shows "\<exists>w t'. set_visibility owner slug ''private'' t = Inr (Some w, t') \<and> v_visibility w = ''private''
           \<and> v_id w = v_id v \<and> w \<in> set (list_accessible G False acc t') \<and> get_accessible G slug acc t' = Some w"
proof -
  let ?w = "v\<lparr>v_visibility := ''private''\<rparr>"
  note vD = get_ownedD [OF v]
  have "voice_checks v" using inv vD by (simp add: voice_inv_def list_all_iff)
  then have chk: "voice_checks ?w" by (simp add: voice_checks_def)
  let ?t = "update_rows (\<lambda>x. v_id x = v_id v) (\<lambda>_. ?w) t"
  have set: "set_visibility owner slug ''private'' t = Inr (Some ?w, ?t)"
    using v chk by (simp add: set_visibility_def visibility_values_def on_owned_def flush_voice_def)
  have w: "?w \<in> set ?t" using vD by (force simp: set_update_rows)
  have view: "viewable G acc ?w"
    using vD grant by (auto simp: viewable_def)
  have "u = ?w" if "u \<in> set ?t" "v_voice_id u = slug" for u
    using that sole vD by (auto simp: set_update_rows split: if_splits)
  moreover have "get_accessible G slug acc ?t \<noteq> None"
    using w view vD by (auto simp: get_accessible_None intro!: bexI [OF _ w])
  ultimately have "get_accessible G slug acc ?t = Some ?w"
    using get_accessible_Some [of G slug acc ?t] by (metis not_None_eq)
  with set w view show ?thesis by (auto simp: list_accessible_iff)
qed

theorem private_voice_still_granted_witness:
  "\<exists>w t'. set_visibility 1 ''ayse'' ''private'' [sample_voice] = Inr (Some w, t') \<and> v_visibility w = ''private''
     \<and> v_id w = 10 \<and> w \<in> set (list_accessible 2 False [\<lparr>ac_tenant_id = 2, ac_voice_id = 10,
        ac_permission = ''use'', ac_granted_at = 0, ac_granted_by = None\<rparr>] t')
     \<and> get_accessible 2 ''ayse'' [\<lparr>ac_tenant_id = 2, ac_voice_id = 10,
        ac_permission = ''use'', ac_granted_at = 0, ac_granted_by = None\<rparr>] t' = Some w"
  using private_voice_still_granted [OF sample_voice_inv, of 1 "''ayse''" sample_voice
      "\<lparr>ac_tenant_id = 2, ac_voice_id = 10, ac_permission = ''use'', ac_granted_at = 0, ac_granted_by = None\<rparr>"
      "[\<lparr>ac_tenant_id = 2, ac_voice_id = 10, ac_permission = ''use'', ac_granted_at = 0, ac_granted_by = None\<rparr>]" 2]
  by (simp add: get_owned_def sample_voice_def)

subsection \<open>Lifecycle\<close>

lemma on_unpurged_row:
  assumes inv: "voice_inv t" and v: "get_by_id vid t = Some v"
    and id: "same_identity v (f v)" and run: "on_unpurged vid f t = Inr (r, t')"
  shows "voice_inv t' \<and> get_by_id vid t' = Some (if v_purged_at v \<noteq> None then v else f v)"
proof (cases "v_purged_at v")
  case (Some p)
  with run v inv show ?thesis by (auto simp: on_unpurged_def)
next
  case None
  have "v \<in> set t" "v_id v = vid" using v by (auto simp: get_by_id_def dest!: find_SomeD)
  moreover have "flush_voice (f v) t = Inr (r, t')"
    using run v None by (simp add: on_unpurged_def)
  ultimately show ?thesis
    using flush_voice_map [OF inv _ id] None by auto
qed

lemma same_identity_rows [simp]:
  "same_identity v (freeze_row now reason days v)"
  "same_identity v (v\<lparr>v_frozen_at := x, v_frozen_reason := y\<rparr>)"
  "same_identity v (schedule_row now n v)"
  "same_identity v (v\<lparr>v_eval_metrics := e\<rparr>)"
  "same_identity v (purge_row now v)"
  by (simp_all add: same_identity_def freeze_row_def schedule_row_def purge_row_def Let_def
      split: option.split)

lemma purge_schedule_kept:
  "v_purge_after_at v \<noteq> None \<Longrightarrow> v_purge_after_at (freeze_row now reason days v) \<noteq> None"
  "v_purge_after_at (schedule_row now n v) \<noteq> None"
  "v_purge_after_at (purge_row now v) = v_purge_after_at v"
  by (simp_all add: freeze_row_def schedule_row_def purge_row_def Let_def split: option.split)

text \<open>One lifecycle call on the voice, through the operator or the tenant routes.\<close>

inductive life_step :: "uuid \<Rightarrow> voice_table \<Rightarrow> voice_table \<Rightarrow> bool" where
  ls_freeze: "freeze_voice vid now reason days t = Inr (r, t') \<Longrightarrow> life_step vid t t'"
| ls_unfreeze: "unfreeze_voice vid t = Inr (r, t') \<Longrightarrow> life_step vid t t'"
| ls_schedule: "schedule_purge vid now days t = Inr (r, t') \<Longrightarrow> life_step vid t t'"
| ls_pin: "pin_eval vid payload t = Inr (r, t') \<Longrightarrow> life_step vid t t'"
| ls_purge: "execute_purge vid now ts t = Inr (r, t') \<Longrightarrow> life_step vid t t'"

inductive life_run :: "uuid \<Rightarrow> voice_table \<Rightarrow> voice_table \<Rightarrow> bool" where
  lr_refl: "life_run vid t t"
| lr_step: "life_run vid t t' \<Longrightarrow> life_step vid t' t'' \<Longrightarrow> life_run vid t t''"

lemma life_step_shape:
  "life_step vid t t' \<Longrightarrow> \<exists>f r. on_unpurged vid f t = Inr (r, t') \<and>
     (\<forall>v. same_identity v (f v) \<and> (v_purge_after_at v \<noteq> None \<longrightarrow> v_purge_after_at (f v) \<noteq> None))"
proof (induction rule: life_step.induct)
  case (ls_freeze vid now reason days t r t')
  then show ?case
    by (intro exI [of _ "freeze_row now reason days"] exI [of _ r]) (simp add: freeze_voice_def purge_schedule_kept)
next
  case (ls_unfreeze vid t r t')
  then show ?case
    by (intro exI [of _ "\<lambda>v. v\<lparr>v_frozen_at := None, v_frozen_reason := None\<rparr>"] exI [of _ r])
      (simp add: unfreeze_voice_def)
next
  case (ls_schedule vid now days t r t')
  then show ?case
    by (intro exI [of _ "schedule_row now days"] exI [of _ r]) (simp add: schedule_purge_def purge_schedule_kept)
next
  case (ls_pin vid payload t r t')
  then show ?case
    by (intro exI [of _ "\<lambda>v. v\<lparr>v_eval_metrics := Some payload\<rparr>"] exI [of _ r])
      (auto simp: pin_eval_def split: if_splits option.splits json.splits list.splits)
next
  case (ls_purge vid now ts t r t')
  then show ?case
    by (intro exI [of _ "purge_row (case ts of Some a \<Rightarrow> a | None \<Rightarrow> now)"] exI [of _ r])
      (simp add: execute_purge_def purge_schedule_kept)
qed

lemma life_step_row:
  assumes "life_step vid t t'" "voice_inv t" "get_by_id vid t = Some v"
  obtains w where "voice_inv t'" "get_by_id vid t' = Some w" "v_purged_at v \<noteq> None \<Longrightarrow> w = v"
    "v_purge_after_at v \<noteq> None \<Longrightarrow> v_purge_after_at w \<noteq> None"
proof -
  from life_step_shape [OF assms(1)] obtain f r where
    f: "on_unpurged vid f t = Inr (r, t')" "same_identity v (f v)"
      "v_purge_after_at v \<noteq> None \<Longrightarrow> v_purge_after_at (f v) \<noteq> None" by blast
  from on_unpurged_row [OF assms(2,3) f(2,1)]
  show thesis using f(3) by (intro that [of "if v_purged_at v \<noteq> None then v else f v"]) auto
qed

text \<open>
  No way back from a scheduled purge. Once \<open>purge_after_at\<close> is set, no sequence of
  freeze, unfreeze, schedule, eval-pin and purge calls brings the voice back to \<open>active\<close>
  or even to \<open>frozen\<close>, so it never becomes synthesizable again; and a purged row is never
  changed by any of them.
\<close>

theorem purge_schedule_irrevocable:
  assumes "life_run vid t t'" and "voice_inv t" and "get_by_id vid t = Some v"
    and "v_purge_after_at v \<noteq> None"
  shows "\<exists>w. get_by_id vid t' = Some w
           \<and> lifecycle_state w \<in> {''purge-pending'', ''deleted'', ''purged''}
           \<and> (v_purged_at v \<noteq> None \<longrightarrow> w = v)"
proof -
  from assms have "voice_inv t' \<and> (\<exists>w. get_by_id vid t' = Some w \<and> v_purge_after_at w \<noteq> None
      \<and> (v_purged_at v \<noteq> None \<longrightarrow> w = v))"
  proof (induction rule: life_run.induct)
    case (lr_refl vid t)
    then show ?case by auto
  next
    case (lr_step vid t t' t'')
    then obtain w where w: "voice_inv t'" "get_by_id vid t' = Some w" "v_purge_after_at w \<noteq> None"
      "v_purged_at v \<noteq> None \<longrightarrow> w = v" by blast
    show ?case
      using life_step_row [OF lr_step.hyps(2) w(1,2)] w(3,4) by metis
  qed
  then show ?thesis by (auto simp: lifecycle_state_def)
qed

theorem purge_schedule_irrevocable_witness:
  "\<exists>w. get_by_id 10 [sample_voice\<lparr>v_purge_after_at := Some 9\<rparr>] = Some w
     \<and> lifecycle_state w \<in> {''purge-pending'', ''deleted'', ''purged''}
     \<and> (v_purged_at (sample_voice\<lparr>v_purge_after_at := Some 9\<rparr>) \<noteq> None \<longrightarrow> w = sample_voice\<lparr>v_purge_after_at := Some 9\<rparr>)"
proof (rule purge_schedule_irrevocable [OF lr_refl])
  show "voice_inv [sample_voice\<lparr>v_purge_after_at := Some 9\<rparr>]"
    using sample_voice_checks by (simp add: voice_inv_def voice_checks_def sample_voice_def)
qed (simp_all add: get_by_id_def sample_voice_def)

text \<open>
  Purging. On a live row whose schedule has passed, the purge scrubs every field that
  points at audio or carries personal data, keeps the row's identity, and a second purge
  changes nothing; before the schedule, the CHECK constraint makes the flush raise and
  nothing is scrubbed.
\<close>

theorem execute_purge_scrubs:
  assumes "voice_inv t" and "get_by_id vid t = Some v" and "v_purged_at v = None"
  shows "(if opt_le (v_purge_after_at v) (Some now)
          then \<exists>w t'. execute_purge vid now None t = Inr (Some w, t') \<and> get_by_id vid t' = Some w
                 \<and> same_identity v w \<and> lifecycle_state w = ''purged'' \<and> v_reference_uri w = []
                 \<and> v_adapter_uri w = None \<and> v_description w = None \<and> v_labels w = None
                 \<and> v_settings_defaults w = None \<and> v_engine_params w = [] \<and> v_eval_metrics w = None
                 \<and> execute_purge vid later None t' = Inr (Some w, t')
          else execute_purge vid now None t = Inl IntegrityError)"
proof -
  have v: "v \<in> set t" using assms(2) by (auto simp: get_by_id_def dest!: find_SomeD)
  have "voice_checks v" using assms(1) v by (simp add: voice_inv_def list_all_iff)
  then have chk: "voice_checks (purge_row now v) \<longleftrightarrow> opt_le (v_purge_after_at v) (Some now)"
    by (simp add: voice_checks_def purge_row_def)
  show ?thesis
  proof (cases "opt_le (v_purge_after_at v) (Some now)")
    case False
    with assms chk show ?thesis by (simp add: execute_purge_def on_unpurged_def flush_voice_def)
  next
    case True
    let ?w = "purge_row now v" and ?t = "update_rows (\<lambda>x. v_id x = v_id (purge_row now v)) (\<lambda>_. purge_row now v) t"
    have run: "execute_purge vid now None t = Inr (Some ?w, ?t)"
      using assms chk True by (simp add: execute_purge_def on_unpurged_def flush_voice_def)
    then have "get_by_id vid ?t = Some ?w"
      using on_unpurged_row [OF assms(1,2), of "purge_row now" "Some ?w" ?t] assms(3)
      by (simp add: execute_purge_def)
    moreover from this have "execute_purge vid later None ?t = Inr (Some ?w, ?t)"
      by (simp add: execute_purge_def on_unpurged_def) (simp add: purge_row_def)
    ultimately show ?thesis using True run
      by (simp add: lifecycle_state_def purge_row_def same_identity_def)
  qed
qed

theorem execute_purge_scrubs_witness:
  "execute_purge 10 5 None [sample_voice\<lparr>v_purge_after_at := Some 9\<rparr>] = Inl IntegrityError"
proof -
  have "voice_inv [sample_voice\<lparr>v_purge_after_at := Some 9\<rparr>]"
    using sample_voice_checks by (simp add: voice_inv_def voice_checks_def sample_voice_def)
  from execute_purge_scrubs [OF this, of 10 "sample_voice\<lparr>v_purge_after_at := Some 9\<rparr>" 5 6]
  show ?thesis by (simp add: get_by_id_def sample_voice_def)
qed

end
