(* ===== verification/Governance.thy ===== *)
theory Governance
  imports NV_Prelude
begin

text \<open>
  The governance records around a voice: watermark key allocations
  (\<^verbatim>\<open>src/repos/watermark.py\<close>), consent records (\<^verbatim>\<open>src/repos/voice_consent.py\<close>), talent
  contracts (\<^verbatim>\<open>src/repos/talent_contract.py\<close>) and data deletion tickets
  (\<^verbatim>\<open>src/repos/data_deletion.py\<close>), each over its table with the constraints of
  \<^verbatim>\<open>src/db/models.py\<close>. Fresh ids and random draws are arguments.
\<close>

subsection \<open>Watermark keys\<close>

record wm_key =
  wk_id :: uuid
  wk_message_bits :: int
  wk_label :: ustr
  wk_allocated_at :: millis
  wk_retired_at :: "millis option"
  wk_retired_reason :: "ustr option"
  wk_notes :: "ustr option"
  wk_created_by :: "uuid option"

type_synonym wm_table = "wm_key list"

definition max_payload :: int where
  "max_payload = 65535"

definition wm_checks :: "wm_key \<Rightarrow> bool" where
  "wm_checks k \<longleftrightarrow> 0 \<le> wk_message_bits k \<and> wk_message_bits k \<le> 65535
     \<and> 1 \<le> length (wk_label k) \<and> length (wk_label k) \<le> 200
     \<and> (case wk_retired_at k of None \<Rightarrow> True | Some r \<Rightarrow> r \<ge> wk_allocated_at k)"

text \<open>Primary key, and the partial unique index on the bits of active keys.\<close>

definition wm_clash :: "wm_key \<Rightarrow> wm_key \<Rightarrow> bool" where
  "wm_clash k k' \<longleftrightarrow> wk_id k' = wk_id k \<or>
     (wk_retired_at k = None \<and> wk_retired_at k' = None \<and> wk_message_bits k' = wk_message_bits k)"

definition wm_get :: "uuid \<Rightarrow> wm_table \<Rightarrow> wm_key option" where
  "wm_get kid t = find (\<lambda>k. wk_id k = kid) t"

definition wm_get_active :: "uuid \<Rightarrow> wm_table \<Rightarrow> wm_key option" where
  "wm_get_active kid t = find (\<lambda>k. wk_id k = kid \<and> wk_retired_at k = None) t"

definition get_active_by_bits :: "int \<Rightarrow> wm_table \<Rightarrow> wm_key option" where
  "get_active_by_bits bits t = find (\<lambda>k. wk_message_bits k = bits \<and> wk_retired_at k = None) t"

definition list_by_bits :: "int \<Rightarrow> wm_table \<Rightarrow> wm_key list" where
  "list_by_bits bits t = sort_key (\<lambda>k. - wk_allocated_at k) (filter (\<lambda>k. wk_message_bits k = bits) t)"

definition wm_list_active :: "wm_table \<Rightarrow> wm_key list" where
  "wm_list_active t = sort_key (\<lambda>k. - wk_allocated_at k) (filter (\<lambda>k. wk_retired_at k = None) t)"

text \<open>The 128 probes; \<open>draws\<close> are the values \<open>secrets.randbelow(65536)\<close> returns.\<close>

definition next_unused_bits :: "int list \<Rightarrow> wm_table \<Rightarrow> int option" where
  "next_unused_bits draws t = find (\<lambda>c. get_active_by_bits c t = None) (take 128 draws)"

definition wm_insert :: "wm_key \<Rightarrow> wm_table \<Rightarrow> py_error + wm_table" where
  "wm_insert k t = (if \<not> wm_checks k then Inl IntegrityError else insert_row wm_clash k t)"

definition wm_allocate ::
  "uuid \<Rightarrow> millis \<Rightarrow> int list \<Rightarrow> ustr \<Rightarrow> uuid option \<Rightarrow> ustr option \<Rightarrow> int option \<Rightarrow> wm_table
   \<Rightarrow> py_error + wm_key \<times> wm_table" where
  "wm_allocate kid now draws label created_by notes message_bits t =
     (let chosen = (case message_bits of
            None \<Rightarrow> (case next_unused_bits draws t of
                       None \<Rightarrow> Inl (ValueError ''no free 16-bit watermark slots'')
                     | Some c \<Rightarrow> Inr c)
          | Some b \<Rightarrow>
              if \<not> (0 \<le> b \<and> b \<le> max_payload) then Inl (ValueError ''message_bits must be in 0..65535'')
              else if get_active_by_bits b t \<noteq> None then Inl (ValueError ''message_bits is already held'')
              else Inr b)
      in case chosen of
           Inl e \<Rightarrow> Inl e
         | Inr bits \<Rightarrow>
             (let key = \<lparr>wk_id = kid, wk_message_bits = bits, wk_label = label, wk_allocated_at = now,
                         wk_retired_at = None, wk_retired_reason = None, wk_notes = notes,
                         wk_created_by = created_by\<rparr>
              in case wm_insert key t of Inl e \<Rightarrow> Inl e | Inr t' \<Rightarrow> Inr (key, t')))"

definition wm_retire ::
  "uuid \<Rightarrow> millis \<Rightarrow> ustr option \<Rightarrow> millis option \<Rightarrow> wm_table \<Rightarrow> py_error + wm_key option \<times> wm_table" where
  "wm_retire kid now reason retired_at t =
     (case wm_get kid t of
        None \<Rightarrow> Inr (None, t)
      | Some k \<Rightarrow>
          if wk_retired_at k \<noteq> None then Inr (Some k, t)
          else (let k' = k\<lparr>wk_retired_at := Some (case retired_at of Some r \<Rightarrow> r | None \<Rightarrow> now),
                           wk_retired_reason := reason\<rparr>
                in if \<not> wm_checks k' then Inl IntegrityError
                   else Inr (Some k', update_rows (\<lambda>x. wk_id x = kid) (\<lambda>_. k') t)))"

definition active_bits :: "wm_table \<Rightarrow> int list" where
  "active_bits t = map wk_message_bits (filter (\<lambda>k. wk_retired_at k = None) t)"

definition wm_inv :: "wm_table \<Rightarrow> bool" where
  "wm_inv t \<longleftrightarrow> distinct (map wk_id t) \<and> distinct (active_bits t) \<and> list_all wm_checks t"

inductive wm_step :: "wm_table \<Rightarrow> wm_table \<Rightarrow> bool" where
  wm_alloc: "wm_allocate kid now draws label by notes bits t = Inr (k, t') \<Longrightarrow> wm_step t t'"
| wm_ret: "wm_retire kid now reason ts t = Inr (r, t') \<Longrightarrow> wm_step t t'"

inductive wm_reach :: "wm_table \<Rightarrow> bool" where
  wm_start: "wm_reach []"
| wm_next: "wm_reach t \<Longrightarrow> wm_step t t' \<Longrightarrow> wm_reach t'"

lemma wm_allocate_Inr:
  assumes "wm_allocate kid now draws label by notes bits t = Inr (k, t')"
  shows "wm_checks k \<and> wk_id k = kid \<and> wk_retired_at k = None \<and> t' = t @ [k]
         \<and> get_active_by_bits (wk_message_bits k) t = None \<and> kid \<notin> wk_id ` set t"
  using assms
  by (auto simp: wm_allocate_def wm_insert_def insert_row_def Let_def list_ex_iff wm_clash_def
      get_active_by_bits_def find_None split: sum.splits option.splits if_splits)

lemma active_bits_fresh: "get_active_by_bits b t = None \<longleftrightarrow> b \<notin> set (active_bits t)"
  by (auto simp: get_active_by_bits_def find_None active_bits_def)

lemma wm_allocate_inv:
  "wm_inv t \<Longrightarrow> wm_allocate kid now draws label by notes bits t = Inr (k, t') \<Longrightarrow> wm_inv t'"
  by (drule wm_allocate_Inr) (auto simp: wm_inv_def active_bits_fresh, auto simp: active_bits_def)

lemma wm_retire_inv:
  assumes inv: "wm_inv t" and ret: "wm_retire kid now reason ts t = Inr (r, t')"
  shows "wm_inv t'"
proof (cases "wm_get kid t")
  case None
  with assms show ?thesis by (simp add: wm_retire_def)
next
  case (Some k)
  show ?thesis
  proof (cases "wk_retired_at k")
    case (Some x)
    with assms \<open>wm_get kid t = Some k\<close> show ?thesis by (simp add: wm_retire_def)
  next
    case None
    have k: "k \<in> set t" "wk_id k = kid" using Some by (auto simp: wm_get_def dest!: find_SomeD)
    define k' where "k' = k\<lparr>wk_retired_at := Some (case ts of Some r \<Rightarrow> r | None \<Rightarrow> now), wk_retired_reason := reason\<rparr>"
    have t': "t' = update_rows (\<lambda>x. wk_id x = kid) (\<lambda>_. k') t" and chk: "wm_checks k'"
      using ret Some None by (auto simp: wm_retire_def Let_def k'_def split: if_splits)
    have "map wk_id t' = map wk_id t"
      unfolding t' by (rule map_update_rows) (simp add: k'_def k)
    moreover have "distinct (active_bits t')"
      using inv unfolding wm_inv_def t' active_bits_def
      by (subst filter_update_rows_drop)
        (simp_all add: k'_def distinct_map_filter' del: filter_filter)
    moreover have "list_all wm_checks t'"
      using inv chk unfolding t' wm_inv_def by (auto intro!: list_all_update_rows)
    ultimately show ?thesis using inv by (simp add: wm_inv_def)
  qed
qed

lemma wm_reach_inv: "wm_reach t \<Longrightarrow> wm_inv t"
proof (induction rule: wm_reach.induct)
  case wm_start
  show ?case by (simp add: wm_inv_def active_bits_def)
next
  case (wm_next t t')
  then show ?case by (auto elim!: wm_step.cases intro: wm_allocate_inv wm_retire_inv)
qed

text \<open>
  A detected payload names one allocation. In every table the repository can reach,
  active keys hold distinct 16-bit payloads; an allocation gives a payload no active key
  held, looking that payload up finds exactly the new key, and its history now includes it.
\<close>

theorem watermark_allocation_unique:
  assumes "wm_reach t" and "wm_allocate kid now draws label by notes bits t = Inr (k, t')"
  shows "distinct (active_bits t') \<and> list_all wm_checks t'
         \<and> get_active_by_bits (wk_message_bits k) t = None
         \<and> get_active_by_bits (wk_message_bits k) t' = Some k
         \<and> wm_get_active kid t' = Some k \<and> k \<in> set (list_by_bits (wk_message_bits k) t')"
proof -
  note k = wm_allocate_Inr [OF assms(2)]
  have "wm_reach t'" using assms wm_next wm_alloc by blast
  then have "wm_inv t'" by (rule wm_reach_inv)
  moreover have "get_active_by_bits (wk_message_bits k) t' = Some k"
  proof -
    have "find (\<lambda>x. wk_message_bits x = wk_message_bits k \<and> wk_retired_at x = None) t = None"
      using k by (simp add: get_active_by_bits_def)
    then show ?thesis using k by (simp add: get_active_by_bits_def find_append)
  qed
  moreover have "wm_get_active kid t' = Some k"
    using k by (auto simp: wm_get_active_def find_append split: option.split dest!: find_SomeD)
      (metis imageI)
  ultimately show ?thesis using k by (simp add: wm_inv_def list_by_bits_def)
qed

theorem watermark_allocation_unique_witness:
  "get_active_by_bits 7 [\<lparr>wk_id = 1, wk_message_bits = 7, wk_label = [65], wk_allocated_at = 0,
      wk_retired_at = None, wk_retired_reason = None, wk_notes = None, wk_created_by = None\<rparr>] =
     Some \<lparr>wk_id = 1, wk_message_bits = 7, wk_label = [65], wk_allocated_at = 0,
      wk_retired_at = None, wk_retired_reason = None, wk_notes = None, wk_created_by = None\<rparr>"
  using watermark_allocation_unique [OF wm_start, of 1 0 "[7]" "[65]" None None None
      "\<lparr>wk_id = 1, wk_message_bits = 7, wk_label = [65], wk_allocated_at = 0,
      wk_retired_at = None, wk_retired_reason = None, wk_notes = None, wk_created_by = None\<rparr>"]
  by (simp add: wm_allocate_def next_unused_bits_def get_active_by_bits_def wm_insert_def wm_checks_def
      insert_row_def)

text \<open>
  The randomised probe can give up early. When 128 draws all hit one taken payload, the
  allocation reports that no slot is free although only a single one of the 65536 is taken;
  the docstring promises that error only for a full table.
\<close>

theorem allocate_gives_up_early:
  assumes "get_active_by_bits c t \<noteq> None"
  shows "wm_allocate kid now (replicate 128 c) label by notes None t
           = Inl (ValueError ''no free 16-bit watermark slots'')"
proof -
  have "find (\<lambda>d. get_active_by_bits d t = None) (replicate n c) = None" for n
    using assms by (simp add: find_None)
  then show ?thesis by (simp add: wm_allocate_def next_unused_bits_def)
qed

theorem allocate_gives_up_early_witness:
  "wm_allocate 2 0 (replicate 128 7) [65] None None None
     [\<lparr>wk_id = 1, wk_message_bits = 7, wk_label = [65], wk_allocated_at = 0, wk_retired_at = None,
       wk_retired_reason = None, wk_notes = None, wk_created_by = None\<rparr>]
   = Inl (ValueError ''no free 16-bit watermark slots'')"
  by (rule allocate_gives_up_early) (simp add: get_active_by_bits_def)

subsection \<open>Consent records\<close>

record consent =
  cr_id :: uuid
  cr_voice_id :: uuid
  cr_consent_kind :: string
  cr_evidence_uri :: "string option"
  cr_evidence_sha256 :: "string option"
  cr_evidence_notes :: "ustr option"
  cr_recorded_at :: millis
  cr_recorded_by_kind :: string
  cr_recorded_by_actor_id :: "uuid option"
  cr_revoked_at :: "millis option"
  cr_revoked_reason :: "ustr option"

type_synonym consent_table = "consent list"

definition hex64 :: "string \<Rightarrow> bool" where
  "hex64 s \<longleftrightarrow> length s = 64 \<and> list_all (\<lambda>c. c \<in> set ''0123456789abcdef'') s"

definition consent_checks :: "consent \<Rightarrow> bool" where
  "consent_checks r \<longleftrightarrow>
     cr_consent_kind r \<in> {''tenant-asserted'', ''recorded-statement'', ''signed-contract'', ''estate-permission''}
     \<and> cr_recorded_by_kind r \<in> {''tenant'', ''operator''}
     \<and> (cr_consent_kind r = ''tenant-asserted'') = (cr_evidence_uri r = None)
     \<and> (case cr_evidence_sha256 r of None \<Rightarrow> True | Some h \<Rightarrow> hex64 h)
     \<and> (case cr_revoked_at r of None \<Rightarrow> True | Some x \<Rightarrow> x \<ge> cr_recorded_at r)"

definition latest_active :: "uuid \<Rightarrow> consent_table \<Rightarrow> consent option" where
  "latest_active vid t =
     (case sort_key (\<lambda>r. - cr_recorded_at r)
             (filter (\<lambda>r. cr_voice_id r = vid \<and> cr_revoked_at r = None) t) of
        [] \<Rightarrow> None | r # _ \<Rightarrow> Some r)"

definition list_for_voice :: "uuid \<Rightarrow> bool \<Rightarrow> consent_table \<Rightarrow> consent list" where
  "list_for_voice vid include_revoked t =
     sort_key (\<lambda>r. - cr_recorded_at r)
       (filter (\<lambda>r. cr_voice_id r = vid \<and> (include_revoked \<or> cr_revoked_at r = None)) t)"

definition consent_record ::
  "uuid \<Rightarrow> millis \<Rightarrow> uuid \<Rightarrow> string \<Rightarrow> string \<Rightarrow> uuid option \<Rightarrow> string option \<Rightarrow> string option
   \<Rightarrow> ustr option \<Rightarrow> consent_table \<Rightarrow> py_error + consent \<times> consent_table" where
  "consent_record cid now vid kind by_kind actor uri sha notes t =
     (if kind = ''tenant-asserted'' \<and> uri \<noteq> None
      then Inl (ValueError ''tenant-asserted consent must have evidence_uri=None'')
      else if kind \<noteq> ''tenant-asserted'' \<and> uri = None
      then Inl (ValueError ''consent_kind requires a non-null evidence_uri'')
      else
        (let r = \<lparr>cr_id = cid, cr_voice_id = vid, cr_consent_kind = kind, cr_evidence_uri = uri,
                  cr_evidence_sha256 = sha, cr_evidence_notes = notes, cr_recorded_at = now,
                  cr_recorded_by_kind = by_kind, cr_recorded_by_actor_id = actor,
                  cr_revoked_at = None, cr_revoked_reason = None\<rparr>
         in if \<not> consent_checks r \<or> cid \<in> cr_id ` set t then Inl IntegrityError
            else Inr (r, t @ [r])))"

definition consent_revoke ::
  "uuid \<Rightarrow> millis \<Rightarrow> ustr option \<Rightarrow> millis option \<Rightarrow> consent_table
   \<Rightarrow> py_error + consent option \<times> consent_table" where
  "consent_revoke cid now reason revoked_at t =
     (case find (\<lambda>r. cr_id r = cid) t of
        None \<Rightarrow> Inr (None, t)
      | Some r \<Rightarrow>
          if cr_revoked_at r \<noteq> None then Inr (None, t)
          else (let r' = r\<lparr>cr_revoked_at := Some (case revoked_at of Some x \<Rightarrow> x | None \<Rightarrow> now),
                           cr_revoked_reason := reason\<rparr>
                in if \<not> consent_checks r' then Inl IntegrityError
                   else Inr (Some r', update_rows (\<lambda>x. cr_id x = cid) (\<lambda>_. r') t)))"

lemma sort_key_first:
  assumes "sort_key f xs = x # ys"
  shows "x \<in> set xs \<and> (\<forall>y\<in>set xs. f x \<le> f y)"
proof -
  have "set (sort_key f xs) = set xs" by simp
  moreover have "sorted (map f (sort_key f xs))" by simp
  ultimately show ?thesis using assms by auto
qed

text \<open>
  The consent gate. \<open>latest_active\<close> answers None exactly when every consent record of
  the voice is revoked, and otherwise the most recent unrevoked one, so revoking a newer
  record brings an older unrevoked one back into force.
\<close>

theorem latest_active_gate:
  "(case latest_active vid t of
      None \<Rightarrow> filter (\<lambda>r. cr_voice_id r = vid \<and> cr_revoked_at r = None) t = []
    | Some r \<Rightarrow> r \<in> set t \<and> cr_voice_id r = vid \<and> cr_revoked_at r = None
        \<and> list_all (\<lambda>s. cr_recorded_at s \<le> cr_recorded_at r)
            (filter (\<lambda>s. cr_voice_id s = vid \<and> cr_revoked_at s = None) t))"
proof -
  let ?act = "filter (\<lambda>r. cr_voice_id r = vid \<and> cr_revoked_at r = None) t"
  show ?thesis
  proof (cases "sort_key (\<lambda>r. - cr_recorded_at r) ?act")
    case Nil
    have "set ?act = {}" using arg_cong [OF Nil, of set] by (simp only: set_sort list.set)
    then have "?act = []" by (simp only: set_empty)
    moreover have "latest_active vid t = None" using Nil by (simp add: latest_active_def)
    ultimately show ?thesis by simp
  next
    case (Cons r rs)
    have "latest_active vid t = Some r" using Cons by (simp add: latest_active_def)
    moreover have "r \<in> set ?act" and "\<forall>s\<in>set ?act. cr_recorded_at s \<le> cr_recorded_at r"
      using sort_key_first [OF Cons] by simp_all
    ultimately show ?thesis unfolding list_all_iff by simp
  qed
qed

subsection \<open>Talent contracts\<close>

record contract =
  tc_id :: uuid
  tc_talent_full_name :: ustr
  tc_contract_pdf_uri :: string
  tc_contract_pdf_sha256 :: string
  tc_signed_at :: millis
  tc_expires_at :: "millis option"
  tc_jurisdiction :: "string option"
  tc_notes :: "ustr option"
  tc_created_by :: "uuid option"
  tc_created_at :: millis
  tc_revoked_at :: "millis option"

type_synonym contract_table = "contract list"

definition jurisdiction_ok :: "string option \<Rightarrow> bool" where
  "jurisdiction_ok j = (case j of None \<Rightarrow> True
     | Some s \<Rightarrow> s = ''EU'' \<or> (length s = 2 \<and> list_all (\<lambda>c. c \<in> set ''ABCDEFGHIJKLMNOPQRSTUVWXYZ'') s))"

definition contract_checks :: "contract \<Rightarrow> bool" where
  "contract_checks c \<longleftrightarrow>
     1 \<le> length (tc_talent_full_name c) \<and> length (tc_talent_full_name c) \<le> 200
     \<and> hex64 (tc_contract_pdf_sha256 c) \<and> jurisdiction_ok (tc_jurisdiction c)
     \<and> (case tc_expires_at c of None \<Rightarrow> True | Some e \<Rightarrow> e > tc_signed_at c)"

definition contract_active :: "millis \<Rightarrow> contract \<Rightarrow> bool" where
  "contract_active now c \<longleftrightarrow> tc_revoked_at c = None \<and>
     (case tc_expires_at c of None \<Rightarrow> True | Some e \<Rightarrow> e > now)"

definition contract_get :: "uuid \<Rightarrow> contract_table \<Rightarrow> contract option" where
  "contract_get cid t = find (\<lambda>c. tc_id c = cid) t"

definition contract_get_active :: "uuid \<Rightarrow> millis \<Rightarrow> contract_table \<Rightarrow> contract option" where
  "contract_get_active cid now t = find (\<lambda>c. tc_id c = cid \<and> contract_active now c) t"

definition contract_list_active :: "millis \<Rightarrow> contract_table \<Rightarrow> contract list" where
  "contract_list_active now t = sort_key (\<lambda>c. - tc_signed_at c) (filter (contract_active now) t)"

definition contract_create ::
  "uuid \<Rightarrow> millis \<Rightarrow> contract \<Rightarrow> contract_table \<Rightarrow> py_error + contract \<times> contract_table" where
  "contract_create cid now cols t =
     (let c = cols\<lparr>tc_id := cid, tc_created_at := now, tc_revoked_at := None\<rparr>
      in if \<not> contract_checks c \<or> cid \<in> tc_id ` set t then Inl IntegrityError else Inr (c, t @ [c]))"

definition contract_revoke ::
  "uuid \<Rightarrow> millis \<Rightarrow> millis option \<Rightarrow> contract_table \<Rightarrow> contract option \<times> contract_table" where
  "contract_revoke cid now revoked_at t =
     (case contract_get cid t of
        None \<Rightarrow> (None, t)
      | Some c \<Rightarrow>
          if tc_revoked_at c \<noteq> None then (None, t)
          else (let c' = c\<lparr>tc_revoked_at := Some (case revoked_at of Some x \<Rightarrow> x | None \<Rightarrow> now)\<rparr>
                in (Some c', update_rows (\<lambda>x. tc_id x = cid) (\<lambda>_. c') t)))"

subsection \<open>Data deletion requests\<close>

record deletion_request =
  dd_id :: uuid
  dd_tenant_id :: uuid
  dd_voice_slugs :: "ustr list"
  dd_jurisdiction :: "string option"
  dd_status :: string
  dd_requested_at :: millis
  dd_requested_by_actor_id :: "uuid option"
  dd_reason :: "ustr option"
  dd_completed_at :: "millis option"
  dd_completion_notes :: "ustr option"

type_synonym deletion_table = "deletion_request list"

definition deletion_checks :: "deletion_request \<Rightarrow> bool" where
  "deletion_checks r \<longleftrightarrow>
     dd_status r \<in> {''pending'', ''in-progress'', ''completed'', ''rejected''}
     \<and> jurisdiction_ok (dd_jurisdiction r)
     \<and> (case dd_completed_at r of None \<Rightarrow> True | Some x \<Rightarrow> x \<ge> dd_requested_at r)
     \<and> (dd_status r = ''completed'') = (dd_completed_at r \<noteq> None)"

text \<open>The repository's \<open>tenant_id\<close>: \<open>Some\<close> a tenant, or \<open>None\<close> in operator mode.\<close>

type_synonym scope = "uuid option"

definition terminal_statuses :: "string set" where
  "terminal_statuses = {''completed'', ''rejected''}"

definition deletion_get :: "scope \<Rightarrow> uuid \<Rightarrow> deletion_table \<Rightarrow> deletion_request option" where
  "deletion_get sc rid t =
     find (\<lambda>r. dd_id r = rid \<and> (case sc of None \<Rightarrow> True | Some tn \<Rightarrow> dd_tenant_id r = tn)) t"

definition list_for_tenant :: "scope \<Rightarrow> deletion_table \<Rightarrow> py_error + deletion_request list" where
  "list_for_tenant sc t =
     (case sc of
        None \<Rightarrow> Inl (RuntimeError ''list_for_tenant requires a tenant-scoped repo'')
      | Some tn \<Rightarrow> Inr (sort_key (\<lambda>r. - dd_requested_at r) (filter (\<lambda>r. dd_tenant_id r = tn) t)))"

definition list_pending :: "scope \<Rightarrow> deletion_table \<Rightarrow> py_error + deletion_request list" where
  "list_pending sc t =
     (if sc \<noteq> None then Inl (RuntimeError ''list_pending requires an operator-scoped repo'')
      else Inr (sort_key dd_requested_at (filter (\<lambda>r. dd_status r \<in> {''pending'', ''in-progress''}) t)))"

definition deletion_create ::
  "scope \<Rightarrow> uuid \<Rightarrow> millis \<Rightarrow> ustr list \<Rightarrow> uuid \<Rightarrow> string option \<Rightarrow> ustr option \<Rightarrow> deletion_table
   \<Rightarrow> py_error + deletion_request \<times> deletion_table" where
  "deletion_create sc rid now slugs actor jur reason t =
     (case sc of
        None \<Rightarrow> Inl (RuntimeError ''create requires a tenant-scoped repo'')
      | Some tn \<Rightarrow>
          (let r = \<lparr>dd_id = rid, dd_tenant_id = tn, dd_voice_slugs = slugs, dd_jurisdiction = jur,
                    dd_status = ''pending'', dd_requested_at = now, dd_requested_by_actor_id = Some actor,
                    dd_reason = reason, dd_completed_at = None, dd_completion_notes = None\<rparr>
           in if \<not> deletion_checks r \<or> rid \<in> dd_id ` set t then Inl IntegrityError
              else Inr (r, t @ [r])))"

text \<open>Load, refuse a terminal status, assign, flush: the shape of the three transitions.\<close>

definition deletion_move ::
  "scope \<Rightarrow> string \<Rightarrow> uuid \<Rightarrow> (deletion_request \<Rightarrow> deletion_request) \<Rightarrow> deletion_table
   \<Rightarrow> py_error + deletion_request option \<times> deletion_table" where
  "deletion_move sc msg rid f t =
     (if sc \<noteq> None then Inl (RuntimeError msg)
      else case deletion_get sc rid t of
             None \<Rightarrow> Inr (None, t)
           | Some r \<Rightarrow>
               if dd_status r \<in> terminal_statuses then Inr (Some r, t)
               else if \<not> deletion_checks (f r) then Inl IntegrityError
               else Inr (Some (f r), update_rows (\<lambda>x. dd_id x = rid) f t))"

definition mark_in_progress ::
  "scope \<Rightarrow> uuid \<Rightarrow> deletion_table \<Rightarrow> py_error + deletion_request option \<times> deletion_table" where
  "mark_in_progress sc rid =
     deletion_move sc ''mark_in_progress requires an operator-scoped repo'' rid
       (\<lambda>r. r\<lparr>dd_status := ''in-progress''\<rparr>)"

definition mark_completed ::
  "scope \<Rightarrow> uuid \<Rightarrow> millis \<Rightarrow> ustr option \<Rightarrow> millis option \<Rightarrow> deletion_table
   \<Rightarrow> py_error + deletion_request option \<times> deletion_table" where
  "mark_completed sc rid now notes completed_at =
     deletion_move sc ''mark_completed requires an operator-scoped repo'' rid
       (\<lambda>r. r\<lparr>dd_status := ''completed'',
              dd_completed_at := Some (case completed_at of Some x \<Rightarrow> x | None \<Rightarrow> now),
              dd_completion_notes := (case notes of Some n \<Rightarrow> Some n | None \<Rightarrow> dd_completion_notes r)\<rparr>)"

definition mark_rejected ::
  "scope \<Rightarrow> uuid \<Rightarrow> ustr \<Rightarrow> deletion_table \<Rightarrow> py_error + deletion_request option \<times> deletion_table" where
  "mark_rejected sc rid reason =
     deletion_move sc ''mark_rejected requires an operator-scoped repo'' rid
       (\<lambda>r. r\<lparr>dd_status := ''rejected'', dd_completion_notes := Some reason\<rparr>)"

inductive deletion_step :: "deletion_table \<Rightarrow> deletion_table \<Rightarrow> bool" where
  dd_create: "deletion_create sc rid now slugs actor jur reason t = Inr (r, t') \<Longrightarrow> deletion_step t t'"
| dd_progress: "mark_in_progress sc rid t = Inr (r, t') \<Longrightarrow> deletion_step t t'"
| dd_complete: "mark_completed sc rid now notes ts t = Inr (r, t') \<Longrightarrow> deletion_step t t'"
| dd_reject: "mark_rejected sc rid reason t = Inr (r, t') \<Longrightarrow> deletion_step t t'"

inductive deletion_run :: "deletion_table \<Rightarrow> deletion_table \<Rightarrow> bool" where
  dd_refl: "deletion_run t t"
| dd_trans: "deletion_run t t' \<Longrightarrow> deletion_step t' t'' \<Longrightarrow> deletion_run t t''"

definition deletion_inv :: "deletion_table \<Rightarrow> bool" where
  "deletion_inv t \<longleftrightarrow> distinct (map dd_id t) \<and> list_all deletion_checks t"

lemma deletion_create_Inr:
  "deletion_create sc rid now slugs actor jur reason t = Inr (r, t') \<Longrightarrow>
     t' = t @ [r] \<and> deletion_checks r \<and> dd_id r \<notin> dd_id ` set t"
  by (auto simp: deletion_create_def Let_def split: option.splits if_splits)

lemma deletion_move_Inr:
  assumes "deletion_move sc msg rid f t = Inr (res, t')"
  shows "t' = t \<or> (\<exists>r\<in>set t. dd_id r = rid \<and> dd_status r \<notin> terminal_statuses
           \<and> deletion_checks (f r) \<and> t' = update_rows (\<lambda>x. dd_id x = rid) f t)"
  using assms
  by (auto simp: deletion_move_def deletion_get_def split: option.splits if_splits dest!: find_SomeD)

text \<open>One step keeps the constraints, and no step touches a ticket in a terminal status.\<close>

lemma deletion_move_keeps:
  assumes mv: "deletion_move sc msg rid f t = Inr (res, t')"
    and inv: "deletion_inv t" and f: "\<And>r. dd_id (f r) = dd_id r"
  shows "deletion_inv t' \<and> (\<forall>r\<in>set t. dd_status r \<in> terminal_statuses \<longrightarrow> r \<in> set t')"
proof (cases "t' = t")
  case True
  with inv show ?thesis by simp
next
  case False
  then obtain r where r: "r \<in> set t" "dd_id r = rid" "dd_status r \<notin> terminal_statuses"
      "deletion_checks (f r)" and t': "t' = update_rows (\<lambda>x. dd_id x = rid) f t"
    using deletion_move_Inr [OF mv] by blast
  have only: "x = r" if "x \<in> set t" "dd_id x = rid" for x
    using that r inv distinct_key_eq [of dd_id t x r] by (simp add: deletion_inv_def)
  have "list_all deletion_checks t'"
    using inv r(4) only unfolding t' deletion_inv_def by (auto simp: list_all_iff set_update_rows)
  moreover have "map dd_id t' = map dd_id t"
    unfolding t' by (rule map_update_rows) (simp add: f)
  moreover have "x \<in> set t'" if "x \<in> set t" "dd_status x \<in> terminal_statuses" for x
    using that only r(3) unfolding t' set_update_rows by force
  ultimately show ?thesis using inv by (simp add: deletion_inv_def)
qed

lemma deletion_step_keeps:
  assumes "deletion_step t t'" and "deletion_inv t"
  shows "deletion_inv t' \<and> (\<forall>r\<in>set t. dd_status r \<in> terminal_statuses \<longrightarrow> r \<in> set t')"
  using assms
proof (cases rule: deletion_step.cases)
  case (dd_create sc rid now slugs actor jur reason r)
  from deletion_create_Inr [OF this] assms(2) show ?thesis by (auto simp: deletion_inv_def)
qed (unfold mark_in_progress_def mark_completed_def mark_rejected_def,
     (erule deletion_move_keeps [OF _ assms(2)], simp)+)

lemma deletion_run_keeps:
  "deletion_run t t' \<Longrightarrow> deletion_inv t \<Longrightarrow>
     deletion_inv t' \<and> (\<forall>r\<in>set t. dd_status r \<in> terminal_statuses \<longrightarrow> r \<in> set t')"
proof (induction rule: deletion_run.induct)
  case (dd_trans t t' t'')
  then show ?case using deletion_step_keeps by blast
qed simp

text \<open>
  A deletion ticket is final once completed or rejected. From a table that satisfies its
  constraints, whatever mixture of creations and operator transitions runs, every ticket in
  a terminal status is still there, unchanged, and \<open>completed_at\<close> is set exactly on the
  completed tickets.
\<close>

theorem deletion_terminal_final:
  assumes "deletion_inv t" and "deletion_run t t'"
    and "r \<in> set t" and "dd_status r \<in> terminal_statuses"
  shows "deletion_get None (dd_id r) t' = Some r
         \<and> list_all (\<lambda>x. (dd_status x = ''completed'') = (dd_completed_at x \<noteq> None)) t'"
proof -
  have "deletion_inv t'" and "r \<in> set t'"
    using deletion_run_keeps [OF assms(2,1)] assms(3,4) by auto
  then show ?thesis
    by (auto simp: deletion_get_def deletion_inv_def find_by_key list_all_iff deletion_checks_def)
qed

definition sample_ticket :: "deletion_request" where
  "sample_ticket = \<lparr>dd_id = 1, dd_tenant_id = 7, dd_voice_slugs = [], dd_jurisdiction = Some ''EU'',
     dd_status = ''rejected'', dd_requested_at = 5, dd_requested_by_actor_id = Some 3,
     dd_reason = None, dd_completed_at = None, dd_completion_notes = Some [104]\<rparr>"

theorem deletion_terminal_final_witness:
  "mark_completed None 1 9 None None [sample_ticket] = Inr (Some sample_ticket, [sample_ticket])
   \<and> deletion_get None 1 [sample_ticket] = Some sample_ticket"
proof -
  have m: "mark_completed None 1 9 None None [sample_ticket] = Inr (Some sample_ticket, [sample_ticket])"
    by (simp add: mark_completed_def deletion_move_def deletion_get_def sample_ticket_def terminal_statuses_def)
  have "deletion_run [sample_ticket] [sample_ticket]"
    using dd_refl dd_trans dd_complete [OF m] by blast
  moreover have "deletion_inv [sample_ticket]"
    by (simp add: deletion_inv_def deletion_checks_def sample_ticket_def jurisdiction_ok_def)
  ultimately show ?thesis
    using deletion_terminal_final [of "[sample_ticket]" "[sample_ticket]" sample_ticket] m
    by (simp add: sample_ticket_def terminal_statuses_def)
qed

end
