(* ===== verification/Pipeline.thy ===== *)
theory Pipeline
  imports Effects Presets Result_Stream Job_Store Usage_Store Voice_Store Governance
begin

text \<open>
  The worker's one-job pipeline (\<^verbatim>\<open>src/worker/pipeline.py\<close>): \<open>process_one_job\<close> with its
  stages, the publishers, and \<open>mark_terminal_failure\<close>.

  The state is what the pipeline shares with others: the job and usage tables, the
  request's result stream and the archived artifacts, with counters of the Redis commands
  and database sessions issued. The environment holds everything the pipeline reads: the
  catalog tables, which of its Redis commands and sessions fail, what the engine, the
  reference store, the watermark model and the archive answer, and the clock readings.
\<close>

subsection \<open>Environment and state\<close>

record voice_view =
  vv_voice_id :: string
  vv_engine_params :: dict
  vv_adapter :: "(string \<times> string) option" \<comment> \<open>type and path\<close>

record synth_chunk =
  sc_pcm :: bytes
  sc_sample_rate :: int
  sc_sentence_text :: "ustr option"

datatype resolve_reply = RefPath string | RefNotFound ustr | RefError

datatype archive_reply = ArchRaises | ArchUri "string option"

type_synonym request_meta = "(string \<times> json) list"

text \<open>The engine's generator: the chunks it yields and whether it then raises.\<close>

type_synonym engine_fun =
  "ustr \<Rightarrow> voice_view \<Rightarrow> string \<Rightarrow> string \<Rightarrow> json \<times> json \<Rightarrow> request_meta option \<Rightarrow> synth_chunk list \<times> bool"

record penv =
  pe_voices :: voice_table
  pe_access :: access_table
  pe_wm_keys :: wm_table
  pe_redis_fails :: "nat \<Rightarrow> bool"
  pe_db_fails :: "nat \<Rightarrow> bool"
  pe_resolve :: "string \<Rightarrow> resolve_reply"
  pe_engine :: engine_fun
  pe_engine_rate :: int
  pe_engine_model_id :: "string option"
  pe_engine_revision :: "string option"
  pe_settings_pcm :: "bytes \<Rightarrow> int \<Rightarrow> dict \<Rightarrow> py_error + bytes" \<comment> \<open>\<open>apply_voice_settings\<close>\<close>
  pe_wm_error_cached :: bool \<comment> \<open>an earlier load of the watermark model failed\<close>
  pe_wm_loads :: bool \<comment> \<open>a load attempt succeeds\<close>
  pe_wm_embed :: "bytes \<Rightarrow> int \<Rightarrow> int \<Rightarrow> py_error + bytes" \<comment> \<open>the model's embedding\<close>
  pe_archive :: "(uuid \<Rightarrow> bytes \<Rightarrow> int \<Rightarrow> archive_reply) option"
  pe_ms :: "int \<Rightarrow> int \<Rightarrow> int" \<comment> \<open>\<open>int(samples / max(rate, 1) * 1000)\<close> in floats\<close>
  pe_ratio :: "int \<Rightarrow> int \<Rightarrow> rat" \<comment> \<open>float division\<close>
  pe_worker_id :: "string option"
  pe_started_wall_ms :: int
  pe_now_ms :: int \<comment> \<open>wall clock of the failure path and of the database\<close>
  pe_elapsed_ms :: int
  pe_inference_ms :: int
  pe_reference_ms :: int
  pe_first_pcm_ms :: int
  pe_first_audio_ms :: int
  pe_pickup_ms :: "int option"

record pstate =
  ps_jobs :: job_table
  ps_usages :: usage_table
  ps_stream :: "tts_result list"
  ps_archived :: "(uuid \<times> bytes) list"
  ps_redis_ops :: nat
  ps_db_ops :: nat

datatype job_exn = PoisonJob string | TransientFailure string | OtherError string

type_synonym 'a pact = "(pstate, job_exn, 'a) act"

subsection \<open>Redis commands and database sessions\<close>

definition redis_cmd :: "penv \<Rightarrow> (tts_result list \<Rightarrow> tts_result list) \<Rightarrow> unit pact" where
  "redis_cmd E f s =
     (let s' = s\<lparr>ps_redis_ops := ps_redis_ops s + 1\<rparr>
      in if pe_redis_fails E (ps_redis_ops s) then (Inl (OtherError ''redis''), s')
         else (Inr (), s'\<lparr>ps_stream := f (ps_stream s)\<rparr>))"

text \<open>A session that runs \<open>f\<close> on the tables and commits; any exception rolls it back.\<close>

definition db_commit ::
  "penv \<Rightarrow> (job_table \<times> usage_table \<Rightarrow> py_error + job_table \<times> usage_table) \<Rightarrow> unit pact" where
  "db_commit E f s =
     (let s' = s\<lparr>ps_db_ops := ps_db_ops s + 1\<rparr>
      in if pe_db_fails E (ps_db_ops s) then (Inl (OtherError ''database''), s')
         else case f (ps_jobs s, ps_usages s) of
                Inl e \<Rightarrow> (Inl (OtherError ''integrity''), s')
              | Inr (j, u) \<Rightarrow> (Inr (), s'\<lparr>ps_jobs := j, ps_usages := u\<rparr>))"

definition db_read :: "penv \<Rightarrow> 'a \<Rightarrow> 'a pact" where
  "db_read E x s =
     (let s' = s\<lparr>ps_db_ops := ps_db_ops s + 1\<rparr>
      in if pe_db_fails E (ps_db_ops s) then (Inl (OtherError ''database''), s') else (Inr x, s'))"

definition lift_err :: "py_error + 'a \<Rightarrow> 'a pact" where
  "lift_err r = (case r of Inl e \<Rightarrow> throw (OtherError ''python'') | Inr x \<Rightarrow> ret x)"

text \<open>\<open>try: m except Exception as e: raise TransientFailure(...) from e\<close>.\<close>

definition or_transient :: "string \<Rightarrow> 'a pact \<Rightarrow> 'a pact" where
  "or_transient msg m = catchA m (\<lambda>_. throw (TransientFailure msg))"

subsection \<open>Publishers\<close>

definition xadd_result :: "penv \<Rightarrow> tts_result \<Rightarrow> unit pact" where
  "xadd_result E c = seqA (redis_cmd E (\<lambda>s. s @ [c])) (redis_cmd E (\<lambda>s. s))"

definition publish_chunk :: "penv \<Rightarrow> uuid \<Rightarrow> int \<Rightarrow> bytes \<Rightarrow> ustr option \<Rightarrow> int \<Rightarrow> unit pact" where
  "publish_chunk E rid seq pcm txt attempt =
     xadd_result E (audio_chunk (uuid_str rid) attempt seq (pcm, txt))"

definition publish_final :: "penv \<Rightarrow> uuid \<Rightarrow> int \<Rightarrow> int \<Rightarrow> unit pact" where
  "publish_final E rid seq attempt = xadd_result E (final_chunk (uuid_str rid) attempt seq)"

definition publish_error :: "penv \<Rightarrow> uuid \<Rightarrow> int \<Rightarrow> ustr \<Rightarrow> int \<Rightarrow> unit pact" where
  "publish_error E rid seq msg attempt = xadd_result E (error_chunk (uuid_str rid) attempt seq msg)"

definition queue_wait_ms :: "tts_job \<Rightarrow> int \<Rightarrow> int option" where
  "queue_wait_ms job now = map_option (\<lambda>e. max 0 (now - e)) (tj_enqueued_at_ms job)"

definition voice_view_from_db :: "voice \<Rightarrow> voice_view" where
  "voice_view_from_db v =
     \<lparr>vv_voice_id = v_voice_id v, vv_engine_params = v_engine_params v,
      vv_adapter = (case v_adapter_uri v of
                      None \<Rightarrow> None
                    | Some u \<Rightarrow> if u = [] then None else Some (or_else (v_adapter_type v) ''lora'', u))\<rparr>"

subsection \<open>Terminal failures\<close>

definition job_ids :: "tts_job \<Rightarrow> py_error + uuid \<times> uuid \<times> uuid" where
  "job_ids job =
     bindS (uuid_parse (tj_request_id job)) (\<lambda>rid.
     bindS (uuid_parse (tj_tenant_id job)) (\<lambda>tenant.
     bindS (uuid_parse (tj_api_key_id job)) (\<lambda>api_key.
       Inr (rid, tenant, api_key))))"

definition error_usage ::
  "penv \<Rightarrow> tts_job \<Rightarrow> uuid \<Rightarrow> uuid \<Rightarrow> uuid \<Rightarrow> string \<Rightarrow> int \<Rightarrow> usage_row" where
  "error_usage E job rid tenant api_key code elapsed =
     \<lparr>ur_occurred_at = pe_now_ms E, ur_tenant_id = tenant, ur_api_key_id = api_key,
      ur_voice_id = tj_voice_id job, ur_request_id = rid,
      ur_text_char_count = int (length (tj_text job)), ur_sentence_count = 0, ur_duration_ms = 0,
      ur_elapsed_ms = max 0 elapsed, ur_queue_wait_ms = queue_wait_ms job (pe_now_ms E),
      ur_inference_ms = None, ur_ttfb_ms = None, ur_worker_pickup_ms = None,
      ur_reference_resolve_ms = None, ur_first_pcm_ms = None, ur_first_audio_ms = None,
      ur_gateway_first_byte_ms = None, ur_rtf = None, ur_status = ''error'',
      ur_error_code = Some code, ur_worker_id = pe_worker_id E, ur_model_version = None,
      ur_app_label = tj_app_label job, ur_engine_inputs = None\<rparr>"

text \<open>The transaction of \<open>mark_terminal_failure\<close>: fail the row, bill once.\<close>

definition failure_tx ::
  "penv \<Rightarrow> tts_job \<Rightarrow> uuid \<Rightarrow> uuid \<Rightarrow> uuid \<Rightarrow> string \<Rightarrow> int
   \<Rightarrow> job_table \<times> usage_table \<Rightarrow> py_error + job_table \<times> usage_table" where
  "failure_tx E job rid tenant api_key code elapsed =
     (\<lambda>(j, u).
        let j' = idem_fail tenant (pe_now_ms E) rid j
        in case usage_find tenant rid u of
             Some r \<Rightarrow> Inr (j', u)
           | None \<Rightarrow> bindS (usage_record tenant (pe_now_ms E)
                             (error_usage E job rid tenant api_key code elapsed) u)
                       (\<lambda>u'. Inr (j', u')))"

definition mark_terminal_failure ::
  "penv \<Rightarrow> tts_job \<Rightarrow> string \<Rightarrow> ustr option \<Rightarrow> int \<Rightarrow> int \<Rightarrow> int \<Rightarrow> unit pact" where
  "mark_terminal_failure E job code msg seq elapsed attempt =
     bindA (lift_err (job_ids job)) (\<lambda>(rid, tenant, api_key).
     seqA (publish_error E rid seq (text_or msg (cps code)) attempt)
          (db_commit E (failure_tx E job rid tenant api_key code elapsed)))"

text \<open>Publish and persist the failure, then raise \<open>PoisonJob\<close>.\<close>

definition poison :: "penv \<Rightarrow> tts_job \<Rightarrow> string \<Rightarrow> ustr \<Rightarrow> int \<Rightarrow> int \<Rightarrow> 'a pact" where
  "poison E job code msg seq attempt =
     bindA (mark_terminal_failure E job code (Some msg) seq (pe_elapsed_ms E) attempt)
       (\<lambda>_. throw (PoisonJob code))"

subsection \<open>The stages of a job\<close>

text \<open>The payload to embed: that of the voice's active watermark key, when it has one.\<close>

definition watermark_bits :: "penv \<Rightarrow> voice option \<Rightarrow> int option" where
  "watermark_bits E row =
     (case row of
        None \<Rightarrow> None
      | Some v \<Rightarrow>
          if v_watermark_enabled v
          then (case v_watermark_key_id v of
                  None \<Rightarrow> None
                | Some kid \<Rightarrow> map_option wk_message_bits (wm_get_active kid (pe_wm_keys E)))
          else None)"

definition lookup_voice :: "penv \<Rightarrow> uuid \<Rightarrow> string \<Rightarrow> (voice option \<times> int option) pact" where
  "lookup_voice E tenant slug =
     db_read E
       (let row = get_accessible tenant slug (pe_access E) (pe_voices E)
        in (row, watermark_bits E row))"

definition watermark_required :: "string set" where
  "watermark_required = {''talent-contract'', ''public-figure'', ''partner-licensed''}"

text \<open>
  The watermark applier of \<^verbatim>\<open>src/audio/watermark.py\<close> as the pipeline uses it: \<open>_load\<close>
  answers a model unless an import or load failure is, or gets, cached; without a model the
  PCM passes unchanged.
\<close>

definition applier_loads :: "penv \<Rightarrow> bool" where
  "applier_loads E \<longleftrightarrow> \<not> pe_wm_error_cached E \<and> pe_wm_loads E"

definition watermark_pcm :: "penv \<Rightarrow> bytes \<Rightarrow> int \<Rightarrow> int \<Rightarrow> py_error + bytes" where
  "watermark_pcm E pcm rate bits =
     (if pe_wm_error_cached E then Inr pcm
      else if \<not> (0 \<le> bits \<and> bits \<le> 65535) then Inl (ValueError ''message_bits must be 0..65535'')
      else if \<not> applier_loads E then Inr pcm
      else pe_wm_embed E pcm rate bits)"

definition require_watermark ::
  "penv \<Rightarrow> tts_job \<Rightarrow> int \<Rightarrow> voice option \<Rightarrow> int option \<Rightarrow> unit pact" where
  "require_watermark E job attempt row bits =
     (case row of
        None \<Rightarrow> ret ()
      | Some v \<Rightarrow>
          if v_license_kind v \<notin> watermark_required then ret ()
          else if bits = None
          then poison E job ''watermark_required_no_key''
                 (cps ''voice requires watermark but no active watermark_key is bound'') 0 attempt
          else if \<not> applier_loads E then throw (TransientFailure ''audioseal package unavailable'')
          else ret ())"

definition resolve_reference :: "penv \<Rightarrow> tts_job \<Rightarrow> int \<Rightarrow> voice \<Rightarrow> string pact" where
  "resolve_reference E job attempt v =
     (case pe_resolve E (v_reference_uri v) of
        RefPath p \<Rightarrow> ret p
      | RefNotFound m \<Rightarrow> poison E job ''reference_missing'' (cps ''reference_missing: '' @ m) 0 attempt
      | RefError \<Rightarrow> throw (OtherError ''resolve_reference''))"

definition pick_preset :: "penv \<Rightarrow> tts_job \<Rightarrow> int \<Rightarrow> model_preset pact" where
  "pick_preset E job attempt =
     (case resolve_model (tj_model_id job) of
        Inr p \<Rightarrow> ret p
      | Inl e \<Rightarrow> poison E job ''unknown_model_id'' (cps ''unknown model_id'') 0 attempt)"

definition meta_field :: "string \<Rightarrow> json option \<Rightarrow> request_meta" where
  "meta_field k v = (case v of None \<Rightarrow> [] | Some x \<Rightarrow> [(k, x)])"

definition nonempty :: "'a list option \<Rightarrow> 'a list option" where
  "nonempty v = (case v of Some [] \<Rightarrow> None | _ \<Rightarrow> v)"

definition request_meta_of :: "tts_job \<Rightarrow> request_meta" where
  "request_meta_of job =
     meta_field ''seed'' (map_option JInt (tj_seed job))
     @ meta_field ''pronunciation_dict''
         (map_option (\<lambda>d. JObj (map (\<lambda>(k, v). (k, JStr v)) d)) (nonempty (tj_pronunciation_dict job)))
     @ meta_field ''previous_text'' (map_option JStr (tj_previous_text job))
     @ meta_field ''next_text'' (map_option JStr (tj_next_text job))"

record loop_acc =
  la_seq :: int
  la_pcm :: bytes
  la_samples :: int
  la_align :: "align_row list"

definition loop_start :: loop_acc where
  "loop_start = \<lparr>la_seq = 0, la_pcm = [], la_samples = 0, la_align = []\<rparr>"

text \<open>The PCM a chunk is published with: voice settings, then the watermark.\<close>

definition chunk_rate :: "penv \<Rightarrow> synth_chunk \<Rightarrow> int" where
  "chunk_rate E c = (if sc_sample_rate c = 0 then pe_engine_rate E else sc_sample_rate c)"

definition chunk_pcm :: "penv \<Rightarrow> dict \<Rightarrow> int option \<Rightarrow> synth_chunk \<Rightarrow> py_error + bytes" where
  "chunk_pcm E settings bits c =
     bindS (pe_settings_pcm E (sc_pcm c) (sc_sample_rate c) settings) (\<lambda>pcm.
       case bits of
         None \<Rightarrow> Inr pcm
       | Some b \<Rightarrow> watermark_pcm E pcm (chunk_rate E c) b)"

definition loop_step :: "penv \<Rightarrow> synth_chunk \<Rightarrow> bytes \<Rightarrow> loop_acc \<Rightarrow> loop_acc" where
  "loop_step E c pcm acc =
     (let n = la_samples acc + int (length pcm div 2)
      in \<lparr>la_seq = la_seq acc + 1, la_pcm = la_pcm acc @ pcm, la_samples = n,
          la_align = la_align acc @
            [\<lparr>al_seq = la_seq acc, al_start_ms = pe_ms E (la_samples acc) (chunk_rate E c),
              al_end_ms = pe_ms E n (chunk_rate E c),
              al_text = (case sc_sentence_text c of None \<Rightarrow> [] | Some t \<Rightarrow> t)\<rparr>]\<rparr>)"

primrec chunk_loop ::
  "penv \<Rightarrow> uuid \<Rightarrow> int \<Rightarrow> dict \<Rightarrow> int option \<Rightarrow> synth_chunk list \<Rightarrow> loop_acc \<Rightarrow> loop_acc pact" where
  "chunk_loop E rid attempt settings bits [] acc = ret acc"
| "chunk_loop E rid attempt settings bits (c # cs) acc =
     bindA (lift_err (chunk_pcm E settings bits c)) (\<lambda>pcm.
     seqA (publish_chunk E rid (la_seq acc) pcm (sc_sentence_text c) attempt)
          (chunk_loop E rid attempt settings bits cs (loop_step E c pcm acc)))"

text \<open>The streaming stage: any exception of the engine, the PCM pass or Redis is transient.\<close>

definition stream_stage ::
  "penv \<Rightarrow> tts_job \<Rightarrow> uuid \<Rightarrow> int \<Rightarrow> voice_view \<Rightarrow> string \<Rightarrow> dict \<Rightarrow> json \<times> json \<Rightarrow> int option
   \<Rightarrow> loop_acc pact" where
  "stream_stage E job rid attempt view path settings overrides bits =
     (case pe_engine E (tj_text job) view path (tj_language job) overrides
             (nonempty (Some (request_meta_of job))) of
        (chunks, raises) \<Rightarrow>
          or_transient ''engine'' (bindA (chunk_loop E rid attempt settings bits chunks loop_start)
            (\<lambda>acc. if raises then throw (OtherError ''engine'') else ret acc)))"

definition archive_stage :: "penv \<Rightarrow> tts_job \<Rightarrow> uuid \<Rightarrow> int \<Rightarrow> loop_acc \<Rightarrow> string pact" where
  "archive_stage E job rid attempt acc =
     (case pe_archive E of
        None \<Rightarrow> throw (TransientFailure ''archive_to_r2 callable not configured'')
      | Some archive \<Rightarrow>
          if la_pcm acc = []
          then poison E job ''empty_pcm'' (cps ''empty_pcm: engine produced no PCM'') (la_seq acc) attempt
          else (case archive rid (la_pcm acc) (pe_engine_rate E) of
                  ArchRaises \<Rightarrow> throw (TransientFailure ''archive_failed'')
                | ArchUri uri \<Rightarrow>
                    if \<not> truthy uri then throw (TransientFailure ''archive_to_r2 returned no URI'')
                    else seqA (modifyA (\<lambda>s. s\<lparr>ps_archived := ps_archived s @ [(rid, la_pcm acc)]\<rparr>))
                              (ret (the uri))))"

definition inputs_snapshot ::
  "penv \<Rightarrow> tts_job \<Rightarrow> voice \<Rightarrow> model_preset \<Rightarrow> dict \<Rightarrow> json \<times> json \<Rightarrow> engine_inputs" where
  "inputs_snapshot E job v p settings overrides =
     \<lparr>ei_model_id = pe_engine_model_id E, ei_hf_revision = pe_engine_revision E,
      ei_preset_id = mp_model_id p, ei_cfg_value = fst overrides,
      ei_inference_timesteps = snd overrides, ei_seed = tj_seed job,
      ei_voice_settings = nonempty (Some settings),
      ei_pronunciation_dict_size = (case tj_pronunciation_dict job of None \<Rightarrow> 0 | Some d \<Rightarrow> length d),
      ei_previous_text_len = length (text_or (tj_previous_text job) []),
      ei_next_text_len = length (text_or (tj_next_text job) []),
      ei_reference_sha256 = v_reference_sha256 v\<rparr>"

definition ok_usage ::
  "penv \<Rightarrow> tts_job \<Rightarrow> uuid \<Rightarrow> uuid \<Rightarrow> uuid \<Rightarrow> voice \<Rightarrow> model_preset \<Rightarrow> dict \<Rightarrow> json \<times> json
   \<Rightarrow> loop_acc \<Rightarrow> usage_row" where
  "ok_usage E job rid tenant api_key v p settings overrides acc =
     (let duration = pe_ms E (int (length (la_pcm acc) div 2)) (pe_engine_rate E)
      in \<lparr>ur_occurred_at = pe_now_ms E, ur_tenant_id = tenant, ur_api_key_id = api_key,
          ur_voice_id = v_voice_id v, ur_request_id = rid,
          ur_text_char_count = int (length (tj_text job)), ur_sentence_count = la_seq acc,
          ur_duration_ms = duration, ur_elapsed_ms = pe_elapsed_ms E,
          ur_queue_wait_ms = queue_wait_ms job (pe_started_wall_ms E),
          ur_inference_ms = Some (pe_inference_ms E), ur_ttfb_ms = None,
          ur_worker_pickup_ms = pe_pickup_ms E, ur_reference_resolve_ms = Some (pe_reference_ms E),
          ur_first_pcm_ms = Some (pe_first_pcm_ms E), ur_first_audio_ms = Some (pe_first_audio_ms E),
          ur_gateway_first_byte_ms = None,
          ur_rtf = (if duration > 0 then Some (pe_ratio E (pe_elapsed_ms E) duration) else None),
          ur_status = ''ok'', ur_error_code = None, ur_worker_id = pe_worker_id E,
          ur_model_version = Some (mp_model_id p), ur_app_label = tj_app_label job,
          ur_engine_inputs = Some (inputs_snapshot E job v p settings overrides)\<rparr>)"

text \<open>The one transaction of a successful job: complete the row and bill it.\<close>

definition success_tx ::
  "penv \<Rightarrow> tts_job \<Rightarrow> uuid \<Rightarrow> uuid \<Rightarrow> uuid \<Rightarrow> voice \<Rightarrow> model_preset \<Rightarrow> dict \<Rightarrow> json \<times> json
   \<Rightarrow> loop_acc \<Rightarrow> string \<Rightarrow> job_table \<times> usage_table \<Rightarrow> py_error + job_table \<times> usage_table" where
  "success_tx E job rid tenant api_key v p settings overrides acc uri =
     (\<lambda>(j, u).
        let j' = idem_complete tenant (pe_now_ms E) rid (Some uri) (nonempty (Some (la_align acc))) j
        in bindS (usage_record tenant (pe_now_ms E)
                    (ok_usage E job rid tenant api_key v p settings overrides acc) u)
             (\<lambda>u'. Inr (j', u')))"

text \<open>From the resolved reference on: preset, overrides, streaming, archive, commit, final.\<close>

definition synthesize_and_commit ::
  "penv \<Rightarrow> tts_job \<Rightarrow> int \<Rightarrow> uuid \<times> uuid \<times> uuid \<Rightarrow> voice \<Rightarrow> int option \<Rightarrow> string \<Rightarrow> unit pact" where
  "synthesize_and_commit E job attempt ids v bits path =
     (case ids of (rid, tenant, api_key) \<Rightarrow>
      bindA (pick_preset E job attempt) (\<lambda>p.
      let settings = layered_settings (v_settings_defaults v) (tj_voice_settings job) in
      bindA (lift_err (engine_overrides p settings (tj_params job))) (\<lambda>overrides.
      bindA (stream_stage E job rid attempt (voice_view_from_db v) path settings overrides bits) (\<lambda>acc.
      bindA (archive_stage E job rid attempt acc) (\<lambda>uri.
      seqA (or_transient ''db_commit_failed''
              (db_commit E (success_tx E job rid tenant api_key v p settings overrides acc uri)))
           (or_transient ''publish_final_failed'' (publish_final E rid (la_seq acc) attempt)))))))"

definition process_one_job :: "penv \<Rightarrow> tts_job \<Rightarrow> int \<Rightarrow> unit pact" where
  "process_one_job E job attempt =
     bindA (lift_err (job_ids job)) (\<lambda>(rid, tenant, api_key).
     seqA (redis_cmd E (\<lambda>_. []))
     (bindA (lookup_voice E tenant (tj_voice_id job)) (\<lambda>(row, bits).
     seqA (require_watermark E job attempt row bits)
     (case row of
        None \<Rightarrow> poison E job ''voice_not_found'' (cps ''voice_not_found'') 0 attempt
      | Some v \<Rightarrow>
          bindA (resolve_reference E job attempt v)
            (synthesize_and_commit E job attempt (rid, tenant, api_key) v bits)))))"

subsection \<open>What each stage leaves behind\<close>

definition same_tables :: "pstate \<Rightarrow> pstate \<Rightarrow> bool" where
  "same_tables s s' \<longleftrightarrow> ps_jobs s' = ps_jobs s \<and> ps_usages s' = ps_usages s"

definition same_store :: "pstate \<Rightarrow> pstate \<Rightarrow> bool" where
  "same_store s s' \<longleftrightarrow> same_tables s s' \<and> ps_archived s' = ps_archived s"

lemma same_store_tables [simp]: "same_store s s' \<Longrightarrow> same_tables s s'"
  by (simp add: same_store_def)

lemma same_store_refl [simp]: "same_store s s" "same_tables s s"
  by (simp_all add: same_store_def same_tables_def)

lemma same_store_trans [trans]: "same_store s s1 \<Longrightarrow> same_store s1 s2 \<Longrightarrow> same_store s s2"
  by (simp add: same_store_def same_tables_def)

lemma redis_cmd_out:
  assumes "redis_cmd E f s = (r, s')"
  shows "same_store s s' \<and> ((r = Inr () \<and> ps_stream s' = f (ps_stream s))
           \<or> (r = Inl (OtherError ''redis'') \<and> ps_stream s' = ps_stream s))"
  using assms by (auto simp: redis_cmd_def Let_def same_store_def same_tables_def split: if_splits)

lemma db_commit_out:
  assumes "db_commit E f s = (r, s')"
  shows "ps_stream s' = ps_stream s \<and> ps_archived s' = ps_archived s
         \<and> ((r = Inr () \<and> f (ps_jobs s, ps_usages s) = Inr (ps_jobs s', ps_usages s'))
            \<or> ((\<exists>m. r = Inl (OtherError m)) \<and> same_tables s s'))"
  using assms
  by (auto simp: db_commit_def Let_def same_tables_def split: if_splits sum.splits)

lemma db_read_out:
  assumes "db_read E x s = (r, s')"
  shows "same_store s s' \<and> ps_stream s' = ps_stream s \<and> (r = Inr x \<or> r = Inl (OtherError ''database''))"
  using assms by (auto simp: db_read_def Let_def same_store_def same_tables_def split: if_splits)

lemma lift_err_out: "lift_err x s = (r, s') \<Longrightarrow>
    s' = s \<and> (case x of Inr y \<Rightarrow> r = Inr y | Inl e \<Rightarrow> r = Inl (OtherError ''python''))"
  by (auto simp: lift_err_def throw_def ret_def split: sum.splits)

lemma xadd_out:
  assumes "xadd_result E c s = (r, s')"
  shows "same_store s s' \<and> ((r = Inr () \<and> ps_stream s' = ps_stream s @ [c])
           \<or> (r = Inl (OtherError ''redis'') \<and> ps_stream s' \<in> {ps_stream s, ps_stream s @ [c]}))"
proof -
  obtain r1 s1 where m: "redis_cmd E (\<lambda>s. s @ [c]) s = (r1, s1)" by fastforce
  obtain r2 s2 where n: "redis_cmd E (\<lambda>s. s) s1 = (r2, s2)" by fastforce
  show ?thesis
    using redis_cmd_out [OF m] redis_cmd_out [OF n] assms m n
    by (auto simp: xadd_result_def seqA_def bindA_def dest: same_store_trans)
qed

text \<open>A piece of published audio: the PCM a chunk turned into and its sentence text.\<close>

definition piece_of :: "penv \<Rightarrow> dict \<Rightarrow> int option \<Rightarrow> synth_chunk \<Rightarrow> bytes \<times> ustr option \<Rightarrow> bool" where
  "piece_of E settings bits c p \<longleftrightarrow> chunk_pcm E settings bits c = Inr (fst p) \<and> snd p = sc_sentence_text c"

definition pieces_pcm :: "(bytes \<times> ustr option) list \<Rightarrow> bytes" where
  "pieces_pcm ps = concat (map fst ps)"

lemma chunk_loop_out:
  assumes "chunk_loop E rid attempt settings bits cs acc s = (r, s')"
  shows "\<exists>ps. same_store s s'
           \<and> ps_stream s' = ps_stream s @ audio_chunks (uuid_str rid) attempt (la_seq acc) ps
           \<and> length ps \<le> length cs
           \<and> list_all2 (piece_of E settings bits) (take (length ps) cs) ps
           \<and> (case r of
                Inl e \<Rightarrow> (\<exists>m. e = OtherError m)
              | Inr acc' \<Rightarrow> length ps = length cs \<and> la_pcm acc' = la_pcm acc @ pieces_pcm ps
                  \<and> la_seq acc' = la_seq acc + int (length ps)
                  \<and> length (la_align acc') = length (la_align acc) + length ps)"
  using assms
proof (induction cs arbitrary: acc s)
  case Nil
  then show ?case by (intro exI [of _ "[]"]) (auto simp: ret_def pieces_pcm_def)
next
  case (Cons c cs)
  show ?case
  proof (cases "chunk_pcm E settings bits c")
    case (Inl e)
    then show ?thesis using Cons.prems
      by (intro exI [of _ "[]"]) (auto simp: bindA_def lift_err_def throw_def)
  next
    case (Inr pcm)
    let ?p = "(pcm, sc_sentence_text c)" and ?acc = "loop_step E c pcm acc"
    let ?c = "audio_chunk (uuid_str rid) attempt (la_seq acc) ?p"
    obtain r1 s1 where x: "xadd_result E ?c s = (r1, s1)" by fastforce
    have p: "piece_of E settings bits c ?p" using Inr by (simp add: piece_of_def)
    show ?thesis
    proof (cases r1)
      case (Inl e)
      then have res: "r = Inl e" "s' = s1"
        using Cons.prems Inr x \<open>chunk_pcm E settings bits c = Inr pcm\<close>
        by (auto simp: bindA_def seqA_def lift_err_def ret_def publish_chunk_def)
      from xadd_out [OF x] Inl consider "ps_stream s1 = ps_stream s" | "ps_stream s1 = ps_stream s @ [?c]"
        by auto
      then show ?thesis
      proof cases
        case 1
        then show ?thesis using xadd_out [OF x] Inl res by (intro exI [of _ "[]"]) auto
      next
        case 2
        then show ?thesis using xadd_out [OF x] Inl res p by (intro exI [of _ "[?p]"]) auto
      qed
    next
      case (Inr u)
      then have st: "same_store s s1" "ps_stream s1 = ps_stream s @ [?c]" using xadd_out [OF x] by auto
      have "chunk_loop E rid attempt settings bits cs ?acc s1 = (r, s')"
        using Cons.prems Inr x \<open>chunk_pcm E settings bits c = Inr pcm\<close>
        by (auto simp: bindA_def seqA_def lift_err_def ret_def publish_chunk_def)
      from Cons.IH [OF this] obtain ps where ps: "same_store s1 s'"
          "ps_stream s' = ps_stream s1 @ audio_chunks (uuid_str rid) attempt (la_seq ?acc) ps"
          "length ps \<le> length cs" "list_all2 (piece_of E settings bits) (take (length ps) cs) ps"
          "case r of Inl e \<Rightarrow> (\<exists>m. e = OtherError m)
           | Inr acc' \<Rightarrow> length ps = length cs \<and> la_pcm acc' = la_pcm ?acc @ pieces_pcm ps
               \<and> la_seq acc' = la_seq ?acc + int (length ps)
               \<and> length (la_align acc') = length (la_align ?acc) + length ps"
        by blast
      have seq: "la_seq ?acc = la_seq acc + 1" "la_pcm ?acc = la_pcm acc @ pcm"
        "length (la_align ?acc) = length (la_align acc) + 1"
        by (simp_all add: loop_step_def Let_def)
      show ?thesis
        using ps st p seq same_store_trans [OF st(1) ps(1)]
        by (intro exI [of _ "?p # ps"]) (auto simp: pieces_pcm_def split: sum.splits)
    qed
  qed
qed

text \<open>A poisoned job: the error chunk is out and the failure is persisted, or something broke.\<close>

definition failed_by :: "penv \<Rightarrow> tts_job \<Rightarrow> uuid \<times> uuid \<times> uuid \<Rightarrow> string \<Rightarrow> int \<Rightarrow> pstate \<Rightarrow> pstate \<Rightarrow> bool" where
  "failed_by E job ids code elapsed s s' =
     (case ids of (rid, tenant, api_key) \<Rightarrow>
        failure_tx E job rid tenant api_key code elapsed (ps_jobs s, ps_usages s)
          = Inr (ps_jobs s', ps_usages s'))"

lemma mark_terminal_out:
  assumes ids: "job_ids job = Inr (rid, tenant, api_key)"
    and run: "mark_terminal_failure E job code msg seq elapsed attempt s = (r, s')"
  shows "ps_archived s' = ps_archived s
         \<and> (let err = error_chunk (uuid_str rid) attempt seq (text_or msg (cps code)) in
            (r = Inr () \<and> ps_stream s' = ps_stream s @ [err]
               \<and> failed_by E job (rid, tenant, api_key) code elapsed s s')
            \<or> ((\<exists>m. r = Inl (OtherError m)) \<and> same_tables s s'
               \<and> ps_stream s' \<in> {ps_stream s, ps_stream s @ [err]}))"
proof -
  let ?err = "error_chunk (uuid_str rid) attempt seq (text_or msg (cps code))"
  obtain r1 s1 where m: "xadd_result E ?err s = (r1, s1)" by fastforce
  note x = xadd_out [OF m]
  obtain r2 s2 where n: "db_commit E (failure_tx E job rid tenant api_key code elapsed) s1 = (r2, s2)" by fastforce
  note d = db_commit_out [OF n]
  have run': "(r, s') = (case r1 of Inl e \<Rightarrow> (Inl e, s1) | Inr _ \<Rightarrow> (r2, s2))"
    using run ids m n
    by (auto simp: mark_terminal_failure_def bindA_def seqA_def lift_err_def ret_def publish_error_def
        split: sum.splits)
  show ?thesis
  proof (cases r1)
    case (Inl e)
    then show ?thesis using x run' by (auto simp: Let_def same_store_def)
  next
    case (Inr u)
    then have "same_store s s1" "ps_stream s1 = ps_stream s @ [?err]" using x by auto
    then show ?thesis using d run' Inr
      by (auto simp: Let_def same_store_def same_tables_def failed_by_def)
  qed
qed

definition poison_end ::
  "penv \<Rightarrow> tts_job \<Rightarrow> uuid \<times> uuid \<times> uuid \<Rightarrow> int \<Rightarrow> int \<Rightarrow> pstate \<Rightarrow> job_exn + 'a \<Rightarrow> pstate \<Rightarrow> bool" where
  "poison_end E job ids attempt seq s r s' \<longleftrightarrow>
     ps_archived s' = ps_archived s \<and>
     ((\<exists>code msg. r = Inl (PoisonJob code) \<and> msg \<noteq> [] \<and> failed_by E job ids code (pe_elapsed_ms E) s s'
          \<and> ps_stream s' = ps_stream s @ [error_chunk (uuid_str (fst ids)) attempt seq msg])
      \<or> (\<exists>m. r = Inl (OtherError m) \<and> same_tables s s'
          \<and> (ps_stream s' = ps_stream s
             \<or> (\<exists>msg. ps_stream s' = ps_stream s @ [error_chunk (uuid_str (fst ids)) attempt seq msg]))))"

lemma poison_out:
  assumes ids: "job_ids job = Inr ids" and msg: "msg \<noteq> []"
    and run: "poison E job code msg seq attempt s = (r, s')"
  shows "poison_end E job ids attempt seq s r s'"
proof -
  obtain rid tenant api_key where i: "ids = (rid, tenant, api_key)" by (cases ids)
  obtain r1 s1 where m: "mark_terminal_failure E job code (Some msg) seq (pe_elapsed_ms E) attempt s = (r1, s1)"
    by fastforce
  have "r = (case r1 of Inl e \<Rightarrow> Inl e | Inr _ \<Rightarrow> Inl (PoisonJob code))" "s' = s1"
    using run m by (auto simp: poison_def bindA_def throw_def split: sum.splits)
  then show ?thesis
    using mark_terminal_out [OF ids [unfolded i] m] msg
    by (auto simp: poison_end_def i Let_def text_or_def)
qed

definition committed_by ::
  "penv \<Rightarrow> tts_job \<Rightarrow> uuid \<times> uuid \<times> uuid \<Rightarrow> bytes \<Rightarrow> nat \<Rightarrow> pstate \<Rightarrow> pstate \<Rightarrow> bool" where
  "committed_by E job ids pcm n s s' =
     (case ids of (rid, tenant, api_key) \<Rightarrow>
        ps_archived s' = ps_archived s @ [(rid, pcm)] \<and> pcm \<noteq> [] \<and>
        (\<exists>v p settings overrides acc uri.
           la_pcm acc = pcm \<and> la_seq acc = int n \<and> length (la_align acc) = n \<and> uri \<noteq> []
           \<and> success_tx E job rid tenant api_key v p settings overrides acc uri (ps_jobs s, ps_usages s)
               = Inr (ps_jobs s', ps_usages s')))"

text \<open>
  What one attempt can leave, by how it ended. \<open>pieces\<close> is the audio it published.
\<close>

definition run_end ::
  "penv \<Rightarrow> tts_job \<Rightarrow> uuid \<times> uuid \<times> uuid \<Rightarrow> int \<Rightarrow> (bytes \<times> ustr option) list \<Rightarrow> tts_result list
   \<Rightarrow> pstate \<Rightarrow> job_exn + unit \<Rightarrow> pstate \<Rightarrow> bool" where
  "run_end E job ids attempt pieces tail s r s' =
     (let rid = uuid_str (fst ids); n = length pieces; fin = final_chunk rid attempt (int n) in
      case r of
        Inr _ \<Rightarrow> tail = [fin] \<and> committed_by E job ids (pieces_pcm pieces) n s s'
      | Inl (PoisonJob code) \<Rightarrow>
          (\<exists>msg. msg \<noteq> [] \<and> tail = [error_chunk rid attempt (int n) msg])
          \<and> failed_by E job ids code (pe_elapsed_ms E) s s'
      | Inl (TransientFailure m) \<Rightarrow>
          (tail = [] \<and> same_tables s s')
          \<or> (m = ''publish_final_failed'' \<and> tail \<in> {[], [fin]}
             \<and> committed_by E job ids (pieces_pcm pieces) n s s')
      | Inl (OtherError m) \<Rightarrow>
          (tail = [] \<or> (\<exists>msg. tail = [error_chunk rid attempt (int n) msg])) \<and> same_tables s s')"

lemma run_end_poison:
  assumes "poison_end E job ids attempt (int (length pieces)) s1 r s'" and "same_store s s1"
    and "ps_stream s1 = base"
  shows "\<exists>tail. ps_stream s' = base @ tail \<and> run_end E job ids attempt pieces tail s r s'"
proof -
  have tabs: "failed_by E job ids code e s1 s' = failed_by E job ids code e s s'"
    "same_tables s1 s' = same_tables s s'" for code e
    using assms(2) by (auto simp: failed_by_def same_store_def same_tables_def split: prod.split)
  from assms(1) consider
      code msg where "r = Inl (PoisonJob code)" "msg \<noteq> []" "failed_by E job ids code (pe_elapsed_ms E) s s'"
        "ps_stream s' = ps_stream s1 @ [error_chunk (uuid_str (fst ids)) attempt (int (length pieces)) msg]"
    | m where "r = Inl (OtherError m)" "same_tables s s'" "ps_stream s' = ps_stream s1"
    | m msg where "r = Inl (OtherError m)" "same_tables s s'"
        "ps_stream s' = ps_stream s1 @ [error_chunk (uuid_str (fst ids)) attempt (int (length pieces)) msg]"
    unfolding poison_end_def tabs by blast
  then show ?thesis
    by cases (use assms(3) in \<open>auto simp: run_end_def Let_def\<close>)
qed

lemma run_end_same: "same_store s t \<Longrightarrow>
    run_end E job ids attempt pieces tail t r s' = run_end E job ids attempt pieces tail s r s'"
  by (simp add: run_end_def committed_by_def failed_by_def same_store_def same_tables_def Let_def
      split: prod.split sum.split job_exn.split)

lemma run_end_early:
  assumes "same_tables s s'" and "r = Inl (OtherError m) \<or> r = Inl (TransientFailure m)"
  shows "run_end E job ids attempt pieces [] s r s'"
  using assms by (auto simp: run_end_def Let_def)

lemma pick_preset_out:
  assumes "job_ids job = Inr ids" and "pick_preset E job attempt s = (r, s')"
  shows "(\<exists>p. r = Inr p \<and> s' = s) \<or> ((\<forall>p. r \<noteq> Inr p) \<and> poison_end E job ids attempt 0 s r s')"
proof (cases "resolve_model (tj_model_id job)")
  case (Inl e)
  then have run: "poison E job ''unknown_model_id'' (cps ''unknown model_id'') 0 attempt s = (r, s')"
    using assms(2) by (simp add: pick_preset_def)
  have "poison_end E job ids attempt 0 s r s'" by (rule poison_out [OF assms(1) _ run]) simp
  moreover from this have "\<forall>p. r \<noteq> Inr p" by (auto simp: poison_end_def)
  ultimately show ?thesis by blast
qed (use assms(2) in \<open>auto simp: pick_preset_def ret_def\<close>)

lemma stream_stage_out:
  assumes "stream_stage E job rid attempt view path settings overrides bits s = (r, s')"
  shows "\<exists>ps. same_store s s'
           \<and> ps_stream s' = ps_stream s @ audio_chunks (uuid_str rid) attempt 0 ps
           \<and> (\<exists>cs. list_all2 (piece_of E settings bits) cs ps)
           \<and> (r = Inl (TransientFailure ''engine'')
              \<or> (\<exists>acc. r = Inr acc \<and> la_pcm acc = pieces_pcm ps \<and> la_seq acc = int (length ps)
                     \<and> length (la_align acc) = length ps))"
proof -
  obtain chunks raises where eng: "pe_engine E (tj_text job) view path (tj_language job) overrides
      (nonempty (Some (request_meta_of job))) = (chunks, raises)" by fastforce
  obtain r1 s1 where loop: "chunk_loop E rid attempt settings bits chunks loop_start s = (r1, s1)" by fastforce
  have s1: "s' = s1" and r: "r = Inl (TransientFailure ''engine'') \<or> (r = r1 \<and> (\<exists>acc. r1 = Inr acc))"
    using assms loop eng
    by (auto simp: stream_stage_def or_transient_def catchA_def bindA_def throw_def ret_def
        split: sum.splits if_splits)
  have start: "la_seq loop_start = 0" "la_pcm loop_start = []" "la_align loop_start = []"
    by (simp_all add: loop_start_def)
  obtain ps where "same_store s s1"
      "ps_stream s1 = ps_stream s @ audio_chunks (uuid_str rid) attempt 0 ps"
      "list_all2 (piece_of E settings bits) (take (length ps) chunks) ps"
      "case r1 of Inl e \<Rightarrow> (\<exists>m. e = OtherError m)
       | Inr acc' \<Rightarrow> length ps = length chunks \<and> la_pcm acc' = pieces_pcm ps
           \<and> la_seq acc' = int (length ps) \<and> length (la_align acc') = length ps"
    using chunk_loop_out [OF loop] unfolding start append_Nil add_0 list.size by blast
  then show ?thesis using s1 r by (intro exI [of _ ps]) auto
qed

lemma archive_stage_out:
  assumes "job_ids job = Inr (rid, rest)" and "archive_stage E job rid attempt acc s = (r, s')"
  shows "(\<exists>uri. r = Inr uri \<and> uri \<noteq> [] \<and> la_pcm acc \<noteq> [] \<and> s' = s\<lparr>ps_archived := ps_archived s @ [(rid, la_pcm acc)]\<rparr>)
         \<or> (\<exists>m. r = Inl (TransientFailure m) \<and> s' = s)
         \<or> ((\<forall>uri. r \<noteq> Inr uri) \<and> poison_end E job (rid, rest) attempt (la_seq acc) s r s')"
proof -
  consider "pe_archive E = None" | f where "pe_archive E = Some f" "la_pcm acc = []"
    | f where "pe_archive E = Some f" "la_pcm acc \<noteq> []" by fastforce
  then show ?thesis
  proof cases
    case 2
    then have run: "poison E job ''empty_pcm'' (cps ''empty_pcm: engine produced no PCM'') (la_seq acc) attempt s = (r, s')"
      using assms(2) by (simp add: archive_stage_def)
    have "poison_end E job (rid, rest) attempt (la_seq acc) s r s'"
      by (rule poison_out [OF assms(1) _ run]) simp
    moreover from this have "\<forall>p. r \<noteq> Inr p" by (auto simp: poison_end_def)
    ultimately show ?thesis by blast
  next
    case (3 f)
    show ?thesis
    proof (cases "f rid (la_pcm acc) (pe_engine_rate E)")
      case ArchRaises
      then show ?thesis using 3 assms(2) by (auto simp: archive_stage_def throw_def)
    next
      case (ArchUri uri)
      show ?thesis
      proof (cases "truthy uri")
        case True
        then obtain u where "uri = Some u" "u \<noteq> []" by (auto simp: truthy_iff)
        then show ?thesis using 3 ArchUri assms(2)
          by (auto simp: archive_stage_def seqA_def bindA_def modifyA_def ret_def)
      next
        case False
        then show ?thesis using 3 ArchUri assms(2) by (auto simp: archive_stage_def throw_def)
      qed
    qed
  qed (use assms(2) in \<open>auto simp: archive_stage_def throw_def\<close>)
qed

lemma commit_final_out:
  assumes "seqA (or_transient ''db_commit_failed'' (db_commit E tx))
             (or_transient ''publish_final_failed'' (publish_final E rid seq attempt)) s = (r, s')"
  shows "ps_archived s' = ps_archived s \<and>
         ((r = Inl (TransientFailure ''db_commit_failed'') \<and> same_tables s s' \<and> ps_stream s' = ps_stream s)
          \<or> (tx (ps_jobs s, ps_usages s) = Inr (ps_jobs s', ps_usages s')
             \<and> ((r = Inr () \<and> ps_stream s' = ps_stream s @ [final_chunk (uuid_str rid) attempt seq])
                \<or> (r = Inl (TransientFailure ''publish_final_failed'')
                   \<and> ps_stream s' \<in> {ps_stream s, ps_stream s @ [final_chunk (uuid_str rid) attempt seq]}))))"
proof -
  obtain r1 s1 where d: "db_commit E tx s = (r1, s1)" by fastforce
  note dout = db_commit_out [OF d]
  obtain r2 s2 where x: "xadd_result E (final_chunk (uuid_str rid) attempt seq) s1 = (r2, s2)" by fastforce
  note xout = xadd_out [OF x]
  show ?thesis
  proof (cases r1)
    case (Inl e)
    then show ?thesis using assms d dout
      by (auto simp: seqA_def bindA_def or_transient_def catchA_def throw_def)
  next
    case (Inr u)
    then have "(r, s') = (case r2 of Inl e \<Rightarrow> (Inl (TransientFailure ''publish_final_failed''), s2) | Inr _ \<Rightarrow> (Inr (), s2))"
      using assms d x
      by (auto simp: seqA_def bindA_def or_transient_def catchA_def throw_def publish_final_def split: sum.splits)
    then show ?thesis using Inr dout xout by (auto simp: same_store_def same_tables_def)
  qed
qed

lemma committed_byI:
  assumes "ids = (rid, tenant, api_key)" and "ps_archived s' = ps_archived s @ [(rid, la_pcm acc)]"
    and "la_pcm acc \<noteq> []" "la_seq acc = int n" "length (la_align acc) = n" "uri \<noteq> []"
    and "success_tx E job rid tenant api_key v p settings overrides acc uri (ps_jobs s, ps_usages s)
           = Inr (ps_jobs s', ps_usages s')"
  shows "committed_by E job ids (la_pcm acc) n s s'"
  using assms unfolding committed_by_def by (simp only: prod.case) blast

lemma synthesize_out:
  assumes ids: "job_ids job = Inr ids"
    and run: "synthesize_and_commit E job attempt ids v bits path s = (r, s')"
  shows "\<exists>pieces tail settings cs.
           ps_stream s' = ps_stream s @ audio_chunks (uuid_str (fst ids)) attempt 0 pieces @ tail
           \<and> run_end E job ids attempt pieces tail s r s' \<and> list_all2 (piece_of E settings bits) cs pieces"
proof -
  obtain rid tenant api_key where i: "ids = (rid, tenant, api_key)" by (cases ids)
  let ?rid = "uuid_str (fst ids)"
  let ?settings = "layered_settings (v_settings_defaults v) (tj_voice_settings job)"
  obtain r1 s1 where pick: "pick_preset E job attempt s = (r1, s1)" by fastforce
  from pick_preset_out [OF ids pick] consider p where "r1 = Inr p" "s1 = s"
    | e where "r1 = Inl e" "poison_end E job ids attempt 0 s r1 s1"
    by (cases r1) auto
  then show ?thesis
  proof cases
    case (2 e)
    then have res: "r = Inl e" "s' = s1"
      using run pick by (auto simp: synthesize_and_commit_def i bindA_def)
    have "poison_end E job ids attempt (int (length [])) s r s'"
      using 2 res by (auto simp: poison_end_def)
    from run_end_poison [OF this same_store_refl(1) refl] obtain tail
      where "ps_stream s' = ps_stream s @ tail" "run_end E job ids attempt [] tail s r s'" by blast
    then show ?thesis by (intro exI [of _ "[]"] exI [of _ tail] exI) auto
  next
    case (1 p)
    show ?thesis
    proof (cases "engine_overrides p ?settings (tj_params job)")
      case (Inl e)
      then have "r = Inl (OtherError ''python'')" "s' = s"
        using run pick 1 by (auto simp: synthesize_and_commit_def i bindA_def lift_err_def throw_def Let_def)
      then have "ps_stream s' = ps_stream s" "run_end E job ids attempt [] [] s r s'"
        by (auto intro: run_end_early)
      then show ?thesis by (intro exI [of _ "[]"] exI) auto
    next
      case (Inr overrides)
      obtain r2 s2 where st: "stream_stage E job rid attempt (voice_view_from_db v) path ?settings overrides bits s = (r2, s2)"
        by fastforce
      obtain ps cs where ps: "same_store s s2" "ps_stream s2 = ps_stream s @ audio_chunks ?rid attempt 0 ps"
          "list_all2 (piece_of E ?settings bits) cs ps"
          "r2 = Inl (TransientFailure ''engine'')
           \<or> (\<exists>acc. r2 = Inr acc \<and> la_pcm acc = pieces_pcm ps \<and> la_seq acc = int (length ps)
                 \<and> length (la_align acc) = length ps)"
        using stream_stage_out [OF st] by (auto simp: i)
      have reached: ?thesis if "ps_stream s' = ps_stream s2 @ tail" "run_end E job ids attempt ps tail s r s'" for tail
        using that ps by auto
      show ?thesis
      proof (cases r2)
        case (Inl e)
        then have "r = Inl (TransientFailure ''engine'')" "s' = s2"
          using run pick 1 \<open>engine_overrides p ?settings (tj_params job) = Inr overrides\<close> st ps(4)
          by (auto simp: synthesize_and_commit_def i bindA_def lift_err_def ret_def Let_def)
        then show ?thesis using ps(1) by (intro reached [of "[]"]) (auto intro: run_end_early)
      next
        case (Inr acc)
        with ps(4) have acc: "la_pcm acc = pieces_pcm ps" "la_seq acc = int (length ps)" "length (la_align acc) = length ps"
          by auto
        obtain r3 s3 where ar: "archive_stage E job rid attempt acc s2 = (r3, s3)" by fastforce
        let ?tx = "\<lambda>uri. success_tx E job rid tenant api_key v p ?settings overrides acc uri"
        have run': "(r, s') = (case r3 of Inl e \<Rightarrow> (Inl e, s3)
            | Inr uri \<Rightarrow> seqA (or_transient ''db_commit_failed'' (db_commit E (?tx uri)))
                (or_transient ''publish_final_failed'' (publish_final E rid (la_seq acc) attempt)) s3)"
          using run pick 1 \<open>engine_overrides p ?settings (tj_params job) = Inr overrides\<close> st Inr ar
          by (simp add: synthesize_and_commit_def i bindA_def lift_err_def ret_def Let_def)
        from archive_stage_out [OF ids [unfolded i] ar]
        consider uri where "r3 = Inr uri" "uri \<noteq> []" "la_pcm acc \<noteq> []"
            "s3 = s2\<lparr>ps_archived := ps_archived s2 @ [(rid, la_pcm acc)]\<rparr>"
          | m where "r3 = Inl (TransientFailure m)" "s3 = s2"
          | e where "r3 = Inl e" "poison_end E job ids attempt (la_seq acc) s2 r3 s3"
          unfolding i by (cases r3) auto
        then show ?thesis
        proof cases
          case (1 uri)
          have cf: "seqA (or_transient ''db_commit_failed'' (db_commit E (?tx uri)))
              (or_transient ''publish_final_failed'' (publish_final E rid (la_seq acc) attempt)) s3 = (r, s')"
            using run' 1 by simp
          have tabs: "ps_jobs s3 = ps_jobs s" "ps_usages s3 = ps_usages s" "ps_stream s3 = ps_stream s2"
              "ps_archived s3 = ps_archived s @ [(rid, la_pcm acc)]"
            using 1 ps(1) by (simp_all add: same_store_def same_tables_def)
          have com: "committed_by E job ids (pieces_pcm ps) (length ps) s s'"
            if "?tx uri (ps_jobs s3, ps_usages s3) = Inr (ps_jobs s', ps_usages s')" "ps_archived s' = ps_archived s3"
            using committed_byI [OF i _ 1(3) acc(2,3) 1(2)] that by (simp add: tabs acc(1))
          have "\<exists>tail. ps_stream s' = ps_stream s2 @ tail \<and> run_end E job ids attempt ps tail s r s'"
            using commit_final_out [OF cf] com
            by (auto simp: run_end_def Let_def tabs acc i same_tables_def)
          then show ?thesis using reached by blast
        next
          case (2 m)
          then show ?thesis using run' ps(1) by (intro reached [of "[]"]) (auto intro: run_end_early)
        next
          case (3 e)
          then have "r = Inl e" "s' = s3" using run' by simp_all
          with 3 have "poison_end E job ids attempt (int (length ps)) s2 r s'"
            by (auto simp: poison_end_def acc(2))
          from run_end_poison [OF this ps(1) refl] show ?thesis using reached by blast
        qed
      qed
    qed
  qed
qed

lemma require_watermark_out:
  assumes "job_ids job = Inr ids" and "require_watermark E job attempt row bits s = (r, s')"
  shows "(r = Inr () \<and> s' = s
            \<and> (\<forall>v. row = Some v \<longrightarrow> v_license_kind v \<in> watermark_required \<longrightarrow> bits \<noteq> None \<and> applier_loads E))
         \<or> (\<exists>m. r = Inl (TransientFailure m) \<and> s' = s)
         \<or> (r \<noteq> Inr () \<and> poison_end E job ids attempt 0 s r s')"
proof -
  have key: "r \<noteq> Inr () \<and> poison_end E job ids attempt 0 s r s'"
    if "poison E job ''watermark_required_no_key''
          (cps ''voice requires watermark but no active watermark_key is bound'') 0 attempt s = (r, s')"
  proof -
    have "poison_end E job ids attempt 0 s r s'" by (rule poison_out [OF assms(1) _ that]) simp
    then show ?thesis by (auto simp: poison_end_def)
  qed
  show ?thesis
    using assms(2) key
    by (auto simp: require_watermark_def ret_def throw_def split: option.splits if_splits)
qed

lemma resolve_reference_out:
  assumes "job_ids job = Inr ids" and "resolve_reference E job attempt v s = (r, s')"
  shows "(\<exists>p. r = Inr p \<and> s' = s) \<or> (\<exists>m. r = Inl (OtherError m) \<and> s' = s)
         \<or> ((\<forall>p. r \<noteq> Inr p) \<and> poison_end E job ids attempt 0 s r s')"
proof (cases "pe_resolve E (v_reference_uri v)")
  case (RefNotFound m)
  then have run: "poison E job ''reference_missing'' (cps ''reference_missing: '' @ m) 0 attempt s = (r, s')"
    using assms(2) by (simp add: resolve_reference_def)
  have "poison_end E job ids attempt 0 s r s'" by (rule poison_out [OF assms(1) _ run]) simp
  then show ?thesis by (auto simp: poison_end_def)
qed (use assms(2) in \<open>auto simp: resolve_reference_def ret_def throw_def\<close>)

text \<open>Where published audio comes from: the voice the tenant may see, with its watermark.\<close>

definition audio_source :: "penv \<Rightarrow> tts_job \<Rightarrow> uuid \<Rightarrow> (bytes \<times> ustr option) list \<Rightarrow> bool" where
  "audio_source E job tenant pieces \<longleftrightarrow> pieces = [] \<or>
     (\<exists>v settings cs. get_accessible tenant (tj_voice_id job) (pe_access E) (pe_voices E) = Some v
        \<and> (v_license_kind v \<in> watermark_required \<longrightarrow> watermark_bits E (Some v) \<noteq> None \<and> applier_loads E)
        \<and> list_all2 (piece_of E settings (watermark_bits E (Some v))) cs pieces)"

lemma process_out:
  assumes ids: "job_ids job = Inr ids" and run: "process_one_job E job attempt s = (r, s')"
  shows "(r = Inl (OtherError ''redis'') \<and> same_store s s' \<and> ps_stream s' = ps_stream s)
         \<or> (\<exists>pieces tail. ps_stream s' = audio_chunks (uuid_str (fst ids)) attempt 0 pieces @ tail
              \<and> run_end E job ids attempt pieces tail s r s' \<and> audio_source E job (fst (snd ids)) pieces)"
    (is "_ \<or> ?outcome")
proof -
  obtain rid tenant api_key where i: "ids = (rid, tenant, api_key)" by (cases ids)
  let ?row = "get_accessible tenant (tj_voice_id job) (pe_access E) (pe_voices E)"
  let ?bits = "watermark_bits E ?row"
  have silent: ?outcome if "ps_stream s' = [] @ tail" "run_end E job ids attempt [] tail s r s'" for tail
    using that by (intro exI [of _ "[]"] exI [of _ tail]) (simp add: audio_source_def)
  have poisoned: ?outcome if "same_store s t" "ps_stream t = []" "poison_end E job ids attempt 0 t r s'" for t
  proof -
    have "poison_end E job ids attempt (int (length [])) t r s'" using that(3) by simp
    from run_end_poison [OF this that(1,2)] show ?thesis using silent by blast
  qed
  have early: ?outcome if "same_store s t" "ps_stream t = []" "s' = t"
    "r = Inl (OtherError m) \<or> r = Inl (TransientFailure m)" for t m
    using that run_end_early [of s s' r m] by (intro silent [of "[]"]) simp_all
  obtain r1 s1 where del: "redis_cmd E (\<lambda>_. []) s = (r1, s1)" by fastforce
  note dout = redis_cmd_out [OF del]
  show ?thesis
  proof (cases r1)
    case (Inl e)
    then have "r = Inl e" "s' = s1"
      using run ids del by (auto simp: process_one_job_def i bindA_def seqA_def lift_err_def ret_def)
    then show ?thesis using dout Inl by auto
  next
    case (Inr u)
    then have s1: "same_store s s1" "ps_stream s1 = []" using dout by auto
    obtain r2 s2 where look: "db_read E (?row, ?bits) s1 = (r2, s2)" by fastforce
    have s2: "same_store s s2" "ps_stream s2 = []"
      using db_read_out [OF look] s1 same_store_trans by auto
    show ?thesis
    proof (cases r2)
      case (Inl e)
      then have "r = Inl e" "s' = s2" "e = OtherError ''database''"
        using run ids del Inr look db_read_out [OF look]
        by (auto simp: process_one_job_def i bindA_def seqA_def lift_err_def ret_def lookup_voice_def Let_def)
      then show ?thesis using early s2 by blast
    next
      case (Inr p)
      then have r2: "r2 = Inr (?row, ?bits)" using db_read_out [OF look] by auto
      obtain r3 s3 where rw: "require_watermark E job attempt ?row ?bits s2 = (r3, s3)" by fastforce
      let ?rest = "case ?row of None \<Rightarrow> poison E job ''voice_not_found'' (cps ''voice_not_found'') 0 attempt
          | Some v \<Rightarrow> bindA (resolve_reference E job attempt v)
              (synthesize_and_commit E job attempt (rid, tenant, api_key) v ?bits)"
      have run3: "(r, s') = (case r3 of Inl e \<Rightarrow> (Inl e, s3) | Inr _ \<Rightarrow> ?rest s3)"
        using run ids del \<open>r1 = Inr u\<close> look r2 rw
        by (simp add: process_one_job_def i bindA_def seqA_def lift_err_def ret_def lookup_voice_def Let_def)
      show ?thesis
      proof (cases r3)
        case (Inl e)
        then have "r = Inl e" "s' = s3" using run3 by simp_all
        then show ?thesis
          using require_watermark_out [OF ids rw] Inl early [OF s2] poisoned [OF s2] by (auto simp: poison_end_def)
      next
        case (Inr w)
        then have s3: "s3 = s2" and req: "\<forall>v. ?row = Some v \<longrightarrow> v_license_kind v \<in> watermark_required
            \<longrightarrow> ?bits \<noteq> None \<and> applier_loads E"
          using require_watermark_out [OF ids rw] by auto
        have rest: "?rest s2 = (r, s')" using run3 Inr s3 by simp
        show ?thesis
        proof (cases ?row)
          case None
          then have "poison E job ''voice_not_found'' (cps ''voice_not_found'') 0 attempt s2 = (r, s')"
            using rest by simp
          then have "poison_end E job ids attempt 0 s2 r s'" by (rule poison_out [OF ids, rotated]) simp
          then show ?thesis using poisoned [OF s2] by blast
        next
          case (Some v)
          obtain r4 s4 where rr: "resolve_reference E job attempt v s2 = (r4, s4)" by fastforce
          have run4: "(r, s') = (case r4 of Inl e \<Rightarrow> (Inl e, s4)
              | Inr path \<Rightarrow> synthesize_and_commit E job attempt ids v ?bits path s4)"
            using rest Some rr unfolding i by (cases r4) (simp_all add: bindA_def)
          show ?thesis
          proof (cases r4)
            case (Inl e)
            then have "r = Inl e" "s' = s4" using run4 by simp_all
            then show ?thesis
              using resolve_reference_out [OF ids rr] Inl early [OF s2] poisoned [OF s2] by (auto simp: poison_end_def)
          next
            case (Inr path)
            then have "s4 = s2" using resolve_reference_out [OF ids rr] by auto
            then have syn: "synthesize_and_commit E job attempt ids v ?bits path s2 = (r, s')"
              using run4 Inr by simp
            obtain pieces tail settings cs where out:
              "ps_stream s' = ps_stream s2 @ audio_chunks (uuid_str (fst ids)) attempt 0 pieces @ tail"
              "run_end E job ids attempt pieces tail s2 r s'"
              "list_all2 (piece_of E settings ?bits) cs pieces"
              using synthesize_out [OF ids syn] by blast
            have "run_end E job ids attempt pieces tail s r s'"
              using out(2) s2(1) by (simp add: run_end_same [OF s2(1)])
            moreover have "audio_source E job (fst (snd ids)) pieces"
              using out(3) Some req unfolding audio_source_def i by auto
            ultimately show ?thesis using out(1) s2(2) by auto
          qed
        qed
      qed
    qed
  qed
qed

end
