(* ===== verification/Pipeline_Facts.thy ===== *)
theory Pipeline_Facts
  imports Pipeline
begin

text \<open>
  What the pipeline guarantees, drawn from the outcome lemma of \<^verbatim>\<open>Pipeline\<close>: the final
  marker implies durable results, a finished job is read back by the gateway as the archived
  audio, poisoned and transient attempts, billing, and the watermark duty.
\<close>

subsection \<open>A sample run\<close>

definition sample_engine :: engine_fun where
  "sample_engine txt view path lang overrides meta =
     ([\<lparr>sc_pcm = [1, 0, 2, 0], sc_sample_rate = 48000, sc_sentence_text = Some [77]\<rparr>,
       \<lparr>sc_pcm = [3, 0], sc_sample_rate = 48000, sc_sentence_text = None\<rparr>], False)"

definition sample_env :: penv where
  "sample_env = \<lparr>pe_voices = [sample_voice\<lparr>v_owner := 7, v_voice_id := ''ada''\<rparr>], pe_access = [],
     pe_wm_keys = [], pe_redis_fails = (\<lambda>_. False), pe_db_fails = (\<lambda>_. False),
     pe_resolve = (\<lambda>_. RefPath ''ref.wav''),
     pe_engine = sample_engine, pe_engine_rate = 48000, pe_engine_model_id = Some ''voxcpm2'',
     pe_engine_revision = None, pe_settings_pcm = (\<lambda>pcm _ _. Inr pcm), pe_wm_error_cached = False,
     pe_wm_loads = True, pe_wm_embed = (\<lambda>pcm _ _. Inr pcm),
     pe_archive = Some (\<lambda>_ _ _. ArchUri (Some ''s3://b/k'')), pe_ms = (\<lambda>n r. n * 1000 div max r 1),
     pe_ratio = (\<lambda>a b. of_int a / of_int b), pe_worker_id = Some ''w1'', pe_started_wall_ms = 150,
     pe_now_ms = 160, pe_elapsed_ms = 12, pe_inference_ms = 8, pe_reference_ms = 1,
     pe_first_pcm_ms = 3, pe_first_audio_ms = 4, pe_pickup_ms = Some 5\<rparr>"

definition sample_state :: pstate where
  "sample_state = \<lparr>ps_jobs = [new_job_row 7 100 1 2 ''h'' None], ps_usages = [], ps_stream = [],
     ps_archived = [], ps_redis_ops = 0, ps_db_ops = 0\<rparr>"

lemma sample_ids: "job_ids sample_job = Inr (1, 7, 2)"
  by (simp add: job_ids_def sample_job_def uuid_parse_str)

lemma sample_lookup:
  "get_accessible 7 ''ada'' [] [sample_voice\<lparr>v_owner := 7, v_voice_id := ''ada''\<rparr>]
     = Some (sample_voice\<lparr>v_owner := 7, v_voice_id := ''ada''\<rparr>)"
  by (simp add: get_accessible_def get_owned_def sample_voice_def)

lemma sample_env_sel [simp]:
  "pe_voices sample_env = [sample_voice\<lparr>v_owner := 7, v_voice_id := ''ada''\<rparr>]" "pe_access sample_env = []"
  "pe_wm_keys sample_env = []" "\<not> pe_redis_fails sample_env i" "\<not> pe_db_fails sample_env i"
  "pe_resolve sample_env u = RefPath ''ref.wav''" "pe_engine sample_env = sample_engine"
  "pe_engine_rate sample_env = 48000" "pe_settings_pcm sample_env pcm r d = Inr pcm"
  "pe_archive sample_env = Some (\<lambda>_ _ _. ArchUri (Some ''s3://b/k''))" "pe_now_ms sample_env = 160"
  "pe_ms sample_env n r = n * 1000 div max r 1" "pe_elapsed_ms sample_env = 12"
  "pe_first_audio_ms sample_env = 4" "pe_first_pcm_ms sample_env = 3" "pe_reference_ms sample_env = 1"
  "pe_pickup_ms sample_env = Some 5" "pe_inference_ms sample_env = 8"
  by (simp_all add: sample_env_def)

lemma sample_job_sel [simp]:
  "tj_voice_id sample_job = ''ada''" "tj_model_id sample_job = None" "tj_params sample_job = None"
  "tj_voice_settings sample_job = None" "tj_text sample_job = [77, 0x131]" "tj_app_label sample_job = None"
  "tj_enqueued_at_ms sample_job = Some 100"
  by (simp_all add: sample_job_def)

lemma sample_voice_sel [simp]:
  "v_watermark_key_id sample_voice = None" "v_license_kind sample_voice = ''user-owned''"
  "v_settings_defaults sample_voice = None"
  by (simp_all add: sample_voice_def)

text \<open>Unfolding a run on concrete inputs.\<close>

lemmas run_simps = process_one_job_def sample_ids act_eval lift_err_def redis_cmd_def db_read_def
  db_commit_def lookup_voice_def sample_lookup watermark_bits_def require_watermark_def
  watermark_required_def resolve_reference_def synthesize_and_commit_def pick_preset_def
  resolve_model_def default_model_def presets_def preset_def layered_settings_def dict_merge_def
  engine_overrides_def shifted_cfg_def shifted_steps_def not_null_def param_or_def stream_stage_def
  or_transient_def sample_engine_def chunk_pcm_def publish_chunk_def xadd_result_def loop_step_def
  loop_start_def archive_stage_def success_tx_def usage_record_def ok_usage_def usage_checks_def
  insert_row_def publish_final_def queue_wait_ms_def sample_state_def Let_def

lemma sample_run:
  "fst (process_one_job sample_env sample_job 1 sample_state) = Inr ()"
  "ps_stream (snd (process_one_job sample_env sample_job 1 sample_state))
     = audio_chunks (uuid_str 1) 1 0 [([1, 0, 2, 0], Some [77]), ([3, 0], None)] @ [final_chunk (uuid_str 1) 1 2]"
  "ps_archived (snd (process_one_job sample_env sample_job 1 sample_state)) = [(1, [1, 0, 2, 0, 3, 0])]"
proof -
  show "fst (process_one_job sample_env sample_job 1 sample_state) = Inr ()"
    by (simp add: run_simps)
  show "ps_stream (snd (process_one_job sample_env sample_job 1 sample_state))
     = audio_chunks (uuid_str 1) 1 0 [([1, 0, 2, 0], Some [77]), ([3, 0], None)] @ [final_chunk (uuid_str 1) 1 2]"
    by (simp add: run_simps)
  show "ps_archived (snd (process_one_job sample_env sample_job 1 sample_state)) = [(1, [1, 0, 2, 0, 3, 0])]"
    by (simp add: run_simps)
qed

lemma sample_run_eq:
  "process_one_job sample_env sample_job 1 sample_state
     = (Inr (), snd (process_one_job sample_env sample_job 1 sample_state))"
  using sample_run(1) by (metis prod.collapse)

subsection \<open>The final marker\<close>

lemma audio_chunks_no_final: "\<not> list_ex tr_final (audio_chunks rid a q ps)"
  by (induction ps arbitrary: q) auto

lemma error_chunk_sel [simp]:
  "\<not> tr_final (error_chunk rid a q m)" "tr_error (error_chunk rid a q m) = Some m"
  "tr_attempt (error_chunk rid a q m) = a" "tr_error (final_chunk rid a q) = None"
  "tr_error (audio_chunk rid a q p) = None" "tr_pcm_bytes (final_chunk rid a q) = []"
  by (simp_all add: error_chunk_def final_chunk_def audio_chunk_def)

lemma stream_pcm: "concat (map tr_pcm_bytes (audio_chunks rid a q ps)) = pieces_pcm ps"
  by (simp add: concat_audio_pcm pieces_pcm_def)

lemma committed_rows:
  assumes "committed_by E job (rid, tenant, api_key) pcm n s s'"
  shows "(rid, pcm) \<in> set (ps_archived s') \<and> pcm \<noteq> []
         \<and> (\<exists>u. usage_find tenant rid (ps_usages s') = Some u \<and> ur_status u = ''ok'' \<and> ur_sentence_count u = int n)
         \<and> usage_find tenant rid (ps_usages s) = None
         \<and> (\<exists>uri align. uri \<noteq> [] \<and> idem_get tenant (pe_now_ms E) rid (ps_jobs s')
              = map_option (\<lambda>r. r\<lparr>jr_status := ''complete'', jr_response_uri := Some uri,
                  jr_alignment := if align \<noteq> None then align else jr_alignment r\<rparr>)
                (idem_get tenant (pe_now_ms E) rid (ps_jobs s)))"
proof -
  obtain v p settings overrides acc uri where c:
    "ps_archived s' = ps_archived s @ [(rid, pcm)]" "pcm \<noteq> []" "la_seq acc = int n" "uri \<noteq> []"
    "success_tx E job rid tenant api_key v p settings overrides acc uri (ps_jobs s, ps_usages s)
       = Inr (ps_jobs s', ps_usages s')"
    using assms unfolding committed_by_def prod.case by blast
  let ?u = "ok_usage E job rid tenant api_key v p settings overrides acc"
  have rec: "usage_record tenant (pe_now_ms E) ?u (ps_usages s) = Inr (ps_usages s')"
    and jobs: "ps_jobs s' = idem_complete tenant (pe_now_ms E) rid (Some uri) (nonempty (Some (la_align acc))) (ps_jobs s)"
    using c(5) by (auto simp: success_tx_def Let_def bindS_Inr)
  have sel: "ur_request_id ?u = rid" "ur_status ?u = ''ok''" "ur_sentence_count ?u = int n"
    using c(3) by (simp_all add: ok_usage_def Let_def)
  have "usage_find tenant rid (ps_usages s') = Some (?u\<lparr>ur_tenant_id := tenant, ur_occurred_at := pe_now_ms E\<rparr>)"
    using usage_find_after_record [OF rec] by (simp add: sel)
  moreover have "usage_find tenant rid (ps_usages s) = None"
    using rec by (auto simp: usage_record_cases sel usage_find_def find_None split: if_splits)
  ultimately show ?thesis
    using c(1,2,4) sel idem_get_after_complete [of tenant "pe_now_ms E" rid "Some uri"
        "nonempty (Some (la_align acc))" "ps_jobs s"]
    by (auto simp: jobs)
qed

lemma run_end_final:
  assumes "run_end E job ids attempt pieces tail s r s'" and "list_ex tr_final tail"
  shows "tail = [final_chunk (uuid_str (fst ids)) attempt (int (length pieces))]
         \<and> committed_by E job ids (pieces_pcm pieces) (length pieces) s s'
         \<and> (r = Inr () \<or> r = Inl (TransientFailure ''publish_final_failed''))"
  using assms by (auto simp: run_end_def Let_def split: sum.splits job_exn.splits)

text \<open>
  C1: commit before final. If an attempt leaves a final marker on the result stream, then
  the audio of that stream is in the archive under the request id, the request is billed as
  ok, and the job row that was visible to the tenant, if any, is complete and carries the
  artifact's URI. No failure of Redis, the database, the engine or the archive at any point
  of the attempt can break this.
\<close>

theorem final_marker_durable:
  assumes "job_ids job = Inr (rid, tenant, api_key)"
    and "process_one_job E job attempt s = (r, s')"
    and "\<not> list_ex tr_final (ps_stream s)" and "list_ex tr_final (ps_stream s')"
  shows "(rid, concat (map tr_pcm_bytes (ps_stream s'))) \<in> set (ps_archived s')
         \<and> map_option ur_status (usage_find tenant rid (ps_usages s')) = Some ''ok''
         \<and> map_option (\<lambda>r. (jr_status r, jr_response_uri r = None)) (idem_get tenant (pe_now_ms E) rid (ps_jobs s'))
             = map_option (\<lambda>_. (''complete'', False)) (idem_get tenant (pe_now_ms E) rid (ps_jobs s))"
proof -
  from process_out [OF assms(1,2)] assms(3,4) obtain pieces tail where
    st: "ps_stream s' = audio_chunks (uuid_str rid) attempt 0 pieces @ tail"
    and out: "run_end E job (rid, tenant, api_key) attempt pieces tail s r s'" by auto
  have "list_ex tr_final tail" using assms(4) by (simp add: st audio_chunks_no_final)
  from run_end_final [OF out this] have tail: "tail = [final_chunk (uuid_str rid) attempt (int (length pieces))]"
    and com: "committed_by E job (rid, tenant, api_key) (pieces_pcm pieces) (length pieces) s s'" by auto
  show ?thesis
    using committed_rows [OF com] by (auto simp: st tail stream_pcm option.map_comp comp_def)
qed

theorem final_marker_durable_witness:
  "(1, concat (map tr_pcm_bytes (ps_stream (snd (process_one_job sample_env sample_job 1 sample_state)))))
     \<in> set (ps_archived (snd (process_one_job sample_env sample_job 1 sample_state)))"
  using final_marker_durable [OF sample_ids sample_run_eq]
  by (simp add: sample_run(2)) (simp add: sample_state_def)

lemma audio_chunk_in: "p \<in> set ps \<Longrightarrow> \<exists>q. audio_chunk rid a q p \<in> set (audio_chunks rid a q' ps)"
proof (induction ps arbitrary: q')
  case (Cons x ps)
  then show ?case by (cases "p = x") auto
qed simp

text \<open>What a finished attempt has published, archived and billed.\<close>

lemma finished_job_pieces:
  assumes "job_ids job = Inr (rid, tenant, api_key)" and "process_one_job E job attempt s = (Inr (), s')"
    and "list_all result_ok (ps_stream s')"
  shows "\<exists>pieces. ps_stream s' = audio_chunks (uuid_str rid) attempt 0 pieces
             @ [final_chunk (uuid_str rid) attempt (int (length pieces))]
           \<and> list_all piece_ok pieces \<and> pieces_pcm pieces \<noteq> []
           \<and> ps_archived s' = ps_archived s @ [(rid, pieces_pcm pieces)]
           \<and> map_option ur_sentence_count (usage_find tenant rid (ps_usages s')) = Some (int (length pieces))"
proof -
  from process_out [OF assms(1,2)] obtain pieces tail where
    st: "ps_stream s' = audio_chunks (uuid_str rid) attempt 0 pieces @ tail"
    and out: "run_end E job (rid, tenant, api_key) attempt pieces tail s (Inr ()) s'" by auto
  from out have tail: "tail = [final_chunk (uuid_str rid) attempt (int (length pieces))]"
    and com: "committed_by E job (rid, tenant, api_key) (pieces_pcm pieces) (length pieces) s s'"
    by (auto simp: run_end_def Let_def)
  have "piece_ok p" if p: "p \<in> set pieces" for p
  proof -
    obtain q where "audio_chunk (uuid_str rid) attempt q p \<in> set (ps_stream s')"
      using audio_chunk_in [OF p] st by fastforce
    then have "result_ok (audio_chunk (uuid_str rid) attempt q p)" using assms(3) by (simp add: list_all_iff)
    then show ?thesis by (auto simp: result_ok_def piece_ok_def audio_chunk_def)
  qed
  then have "list_all piece_ok pieces" by (simp add: list_all_iff)
  moreover have "ps_archived s' = ps_archived s @ [(rid, pieces_pcm pieces)]"
    using com by (simp add: committed_by_def)
  ultimately show ?thesis using committed_rows [OF com] st tail by (intro exI [of _ pieces]) auto
qed

lemma finished_job_collected:
  assumes "job_ids job = Inr (rid, tenant, api_key)" and "0 \<le> attempt"
    and "process_one_job E job attempt s = (Inr (), s')"
    and "list_all result_ok (ps_stream s')" and "length (ps_stream s') \<le> 64 * n"
  shows "\<exists>pcm k. pcm \<noteq> [] \<and> last (ps_archived s') = (rid, pcm)
           \<and> collect_pcm_until_final (replicate n \<lparr>po_expired = False, po_stream = entries_of dr 1 (ps_stream s')\<rparr>)
               = Inr (pcm, k, None)
           \<and> map_option ur_sentence_count (usage_find tenant rid (ps_usages s')) = Some (int k)"
proof -
  obtain pieces where p: "ps_stream s' = audio_chunks (uuid_str rid) attempt 0 pieces
             @ [final_chunk (uuid_str rid) attempt (int (length pieces))]"
    "list_all piece_ok pieces" "pieces_pcm pieces \<noteq> []" "ps_archived s' = ps_archived s @ [(rid, pieces_pcm pieces)]"
    "map_option ur_sentence_count (usage_find tenant rid (ps_usages s')) = Some (int (length pieces))"
    using finished_job_pieces [OF assms(1,3,4)] by blast
  have "length pieces < 64 * n" using assms(5) p(1) by simp
  then have "collect_pcm_until_final (replicate n \<lparr>po_expired = False, po_stream = entries_of dr 1 (ps_stream s')\<rparr>)
      = Inr (concat (map fst pieces), length pieces, None)"
    unfolding p(1) using p(2) by (intro collect_attempt assms(2)) simp_all
  then show ?thesis using p(3-5) by (auto simp: pieces_pcm_def)
qed

text \<open>
  The synchronous client hears what was archived. When an attempt ends normally, the
  gateway's collector, reading the attempt's stream with enough polls before its deadline,
  answers the archived PCM, the number of published sentences and no error.
\<close>

theorem finished_job_heard:
  assumes "job_ids job = Inr (rid, tenant, api_key)" and "0 \<le> attempt"
    and "process_one_job E job attempt s = (Inr (), s')"
    and "list_all result_ok (ps_stream s')" and "length (ps_stream s') \<le> 64 * n"
  shows "\<exists>pcm k. pcm \<noteq> [] \<and> last (ps_archived s') = (rid, pcm)
           \<and> collect_pcm_until_final (replicate n \<lparr>po_expired = False, po_stream = entries_of dr 1 (ps_stream s')\<rparr>)
               = Inr (pcm, k, None)
           \<and> map_option ur_sentence_count (usage_find tenant rid (ps_usages s')) = Some (int k)"
  using assms by (rule finished_job_collected)

theorem finished_job_heard_witness:
  "\<exists>pcm k. pcm \<noteq> []
     \<and> last (ps_archived (snd (process_one_job sample_env sample_job 1 sample_state))) = (1, pcm)
     \<and> collect_pcm_until_final (replicate 1 \<lparr>po_expired = False,
          po_stream = entries_of False 1 (ps_stream (snd (process_one_job sample_env sample_job 1 sample_state)))\<rparr>)
         = Inr (pcm, k, None)
     \<and> map_option ur_sentence_count
         (usage_find 7 1 (ps_usages (snd (process_one_job sample_env sample_job 1 sample_state)))) = Some (int k)"
  by (rule finished_job_heard [OF sample_ids _ sample_run_eq])
    (simp_all add: sample_run(2) result_ok_def audio_chunk_def final_chunk_def scalar_def)

subsection \<open>Failures\<close>

text \<open>The status of the visible job row, and how often the request is billed.\<close>

definition job_status :: "penv \<Rightarrow> uuid \<Rightarrow> uuid \<Rightarrow> pstate \<Rightarrow> string option" where
  "job_status E tenant rid s = map_option jr_status (idem_get tenant (pe_now_ms E) rid (ps_jobs s))"

definition bills :: "uuid \<Rightarrow> pstate \<Rightarrow> nat" where
  "bills rid s = length (filter (\<lambda>u. ur_request_id u = rid) (ps_usages s))"

lemma failed_by_rows:
  assumes "failed_by E job (rid, tenant, api_key) code elapsed s s'"
  shows "job_status E tenant rid s' = map_option (\<lambda>_. ''failed'') (job_status E tenant rid s)
         \<and> usage_find tenant rid (ps_usages s') \<noteq> None
         \<and> (usage_find tenant rid (ps_usages s) \<noteq> None \<longrightarrow> ps_usages s' = ps_usages s)"
proof (cases "usage_find tenant rid (ps_usages s)")
  case None
  let ?u = "error_usage E job rid tenant api_key code elapsed"
  from None assms have rec: "usage_record tenant (pe_now_ms E) ?u (ps_usages s) = Inr (ps_usages s')"
    and jobs: "ps_jobs s' = idem_fail tenant (pe_now_ms E) rid (ps_jobs s)"
    by (auto simp: failed_by_def failure_tx_def Let_def bindS_Inr)
  have "ur_request_id ?u = rid" by (simp add: error_usage_def)
  with usage_find_after_record [OF rec] None show ?thesis
    by (simp add: job_status_def jobs idem_get_after_fail option.map_comp comp_def)
next
  case (Some u)
  with assms have "ps_jobs s' = idem_fail tenant (pe_now_ms E) rid (ps_jobs s)" "ps_usages s' = ps_usages s"
    by (simp_all add: failed_by_def failure_tx_def Let_def)
  with Some show ?thesis
    by (simp add: job_status_def idem_get_after_fail option.map_comp comp_def)
qed

text \<open>
  A poisoned job is told and recorded. When an attempt ends in PoisonJob, the stream
  is this attempt's audio and then exactly one error chunk with a non-empty message, the
  visible job row, if there is one, is failed, and the request has a usage row.
\<close>

theorem poison_is_recorded:
  assumes "job_ids job = Inr (rid, tenant, api_key)"
    and "process_one_job E job attempt s = (Inl (PoisonJob code), s')"
  shows "\<exists>pieces msg. msg \<noteq> []
           \<and> ps_stream s' = audio_chunks (uuid_str rid) attempt 0 pieces
               @ [error_chunk (uuid_str rid) attempt (int (length pieces)) msg]
           \<and> job_status E tenant rid s' = map_option (\<lambda>_. ''failed'') (job_status E tenant rid s)
           \<and> usage_find tenant rid (ps_usages s') \<noteq> None"
proof -
  from process_out [OF assms] obtain pieces tail where
    st: "ps_stream s' = audio_chunks (uuid_str rid) attempt 0 pieces @ tail"
    and out: "run_end E job (rid, tenant, api_key) attempt pieces tail s (Inl (PoisonJob code)) s'" by auto
  from out obtain msg where "msg \<noteq> []" "tail = [error_chunk (uuid_str rid) attempt (int (length pieces)) msg]"
    and fb: "failed_by E job (rid, tenant, api_key) code (pe_elapsed_ms E) s s'"
    by (auto simp: run_end_def Let_def)
  then show ?thesis
    using failed_by_rows [OF fb] st by (intro exI [of _ pieces] exI [of _ msg]) simp
qed

text \<open>
  A transient failure is silent. The stream holds no error chunk, so the client keeps
  waiting for the retry; and unless only the final marker's publication failed, no table
  changed and no final marker is out.
\<close>

theorem transient_is_silent:
  assumes "job_ids job = Inr (rid, tenant, api_key)"
    and "process_one_job E job attempt s = (Inl (TransientFailure m), s')"
  shows "\<exists>pieces tail. ps_stream s' = audio_chunks (uuid_str rid) attempt 0 pieces @ tail
           \<and> list_all (\<lambda>c. tr_error c = None) (ps_stream s')
           \<and> (if m = ''publish_final_failed'' \<and> ps_usages s' \<noteq> ps_usages s
              then tail \<in> {[], [final_chunk (uuid_str rid) attempt (int (length pieces))]}
              else tail = [] \<and> ps_jobs s' = ps_jobs s \<and> ps_usages s' = ps_usages s)"
proof -
  from process_out [OF assms] obtain pieces tail where
    st: "ps_stream s' = audio_chunks (uuid_str rid) attempt 0 pieces @ tail"
    and out: "run_end E job (rid, tenant, api_key) attempt pieces tail s (Inl (TransientFailure m)) s'" by auto
  have quiet: "list_all (\<lambda>c. tr_error c = None) (audio_chunks rid' a q ps)" for rid' a q ps
    by (induction ps arbitrary: q) auto
  from out consider "tail = []" "same_tables s s'"
    | "m = ''publish_final_failed''" "tail \<in> {[], [final_chunk (uuid_str rid) attempt (int (length pieces))]}"
      "committed_by E job (rid, tenant, api_key) (pieces_pcm pieces) (length pieces) s s'"
    by (auto simp: run_end_def Let_def)
  then show ?thesis
  proof cases
    case 1
    then show ?thesis using st quiet by (intro exI [of _ pieces] exI [of _ tail]) (auto simp: same_tables_def)
  next
    case 2
    then have "ps_usages s' \<noteq> ps_usages s" using committed_rows [OF 2(3)] by auto
    then show ?thesis using st quiet 2 by (intro exI [of _ pieces] exI [of _ tail]) auto
  qed
qed

text \<open>
  C36: a job that was committed can never finish again. When the request is already billed
  (an earlier attempt committed but its final marker or its acknowledgement was lost), a
  re-run never ends normally and never publishes a final marker: it ends transient, poisoned
  or broken, and the retry only overwrites the stream. The pipeline's contract promises that
  the retry re-emits all chunks and a fresh final.
\<close>

theorem rerun_never_finishes:
  assumes "job_ids job = Inr (rid, tenant, api_key)"
    and "process_one_job E job attempt s = (r, s')"
    and "usage_find tenant rid (ps_usages s) \<noteq> None" and "\<not> list_ex tr_final (ps_stream s)"
  shows "r \<noteq> Inr () \<and> \<not> list_ex tr_final (ps_stream s') \<and> ps_usages s' = ps_usages s"
proof -
  from process_out [OF assms(1,2)] consider "r = Inl (OtherError ''redis'')" "same_store s s'" "ps_stream s' = ps_stream s"
    | pieces tail where "ps_stream s' = audio_chunks (uuid_str rid) attempt 0 pieces @ tail"
        "run_end E job (rid, tenant, api_key) attempt pieces tail s r s'" by auto
  then show ?thesis
  proof cases
    case 1
    then show ?thesis using assms(4) by (simp add: same_store_def same_tables_def)
  next
    case 2
    have no: "\<not> committed_by E job (rid, tenant, api_key) pcm n s s'" for pcm n
      using committed_rows [of E job rid tenant api_key pcm n s s'] assms(3) by auto
    then have "\<not> list_ex tr_final tail" using run_end_final [OF 2(2)] by blast
    moreover have "r \<noteq> Inr ()" using 2(2) no by (auto simp: run_end_def Let_def)
    moreover have "ps_usages s' = ps_usages s"
      using 2(2) no failed_by_rows assms(3)
      by (auto simp: run_end_def Let_def same_tables_def split: sum.splits job_exn.splits)
    ultimately show ?thesis using 2(1) by (simp add: audio_chunks_no_final)
  qed
qed

lemma sample_billed:
  "usage_find 7 1 (ps_usages (snd (process_one_job sample_env sample_job 1 sample_state))) \<noteq> None"
  by (simp add: run_simps usage_find_def)

theorem rerun_never_finishes_witness:
  "fst (process_one_job sample_env sample_job 2
      (snd (process_one_job sample_env sample_job 1 sample_state)\<lparr>ps_stream := []\<rparr>)) \<noteq> Inr ()"
  using rerun_never_finishes [OF sample_ids, of sample_env 2
      "snd (process_one_job sample_env sample_job 1 sample_state)\<lparr>ps_stream := []\<rparr>"
      "fst (process_one_job sample_env sample_job 2 (snd (process_one_job sample_env sample_job 1 sample_state)\<lparr>ps_stream := []\<rparr>))"
      "snd (process_one_job sample_env sample_job 2 (snd (process_one_job sample_env sample_job 1 sample_state)\<lparr>ps_stream := []\<rparr>))"]
    sample_billed by simp

lemma poison_run:
  "fst (process_one_job (sample_env\<lparr>pe_voices := []\<rparr>) sample_job 1 sample_state) = Inl (PoisonJob ''voice_not_found'')"
  by (simp add: run_simps get_accessible_def get_owned_def poison_def mark_terminal_failure_def publish_error_def
      failure_tx_def usage_find_def error_usage_def)

theorem poison_is_recorded_witness:
  "\<exists>pieces msg. msg \<noteq> []
     \<and> ps_stream (snd (process_one_job (sample_env\<lparr>pe_voices := []\<rparr>) sample_job 1 sample_state))
         = audio_chunks (uuid_str 1) 1 0 pieces @ [error_chunk (uuid_str 1) 1 (int (length pieces)) msg]"
  using poison_is_recorded [OF sample_ids, of "sample_env\<lparr>pe_voices := []\<rparr>" 1 sample_state "''voice_not_found''"
      "snd (process_one_job (sample_env\<lparr>pe_voices := []\<rparr>) sample_job 1 sample_state)"] poison_run
  by (metis prod.collapse)

lemma transient_run:
  "fst (process_one_job (sample_env\<lparr>pe_archive := None\<rparr>) sample_job 1 sample_state)
     = Inl (TransientFailure ''archive_to_r2 callable not configured'')"
  by (simp add: run_simps)

theorem transient_is_silent_witness:
  "list_all (\<lambda>c. tr_error c = None)
     (ps_stream (snd (process_one_job (sample_env\<lparr>pe_archive := None\<rparr>) sample_job 1 sample_state)))"
  using transient_is_silent [OF sample_ids, of "sample_env\<lparr>pe_archive := None\<rparr>" 1 sample_state
      "''archive_to_r2 callable not configured''"
      "snd (process_one_job (sample_env\<lparr>pe_archive := None\<rparr>) sample_job 1 sample_state)"] transient_run
  by (metis prod.collapse)

subsection \<open>Licensed voices\<close>

lemma licensed_watermarked:
  assumes "job_ids job = Inr (rid, tenant, api_key)"
    and "process_one_job E job attempt s = (r, s')" and "ps_stream s = []"
    and "get_accessible tenant (tj_voice_id job) (pe_access E) (pe_voices E) = Some v"
    and "v_license_kind v \<in> watermark_required"
    and "c \<in> set (ps_stream s')" and "tr_pcm_bytes c \<noteq> []"
  shows "\<exists>kid key pcm rate. v_watermark_key_id v = Some kid \<and> wm_get_active kid (pe_wm_keys E) = Some key
           \<and> pe_wm_embed E pcm rate (wk_message_bits key) = Inr (tr_pcm_bytes c)"
proof -
  from process_out [OF assms(1,2)] assms(3,6) obtain pieces tail where
    st: "ps_stream s' = audio_chunks (uuid_str rid) attempt 0 pieces @ tail"
    and out: "run_end E job (rid, tenant, api_key) attempt pieces tail s r s'"
    and src: "audio_source E job tenant pieces" by auto
  have silent: "tr_pcm_bytes d = []" if "d \<in> set tail" for d
    using out that by (auto simp: run_end_def Let_def error_chunk_def split: sum.splits job_exn.splits)
  have "\<exists>p\<in>set ps. tr_pcm_bytes c = fst p" if "c \<in> set (audio_chunks rid' a q ps)" for rid' a q ps
    using that by (induction ps arbitrary: q) auto
  then obtain p where p: "p \<in> set pieces" "tr_pcm_bytes c = fst p"
    using assms(6,7) st silent by fastforce
  then obtain settings cs where
    bits: "watermark_bits E (Some v) \<noteq> None" "applier_loads E"
    and all: "list_all2 (piece_of E settings (watermark_bits E (Some v))) cs pieces"
    using src assms(4,5) by (auto simp: audio_source_def)
  from bits(1) obtain kid key where key: "v_watermark_key_id v = Some kid"
      "wm_get_active kid (pe_wm_keys E) = Some key" "watermark_bits E (Some v) = Some (wk_message_bits key)"
    by (auto simp: watermark_bits_def split: option.splits if_splits)
  obtain sc where "piece_of E settings (Some (wk_message_bits key)) sc p"
    using all p(1) key(3) by (metis in_set_conv_nth list_all2_conv_all_nth)
  then obtain pcm where "watermark_pcm E pcm (chunk_rate E sc) (wk_message_bits key) = Inr (fst p)"
    by (auto simp: piece_of_def chunk_pcm_def bindS_Inr)
  then have "pe_wm_embed E pcm (chunk_rate E sc) (wk_message_bits key) = Inr (fst p)"
    using bits(2) by (auto simp: watermark_pcm_def applier_loads_def split: if_splits)
  with key p(2) show ?thesis by auto
qed

text \<open>
  C24: a licensed voice never speaks unmarked. For a voice whose license requires the
  watermark, every non-empty chunk of PCM an attempt puts on the stream, whatever happens
  later in the attempt, is an output of the watermark model for the payload of the voice's
  active key.
\<close>

theorem licensed_audio_watermarked:
  assumes "job_ids job = Inr (rid, tenant, api_key)"
    and "process_one_job E job attempt s = (r, s')" and "ps_stream s = []"
    and "get_accessible tenant (tj_voice_id job) (pe_access E) (pe_voices E) = Some v"
    and "v_license_kind v \<in> watermark_required"
    and "c \<in> set (ps_stream s')" and "tr_pcm_bytes c \<noteq> []"
  shows "\<exists>kid key pcm rate. v_watermark_key_id v = Some kid \<and> wm_get_active kid (pe_wm_keys E) = Some key
           \<and> pe_wm_embed E pcm rate (wk_message_bits key) = Inr (tr_pcm_bytes c)"
  by (rule licensed_watermarked [OF assms])

definition licensed_voice :: voice where
  "licensed_voice = sample_voice\<lparr>v_owner := 7, v_voice_id := ''ada'', v_license_kind := ''talent-contract'',
     v_watermark_key_id := Some 5\<rparr>"

definition licensed_env :: penv where
  "licensed_env = sample_env\<lparr>pe_voices := [licensed_voice],
     pe_wm_keys := [\<lparr>wk_id = 5, wk_message_bits = 9, wk_label = [65], wk_allocated_at = 0,
        wk_retired_at = None, wk_retired_reason = None, wk_notes = None, wk_created_by = None\<rparr>],
     pe_wm_embed := (\<lambda>pcm _ b. Inr (pcm @ [nat b]))\<rparr>"

lemma licensed_voice_sel [simp]:
  "v_watermark_key_id licensed_voice = Some 5" "v_license_kind licensed_voice = ''talent-contract''"
  "v_settings_defaults licensed_voice = None" "v_watermark_enabled licensed_voice"
  by (simp_all add: licensed_voice_def, simp_all add: sample_voice_def)

lemma licensed_lookup: "get_accessible 7 ''ada'' [] [licensed_voice] = Some licensed_voice"
  by (simp add: get_accessible_def get_owned_def licensed_voice_def) (simp add: sample_voice_def)

lemma licensed_run:
  "ps_stream (snd (process_one_job licensed_env sample_job 1 sample_state))
     = audio_chunks (uuid_str 1) 1 0 [([1, 0, 2, 0, 9], Some [77]), ([3, 0, 9], None)] @ [final_chunk (uuid_str 1) 1 2]"
  by (simp add: licensed_env_def run_simps licensed_lookup wm_get_active_def watermark_pcm_def applier_loads_def)
    (simp add: sample_env_def)

theorem licensed_audio_watermarked_witness:
  "\<exists>kid key pcm rate. v_watermark_key_id licensed_voice = Some kid
     \<and> wm_get_active kid (pe_wm_keys licensed_env) = Some key
     \<and> pe_wm_embed licensed_env pcm rate (wk_message_bits key)
         = Inr (tr_pcm_bytes (audio_chunk (uuid_str 1) 1 1 ([3, 0, 9], None)))"
  using licensed_audio_watermarked [OF sample_ids, of licensed_env 1 sample_state
      "fst (process_one_job licensed_env sample_job 1 sample_state)"
      "snd (process_one_job licensed_env sample_job 1 sample_state)" licensed_voice
      "audio_chunk (uuid_str 1) 1 1 ([3, 0, 9], None)"]
  by (simp add: licensed_run licensed_lookup watermark_required_def)
    (simp add: licensed_env_def licensed_lookup sample_state_def)

end
