(* ===== verification/Consumer.thy ===== *)
theory Consumer
  imports Pipeline_Facts
begin

text \<open>
  The queue consumer (\<^verbatim>\<open>src/worker/consumer.py\<close>): one delivered stream entry through
  \<open>_handle_one\<close>, with the acknowledgement matrix, the retry budget, the dead-letter stream
  and the counters, and the loop around it (\<open>_tick\<close>, \<open>_xautoclaim_sweep\<close>, \<open>run\<close>).

  The consumer's state holds the group's pending list (entry ids), the dead-letter stream and
  the counters next to the pipeline's state for the request at hand. Replies of Redis to the
  consumer's own commands are inputs.
\<close>

subsection \<open>State and replies\<close>

record dlq_entry =
  dq_entry_id :: nat
  dq_request_id :: "ustr option"
  dq_reason :: string
  dq_delivery_count :: int

record cstate =
  cs_p :: pstate
  cs_pel :: "nat list"
  cs_dlq :: "dlq_entry list"
  cs_acked :: nat
  cs_poisoned :: nat
  cs_transient :: nat
  cs_unknown :: nat
  cs_claimed :: nat
  cs_dlqed :: nat
  cs_in_flight :: int
  cs_last_pickup_ms :: int

datatype ack_reply = AckOk | AckResponseError | AckRaises

text \<open>
  Replies while one entry is handled: the two reads of \<open>times_delivered\<close> (\<open>None\<close> when the
  read fails or has no row, \<open>Some 0\<close> counts as missing too), whether the dead-letter XADD
  succeeds, and the answer to XACK.
\<close>

record creply =
  cr_count_at_pickup :: "int option"
  cr_count_at_budget :: "int option"
  cr_dlq_ok :: bool
  cr_ack :: ack_reply

type_synonym 'a cact = "(cstate, job_exn, 'a) act"

definition on_pipeline :: "'a pact \<Rightarrow> 'a cact" where
  "on_pipeline m s = (case m (cs_p s) of (r, p) \<Rightarrow> (r, s\<lparr>cs_p := p\<rparr>))"

definition delivery_count :: "int option \<Rightarrow> int" where
  "delivery_count reply = (case reply of None \<Rightarrow> 1 | Some n \<Rightarrow> if n = 0 then 1 else n)"

definition xack :: "creply \<Rightarrow> nat \<Rightarrow> unit cact" where
  "xack R i =
     (case cr_ack R of
        AckOk \<Rightarrow> modifyA (\<lambda>s. s\<lparr>cs_pel := filter (\<lambda>j. j \<noteq> i) (cs_pel s)\<rparr>)
      | AckResponseError \<Rightarrow> ret ()
      | AckRaises \<Rightarrow> throw (OtherError ''xack''))"

definition send_to_dlq :: "creply \<Rightarrow> nat \<Rightarrow> ustr option \<Rightarrow> string \<Rightarrow> int \<Rightarrow> unit cact" where
  "send_to_dlq R i rid reason count =
     (if cr_dlq_ok R
      then modifyA (\<lambda>s. s\<lparr>cs_dlq := cs_dlq s @
             [\<lparr>dq_entry_id = i, dq_request_id = rid, dq_reason = reason, dq_delivery_count = count\<rparr>]\<rparr>)
      else throw (OtherError ''dlq''))"

definition count_dlqed :: "unit cact" where
  "count_dlqed = modifyA (\<lambda>s. s\<lparr>cs_dlqed := cs_dlqed s + 1\<rparr>)"

text \<open>\<open>_maybe_dlq_and_ack\<close>: below the budget the entry stays pending.\<close>

definition maybe_dlq_and_ack ::
  "penv \<Rightarrow> creply \<Rightarrow> int \<Rightarrow> nat \<Rightarrow> tts_job \<Rightarrow> string \<Rightarrow> ustr \<Rightarrow> bool cact" where
  "maybe_dlq_and_ack E R max_retries i job reason msg =
     (let count = delivery_count (cr_count_at_budget R)
      in if count < max_retries then ret False
         else
           seqA (on_pipeline (mark_terminal_failure E job reason (Some (cps reason @ cps '': '' @ msg)) 0 0 count))
           (seqA (send_to_dlq R i (Some (tj_request_id job)) reason count)
           (seqA (xack R i) (ret True))))"

text \<open>
  The handlers of the three exception branches and of the normal end. \<open>err\<close> is the text of
  the exception, which ends up in the error chunk.
\<close>

definition on_poison :: "creply \<Rightarrow> nat \<Rightarrow> tts_job \<Rightarrow> int \<Rightarrow> unit cact" where
  "on_poison R i job attempt =
     seqA (catchA (seqA (send_to_dlq R i (Some (tj_request_id job)) ''poison'' attempt) count_dlqed)
                  (\<lambda>_. ret ()))
     (seqA (xack R i)
           (modifyA (\<lambda>s. s\<lparr>cs_poisoned := cs_poisoned s + 1\<rparr>)))"

definition on_retryable ::
  "penv \<Rightarrow> creply \<Rightarrow> int \<Rightarrow> nat \<Rightarrow> tts_job \<Rightarrow> string \<Rightarrow> ustr \<Rightarrow> (cstate \<Rightarrow> cstate) \<Rightarrow> unit cact" where
  "on_retryable E R max_retries i job reason err bump =
     bindA (maybe_dlq_and_ack E R max_retries i job reason err) (\<lambda>gone.
     seqA (if gone then count_dlqed else ret ())
          (modifyA bump))"

definition handle_job :: "penv \<Rightarrow> creply \<Rightarrow> int \<Rightarrow> nat \<Rightarrow> tts_job \<Rightarrow> unit cact" where
  "handle_job E R max_retries i job s =
     (let attempt = delivery_count (cr_count_at_pickup R)
      in case on_pipeline (process_one_job E job attempt) s of
           (Inr _, s1) \<Rightarrow> seqA (xack R i) (modifyA (\<lambda>s. s\<lparr>cs_acked := cs_acked s + 1\<rparr>)) s1
         | (Inl (PoisonJob code), s1) \<Rightarrow> on_poison R i job attempt s1
         | (Inl (TransientFailure m), s1) \<Rightarrow>
             on_retryable E R max_retries i job ''transient_max_retries'' (cps m)
               (\<lambda>s. s\<lparr>cs_transient := cs_transient s + 1\<rparr>) s1
         | (Inl (OtherError m), s1) \<Rightarrow>
             on_retryable E R max_retries i job ''unknown_exception'' (cps m)
               (\<lambda>s. s\<lparr>cs_unknown := cs_unknown s + 1\<rparr>) s1)"

definition handle_malformed :: "creply \<Rightarrow> nat \<Rightarrow> unit cact" where
  "handle_malformed R i =
     seqA (send_to_dlq R i None ''malformed_payload'' (delivery_count (cr_count_at_pickup R)))
     (seqA (xack R i)
           (modifyA (\<lambda>s. s\<lparr>cs_poisoned := cs_poisoned s + 1, cs_dlqed := cs_dlqed s + 1\<rparr>)))"

text \<open>\<open>_handle_one\<close> on the result of \<open>TtsJobPayload.decode\<close>.\<close>

definition handle_one :: "penv \<Rightarrow> creply \<Rightarrow> int \<Rightarrow> nat \<Rightarrow> py_error + tts_job \<Rightarrow> unit cact" where
  "handle_one E R max_retries i decoded =
     (case decoded of
        Inl e \<Rightarrow> handle_malformed R i
      | Inr job \<Rightarrow> handle_job E R max_retries i job)"

subsection \<open>The loop\<close>

text \<open>
  One iteration's inputs: the answer to XREADGROUP, the answer to XAUTOCLAIM, whether the
  sweep is due by the clock, the stop flag as read after the tick, and the clock.
\<close>

datatype fetched = Nothing | Fetch_Error | Fetch_Raises | Entry nat "py_error + tts_job"

record iteration =
  it_read :: fetched
  it_read_reply :: creply
  it_stop_after_tick :: bool
  it_sweep_due :: bool
  it_claim :: fetched
  it_claim_reply :: creply
  it_now_ms :: int

text \<open>\<open>_tick\<close>: whether a message was pulled. Delivery makes the entry pending.\<close>

definition pending :: "nat \<Rightarrow> cstate \<Rightarrow> cstate" where
  "pending i s = (if i \<in> set (cs_pel s) then s else s\<lparr>cs_pel := cs_pel s @ [i]\<rparr>)"

definition tick :: "penv \<Rightarrow> int \<Rightarrow> iteration \<Rightarrow> bool cact" where
  "tick E max_retries it s =
     (case it_read it of
        Nothing \<Rightarrow> (Inr False, s)
      | Fetch_Error \<Rightarrow> (Inr False, s)
      | Fetch_Raises \<Rightarrow> (Inl (OtherError ''xreadgroup''), s)
      | Entry i decoded \<Rightarrow>
          (let s1 = (pending i s)\<lparr>cs_last_pickup_ms := it_now_ms it, cs_in_flight := cs_in_flight s + 1\<rparr>
           in case handle_one E (it_read_reply it) max_retries i decoded s1 of
                (r, s2) \<Rightarrow>
                  (case r of Inl e \<Rightarrow> Inl e | Inr _ \<Rightarrow> Inr True,
                   s2\<lparr>cs_in_flight := max 0 (cs_in_flight s2 - 1)\<rparr>)))"

definition xautoclaim_sweep :: "penv \<Rightarrow> int \<Rightarrow> iteration \<Rightarrow> unit cact" where
  "xautoclaim_sweep E max_retries it s =
     (case it_claim it of
        Nothing \<Rightarrow> (Inr (), s)
      | Fetch_Error \<Rightarrow> (Inr (), s)
      | Fetch_Raises \<Rightarrow> (Inl (OtherError ''xautoclaim''), s)
      | Entry i decoded \<Rightarrow>
          handle_one E (it_claim_reply it) max_retries i decoded (s\<lparr>cs_claimed := cs_claimed s + 1\<rparr>))"

text \<open>
  \<open>run\<close> over a list of iterations (its environments included, since they change from job to
  job): an exception of the tick counts as not handled, an exception of the sweep ends the
  loop.
\<close>

fun run_consumer :: "int \<Rightarrow> (penv \<times> penv \<times> iteration) list \<Rightarrow> unit cact" where
  "run_consumer max_retries [] s = (Inr (), s)"
| "run_consumer max_retries ((E, E', it) # its) s =
     (case tick E max_retries it s of
        (r, s1) \<Rightarrow>
          (let handled = (case r of Inl _ \<Rightarrow> False | Inr h \<Rightarrow> h)
           in if it_stop_after_tick it then (Inr (), s1)
              else if \<not> handled \<or> it_sweep_due it
              then (case xautoclaim_sweep E' max_retries it s1 of
                      (Inl e, s2) \<Rightarrow> (Inl e, s2)
                    | (Inr _, s2) \<Rightarrow> run_consumer max_retries its s2)
              else run_consumer max_retries its s1))"

subsection \<open>When an entry leaves the pending list\<close>

lemma xack_out:
  assumes "xack R i s = (r, s')"
  shows "cs_p s' = cs_p s \<and> cs_dlq s' = cs_dlq s
         \<and> (cs_pel s' = cs_pel s \<or> (r = Inr () \<and> cs_pel s' = filter (\<lambda>j. j \<noteq> i) (cs_pel s)))"
  using assms by (auto simp: xack_def modifyA_def ret_def throw_def split: ack_reply.splits)

lemma maybe_dlq_and_ack_out:
  assumes "maybe_dlq_and_ack E R mx i job reason msg s = (r, s')"
  shows "(cs_pel s' = cs_pel s \<and> (delivery_count (cr_count_at_budget R) < mx \<longrightarrow> r = Inr False \<and> s' = s))
         \<or> (mx \<le> delivery_count (cr_count_at_budget R) \<and> r = Inr True
            \<and> mark_terminal_failure E job reason (Some (cps reason @ cps '': '' @ msg)) 0 0
                (delivery_count (cr_count_at_budget R)) (cs_p s) = (Inr (), cs_p s')
            \<and> list_ex (\<lambda>d. dq_entry_id d = i \<and> dq_reason d = reason) (cs_dlq s'))"
proof (cases "delivery_count (cr_count_at_budget R) < mx")
  case True
  then show ?thesis using assms by (simp add: maybe_dlq_and_ack_def Let_def ret_def)
next
  case False
  let ?c = "delivery_count (cr_count_at_budget R)"
  obtain r1 p1 where m: "mark_terminal_failure E job reason (Some (cps reason @ cps '': '' @ msg)) 0 0 ?c (cs_p s) = (r1, p1)"
    by fastforce
  show ?thesis
  proof (cases r1)
    case (Inl e)
    then show ?thesis using assms m False
      by (auto simp: maybe_dlq_and_ack_def Let_def seqA_def bindA_def on_pipeline_def)
  next
    case (Inr u)
    show ?thesis
    proof (cases "cr_dlq_ok R")
      case no: False
      then show ?thesis using assms m False Inr
        by (auto simp: maybe_dlq_and_ack_def Let_def seqA_def bindA_def on_pipeline_def send_to_dlq_def throw_def)
    next
      case True
      then show ?thesis using assms m False Inr
        by (auto simp: maybe_dlq_and_ack_def Let_def seqA_def bindA_def on_pipeline_def send_to_dlq_def
            modifyA_def ret_def throw_def xack_def split: ack_reply.splits)
    qed
  qed
qed

lemma on_poison_p:
  assumes "on_poison R i job attempt s = (r, s')"
  shows "cs_p s' = cs_p s"
  using assms
  by (auto simp: on_poison_def seqA_def bindA_def catchA_def send_to_dlq_def modifyA_def ret_def throw_def
      count_dlqed_def xack_def split: if_splits ack_reply.splits)

lemma on_retryable_out:
  assumes "on_retryable E R mx i job reason err bump s = (r, s')"
    and bump: "\<And>s. cs_p (bump s) = cs_p s \<and> cs_pel (bump s) = cs_pel s \<and> cs_dlq (bump s) = cs_dlq s"
  shows "cs_pel s' = cs_pel s
         \<or> (mx \<le> delivery_count (cr_count_at_budget R)
            \<and> mark_terminal_failure E job reason (Some (cps reason @ cps '': '' @ err)) 0 0
                (delivery_count (cr_count_at_budget R)) (cs_p s) = (Inr (), cs_p s')
            \<and> list_ex (\<lambda>d. dq_entry_id d = i \<and> dq_reason d = reason) (cs_dlq s'))"
proof -
  obtain r1 s1 where m: "maybe_dlq_and_ack E R mx i job reason err s = (r1, s1)" by fastforce
  show ?thesis
    using assms(1) maybe_dlq_and_ack_out [OF m] m bump
    by (auto simp: on_retryable_def bindA_def seqA_def modifyA_def ret_def count_dlqed_def
        split: sum.splits if_splits)
qed

text \<open>What an entry's departure from the pending list tells.\<close>

lemma departure:
  assumes "handle_job E R mx i job s = (r, s')" and "cs_pel s' \<noteq> cs_pel s"
  shows "\<exists>r1 p1. process_one_job E job (delivery_count (cr_count_at_pickup R)) (cs_p s) = (r1, p1) \<and>
           ((r1 = Inr () \<and> cs_p s' = p1)
            \<or> ((\<exists>code. r1 = Inl (PoisonJob code)) \<and> cs_p s' = p1)
            \<or> (\<exists>reason msg. mx \<le> delivery_count (cr_count_at_budget R) \<and> msg \<noteq> []
                \<and> (case r1 of Inl (TransientFailure _) \<Rightarrow> True | Inl (OtherError _) \<Rightarrow> True | _ \<Rightarrow> False)
                \<and> mark_terminal_failure E job reason (Some msg) 0 0
                    (delivery_count (cr_count_at_budget R)) p1 = (Inr (), cs_p s')
                \<and> list_ex (\<lambda>d. dq_entry_id d = i \<and> dq_reason d = reason) (cs_dlq s')))"
proof -
  obtain r1 p1 where p: "process_one_job E job (delivery_count (cr_count_at_pickup R)) (cs_p s) = (r1, p1)"
    by fastforce
  let ?s1 = "s\<lparr>cs_p := p1\<rparr>"
  have on: "on_pipeline (process_one_job E job (delivery_count (cr_count_at_pickup R))) s = (r1, ?s1)"
    by (simp add: on_pipeline_def p)
  show ?thesis
  proof (cases r1)
    case (Inr u)
    then have "seqA (xack R i) (modifyA (\<lambda>s. s\<lparr>cs_acked := cs_acked s + 1\<rparr>)) ?s1 = (r, s')"
      using assms(1) on by (simp add: handle_job_def Let_def)
    then have "cs_p s' = p1"
      by (auto simp: seqA_def bindA_def modifyA_def xack_def ret_def throw_def split: ack_reply.splits)
    then show ?thesis using p Inr by (cases u) auto
  next
    case (Inl e)
    show ?thesis
    proof (cases e)
      case (PoisonJob code)
      then have "on_poison R i job (delivery_count (cr_count_at_pickup R)) ?s1 = (r, s')"
        using assms(1) on Inl by (simp add: handle_job_def Let_def)
      then show ?thesis using on_poison_p p Inl PoisonJob by fastforce
    next
      case (TransientFailure m)
      then have "on_retryable E R mx i job ''transient_max_retries'' (cps m)
          (\<lambda>s. s\<lparr>cs_transient := cs_transient s + 1\<rparr>) ?s1 = (r, s')"
        using assms(1) on Inl by (simp add: handle_job_def Let_def)
      from on_retryable_out [OF this] assms(2) p Inl TransientFailure show ?thesis
        by (intro exI conjI) (assumption, force)
    next
      case (OtherError m)
      then have "on_retryable E R mx i job ''unknown_exception'' (cps m)
          (\<lambda>s. s\<lparr>cs_unknown := cs_unknown s + 1\<rparr>) ?s1 = (r, s')"
        using assms(1) on Inl by (simp add: handle_job_def Let_def)
      from on_retryable_out [OF this] assms(2) p Inl OtherError show ?thesis
        by (intro exI conjI) (assumption, force)
    qed
  qed
qed

lemma process_failed_status:
  assumes "job_ids job = Inr (rid, tenant, api_key)"
    and "mark_terminal_failure E job reason (Some msg) seq elapsed attempt p = (Inr (), p')" and "msg \<noteq> []"
  shows "job_status E tenant rid p' = map_option (\<lambda>_. ''failed'') (job_status E tenant rid p)
         \<and> usage_find tenant rid (ps_usages p') \<noteq> None
         \<and> (usage_find tenant rid (ps_usages p) \<noteq> None \<longrightarrow> ps_usages p' = ps_usages p)
         \<and> last (ps_stream p') = error_chunk (uuid_str rid) attempt seq msg \<and> ps_stream p' \<noteq> []"
  using mark_terminal_out [OF assms(1,2)] failed_by_rows assms(3)
  by (auto simp: Let_def text_or_def)

lemma map_option_const_eq [simp]: "map_option (\<lambda>_. x) (map_option f v) = map_option (\<lambda>_. x) v"
  by (cases v) auto

lemma status_const: "job_status E tenant rid p = map_option (\<lambda>_. c) (job_status E tenant rid q) \<Longrightarrow>
    job_status E tenant rid p \<in> {None, Some c}"
  by (cases "job_status E tenant rid q") auto

text \<open>
  C2: acknowledged means told. If handling a well-formed job takes its entry off the
  pending list, then the request's result stream ends in a terminal chunk of a delivery
  attempt, a final marker exactly when the visible job row is complete and an error chunk
  exactly when it is failed, and the request has a usage row. So no crash, lost reply or
  failed command can make the queue forget a job without an answer to the client.
\<close>

theorem ack_implies_told:
  assumes "job_ids job = Inr (rid, tenant, api_key)"
    and "handle_job E R mx i job s = (r, s')" and "cs_pel s' \<noteq> cs_pel s"
  shows "ps_stream (cs_p s') \<noteq> [] \<and> is_terminal (last (ps_stream (cs_p s')))
         \<and> usage_find tenant rid (ps_usages (cs_p s')) \<noteq> None
         \<and> job_status E tenant rid (cs_p s')
             \<in> {None, Some (if tr_final (last (ps_stream (cs_p s'))) then ''complete'' else ''failed'')}"
proof -
  let ?told = "\<lambda>p. ps_stream p \<noteq> [] \<and> is_terminal (last (ps_stream p)) \<and> usage_find tenant rid (ps_usages p) \<noteq> None
      \<and> job_status E tenant rid p \<in> {None, Some (if tr_final (last (ps_stream p)) then ''complete'' else ''failed'')}"
  from departure [OF assms(2,3)] obtain r1 p1 where
    run: "process_one_job E job (delivery_count (cr_count_at_pickup R)) (cs_p s) = (r1, p1)"
    and ends: "(r1 = Inr () \<and> cs_p s' = p1) \<or> ((\<exists>code. r1 = Inl (PoisonJob code)) \<and> cs_p s' = p1)
      \<or> (\<exists>reason msg attempt. msg \<noteq> [] \<and> mark_terminal_failure E job reason (Some msg) 0 0 attempt p1 = (Inr (), cs_p s'))"
    by blast
  note out = process_out [OF assms(1) run]
  from ends consider "r1 = Inr ()" "cs_p s' = p1" | code where "r1 = Inl (PoisonJob code)" "cs_p s' = p1"
    | reason msg attempt where "msg \<noteq> []" "mark_terminal_failure E job reason (Some msg) 0 0 attempt p1 = (Inr (), cs_p s')"
    by blast
  then have "?told (cs_p s')"
  proof cases
    case 1
    with out obtain pieces where st: "ps_stream p1 = audio_chunks (uuid_str rid) (delivery_count (cr_count_at_pickup R)) 0 pieces
          @ [final_chunk (uuid_str rid) (delivery_count (cr_count_at_pickup R)) (int (length pieces))]"
      and com: "committed_by E job (rid, tenant, api_key) (pieces_pcm pieces) (length pieces) (cs_p s) p1"
      by (auto simp: run_end_def Let_def)
    from committed_rows [OF com] have "job_status E tenant rid p1 \<in> {None, Some ''complete''}"
      by (cases "idem_get tenant (pe_now_ms E) rid (ps_jobs (cs_p s))") (auto simp: job_status_def)
    then show ?thesis using committed_rows [OF com] st 1 by auto
  next
    case 2
    with out obtain pieces msg where st: "ps_stream p1 = audio_chunks (uuid_str rid) (delivery_count (cr_count_at_pickup R)) 0 pieces
          @ [error_chunk (uuid_str rid) (delivery_count (cr_count_at_pickup R)) (int (length pieces)) msg]" and "msg \<noteq> []"
      and fb: "failed_by E job (rid, tenant, api_key) code (pe_elapsed_ms E) (cs_p s) p1"
      by (auto simp: run_end_def Let_def)
    then show ?thesis
      using failed_by_rows [OF fb] 2 status_const [of E tenant rid p1 "''failed''" "cs_p s"]
      by (auto simp: is_terminal_def is_error_def)
  next
    case 3
    from process_failed_status [OF assms(1) 3(2,1)] 3(1) show ?thesis
      using status_const [of E tenant rid "cs_p s'" "''failed''" p1] by (auto simp: is_terminal_def is_error_def)
  qed
  then show ?thesis .
qed

text \<open>
  A finished job can be reported as failed. When a delivery finds the request already
  billed as committed work (the earlier attempt's final marker or acknowledgement was lost),
  the only way its entry ever leaves the pending list marks the visible job row as failed,
  while the billing row stays as it was.
\<close>

theorem committed_job_ends_failed:
  assumes "job_ids job = Inr (rid, tenant, api_key)"
    and "usage_find tenant rid (ps_usages (cs_p s)) = Some u" and "ur_status u = ''ok''"
    and "handle_job E R mx i job s = (r, s')" and "cs_pel s' \<noteq> cs_pel s"
  shows "job_status E tenant rid (cs_p s') \<in> {None, Some ''failed''}
         \<and> usage_find tenant rid (ps_usages (cs_p s')) = Some u"
proof -
  from departure [OF assms(4,5)] obtain r1 p1 where
    run: "process_one_job E job (delivery_count (cr_count_at_pickup R)) (cs_p s) = (r1, p1)"
    and ends: "(r1 = Inr () \<and> cs_p s' = p1) \<or> ((\<exists>code. r1 = Inl (PoisonJob code)) \<and> cs_p s' = p1)
      \<or> ((case r1 of Inl (TransientFailure _) \<Rightarrow> True | Inl (OtherError _) \<Rightarrow> True | _ \<Rightarrow> False) \<and>
         (\<exists>reason msg attempt. msg \<noteq> [] \<and> mark_terminal_failure E job reason (Some msg) 0 0 attempt p1 = (Inr (), cs_p s')))"
    by blast
  have no: "\<not> committed_by E job (rid, tenant, api_key) pcm n (cs_p s) q" for pcm n q
    using committed_rows [of E job rid tenant api_key pcm n "cs_p s" q] assms(2) by auto
  note out = process_out [OF assms(1) run]
  from out no have not_ok: "r1 \<noteq> Inr ()" by (auto simp: run_end_def Let_def)
  from ends not_ok consider code where "r1 = Inl (PoisonJob code)" "cs_p s' = p1"
    | reason msg attempt where "msg \<noteq> []" "mark_terminal_failure E job reason (Some msg) 0 0 attempt p1 = (Inr (), cs_p s')"
        "case r1 of Inl (TransientFailure _) \<Rightarrow> True | Inl (OtherError _) \<Rightarrow> True | _ \<Rightarrow> False"
    by blast
  then show ?thesis
  proof cases
    case 1
    then have fb: "failed_by E job (rid, tenant, api_key) code (pe_elapsed_ms E) (cs_p s) p1"
      using out by (auto simp: run_end_def Let_def)
    then show ?thesis
      using failed_by_rows [OF fb] assms(2) 1(2) status_const [of E tenant rid p1 "''failed''" "cs_p s"] by simp
  next
    case 2
    then have "ps_usages p1 = ps_usages (cs_p s)"
      using out no by (auto simp: run_end_def Let_def same_store_def same_tables_def split: sum.splits job_exn.splits)
    then show ?thesis
      using process_failed_status [OF assms(1) 2(2,1)] assms(2)
        status_const [of E tenant rid "cs_p s'" "''failed''" p1] by simp
  qed
qed

lemma bad_ids_handle:
  assumes "job_ids job = Inl e"
  shows "handle_job E R mx i job s =
    (if delivery_count (cr_count_at_budget R) < mx then (Inr (), s\<lparr>cs_unknown := cs_unknown s + 1\<rparr>)
     else (Inl (OtherError ''python''), s))"
proof -
  have p: "process_one_job E job a q = (Inl (OtherError ''python''), q)" for a q
    using assms by (simp add: process_one_job_def bindA_def lift_err_def throw_def)
  have m: "mark_terminal_failure E job c msg sq el a q = (Inl (OtherError ''python''), q)" for c msg sq el a q
    using assms by (simp add: mark_terminal_failure_def bindA_def lift_err_def throw_def)
  show ?thesis
    by (simp add: handle_job_def on_pipeline_def p on_retryable_def maybe_dlq_and_ack_def bindA_def seqA_def
        m ret_def modifyA_def Let_def)
qed

text \<open>
  A queued job whose ids are not UUIDs can never be drained. Whatever Redis and the
  database answer and however often it was delivered, its entry stays pending; and once the
  retry budget is spent, handling it raises, which in the sweep ends the consumer's loop.
\<close>

theorem bad_ids_never_drained:
  assumes "job_ids job = Inl e" and "handle_job E R mx i job s = (r, s')"
  shows "cs_pel s' = cs_pel s \<and> cs_dlq s' = cs_dlq s
         \<and> (mx \<le> delivery_count (cr_count_at_budget R) \<longrightarrow>
              r = Inl (OtherError ''python'')
              \<and> fst (run_consumer mx [(E, E, \<lparr>it_read = Nothing, it_read_reply = R, it_stop_after_tick = False,
                    it_sweep_due = False, it_claim = Entry i (Inr job), it_claim_reply = R, it_now_ms = 0\<rparr>)] s)
                  = Inl (OtherError ''python''))"
  using assms(2)
  by (auto simp: bad_ids_handle [OF assms(1)] tick_def xautoclaim_sweep_def handle_one_def split: if_splits)

definition sample_cstate :: cstate where
  "sample_cstate = \<lparr>cs_p = sample_state, cs_pel = [4], cs_dlq = [], cs_acked = 0, cs_poisoned = 0,
     cs_transient = 0, cs_unknown = 0, cs_claimed = 0, cs_dlqed = 0, cs_in_flight = 0, cs_last_pickup_ms = 0\<rparr>"

definition sample_reply :: "int \<Rightarrow> creply" where
  "sample_reply n = \<lparr>cr_count_at_pickup = Some n, cr_count_at_budget = Some n, cr_dlq_ok = True, cr_ack = AckOk\<rparr>"

theorem bad_ids_never_drained_witness:
  "cs_pel (snd (handle_job sample_env (sample_reply 99) 3 4 (sample_job\<lparr>tj_tenant_id := cps ''acme''\<rparr>) sample_cstate))
     = cs_pel sample_cstate"
proof -
  have bad: "job_ids (sample_job\<lparr>tj_tenant_id := cps ''acme''\<rparr>)
      = Inl (ValueError ''badly formed hexadecimal UUID string'')"
    by (simp add: job_ids_def sample_job_def uuid_parse_str)
      (simp add: uuid_parse_def cps_def strip_chars_def numeral_eq_Suc)
  show ?thesis
    using bad_ids_never_drained [OF bad, of sample_env "sample_reply 99" 3 4 sample_cstate] by (metis prod.collapse)
qed

lemma sample_handled:
  "handle_job sample_env (sample_reply 1) 3 4 sample_job sample_cstate
     = (Inr (), sample_cstate\<lparr>cs_p := snd (process_one_job sample_env sample_job 1 sample_state), cs_pel := [], cs_acked := 1\<rparr>)"
proof -
  obtain p where p: "process_one_job sample_env sample_job 1 sample_state = (Inr (), p)"
    using sample_run_eq by blast
  show ?thesis
    by (simp add: handle_job_def Let_def sample_reply_def delivery_count_def on_pipeline_def sample_cstate_def p
        seqA_def bindA_def xack_def modifyA_def)
qed

theorem ack_implies_told_witness:
  "job_status sample_env 7 1 (snd (process_one_job sample_env sample_job 1 sample_state))
     \<in> {None, Some (if tr_final (last (ps_stream (snd (process_one_job sample_env sample_job 1 sample_state))))
                   then ''complete'' else ''failed'')}"
  using ack_implies_told [OF sample_ids sample_handled] by (simp add: sample_cstate_def)

text \<open>A third delivery of the sample job, after an earlier attempt had committed.\<close>

definition billed_row :: usage_row where
  "billed_row = (error_usage sample_env sample_job 1 7 2 ''x'' 0)\<lparr>ur_status := ''ok'', ur_error_code := None\<rparr>"

definition billed_cstate :: cstate where
  "billed_cstate = sample_cstate\<lparr>cs_p := sample_state\<lparr>ps_usages := [billed_row]\<rparr>\<rparr>"

lemma billed_row_sel [simp]:
  "ur_tenant_id billed_row = 7" "ur_request_id billed_row = 1" "ur_status billed_row = ''ok''"
  by (simp_all add: billed_row_def error_usage_def)

lemma billed_pel: "cs_pel (snd (handle_job sample_env (sample_reply 3) 3 4 sample_job billed_cstate)) = []"
  by (simp add: handle_job_def billed_cstate_def sample_cstate_def on_pipeline_def sample_reply_def
      delivery_count_def run_simps on_retryable_def maybe_dlq_and_ack_def mark_terminal_failure_def
      publish_error_def failure_tx_def usage_find_def send_to_dlq_def xack_def count_dlqed_def)

theorem committed_job_ends_failed_witness:
  "job_status sample_env 7 1 (cs_p (snd (handle_job sample_env (sample_reply 3) 3 4 sample_job billed_cstate)))
     \<in> {None, Some ''failed''}"
  using committed_job_ends_failed [OF sample_ids, of billed_cstate billed_row sample_env "sample_reply 3" 3 4
      "fst (handle_job sample_env (sample_reply 3) 3 4 sample_job billed_cstate)"
      "snd (handle_job sample_env (sample_reply 3) 3 4 sample_job billed_cstate)"]
    billed_pel
  by (simp add: billed_cstate_def sample_cstate_def usage_find_def)

subsection \<open>Histories of deliveries\<close>

text \<open>
  What can happen to one request: a delivery handled to its end, or an attempt cut off before
  the consumer reacts to it (a crashed worker), in any environment, any number of times.
\<close>

inductive delivery_step :: "tts_job \<Rightarrow> cstate \<Rightarrow> cstate \<Rightarrow> bool" where
  ds_handled: "handle_job E R mx i job s = (r, s') \<Longrightarrow> delivery_step job s s'"
| ds_cut_off: "process_one_job E job a (cs_p s) = (r, p) \<Longrightarrow> delivery_step job s (s\<lparr>cs_p := p\<rparr>)"

inductive delivery_run :: "tts_job \<Rightarrow> cstate \<Rightarrow> cstate \<Rightarrow> bool" where
  dr_refl: "delivery_run job s s"
| dr_step: "delivery_run job s s' \<Longrightarrow> delivery_step job s' s'' \<Longrightarrow> delivery_run job s s''"

inductive_cases delivery_stepE: "delivery_step job s s'"

text \<open>The usage table gains at most one row, of this request, and only the first time.\<close>

definition billing_step :: "uuid \<Rightarrow> usage_table \<Rightarrow> usage_table \<Rightarrow> bool" where
  "billing_step rid u u' \<longleftrightarrow> u' = u
     \<or> (\<exists>row. u' = u @ [row] \<and> ur_request_id row = rid \<and> usage_checks row \<and> rid \<notin> ur_request_id ` set u)"

lemma billing_refl [simp]: "billing_step rid u u"
  by (simp add: billing_step_def)

lemma billing_trans: "billing_step rid u u1 \<Longrightarrow> billing_step rid u1 u2 \<Longrightarrow> billing_step rid u u2"
  by (auto simp: billing_step_def)

lemma billing_record:
  "ur_request_id cols = rid \<Longrightarrow> usage_record tenant now cols u = Inr u' \<Longrightarrow> billing_step rid u u'"
  by (auto simp: usage_record_cases billing_step_def split: if_splits)

lemma billing_tables: "same_tables s s' \<Longrightarrow> billing_step rid (ps_usages s) (ps_usages s')"
  by (simp add: same_tables_def)

lemma committed_billing:
  assumes "committed_by E job (rid, tenant, api_key) pcm n s s'"
  shows "billing_step rid (ps_usages s) (ps_usages s')"
proof -
  obtain v p settings overrides acc uri where
    "success_tx E job rid tenant api_key v p settings overrides acc uri (ps_jobs s, ps_usages s)
       = Inr (ps_jobs s', ps_usages s')"
    using assms unfolding committed_by_def prod.case by blast
  then have "usage_record tenant (pe_now_ms E) (ok_usage E job rid tenant api_key v p settings overrides acc)
      (ps_usages s) = Inr (ps_usages s')" by (auto simp: success_tx_def Let_def bindS_Inr)
  then show ?thesis by (rule billing_record [rotated]) (simp add: ok_usage_def Let_def)
qed

lemma failed_billing:
  assumes "failed_by E job (rid, tenant, api_key) code el s s'"
  shows "billing_step rid (ps_usages s) (ps_usages s')"
proof (cases "usage_find tenant rid (ps_usages s)")
  case None
  with assms have "usage_record tenant (pe_now_ms E) (error_usage E job rid tenant api_key code el)
      (ps_usages s) = Inr (ps_usages s')" by (auto simp: failed_by_def failure_tx_def Let_def bindS_Inr)
  then show ?thesis by (rule billing_record [rotated]) (simp add: error_usage_def)
next
  case (Some u)
  with assms show ?thesis by (simp add: failed_by_def failure_tx_def Let_def)
qed

lemma process_billing:
  assumes "job_ids job = Inr (rid, tenant, api_key)" and "process_one_job E job a s = (r, s')"
  shows "billing_step rid (ps_usages s) (ps_usages s')"
proof -
  from process_out [OF assms] consider "same_store s s'"
    | pieces tail where "run_end E job (rid, tenant, api_key) a pieces tail s r s'" by blast
  then show ?thesis
  proof cases
    case 2
    then consider "same_tables s s'" | code where "failed_by E job (rid, tenant, api_key) code (pe_elapsed_ms E) s s'"
      | "committed_by E job (rid, tenant, api_key) (pieces_pcm pieces) (length pieces) s s'"
      by (auto simp: run_end_def Let_def split: sum.splits job_exn.splits)
    then show ?thesis by cases (auto intro: billing_tables committed_billing failed_billing)
  qed (simp add: billing_tables)
qed

lemma mark_terminal_billing:
  assumes "job_ids job = Inr (rid, tenant, api_key)"
    and "mark_terminal_failure E job code msg seq el a s = (r, s')"
  shows "billing_step rid (ps_usages s) (ps_usages s')"
  using mark_terminal_out [OF assms] by (auto simp: Let_def intro: failed_billing billing_tables)

lemma xack_p [simp]: "cs_p (snd (xack R i s)) = cs_p s"
  using xack_out [of R i s "fst (xack R i s)" "snd (xack R i s)"] by simp

text \<open>As a relation every part of a handler keeps.\<close>

definition bills_once :: "uuid \<Rightarrow> cstate \<Rightarrow> cstate \<Rightarrow> bool" where
  "bills_once rid s s' \<longleftrightarrow> billing_step rid (ps_usages (cs_p s)) (ps_usages (cs_p s'))"

lemma bills_once_order: "reflp (bills_once rid)" "transp (bills_once rid)"
  by (auto simp: reflp_def transp_def bills_once_def intro: billing_trans)

lemma keeps_bills_parts:
  "keeps (bills_once rid) (xack R i)" "keeps (bills_once rid) (send_to_dlq R i q reason n)"
  "(\<And>s. cs_p (f s) = cs_p s) \<Longrightarrow> keeps (bills_once rid) (modifyA f)"
  "keeps (bills_once rid) count_dlqed"
  by (simp_all add: keeps_def bills_once_def send_to_dlq_def modifyA_def throw_def count_dlqed_def)

lemma keeps_bills_pipeline:
  assumes "job_ids job = Inr (rid, tenant, api_key)"
  shows "keeps (bills_once rid) (on_pipeline (process_one_job E job a))"
    and "keeps (bills_once rid) (on_pipeline (mark_terminal_failure E job code msg seq el a))"
  using process_billing [OF assms] mark_terminal_billing [OF assms]
  by (auto simp: keeps_def bills_once_def on_pipeline_def split: prod.split)

lemmas keeps_bills = keeps_bind [OF bills_once_order(2)] keeps_seq [OF bills_once_order(2)]
  keeps_catch [OF bills_once_order(2)] keeps_basic [OF bills_once_order(1)] keeps_bills_parts

lemma keeps_bills_retry:
  assumes "job_ids job = Inr (rid, tenant, api_key)" and "\<And>s. cs_p (bump s) = cs_p s"
  shows "keeps (bills_once rid) (on_retryable E R mx i job reason err bump)"
  unfolding on_retryable_def maybe_dlq_and_ack_def Let_def
  using keeps_bills_pipeline(2) [OF assms(1)] assms(2)
  by (auto intro!: keeps_bills)

lemma keeps_bills_poison: "keeps (bills_once rid) (on_poison R i job a)"
  unfolding on_poison_def by (intro keeps_bills) simp_all

lemma handle_job_billing:
  assumes "job_ids job = Inr (rid, tenant, api_key)"
  shows "bills_once rid s (snd (handle_job E R mx i job s))"
proof -
  let ?a = "delivery_count (cr_count_at_pickup R)"
  obtain r s1 where p: "on_pipeline (process_one_job E job ?a) s = (r, s1)" by fastforce
  have first: "bills_once rid s s1"
    using keeps_bills_pipeline(1) [OF assms] p by (metis keeps_def snd_conv)
  have rest: "bills_once rid s1 (snd (m s1))" if "keeps (bills_once rid) m" for m :: "unit cact"
    using that by (simp add: keeps_def)
  have "bills_once rid s1 (snd (handle_job E R mx i job s))"
  proof (cases r)
    case (Inr u)
    have "keeps (bills_once rid) (seqA (xack R i) (modifyA (\<lambda>s. s\<lparr>cs_acked := cs_acked s + 1\<rparr>)))"
      by (intro keeps_bills) simp
    then show ?thesis using rest p Inr by (simp add: handle_job_def Let_def)
  next
    case (Inl e)
    then show ?thesis
      using p rest [OF keeps_bills_poison] rest [OF keeps_bills_retry [OF assms]]
      by (cases e) (simp_all add: handle_job_def Let_def)
  qed
  with first show ?thesis using bills_once_order(2) by (auto dest: transpD)
qed

text \<open>
  C8: one bill per request, whatever happens to it. Over any history of deliveries and
  crashed attempts, in any environments, the usage table only gains rows, at most one, which
  is this request's and satisfies the constraints; a request that already has a row gains
  none.
\<close>

theorem deliveries_bill_once:
  assumes "job_ids job = Inr (rid, tenant, api_key)" and "delivery_run job s s'"
  shows "\<exists>rows. ps_usages (cs_p s') = ps_usages (cs_p s) @ rows \<and> length rows \<le> 1
           \<and> list_all (\<lambda>u. ur_request_id u = rid \<and> usage_checks u) rows
           \<and> (rid \<in> ur_request_id ` set (ps_usages (cs_p s)) \<longrightarrow> rows = [])"
proof -
  have "bills_once rid s s'"
    using assms(2,1)
  proof (induction rule: delivery_run.induct)
    case (dr_refl job s)
    then show ?case by (simp add: bills_once_def)
  next
    case (dr_step job s s' s'')
    from dr_step(2) have "bills_once rid s' s''"
    proof (rule delivery_stepE)
      fix E R mx i r
      assume "handle_job E R mx i job s' = (r, s'')"
      then show ?thesis using handle_job_billing [OF dr_step(4)] by (metis snd_conv)
    next
      fix E a r p
      assume "s'' = s'\<lparr>cs_p := p\<rparr>" "process_one_job E job a (cs_p s') = (r, p)"
      then show ?thesis using process_billing [OF dr_step(4)] by (simp add: bills_once_def)
    qed
    with dr_step(3) [OF dr_step(4)] show ?case using bills_once_order(2) by (auto dest: transpD)
  qed
  then show ?thesis by (auto simp: bills_once_def billing_step_def)
qed

theorem deliveries_bill_once_witness:
  "\<exists>rows. ps_usages (cs_p (snd (handle_job sample_env (sample_reply 3) 3 4 sample_job billed_cstate)))
             = ps_usages (cs_p billed_cstate) @ rows \<and> length rows \<le> 1
      \<and> (1 \<in> ur_request_id ` set (ps_usages (cs_p billed_cstate)) \<longrightarrow> rows = [])"
proof -
  have "delivery_run sample_job billed_cstate (snd (handle_job sample_env (sample_reply 3) 3 4 sample_job billed_cstate))"
    by (rule dr_step [OF dr_refl], rule ds_handled [of sample_env "sample_reply 3" 3 4]) (rule prod.collapse [symmetric])
  from deliveries_bill_once [OF sample_ids this] show ?thesis by blast
qed

end
