(* ===== verification/Audio_Post.thy ===== *)
theory Audio_Post
  imports NV_Prelude "HOL-Library.Word"
begin

text \<open>
  The PCM pass of \<^verbatim>\<open>src/audio/postprocess.py\<close> on 16-bit samples: DC removal, the peak
  limiter, the speed resampler, and \<open>apply_voice_settings\<close>, which chains them per published
  chunk. Samples are 16-bit words read as signed, so \<open>numpy\<close>'s wrap-around is kept; the
  float intermediates (mean, interpolation) are rationals.
\<close>

subsection \<open>Buffers\<close>

type_synonym sample = "16 word"

definition sample_of :: "nat \<Rightarrow> nat \<Rightarrow> sample" where
  "sample_of lo hi = of_nat (lo + 256 * hi)"

text \<open>\<open>np.frombuffer(pcm, dtype=np.int16)\<close>, little-endian; an odd length raises.\<close>

fun frombuffer :: "bytes \<Rightarrow> py_error + sample list" where
  "frombuffer [] = Inr []"
| "frombuffer [b] = Inl (ValueError ''buffer size must be a multiple of element size'')"
| "frombuffer (lo # hi # bs) = bindS (frombuffer bs) (\<lambda>ss. Inr (sample_of lo hi # ss))"

definition tobytes :: "sample list \<Rightarrow> bytes" where
  "tobytes ss = concat (map (\<lambda>w. [unat w mod 256, unat w div 256]) ss)"

lemma sample_of_bytes: "sample_of (unat w mod 256) (unat w div 256) = w"
proof -
  have "unat w mod 256 + 256 * (unat w div 256) = unat w" by simp
  then show ?thesis unfolding sample_of_def by simp
qed

lemma frombuffer_tobytes [simp]: "frombuffer (tobytes ss) = Inr ss"
  by (induction ss) (simp_all add: tobytes_def sample_of_bytes)

lemma sint16: "- 32768 \<le> sint (w :: sample) \<and> sint w \<le> 32767"
  using sint_ge [of w] sint_lt [of w] by simp

lemma sint_of_range: "- 32768 \<le> k \<Longrightarrow> k < 32768 \<Longrightarrow> sint (of_int k :: sample) = k"
  by (simp add: sint_sbintrunc' signed_take_bit_int_eq_self)

subsection \<open>Rounding and clipping\<close>

text \<open>A float cast to int16 truncates toward zero.\<close>

definition to_int16 :: "rat \<Rightarrow> sample" where
  "to_int16 q = of_int (if 0 \<le> q then \<lfloor>q\<rfloor> else \<lceil>q\<rceil>)"

definition clip :: "'a::linorder \<Rightarrow> 'a \<Rightarrow> 'a \<Rightarrow> 'a" where
  "clip lo hi x = min hi (max lo x)"

text \<open>Python's \<open>round\<close>: halves go to the even neighbour.\<close>

definition py_round :: "rat \<Rightarrow> int" where
  "py_round q =
     (let f = \<lfloor>q\<rfloor>; d = q - of_int f
      in if d < 1/2 then f else if d > 1/2 then f + 1 else if even f then f else f + 1)"

lemma to_int16_sint:
  assumes "- c \<le> q" "q \<le> c" "c \<le> 32767" "c = of_int k"
  shows "\<bar>sint (to_int16 q)\<bar> \<le> k"
proof -
  let ?i = "if 0 \<le> q then \<lfloor>q\<rfloor> else \<lceil>q\<rceil>"
  have "- k \<le> ?i" and "?i \<le> k"
    using assms by (auto simp: le_floor_iff ceiling_le_iff floor_le_iff le_ceiling_iff)
  moreover have "k \<le> 32767" using assms(3,4) by linarith
  ultimately have "sint (of_int ?i :: sample) = ?i" by (intro sint_of_range) simp_all
  then show ?thesis using \<open>- k \<le> ?i\<close> \<open>?i \<le> k\<close> by (simp add: to_int16_def)
qed

subsection \<open>The three transforms\<close>

definition mean :: "sample list \<Rightarrow> rat" where
  "mean ss = of_int (sum_list (map sint ss)) / of_nat (length ss)"

definition dc_samples :: "sample list \<Rightarrow> sample list" where
  "dc_samples ss =
     (if \<bar>mean ss\<bar> < 1/2 then ss
      else map (\<lambda>w. to_int16 (clip (-32768) 32767 (of_int (sint w) - mean ss))) ss)"

text \<open>\<open>np.abs\<close> on int16 wraps: the smallest sample is its own absolute value.\<close>

definition abs16 :: "sample \<Rightarrow> sample" where
  "abs16 w = (if sint w < 0 then - w else w)"

definition abs_max :: "sample list \<Rightarrow> int" where
  "abs_max ss = foldr (\<lambda>w m. max (sint (abs16 w)) m) ss (sint (abs16 (hd ss)))"

text \<open>\<open>int(round(10 ** (-0.5 / 20.0) * 32767))\<close>.\<close>

definition peak_ceiling :: int where
  "peak_ceiling = 30934"

definition limit_samples :: "int \<Rightarrow> sample list \<Rightarrow> sample list" where
  "limit_samples c ss =
     (if abs_max ss \<le> c then ss
      else map (\<lambda>w. of_int (clip (- c) c (sint w))) ss)"

text \<open>Linear interpolation at \<open>k * (n - 1) / (m - 1)\<close>, the points of \<open>np.linspace\<close>.\<close>

definition interp_at :: "sample list \<Rightarrow> rat \<Rightarrow> rat" where
  "interp_at ss x =
     (let i = nat \<lfloor>x\<rfloor>; d = x - of_nat i
      in if i + 1 < length ss
         then of_int (sint (ss ! i)) + d * (of_int (sint (ss ! (i + 1))) - of_int (sint (ss ! i)))
         else of_int (sint (last ss)))"

definition resample_len :: "rat \<Rightarrow> nat \<Rightarrow> nat" where
  "resample_len speed n = nat (max 1 (py_round (of_nat n / speed)))"

definition resample :: "rat \<Rightarrow> sample list \<Rightarrow> sample list" where
  "resample speed ss =
     (let n = length ss; m = resample_len speed n
      in map (\<lambda>k. to_int16 (clip (-32768) 32767
                (interp_at ss (if m = 1 then 0 else of_nat k * of_nat (n - 1) / of_nat (m - 1)))))
           [0..<m])"

subsection \<open>On byte buffers\<close>

definition apply_dc_offset_removal :: "bytes \<Rightarrow> py_error + bytes" where
  "apply_dc_offset_removal pcm =
     (if length pcm < 2 then Inr pcm
      else bindS (frombuffer pcm) (\<lambda>ss. Inr (if \<bar>mean ss\<bar> < 1/2 then pcm else tobytes (dc_samples ss))))"

definition apply_peak_limit :: "bytes \<Rightarrow> py_error + bytes" where
  "apply_peak_limit pcm =
     (if length pcm < 2 then Inr pcm
      else bindS (frombuffer pcm) (\<lambda>ss.
        Inr (if abs_max ss \<le> peak_ceiling then pcm else tobytes (limit_samples peak_ceiling ss))))"

definition apply_speed :: "rat option \<Rightarrow> bytes \<Rightarrow> py_error + bytes" where
  "apply_speed speed pcm =
     (case speed of
        None \<Rightarrow> Inr pcm
      | Some v \<Rightarrow>
          if \<bar>v - 1\<bar> < 1/1000 then Inr pcm
          else if pcm = [] then Inr pcm
          else if v \<le> 0 then Inl (ValueError ''speed must be > 0'')
          else bindS (frombuffer pcm) (\<lambda>ss. Inr (tobytes (resample v ss))))"

text \<open>\<open>voice_settings\<close> is reduced to its \<open>speed\<close>, the one field the function reads.\<close>

definition apply_voice_settings :: "rat option \<Rightarrow> bytes \<Rightarrow> py_error + bytes" where
  "apply_voice_settings speed pcm =
     (if pcm = [] then Inr pcm
      else bindS (apply_dc_offset_removal pcm) (\<lambda>p.
           bindS (apply_peak_limit p) (\<lambda>q. apply_speed speed q)))"

subsection \<open>The peak ceiling\<close>

lemma abs16_sint: "sint w \<noteq> - 32768 \<Longrightarrow> sint (abs16 w) = \<bar>sint w\<bar>"
proof -
  assume ne: "sint w \<noteq> - 32768"
  have "sint (- w) = - sint w" if "sint w < 0"
  proof -
    have "- w = of_int (- sint w)" by simp
    moreover have "sint (of_int (- sint w) :: sample) = - sint w"
      using sint16 [of w] ne by (intro sint_of_range) simp_all
    ultimately show ?thesis by simp
  qed
  then show ?thesis by (simp add: abs16_def)
qed

lemma abs16_min: "sint w = - 32768 \<Longrightarrow> sint (abs16 w) = - 32768"
proof -
  assume "sint w = - 32768"
  moreover have "w = of_int (sint w)" by simp
  ultimately have "w = of_int (- 32768)" by simp
  then show ?thesis by (simp add: abs16_def)
qed

lemma abs_max_upper: "w \<in> set ss \<Longrightarrow> sint (abs16 w) \<le> abs_max ss"
proof -
  have "w \<in> set ss \<Longrightarrow> sint (abs16 w) \<le> foldr (\<lambda>w m. max (sint (abs16 w)) m) ss z" for z
    by (induction ss) auto
  then show "w \<in> set ss \<Longrightarrow> sint (abs16 w) \<le> abs_max ss" by (simp add: abs_max_def)
qed

lemma abs_max_le: "(\<And>w. w \<in> set ss \<Longrightarrow> sint (abs16 w) \<le> c) \<Longrightarrow> ss \<noteq> [] \<Longrightarrow> abs_max ss \<le> c"
proof -
  assume le: "\<And>w. w \<in> set ss \<Longrightarrow> sint (abs16 w) \<le> c" and ne: "ss \<noteq> []"
  have "set xs \<subseteq> set ss \<Longrightarrow> foldr (\<lambda>w m. max (sint (abs16 w)) m) xs (sint (abs16 (hd ss))) \<le> c" for xs
    using le ne by (induction xs) auto
  then show ?thesis by (simp add: abs_max_def)
qed

lemma clip_bounds: "0 \<le> (c::int) \<Longrightarrow> - c \<le> clip (- c) c x \<and> clip (- c) c x \<le> c"
  by (auto simp: clip_def)

lemma limited_sample:
  assumes "0 \<le> c" "c \<le> 32767"
  shows "\<bar>sint (of_int (clip (- c) c x) :: sample)\<bar> \<le> c"
proof -
  have "sint (of_int (clip (- c) c x) :: sample) = clip (- c) c x"
    using assms clip_bounds [of c x] by (intro sint_of_range) simp_all
  then show ?thesis using clip_bounds [of c x] assms(1) by (simp add: abs_le_iff)
qed

lemma limit_samples_bound:
  assumes "0 \<le> c" "c \<le> 32767" and "list_all (\<lambda>w. sint w \<noteq> - 32768) ss"
  shows "list_all (\<lambda>w. \<bar>sint w\<bar> \<le> c) (limit_samples c ss)"
proof (cases "abs_max ss \<le> c")
  case True
  have "\<bar>sint w\<bar> \<le> c" if "w \<in> set ss" for w
    using abs_max_upper [OF that] abs16_sint [of w] assms(3) that True by (auto simp: list_all_iff)
  with True show ?thesis by (simp add: limit_samples_def list_all_iff)
next
  case False
  then show ?thesis using limited_sample [OF assms(1,2)] by (simp add: limit_samples_def list_all_iff)
qed

lemma limit_samples_louder:
  assumes "0 \<le> c" "c \<le> 32767" and "abs_max ss > c"
  shows "list_all (\<lambda>w. \<bar>sint w\<bar> \<le> c) (limit_samples c ss)"
  using limited_sample [OF assms(1,2)] assms(3) by (simp add: limit_samples_def list_all_iff)

text \<open>
  The peak limiter and its blind spot. On a buffer whose samples avoid -32768 the limiter's
  output stays within the ceiling. But \<open>np.abs\<close> maps the int16 sample -32768 to itself, so a
  buffer in which only samples of that value exceed the ceiling counts as quiet and passes
  unchanged, full-scale peaks included.
\<close>

theorem peak_limiter:
  assumes "pcm = tobytes ss" and "ss \<noteq> []"
  shows "\<exists>out. apply_peak_limit pcm = Inr (tobytes out) \<and> length out = length ss
           \<and> (list_all (\<lambda>w. sint w \<noteq> - 32768) ss \<longrightarrow> list_all (\<lambda>w. \<bar>sint w\<bar> \<le> peak_ceiling) out)
           \<and> (list_all (\<lambda>w. sint w = - 32768 \<or> \<bar>sint w\<bar> \<le> peak_ceiling) ss \<longrightarrow> out = ss)"
proof -
  have len: "2 \<le> length pcm" using assms by (cases ss) (simp_all add: tobytes_def)
  have quiet: "abs_max ss \<le> peak_ceiling"
    if all: "list_all (\<lambda>w. sint w = - 32768 \<or> \<bar>sint w\<bar> \<le> peak_ceiling) ss"
  proof (rule abs_max_le [OF _ assms(2)])
    fix w assume "w \<in> set ss"
    with all consider "sint w = - 32768" | "sint w \<noteq> - 32768" "\<bar>sint w\<bar> \<le> peak_ceiling"
      by (auto simp: list_all_iff)
    then show "sint (abs16 w) \<le> peak_ceiling"
      by cases (simp_all add: abs16_min abs16_sint peak_ceiling_def)
  qed
  have out: "apply_peak_limit pcm = Inr (tobytes (limit_samples peak_ceiling ss))"
    using len assms(1) by (simp add: apply_peak_limit_def limit_samples_def)
  have "list_all (\<lambda>w. \<bar>sint w\<bar> \<le> peak_ceiling) (limit_samples peak_ceiling ss)"
    if "list_all (\<lambda>w. sint w \<noteq> - 32768) ss"
    using limit_samples_bound [OF _ _ that, of peak_ceiling] by (simp add: peak_ceiling_def)
  then show ?thesis using out quiet by (intro exI [of _ "limit_samples peak_ceiling ss"]) (auto simp: limit_samples_def)
qed

theorem peak_limiter_witness:
  "\<exists>out. apply_peak_limit (tobytes [- 32768, 5]) = Inr (tobytes out) \<and> length out = length [- 32768, 5 :: sample]
     \<and> out = [- 32768, 5]"
proof -
  have "list_all (\<lambda>w. sint w = - 32768 \<or> \<bar>sint w\<bar> \<le> peak_ceiling) [- 32768, 5 :: sample]"
    by (simp add: peak_ceiling_def)
  then show ?thesis using peak_limiter [of "tobytes [- 32768, 5]" "[- 32768, 5]", OF refl] by auto
qed

text \<open>The constant is the value of the source's expression \<open>round(10 ** (-0.5 / 20) * 32767)\<close>.\<close>

lemma power_below: "(x::real) ^ 40 < y ^ 40 \<Longrightarrow> 0 \<le> y \<Longrightarrow> x < y"
  by (rule power_less_imp_less_base)

lemma peak_ceiling_value: "round (10 powr (- (1/2) / 20) * 32767 :: real) = peak_ceiling"
proof -
  let ?x = "10 powr - (1 / 40) :: real"
  have pow: "?x ^ 40 = 1 / 10"
  proof -
    have "?x ^ 40 = 10 powr (of_nat 40 * - (1 / 40))" by (rule powr_power) simp
    also have "\<dots> = 10 powr (- 1)" by simp
    also have "\<dots> = 1 / 10" by (simp add: powr_minus_divide)
    finally show ?thesis .
  qed
  have lo: "61867 / 65534 < ?x" by (rule power_below) (simp_all add: pow power_divide)
  have hi: "?x < 61869 / 65534" by (rule power_below) (simp_all add: pow power_divide)
  have "\<lfloor>?x * 32767 + 1/2\<rfloor> = 30934" using lo hi by (intro floor_unique) (simp_all add: field_simps)
  then show ?thesis by (simp add: round_def peak_ceiling_def)
qed

end
