(* ===== verification/Rate_Limit.thy ===== *)
theory Rate_Limit
  imports NV_Prelude
begin

text \<open>
  The sliding-window rate limiter (\<^verbatim>\<open>src/server/rate_limit.py\<close>): the Lua script as one
  atomic operation on a Redis sorted set, and \<open>RateLimiter.check\<close> around it. Redis' sorted
  sets are a parameter: the four commands the script issues, with their documented behaviour
  as the laws of the locale \<open>sorted_set\<close>.
\<close>

subsection \<open>The script\<close>

text \<open>
  The key as a script running at \<open>now\<close> finds it (gone when its expiry has passed), then
  \<open>ZREMRANGEBYSCORE key 0 x\<close>, \<open>ZCARD\<close>, the score of \<open>ZRANGE key 0 0\<close>, \<open>ZADD\<close> and
  \<open>PEXPIRE\<close> at a time.
\<close>

record 'z zset_ops =
  z_load :: "int \<Rightarrow> 'z \<Rightarrow> 'z"
  z_drop_upto :: "int \<Rightarrow> 'z \<Rightarrow> 'z"
  z_card :: "'z \<Rightarrow> nat"
  z_oldest :: "'z \<Rightarrow> int option"
  z_add :: "int \<Rightarrow> string \<Rightarrow> 'z \<Rightarrow> 'z"
  z_pexpire :: "int \<Rightarrow> int \<Rightarrow> 'z \<Rightarrow> 'z"

record rate_result =
  rr_allowed :: bool
  rr_count :: int
  rr_retry_after_ms :: int

definition sliding_window ::
  "'z zset_ops \<Rightarrow> int \<Rightarrow> int \<Rightarrow> int \<Rightarrow> string \<Rightarrow> 'z \<Rightarrow> rate_result \<times> 'z" where
  "sliding_window Z now window limit member z =
     (let z1 = z_drop_upto Z (now - window) (z_load Z now z);
          count = int (z_card Z z1)
      in if count \<ge> limit
         then (let oldest = (case z_oldest Z z1 of None \<Rightarrow> 0 | Some ts \<Rightarrow> ts)
               in (\<lparr>rr_allowed = False, rr_count = count,
                    rr_retry_after_ms = max 1 (oldest + window - now)\<rparr>, z1))
         else (\<lparr>rr_allowed = True, rr_count = count + 1, rr_retry_after_ms = 0\<rparr>,
               z_pexpire Z now window (z_add Z now member z1)))"

text \<open>
  \<open>check\<close>: the arguments' validation, then EVALSHA; when the server reports a missing script
  the same script runs through EVAL, and any other response error escapes.
\<close>

datatype evalsha_reply = Evaluated | Script_Missing | Response_Error

definition rate_check ::
  "'z zset_ops \<Rightarrow> evalsha_reply \<Rightarrow> int \<Rightarrow> int \<Rightarrow> int \<Rightarrow> string \<Rightarrow> 'z \<Rightarrow> py_error + rate_result \<times> 'z" where
  "rate_check Z reply now limit window member z =
     (if limit \<le> 0 then Inl (ValueError ''limit must be > 0'')
      else if window \<le> 0 then Inl (ValueError ''window_ms must be > 0'')
      else case reply of
             Response_Error \<Rightarrow> Inl (RuntimeError ''ResponseError'')
           | _ \<Rightarrow> Inr (sliding_window Z now window limit member z))"

text \<open>A sequence of checks of one bucket: each call's time and entry, and whether it passed.\<close>

fun run_checks ::
  "'z zset_ops \<Rightarrow> int \<Rightarrow> int \<Rightarrow> (int \<times> string) list \<Rightarrow> 'z \<Rightarrow> (int \<times> bool) list" where
  "run_checks Z window limit [] z = []"
| "run_checks Z window limit ((now, member) # cs) z =
     (case sliding_window Z now window limit member z of
        (r, z') \<Rightarrow> (now, rr_allowed r) # run_checks Z window limit cs z')"

text \<open>The window that ends at \<open>t\<close>: the times in \<open>(t - window, t]\<close>.\<close>

definition in_window :: "int \<Rightarrow> int \<Rightarrow> int \<Rightarrow> bool" where
  "in_window window t s \<longleftrightarrow> t - window < s \<and> s \<le> t"

lemma length_filter_mono_list: "(\<And>x. x \<in> set xs \<Longrightarrow> P x \<Longrightarrow> Q x) \<Longrightarrow> length (filter P xs) \<le> length (filter Q xs)"
  by (induction xs) auto

subsection \<open>Sorted sets\<close>

text \<open>What the script relies on: a sorted set is a finite map from members to scores.\<close>

locale sorted_set =
  fixes Z :: "'z zset_ops" and scores :: "'z \<Rightarrow> string \<Rightarrow> int option" and expiry :: "'z \<Rightarrow> int option"
  assumes scores_finite: "finite (dom (scores z))"
    and drop_law: "scores (z_drop_upto Z x z) m =
          (case scores z m of None \<Rightarrow> None | Some s \<Rightarrow> if 0 \<le> s \<and> s \<le> x then None else Some s)"
    and card_law: "z_card Z z = card (dom (scores z))"
    and oldest_None: "z_oldest Z z = None \<longleftrightarrow> dom (scores z) = {}"
    and oldest_Some: "z_oldest Z z = Some s \<Longrightarrow> s \<in> ran (scores z) \<and> (\<forall>s'\<in>ran (scores z). s \<le> s')"
    and add_law: "scores (z_add Z s m z) = (scores z)(m \<mapsto> s)"
    and load_law: "scores (z_load Z now z) = (case expiry z of None \<Rightarrow> scores z
          | Some e \<Rightarrow> if e \<le> now then Map.empty else scores z)"
    and load_expiry: "expiry (z_load Z now z) \<in> {expiry z, None}"
    and drop_expiry: "expiry (z_drop_upto Z x z) \<in> {expiry z, None}"
    and pexpire_law: "scores (z_pexpire Z now ttl z) = scores z"
    and pexpire_expiry: "expiry (z_pexpire Z now ttl z) = Some (now + ttl)"
begin

text \<open>
  The set mirrors the admitted calls of the last window, and its expiry outlives them.
\<close>

definition mirrors :: "int \<Rightarrow> int \<Rightarrow> (int \<times> string) list \<Rightarrow> 'z \<Rightarrow> bool" where
  "mirrors window since adm z \<longleftrightarrow>
     (\<forall>m s. scores z m = Some s \<longleftrightarrow> (s, m) \<in> set adm \<and> since < s) \<and> distinct (map snd adm)
     \<and> (\<forall>(s, m)\<in>set adm. 0 \<le> s)
     \<and> (\<forall>e. expiry z = Some e \<longrightarrow> (\<forall>(s, m)\<in>set adm. s + window \<le> e))"

lemma mirrors_drop:
  assumes "mirrors window since adm z" and "since \<le> x"
  shows "mirrors window x adm (z_drop_upto Z x z)"
proof -
  have "scores (z_drop_upto Z x z) m = Some s \<longleftrightarrow> (s, m) \<in> set adm \<and> x < s" for m s
  proof -
    have iff: "scores z m = Some u \<longleftrightarrow> (u, m) \<in> set adm \<and> since < u" for u
      using assms(1) by (simp add: mirrors_def)
    have pos: "(u, m) \<in> set adm \<Longrightarrow> 0 \<le> u" for u using assms(1) by (auto simp: mirrors_def)
    show ?thesis
    proof (cases "scores z m")
      case None
      then have "\<not> ((s, m) \<in> set adm \<and> since < s)" using iff [of s] by simp
      then show ?thesis using None assms(2) by (auto simp: drop_law)
    next
      case (Some u)
      then have u: "(u, m) \<in> set adm" "since < u" using iff by auto
      have "s = u" if "(s, m) \<in> set adm" "x < s"
        using iff [of s] that assms(2) Some by auto
      then show ?thesis using Some u pos [OF u(1)] by (auto simp: drop_law)
    qed
  qed
  then show ?thesis using assms(1) drop_expiry [of x z] by (auto simp: mirrors_def)
qed

lemma mirrors_load:
  assumes "mirrors window since adm z" and "since \<le> now - window"
  shows "mirrors window (now - window) adm (z_drop_upto Z (now - window) (z_load Z now z))"
proof (cases "\<exists>e. expiry z = Some e \<and> e \<le> now")
  case True
  then obtain e where e: "expiry z = Some e" "e \<le> now" by blast
  then have "scores (z_load Z now z) = Map.empty" by (simp add: load_law)
  moreover have "s \<le> now - window" if "(s, m) \<in> set adm" for s m
    using assms(1) e that by (force simp: mirrors_def)
  ultimately have "\<forall>m s. scores (z_load Z now z) m = Some s \<longleftrightarrow> (s, m) \<in> set adm \<and> now - window < s"
    by force
  moreover have "expiry z = Some u" if "expiry (z_load Z now z) = Some u" for u
    using load_expiry [of now z] that by auto
  ultimately have "mirrors window (now - window) adm (z_load Z now z)"
    using assms(1) by (simp add: mirrors_def)
  then show ?thesis by (rule mirrors_drop) simp
next
  case False
  then have "scores (z_load Z now z) = scores z" by (auto simp: load_law split: option.split)
  moreover have "expiry z = Some u" if "expiry (z_load Z now z) = Some u" for u
    using load_expiry [of now z] that by auto
  ultimately have "mirrors window since adm (z_load Z now z)"
    using assms(1) by (simp add: mirrors_def)
  then show ?thesis using assms(2) by (rule mirrors_drop)
qed

lemma mirrors_card:
  assumes "mirrors window x adm z"
  shows "z_card Z z = length (filter (\<lambda>(s, m). x < s) adm)"
proof -
  have "dom (scores z) = snd ` set (filter (\<lambda>(s, m). x < s) adm)"
    using assms by (force simp: mirrors_def dom_def)
  moreover have "distinct (map snd (filter (\<lambda>(s, m). x < s) adm))"
    using assms by (simp add: mirrors_def distinct_map_filter')
  ultimately show ?thesis
    unfolding card_law by (metis distinct_card length_map set_map)
qed

lemma mirrors_add:
  assumes "mirrors window x adm z" and "m \<notin> snd ` set adm" and "x < now" and "0 \<le> now"
    and "\<forall>(s, m)\<in>set adm. s \<le> now"
  shows "mirrors window x (adm @ [(now, m)]) (z_pexpire Z now window (z_add Z now m z))"
  using assms by (force simp: mirrors_def add_law pexpire_law pexpire_expiry)

lemma run_checks_bound:
  assumes "mirrors window since adm z" and "0 < window" and "0 < limit"
    and "\<forall>t. int (length (filter (\<lambda>(s, m). in_window window t s) adm)) \<le> limit"
    and "sorted (map fst cs)" and "\<forall>(s, m)\<in>set cs. since \<le> s - window \<and> 0 \<le> s \<and> (\<forall>(s', m')\<in>set adm. s' \<le> s)"
    and "distinct (map snd cs)" and "snd ` set cs \<inter> snd ` set adm = {}"
  shows "int (length (filter (\<lambda>(s, m). in_window window t s) adm))
         + int (length (filter (\<lambda>(s, ok). ok \<and> in_window window t s) (run_checks Z window limit cs z))) \<le> limit"
  using assms
proof (induction cs arbitrary: z adm since)
  case Nil
  then show ?case by simp
next
  case (Cons c cs)
  obtain now m where c: "c = (now, m)" by (cases c)
  let ?z1 = "z_drop_upto Z (now - window) (z_load Z now z)"
  let ?z2 = "z_pexpire Z now window (z_add Z now m ?z1)"
  have now: "since \<le> now - window" "0 \<le> now" "\<forall>(s', m')\<in>set adm. s' \<le> now" using Cons.prems(6) c by auto
  have mz: "mirrors window (now - window) adm ?z1" by (rule mirrors_load [OF Cons.prems(1) now(1)])
  have later: "now \<le> s" if "(s, m') \<in> set cs" for s m'
    using Cons.prems(5) that c by force
  let ?n = "length (filter (\<lambda>(s, m). now - window < s) adm)"
  show ?case
  proof (cases "int ?n \<ge> limit")
    case True
    then have r: "run_checks Z window limit (c # cs) z = (now, False) # run_checks Z window limit cs ?z1"
      by (simp add: c sliding_window_def Let_def mirrors_card [OF mz])
    have "int (length (filter (\<lambda>(s, m). in_window window t s) adm))
        + int (length (filter (\<lambda>(s, ok). ok \<and> in_window window t s) (run_checks Z window limit cs ?z1))) \<le> limit"
      by (rule Cons.IH [OF mz]) (use Cons.prems later c in \<open>auto simp: image_iff\<close>)
    then show ?thesis by (simp add: r)
  next
    case False
    let ?adm = "adm @ [(now, m)]"
    have r: "run_checks Z window limit (c # cs) z = (now, True) # run_checks Z window limit cs ?z2"
      using False by (simp add: c sliding_window_def Let_def mirrors_card [OF mz])
    have mz2: "mirrors window (now - window) ?adm ?z2"
      using Cons.prems(2,8) c now(2,3) by (intro mirrors_add [OF mz]) auto
    have bound: "int (length (filter (\<lambda>(s, m). in_window window u s) ?adm)) \<le> limit" for u
    proof (cases "in_window window u now")
      case True
      have "length (filter (\<lambda>(s, m). in_window window u s) adm) \<le> ?n"
        by (rule length_filter_mono_list) (use True in \<open>auto simp: in_window_def\<close>)
      then show ?thesis using True False by simp
    next
      case no: False
      then show ?thesis using Cons.prems(4) by simp
    qed
    have "int (length (filter (\<lambda>(s, m). in_window window t s) ?adm))
        + int (length (filter (\<lambda>(s, ok). ok \<and> in_window window t s) (run_checks Z window limit cs ?z2))) \<le> limit"
      by (rule Cons.IH [OF mz2]) (use Cons.prems bound later c in \<open>auto simp: image_iff\<close>)
    then show ?thesis by (simp add: r split: if_splits)
  qed
qed

end

subsection \<open>An executable sorted set\<close>

text \<open>An association list, newest first, with the time the key expires.\<close>

type_synonym zlist = "(string \<times> int) list \<times> int option"

definition zl_drop :: "int \<Rightarrow> zlist \<Rightarrow> zlist" where
  "zl_drop x = apfst (\<lambda>z. filter (\<lambda>(m, _). case map_of z m of None \<Rightarrow> True | Some s \<Rightarrow> \<not> (0 \<le> s \<and> s \<le> x)) z)"

definition zl_oldest :: "zlist \<Rightarrow> int option" where
  "zl_oldest z = (if fst z = [] then None else Some (Min (set (map (\<lambda>(m, _). the (map_of (fst z) m)) (fst z)))))"

definition zl_load :: "int \<Rightarrow> zlist \<Rightarrow> zlist" where
  "zl_load now z = (case snd z of Some e \<Rightarrow> if e \<le> now then ([], None) else z | None \<Rightarrow> z)"

definition zlist_ops :: "zlist zset_ops" where
  "zlist_ops = \<lparr>z_load = zl_load, z_drop_upto = zl_drop, z_card = (\<lambda>z. length (remdups (map fst (fst z)))),
     z_oldest = zl_oldest, z_add = (\<lambda>s m. apfst (\<lambda>z. (m, s) # z)),
     z_pexpire = (\<lambda>now ttl z. (fst z, Some (now + ttl)))\<rparr>"

lemma map_of_filter_key: "map_of (filter (\<lambda>(m, _). P m) z) k = (if P k then map_of z k else None)"
  by (induction z) auto

lemma ran_map_of_image: "(\<lambda>(m, _). the (map_of z m)) ` set z = ran (map_of z)"
proof -
  have "ran (map_of z) = (\<lambda>m. the (map_of z m)) ` dom (map_of z)" by (force simp: ran_def dom_def)
  also have "dom (map_of z) = fst ` set z" by (rule dom_map_of_conv_image_fst)
  finally show ?thesis by (simp add: image_image split_def)
qed

interpretation zlists: sorted_set zlist_ops "\<lambda>z. map_of (fst z)" snd
proof
  fix z :: zlist and x s now ttl :: int and m :: string
  show "finite (dom (map_of (fst z)))" by (rule finite_dom_map_of)
  show "map_of (fst (z_drop_upto zlist_ops x z)) m
      = (case map_of (fst z) m of None \<Rightarrow> None | Some s \<Rightarrow> if 0 \<le> s \<and> s \<le> x then None else Some s)"
    by (simp add: zlist_ops_def zl_drop_def map_of_filter_key split: option.split)
  show "z_card zlist_ops z = card (dom (map_of (fst z)))"
    by (simp add: zlist_ops_def dom_map_of_conv_image_fst length_remdups_card_conv)
  show "(z_oldest zlist_ops z = None) = (dom (map_of (fst z)) = {})"
    by (simp add: zlist_ops_def zl_oldest_def)
  show "s \<in> ran (map_of (fst z)) \<and> (\<forall>s'\<in>ran (map_of (fst z)). s \<le> s')" if "z_oldest zlist_ops z = Some s"
  proof -
    have ne: "fst z \<noteq> []" and s: "s = Min (ran (map_of (fst z)))"
      using that by (auto simp: zlist_ops_def zl_oldest_def ran_map_of_image split: if_splits)
    have "finite (ran (map_of (fst z)))" by (simp flip: ran_map_of_image)
    moreover have "ran (map_of (fst z)) \<noteq> {}" using ne by (metis image_is_empty ran_map_of_image set_empty)
    ultimately show ?thesis unfolding s by simp
  qed
qed (auto simp: zlist_ops_def zl_load_def zl_drop_def split: option.split)

lemma window_quota:
  assumes "sorted_set Z scores expiry" and "scores z = Map.empty" and "0 < window" and "0 < limit"
    and "sorted (map fst cs)" and "list_all (\<lambda>(s, m). 0 \<le> s) cs" and "distinct (map snd cs)"
  shows "int (length (filter (\<lambda>(s, ok). ok \<and> in_window window t s) (run_checks Z window limit cs z))) \<le> limit"
proof -
  let ?since = "- window"
  have "sorted_set.mirrors scores expiry window ?since [] z"
    using assms(1,2) by (simp add: sorted_set.mirrors_def)
  then show ?thesis
    using sorted_set.run_checks_bound [OF assms(1), of window ?since "[]" z limit cs t] assms(3-7)
    by (auto simp: list_all_iff)
qed

text \<open>
  The quota holds in every window. Starting from an empty bucket, over any sequence of
  checks with a clock that does not run backwards and entries that differ, at most \<open>limit\<close>
  calls are admitted in any half-open window of \<open>window\<close> milliseconds, not only in those
  aligned with a call, on every sorted set that obeys the laws.
\<close>

theorem rate_limit_holds:
  assumes "sorted_set Z scores expiry" and "scores z = Map.empty" and "0 < window" and "0 < limit"
    and "sorted (map fst cs)" and "list_all (\<lambda>(s, m). 0 \<le> s) cs" and "distinct (map snd cs)"
  shows "int (length (filter (\<lambda>(s, ok). ok \<and> in_window window t s) (run_checks Z window limit cs z))) \<le> limit"
  by (rule window_quota [OF assms])

theorem rate_limit_holds_witness:
  "int (length (filter (\<lambda>(s, ok). ok \<and> in_window 10 12 s)
     (run_checks zlist_ops 10 2 [(0, ''a''), (5, ''b''), (6, ''c''), (12, ''d'')] ([], None)))) \<le> 2"
  by (rule rate_limit_holds [OF zlists.sorted_set_axioms]) simp_all

end
