(* ===== verification/Access_Control.thy ===== *)
theory Access_Control
  imports Wire Rate_Limit
begin

text \<open>
  Who gets in: API keys (\<^verbatim>\<open>src/server/security/api_keys.py\<close>), their table
  (\<^verbatim>\<open>src/repos/api_key.py\<close>) and the bearer pipeline (\<^verbatim>\<open>src/server/auth.py\<close>) over the rate
  limiter. The password hash is a parameter; random key material, the clock and the entries of
  the rate buckets are inputs.
\<close>

subsection \<open>Keys\<close>

definition alnum :: "nat \<Rightarrow> bool" where
  "alnum c \<longleftrightarrow> (48 \<le> c \<and> c \<le> 57) \<or> (65 \<le> c \<and> c \<le> 90) \<or> (97 \<le> c \<and> c \<le> 122)"

definition environments :: "string list" where
  "environments = [''prod'', ''staging'', ''dev'']"

definition key_head :: "string \<Rightarrow> ustr" where
  "key_head env = cps ''nv_'' @ cps env @ cps ''_''"

text \<open>
  The regular expression \<open>^nv_(prod|staging|dev)_[a-zA-Z0-9]{14}_[a-zA-Z0-9]{40}$\<close> under
  \<open>match\<close>, where the dollar also accepts one trailing newline.
\<close>

definition key_full_match :: "ustr \<Rightarrow> bool" where
  "key_full_match t =
     (let body = (if t \<noteq> [] \<and> last t = 10 then butlast t else t);
          ok = (\<lambda>env. let h = key_head env; r = drop (length h) body
                      in take (length h) body = h \<and> length r = 55 \<and> list_all alnum (take 14 r)
                         \<and> r ! 14 = 95 \<and> list_all alnum (drop 15 r))
      in list_ex ok environments)"

text \<open>\<open>token.split('_')\<close>.\<close>

fun split_underscore :: "ustr \<Rightarrow> ustr list" where
  "split_underscore [] = [[]]"
| "split_underscore (c # cs) =
     (if c = 95 then [] # split_underscore cs
      else (case split_underscore cs of p # ps \<Rightarrow> (c # p) # ps | [] \<Rightarrow> [[c]]))"

record parsed_key =
  pk_environment :: ustr
  pk_prefix :: ustr
  pk_secret :: ustr

definition parse_api_key :: "ustr \<Rightarrow> py_error + parsed_key" where
  "parse_api_key token =
     (if token = [] then Inl (ValueError ''empty token'')
      else if \<not> key_full_match token then Inl (ValueError ''token does not match format'')
      else case split_underscore token of
             [nv, env, prefix_random, secret] \<Rightarrow>
               Inr \<lparr>pk_environment = env, pk_prefix = cps ''nv_'' @ env @ [95] @ prefix_random, pk_secret = secret\<rparr>
           | _ \<Rightarrow> Inl (ValueError ''token must contain exactly three underscores''))"

text \<open>\<open>generate_api_key\<close> from its two draws of random characters.\<close>

definition generate_api_key ::
  "(ustr \<Rightarrow> string) \<Rightarrow> string \<Rightarrow> ustr \<Rightarrow> ustr \<Rightarrow> py_error + ustr \<times> ustr \<times> string" where
  "generate_api_key hash_secret env prefix_random secret =
     (if env \<notin> set environments then Inl (ValueError ''environment must be prod|staging|dev'')
      else Inr (key_head env @ prefix_random @ [95] @ secret, key_head env @ prefix_random, hash_secret secret))"

lemma split_plain: "95 \<notin> set s \<Longrightarrow> split_underscore s = [s]"
  by (induction s) auto

lemma split_append: "95 \<notin> set s \<Longrightarrow> split_underscore (s @ 95 # t) = s # split_underscore t"
  by (induction s) auto

lemma alnum_no_underscore: "list_all alnum s \<Longrightarrow> 95 \<notin> set s \<and> 10 \<notin> set s"
  by (auto simp: list_all_iff alnum_def)

lemma generated_key_parses:
  assumes "generate_api_key hash_secret env pr secret = Inr (full, prefix, h)"
    and "length pr = 14" "length secret = 40" "list_all alnum pr" "list_all alnum secret"
  shows "parse_api_key full = Inr \<lparr>pk_environment = cps env, pk_prefix = prefix, pk_secret = secret\<rparr>
         \<and> h = hash_secret secret"
proof -
  from assms(1) have env: "env \<in> set environments" and full: "full = key_head env @ pr @ [95] @ secret"
    and prefix: "prefix = key_head env @ pr" and h: "h = hash_secret secret"
    by (auto simp: generate_api_key_def split: if_splits)
  have sec: "secret \<noteq> []" "last secret \<noteq> 10"
    using assms(3) alnum_no_underscore [OF assms(5)] by (auto simp: last_in_set) (metis last_in_set list.size(3) zero_neq_numeral)
  then have last: "last full \<noteq> 10" by (simp add: full)
  have "key_full_match full"
    unfolding key_full_match_def Let_def list_ex_iff
    by (rule bexI [OF _ env]) (use last assms(2-5) in \<open>simp add: full nth_append\<close>)
  moreover have "split_underscore full = [cps ''nv'', cps env, pr, secret]"
  proof -
    have "95 \<notin> set (cps ''nv'')" "95 \<notin> set (cps env)"
      using env by (auto simp: cps_def environments_def)
    moreover have "full = cps ''nv'' @ 95 # cps env @ 95 # pr @ 95 # secret"
      by (simp add: full key_head_def cps_def)
    ultimately show ?thesis
      using alnum_no_underscore [OF assms(4)] alnum_no_underscore [OF assms(5)]
      by (simp add: split_append split_plain)
  qed
  moreover have "full \<noteq> []" by (simp add: full key_head_def cps_def)
  ultimately show ?thesis
    using h by (simp add: parse_api_key_def prefix key_head_def cps_def)
qed

text \<open>
  A generated key authenticates as itself. For every environment and every draw of 14
  and 40 alphanumeric characters, the key shown to the user parses back to the environment,
  the prefix stored for lookup, and exactly the secret whose hash was stored.
\<close>

theorem api_key_roundtrip:
  assumes "generate_api_key hash_secret env pr secret = Inr (full, prefix, h)"
    and "length pr = 14" "length secret = 40" "list_all alnum pr" "list_all alnum secret"
  shows "parse_api_key full = Inr \<lparr>pk_environment = cps env, pk_prefix = prefix, pk_secret = secret\<rparr>
         \<and> h = hash_secret secret"
  by (rule generated_key_parses [OF assms])

theorem api_key_roundtrip_witness:
  "parse_api_key (key_head ''dev'' @ replicate 14 97 @ [95] @ replicate 40 48)
     = Inr \<lparr>pk_environment = cps ''dev'', pk_prefix = key_head ''dev'' @ replicate 14 97, pk_secret = replicate 40 48\<rparr>
   \<and> ''h'' = (\<lambda>_. ''h'') (replicate 40 48 :: ustr)"
  by (rule api_key_roundtrip [of "\<lambda>_. ''h''" "''dev''" "replicate 14 97" "replicate 40 48"])
    (simp_all add: generate_api_key_def environments_def list_all_iff alnum_def)


subsection \<open>Tenants\<close>

record tenant_row =
  te_id :: uuid
  te_slug :: string
  te_display_name :: string
  te_status :: string
  te_deleted_at :: "millis option"
  te_metadata :: dict
  te_created_at :: millis

type_synonym tenant_table = "tenant_row list"

definition lower_char :: "char \<Rightarrow> bool" where
  "lower_char c \<longleftrightarrow> (of_char c :: nat) \<in> {97..122}"

definition digit_char :: "char \<Rightarrow> bool" where
  "digit_char c \<longleftrightarrow> (of_char c :: nat) \<in> {48..57}"

text \<open>\<open>slug ~ '^[a-z][a-z0-9-]{1,62}[a-z0-9]$'\<close> and the other CHECK constraints.\<close>

definition tenant_checks :: "tenant_row \<Rightarrow> bool" where
  "tenant_checks r \<longleftrightarrow>
     (let s = te_slug r; n = length s
      in 3 \<le> n \<and> n \<le> 64 \<and> lower_char (hd s) \<and> (lower_char (last s) \<or> digit_char (last s))
         \<and> list_all (\<lambda>c. lower_char c \<or> digit_char c \<or> c = CHR ''-'') (tl s))
     \<and> 1 \<le> length (te_display_name r) \<and> length (te_display_name r) \<le> 120
     \<and> te_status r \<in> {''active'', ''suspended'', ''deleted''}"

definition tenant_clash :: "tenant_row \<Rightarrow> tenant_row \<Rightarrow> bool" where
  "tenant_clash r r' \<longleftrightarrow> te_id r' = te_id r \<or> te_slug r' = te_slug r"

definition tenant_get :: "uuid \<Rightarrow> tenant_table \<Rightarrow> tenant_row option" where
  [repo_defs]: "tenant_get tid t = find (\<lambda>r. te_id r = tid) t"

definition tenant_get_by_slug :: "string \<Rightarrow> tenant_table \<Rightarrow> tenant_row option" where
  [repo_defs]: "tenant_get_by_slug slug t = find (\<lambda>r. te_slug r = slug) t"

definition tenant_list_active :: "tenant_table \<Rightarrow> tenant_row list" where
  [repo_defs]: "tenant_list_active t =
     sort_key (\<lambda>r. - te_created_at r) (filter (\<lambda>r. te_deleted_at r = None) t)"

definition tenant_create ::
  "uuid \<Rightarrow> millis \<Rightarrow> string \<Rightarrow> string \<Rightarrow> dict option \<Rightarrow> tenant_table \<Rightarrow> py_error + tenant_row \<times> tenant_table" where
  [repo_defs]: "tenant_create new_id now slug display_name metadata t =
     (let r = \<lparr>te_id = new_id, te_slug = slug, te_display_name = display_name, te_status = ''active'',
               te_deleted_at = None, te_metadata = (case metadata of None \<Rightarrow> [] | Some d \<Rightarrow> d),
               te_created_at = now\<rparr>
      in if \<not> tenant_checks r then Inl IntegrityError
         else bindS (insert_row tenant_clash r t) (\<lambda>t'. Inr (r, t')))"

definition tenant_set_status :: "string \<Rightarrow> uuid \<Rightarrow> tenant_table \<Rightarrow> tenant_row option \<times> tenant_table" where
  "tenant_set_status status tid t =
     (case tenant_get tid t of
        None \<Rightarrow> (None, t)
      | Some r \<Rightarrow> (Some (r\<lparr>te_status := status\<rparr>),
                  update_rows (\<lambda>r. te_id r = tid) (\<lambda>r. r\<lparr>te_status := status\<rparr>) t))"

definition tenant_suspend :: "uuid \<Rightarrow> tenant_table \<Rightarrow> tenant_row option \<times> tenant_table" where
  [repo_defs]: "tenant_suspend = tenant_set_status ''suspended''"

definition tenant_reactivate :: "uuid \<Rightarrow> tenant_table \<Rightarrow> tenant_row option \<times> tenant_table" where
  [repo_defs]: "tenant_reactivate = tenant_set_status ''active''"

subsection \<open>The key table\<close>

record api_key_row =
  ak_id :: uuid
  ak_tenant_id :: uuid
  ak_prefix :: ustr
  ak_secret_hash :: string
  ak_scopes :: "string list"
  ak_rate_limit_per_minute :: int
  ak_label :: "string option"
  ak_created_at :: millis
  ak_created_by_operator_id :: "uuid option"
  ak_last_used_at :: "millis option"
  ak_revoked_at :: "millis option"
  ak_revoked_reason :: "string option"

type_synonym key_table = "api_key_row list"

text \<open>\<open>prefix ~ '^nv_(prod|staging|dev)_[a-zA-Z0-9]{14}$'\<close>, \<open>rate_limit_per_minute > 0\<close>.\<close>

definition key_checks :: "api_key_row \<Rightarrow> bool" where
  "key_checks r \<longleftrightarrow>
     list_ex (\<lambda>env. let h = key_head env; p = drop (length h) (ak_prefix r)
                    in take (length h) (ak_prefix r) = h \<and> length p = 14 \<and> list_all alnum p) environments
     \<and> 0 < ak_rate_limit_per_minute r"

definition key_is_active :: "api_key_row \<Rightarrow> bool" where
  "key_is_active r \<longleftrightarrow> ak_revoked_at r = None"

definition key_clash :: "api_key_row \<Rightarrow> api_key_row \<Rightarrow> bool" where
  "key_clash r r' \<longleftrightarrow> ak_id r' = ak_id r \<or> ak_prefix r' = ak_prefix r"

text \<open>
  The row and its tenant; the inner option is the relationship, which the foreign key keeps
  from being absent.
\<close>

definition lookup_active_by_prefix ::
  "ustr \<Rightarrow> tenant_table \<Rightarrow> key_table \<Rightarrow> (api_key_row \<times> tenant_row option) option" where
  [repo_defs]: "lookup_active_by_prefix prefix ts ks =
     (case find (\<lambda>r. ak_prefix r = prefix \<and> ak_revoked_at r = None) ks of
        None \<Rightarrow> None
      | Some row \<Rightarrow> Some (row, tenant_get (ak_tenant_id row) ts))"

definition list_keys_for_tenant :: "uuid \<Rightarrow> bool \<Rightarrow> key_table \<Rightarrow> api_key_row list" where
  [repo_defs]: "list_keys_for_tenant tid include_revoked ks =
     sort_key (\<lambda>r. - ak_created_at r)
       (filter (\<lambda>r. ak_tenant_id r = tid \<and> (include_revoked \<or> ak_revoked_at r = None)) ks)"

text \<open>\<open>operators\<close> are the ids of the operators table, the target of the second foreign key.\<close>

definition key_create ::
  "uuid list \<Rightarrow> uuid \<Rightarrow> millis \<Rightarrow> uuid \<Rightarrow> ustr \<Rightarrow> string \<Rightarrow> string list option \<Rightarrow> int \<Rightarrow> string option
   \<Rightarrow> uuid option \<Rightarrow> tenant_table \<Rightarrow> key_table \<Rightarrow> py_error + api_key_row \<times> key_table" where
  [repo_defs]: "key_create operators new_id now tid prefix secret_hash scopes limit label created_by ts ks =
     (let r = \<lparr>ak_id = new_id, ak_tenant_id = tid, ak_prefix = prefix, ak_secret_hash = secret_hash,
               ak_scopes = (case scopes of Some (s # ss) \<Rightarrow> s # ss | _ \<Rightarrow> [''tts:read'', ''tts:write'']),
               ak_rate_limit_per_minute = limit, ak_label = label, ak_created_at = now,
               ak_created_by_operator_id = created_by, ak_last_used_at = None, ak_revoked_at = None,
               ak_revoked_reason = None\<rparr>
      in if \<not> key_checks r \<or> tenant_get tid ts = None
            \<or> (case created_by of None \<Rightarrow> False | Some opid \<Rightarrow> opid \<notin> set operators)
         then Inl IntegrityError
         else bindS (insert_row key_clash r ks) (\<lambda>ks'. Inr (r, ks')))"

definition key_revoke ::
  "uuid \<Rightarrow> millis \<Rightarrow> string option \<Rightarrow> key_table \<Rightarrow> api_key_row option \<times> key_table" where
  [repo_defs]: "key_revoke kid now reason ks =
     (case find (\<lambda>r. ak_id r = kid) ks of
        None \<Rightarrow> (None, ks)
      | Some r \<Rightarrow>
          if ak_revoked_at r \<noteq> None then (Some r, ks)
          else (let f = (\<lambda>r. r\<lparr>ak_revoked_at := Some now, ak_revoked_reason := reason\<rparr>)
                in (Some (f r), update_rows (\<lambda>r. ak_id r = kid) f ks)))"

definition touch_last_used :: "uuid \<Rightarrow> millis \<Rightarrow> key_table \<Rightarrow> key_table" where
  [repo_defs]: "touch_last_used kid now ks = update_rows (\<lambda>r. ak_id r = kid) (\<lambda>r. r\<lparr>ak_last_used_at := Some now\<rparr>) ks"

text \<open>Both keys of the table are unique, and every key belongs to a tenant.\<close>

definition keys_ok :: "tenant_table \<Rightarrow> key_table \<Rightarrow> bool" where
  "keys_ok ts ks \<longleftrightarrow> distinct (map ak_id ks) \<and> distinct (map ak_prefix ks)
     \<and> list_all (\<lambda>k. key_checks k \<and> tenant_get (ak_tenant_id k) ts \<noteq> None) ks"

lemma insert_row_InrD: "insert_row clash r t = Inr t' \<Longrightarrow> t' = t @ [r] \<and> (\<forall>x\<in>set t. \<not> clash r x)"
  by (auto simp: insert_row_def list_ex_iff split: if_splits)

lemma key_create_ok:
  assumes "keys_ok ts ks" "key_create ops i now tid p h sc l lab opr ts ks = Inr (r, ks')"
  shows "keys_ok ts ks'"
  using assms by (fastforce simp: key_create_def Let_def bindS_Inr keys_ok_def key_clash_def
      split: if_splits dest!: insert_row_InrD)

lemma key_update_ok:
  assumes "keys_ok ts ks" "\<And>r. ak_id (f r) = ak_id r \<and> ak_prefix (f r) = ak_prefix r
      \<and> ak_tenant_id (f r) = ak_tenant_id r \<and> ak_rate_limit_per_minute (f r) = ak_rate_limit_per_minute r"
  shows "keys_ok ts (update_rows P f ks)"
  using assms by (auto simp: keys_ok_def map_update_rows key_checks_def intro!: list_all_update_rows)

lemma key_revoke_ok: "keys_ok ts ks \<Longrightarrow> keys_ok ts (snd (key_revoke kid now reason ks))"
  by (auto simp: key_revoke_def Let_def intro!: key_update_ok split: option.split)

lemma touch_ok: "keys_ok ts ks \<Longrightarrow> keys_ok ts (touch_last_used kid now ks)"
  by (auto simp: touch_last_used_def intro!: key_update_ok)


text \<open>What can happen to the key table: its three writers, a refused insert leaving it as it was.\<close>

datatype key_op =
    Create_Key "uuid list" uuid millis uuid ustr string "string list option" int "string option" "uuid option"
  | Revoke_Key uuid millis "string option"
  | Touch_Key uuid millis

fun key_step :: "tenant_table \<Rightarrow> key_op \<Rightarrow> key_table \<Rightarrow> key_table" where
  "key_step ts (Create_Key ops i now tid p h sc l lab opr) ks =
     (case key_create ops i now tid p h sc l lab opr ts ks of Inl e \<Rightarrow> ks | Inr (r, ks') \<Rightarrow> ks')"
| "key_step ts (Revoke_Key kid now reason) ks = snd (key_revoke kid now reason ks)"
| "key_step ts (Touch_Key kid now) ks = touch_last_used kid now ks"

lemma key_step_ok: "keys_ok ts ks \<Longrightarrow> keys_ok ts (key_step ts x ks)"
  by (cases x) (auto simp: key_revoke_ok touch_ok intro: key_create_ok split: sum.split)

lemma keys_fold_ok: "keys_ok ts ks \<Longrightarrow> keys_ok ts (fold (key_step ts) xs ks)"
  by (induction xs arbitrary: ks) (auto simp: key_step_ok)

definition revoked_prefix :: "ustr \<Rightarrow> key_table \<Rightarrow> bool" where
  "revoked_prefix p ks \<longleftrightarrow> (\<exists>k\<in>set ks. ak_prefix k = p \<and> ak_revoked_at k \<noteq> None)"

lemma revoked_prefix_update:
  assumes "revoked_prefix p ks" "\<And>r. ak_prefix (f r) = ak_prefix r \<and> (ak_revoked_at r \<noteq> None \<longrightarrow> ak_revoked_at (f r) \<noteq> None)"
  shows "revoked_prefix p (update_rows P f ks)"
proof -
  obtain k where k: "k \<in> set ks" "ak_prefix k = p" "ak_revoked_at k \<noteq> None"
    using assms(1) by (auto simp: revoked_prefix_def)
  let ?k = "if P k then f k else k"
  have "?k \<in> set (update_rows P f ks)" using k(1) by (simp add: set_update_rows)
  moreover have "ak_prefix ?k = p" "ak_revoked_at ?k \<noteq> None" using k assms(2) by simp_all
  ultimately show ?thesis unfolding revoked_prefix_def by blast
qed

lemma revoked_prefix_step:
  assumes p: "revoked_prefix p ks"
  shows "revoked_prefix p (key_step ts x ks)"
proof (cases x)
  case (Create_Key ops i now tid q h sc l lab opr)
  show ?thesis
  proof (cases "key_create ops i now tid q h sc l lab opr ts ks")
    case (Inr y)
    then obtain r ks' where y: "key_create ops i now tid q h sc l lab opr ts ks = Inr (r, ks')" by (cases y) auto
    then have "ks' = ks @ [r]"
      by (auto simp: key_create_def Let_def bindS_Inr split: if_splits dest!: insert_row_InrD)
    then show ?thesis using p y Create_Key by (auto simp: revoked_prefix_def)
  qed (simp add: Create_Key p)
qed (use p in \<open>auto simp: key_revoke_def Let_def touch_last_used_def intro!: revoked_prefix_update split: option.split\<close>)

lemma revoked_prefix_fold: "revoked_prefix p ks \<Longrightarrow> revoked_prefix p (fold (key_step ts) xs ks)"
  by (induction xs arbitrary: ks) (auto simp: revoked_prefix_step)

lemma revoked_prefix_lookup:
  assumes "keys_ok ts ks" "revoked_prefix p ks"
  shows "lookup_active_by_prefix p ts' ks = None"
proof -
  obtain k where k: "k \<in> set ks" "ak_prefix k = p" "ak_revoked_at k \<noteq> None"
    using assms(2) by (auto simp: revoked_prefix_def)
  have "ak_revoked_at r \<noteq> None" if "r \<in> set ks" "ak_prefix r = p" for r
    using distinct_key_eq [of ak_prefix ks r k] assms(1) k that by (auto simp: keys_ok_def)
  then have "find (\<lambda>r. ak_prefix r = p \<and> ak_revoked_at r = None) ks = None" by (auto simp: find_None)
  then show ?thesis by (simp add: lookup_active_by_prefix_def)
qed

text \<open>
  Revocation is final. Once \<open>revoke\<close> has answered a key, no later sequence of creations,
  revocations and touches makes its prefix authenticate again, and the row keeps the
  first revocation's time and reason when it is revoked twice.
\<close>

theorem revocation_final:
  assumes "keys_ok ts ks" and "key_revoke kid now reason ks = (Some k, ks1)"
  shows "lookup_active_by_prefix (ak_prefix k) ts' (fold (key_step ts) xs ks1) = None
         \<and> key_revoke kid now' reason' ks1 = (Some k, ks1)"
proof -
  obtain r where r: "find (\<lambda>r. ak_id r = kid) ks = Some r"
    using assms(2) by (auto simp: key_revoke_def split: option.splits)
  note in_ks = find_SomeD [OF r]
  have ok1: "keys_ok ts ks1" using key_revoke_ok [OF assms(1), of kid now reason] assms(2) by simp
  have k: "k \<in> set ks1" "ak_revoked_at k \<noteq> None" "ak_id k = kid"
    using assms(2) r in_ks by (auto simp: key_revoke_def Let_def set_update_rows image_iff split: if_splits)
  then have "revoked_prefix (ak_prefix k) ks1" by (auto simp: revoked_prefix_def)
  then have "lookup_active_by_prefix (ak_prefix k) ts' (fold (key_step ts) xs ks1) = None"
    by (intro revoked_prefix_lookup [OF keys_fold_ok [OF ok1]] revoked_prefix_fold)
  moreover have "find (\<lambda>r. ak_id r = kid) ks1 = Some k"
    using find_by_key [of ak_id ks1 k] ok1 k by (simp add: keys_ok_def)
  ultimately show ?thesis using k by (auto simp: key_revoke_def)
qed

definition sample_tenant :: tenant_row where
  "sample_tenant = \<lparr>te_id = 1, te_slug = ''acme'', te_display_name = ''Acme'', te_status = ''active'',
     te_deleted_at = None, te_metadata = [], te_created_at = 0\<rparr>"

definition sample_key :: api_key_row where
  "sample_key = \<lparr>ak_id = 2, ak_tenant_id = 1, ak_prefix = key_head ''dev'' @ replicate 14 97,
     ak_secret_hash = ''h'', ak_scopes = [''tts:write''], ak_rate_limit_per_minute = 60, ak_label = None,
     ak_created_at = 0, ak_created_by_operator_id = None, ak_last_used_at = None, ak_revoked_at = None,
     ak_revoked_reason = None\<rparr>"

lemma sample_keys_ok: "keys_ok [sample_tenant] [sample_key]"
  by (simp add: keys_ok_def key_checks_def sample_key_def sample_tenant_def environments_def key_head_def
      cps_def tenant_get_def list_all_iff alnum_def)

theorem revocation_final_witness:
  "lookup_active_by_prefix (ak_prefix sample_key) []
     (fold (key_step [sample_tenant]) [Touch_Key 2 6]
        [sample_key\<lparr>ak_revoked_at := Some 5, ak_revoked_reason := None\<rparr>]) = None"
  using revocation_final [OF sample_keys_ok, of 2 5 None "sample_key\<lparr>ak_revoked_at := Some 5, ak_revoked_reason := None\<rparr>"
      "[sample_key\<lparr>ak_revoked_at := Some 5, ak_revoked_reason := None\<rparr>]" "[]" "[Touch_Key 2 6]"]
  by (simp add: key_revoke_def Let_def update_rows_def sample_key_def)

end
