(* ===== verification/Py_Text.thy ===== *)
theory Py_Text
  imports Wire
begin

text \<open>
  Python strings as the text components use them: white space, stripped strings, what of a
  text is spoken, splitting at runs of white space and regular-expression substitution with
  one left-to-right scan.
\<close>

subsection \<open>What is spoken of a text: everything but white space\<close>

definition ink :: "ustr \<Rightarrow> ustr" where
  "ink s = filter (\<lambda>c. \<not> py_space c) s"

lemma ink_simps [simp]: "ink [] = []" "ink (s @ t) = ink s @ ink t"
  by (simp_all add: ink_def)

lemma ink_Cons: "ink (c # s) = (if py_space c then ink s else c # ink s)"
  by (simp add: ink_def)

lemma ink_drop [simp]: "ink (dropWhile py_space s) = ink s"
  by (induction s) (auto simp: ink_def)

lemma ink_rev: "ink (rev s) = rev (ink s)"
  by (simp add: ink_def rev_filter)

lemma ink_strip [simp]: "ink (strip_spaces s) = ink s"
  by (simp add: strip_spaces_def ink_rev)

lemma ink_cut: "ink (take n s) @ ink (drop n s) = ink s"
  by (metis append_take_drop_id ink_simps(2))

lemma py_space_blank [simp]: "py_space 32"
  by (simp add: py_space_def)

lemma ink_blank [simp]: "ink (32 # t) = ink t"
  by (simp add: ink_Cons)

lemma ink_map: "(\<And>c. py_space (f c) = py_space c) \<Longrightarrow> ink (map f s) = map f (ink s)"
  by (simp add: ink_def filter_map o_def)

subsection \<open>Stripped strings\<close>

definition trimmed :: "ustr \<Rightarrow> bool" where
  "trimmed s \<longleftrightarrow> s \<noteq> [] \<and> \<not> py_space (hd s) \<and> \<not> py_space (last s)"

lemma strip_spaces_edges: "s \<noteq> [] \<Longrightarrow> \<not> py_space (hd s) \<Longrightarrow> \<not> py_space (last s) \<Longrightarrow> strip_spaces s = s"
  by (simp add: strip_spaces_def dropWhile_eq_self_iff [THEN iffD2] hd_rev)

lemma trimmed_strip: "trimmed s \<Longrightarrow> strip_spaces s = s"
  by (simp add: trimmed_def strip_spaces_edges)

lemma strip_prefix: "strip_spaces s \<noteq> [] \<Longrightarrow> \<not> py_space (last (strip_spaces s))"
  unfolding strip_spaces_def by (metis hd_dropWhile last_rev rev_is_Nil_conv)

lemma strip_trimmed: "strip_spaces s \<noteq> [] \<Longrightarrow> trimmed (strip_spaces s)"
proof -
  assume ne: "strip_spaces s \<noteq> []"
  define d where "d = dropWhile py_space s"
  obtain k where "d = strip_spaces s @ k"
    by (metis d_def rev_append rev_rev_ident strip_spaces_def takeWhile_dropWhile_id)
  moreover have "\<not> py_space (hd d)" using ne by (metis d_def hd_dropWhile rev.simps(1) strip_spaces_def dropWhile.simps(1))
  ultimately have "\<not> py_space (hd (strip_spaces s))" using ne by (metis hd_append2)
  then show ?thesis using ne strip_prefix by (simp add: trimmed_def)
qed

lemma trimmed_joined: "trimmed a \<Longrightarrow> trimmed b \<Longrightarrow> trimmed (a @ 32 # b)"
  by (cases b rule: rev_cases) (auto simp: trimmed_def hd_append)

lemma strip_take_trimmed:
  assumes "trimmed s" "0 < n"
  shows "trimmed (strip_spaces (take n s))"
proof (rule strip_trimmed)
  have "hd (take n s) = hd s" using assms by (cases s; cases n) (auto simp: trimmed_def)
  then have "ink (take n s) \<noteq> []" using assms by (cases s; cases n) (auto simp: trimmed_def ink_def)
  then show "strip_spaces (take n s) \<noteq> []" by (metis ink_strip ink_simps(1))
qed

lemma strip_drop_trimmed:
  assumes "trimmed s" "n < length s"
  shows "trimmed (strip_spaces (drop n s))"
proof (rule strip_trimmed)
  have "last s \<in> set (drop n s)" using assms by (metis last_drop last_in_set drop_eq_Nil not_le)
  then have "ink (drop n s) \<noteq> []" using assms(1) by (auto simp: trimmed_def ink_def filter_empty_conv)
  then show "strip_spaces (drop n s) \<noteq> []" by (metis ink_strip ink_simps(1))
qed

lemma last_dropWhile: "dropWhile P xs \<noteq> [] \<Longrightarrow> last (dropWhile P xs) = last xs"
  by (induction xs) auto

subsection \<open>Splitting at runs of white space\<close>

text \<open>
  \<open>re.split(r"(?<=[...])\s+(?=[...])", s)\<close>: a run of white space that follows a character of the
  first class and, taken whole, precedes what the look-ahead accepts is a separator.
\<close>

function split_runs :: "(nat \<Rightarrow> bool) \<Rightarrow> (ustr \<Rightarrow> bool) \<Rightarrow> ustr \<Rightarrow> ustr \<Rightarrow> ustr list" where
  "split_runs before ahead piece [] = [piece]"
| "split_runs before ahead piece (c # cs) =
     (if py_space c \<and> piece \<noteq> [] \<and> before (last piece) \<and> ahead (dropWhile py_space cs)
      then piece # split_runs before ahead [] (dropWhile py_space cs)
      else split_runs before ahead (piece @ [c]) cs)"
  by pat_completeness auto
termination
  by (relation "measure (\<lambda>(_, _, _, s). length s)") (auto simp: le_imp_less_Suc length_dropWhile_le)

lemma split_runs_ink:
  "concat (map ink (split_runs before ahead piece s)) = ink piece @ ink s"
proof (induction before ahead piece s rule: split_runs.induct)
  case (2 before ahead piece c cs)
  then show ?case by (auto simp: ink_Cons)
qed simp

lemma split_runs_nonempty [simp]: "split_runs before ahead piece s \<noteq> []"
  by (induction before ahead piece s rule: split_runs.induct) auto

subsection \<open>Substitution\<close>

text \<open>\<open>\b\<close> between two characters, one of them may be missing at the ends of the string.\<close>

definition word_at :: "(nat \<Rightarrow> bool) \<Rightarrow> nat option \<Rightarrow> bool" where
  "word_at w c = (case c of None \<Rightarrow> False | Some x \<Rightarrow> w x)"

text \<open>The Latin part of \<open>\w\<close>.\<close>

definition latin_word :: "nat \<Rightarrow> bool" where
  "latin_word c \<longleftrightarrow> (48 \<le> c \<and> c \<le> 57) \<or> (65 \<le> c \<and> c \<le> 90) \<or> (97 \<le> c \<and> c \<le> 122) \<or> c = 95
     \<or> (0xC0 \<le> c \<and> c \<le> 0x24F \<and> c \<noteq> 0xD7 \<and> c \<noteq> 0xF7)"

fun ahead_of :: "ustr \<Rightarrow> nat option" where
  "ahead_of [] = None"
| "ahead_of (c # cs) = Some c"

definition boundary :: "(nat \<Rightarrow> bool) \<Rightarrow> nat option \<Rightarrow> nat option \<Rightarrow> bool" where
  "boundary w p n \<longleftrightarrow> word_at w p \<noteq> word_at w n"

text \<open>
  \<open>pattern.sub\<close> from left to right: the matcher sees the character before the position and the
  rest of the string; it answers how many characters it takes (at least one) and what replaces
  them, which may raise.
\<close>

type_synonym matcher = "nat option \<Rightarrow> ustr \<Rightarrow> (nat \<times> (py_error + ustr)) option"

function re_sub :: "matcher \<Rightarrow> nat option \<Rightarrow> ustr \<Rightarrow> py_error + ustr" where
  "re_sub m p [] = Inr []"
| "re_sub m p (c # cs) =
     (case m p (c # cs) of
        None \<Rightarrow> bindS (re_sub m (Some c) cs) (\<lambda>r. Inr (c # r))
      | Some (n, replacement) \<Rightarrow>
          bindS replacement (\<lambda>w.
          bindS (re_sub m (Some (last (c # take (n - 1) cs))) (drop (n - 1) cs)) (\<lambda>r. Inr (w @ r))))"
  by pat_completeness auto
termination by (relation "measure (\<lambda>(_, _, s). length s)") auto

declare re_sub.simps(2) [simp del]

lemma re_sub_skip: "m p (c # cs) = None \<Longrightarrow> re_sub m p (c # cs) = bindS (re_sub m (Some c) cs) (\<lambda>r. Inr (c # r))"
  by (simp add: re_sub.simps)

text \<open>Where nothing matches the text stays as it is.\<close>

lemma re_sub_none:
  assumes "\<And>q pre c suf. s = pre @ c # suf \<Longrightarrow> m q (c # suf) = None"
  shows "re_sub m p s = Inr s"
  using assms
proof (induction s arbitrary: p)
  case (Cons c cs)
  have "m p (c # cs) = None" using Cons.prems [of "[]"] by simp
  moreover have "re_sub m (Some c) cs = Inr cs" using Cons.prems by (intro Cons.IH) (metis append_Cons)
  ultimately show ?case by (simp add: re_sub_skip)
qed simp

end
