(* ===== verification/Authentication.thy ===== *)
theory Authentication
  imports Access_Control Py_Text "HOL-Library.Sublist"
begin

text \<open>
  The bearer pipeline of \<^verbatim>\<open>src/server/auth.py\<close>: header, key format, prefix lookup, secret,
  tenant status, scopes and the two rate limits, in the order of the code, each refusal
  with its status code and its audit row (\<^verbatim>\<open>src/repos/audit.py\<close>). Argon2 and Redis' sorted
  sets are parameters; what one request brings (header, clock readings, bucket entries,
  whether the audit write succeeds) is the record \<open>auth_request\<close>.
\<close>

subsection \<open>The audit log\<close>

record audit_row =
  lg_occurred_at :: millis
  lg_actor_type :: string
  lg_actor_id :: "uuid option"
  lg_actor_label :: "ustr option"
  lg_tenant_id :: "uuid option"
  lg_action :: string
  lg_result :: string
  lg_target_type :: "string option"
  lg_target_id :: "string option"
  lg_ip_addr :: "string option"
  lg_user_agent :: "string option"
  lg_request_id :: "uuid option"
  lg_payload :: dict

type_synonym audit_table = "audit_row list"

definition audit_checks :: "audit_row \<Rightarrow> bool" where
  "audit_checks r \<longleftrightarrow> lg_actor_type r \<in> {''api_key'', ''operator'', ''system''}
     \<and> lg_result r \<in> {''success'', ''denied'', ''error''}"

definition audit_record :: "tenant_table \<Rightarrow> audit_row \<Rightarrow> audit_table \<Rightarrow> py_error + audit_table" where
  [repo_defs]: "audit_record ts r t =
     (if \<not> audit_checks r
         \<or> (case lg_tenant_id r of None \<Rightarrow> False | Some tid \<Rightarrow> tenant_get tid ts = None)
      then Inl IntegrityError else Inr (t @ [r]))"

definition audit_for_tenant :: "uuid \<Rightarrow> nat \<Rightarrow> audit_table \<Rightarrow> audit_row list" where
  [repo_defs]: "audit_for_tenant tid limit t =
     take limit (sort_key (\<lambda>r. - lg_occurred_at r) (filter (\<lambda>r. lg_tenant_id r = Some tid) t))"

subsection \<open>The pipeline\<close>

record 'z auth_state =
  as_tenants :: tenant_table
  as_keys :: key_table
  as_log :: audit_table
  as_key_buckets :: "uuid \<Rightarrow> 'z"
  as_tenant_buckets :: "uuid \<Rightarrow> 'z"

record auth_request =
  aq_authorization :: "ustr option"
  aq_scopes :: "string list"
  aq_ip :: "string option"
  aq_agent :: "string option"
  aq_wall :: millis
  aq_audit_ok :: bool
  aq_key_now :: int
  aq_key_member :: string
  aq_key_reply :: evalsha_reply
  aq_tenant_now :: int
  aq_tenant_member :: string
  aq_tenant_reply :: evalsha_reply

datatype auth_error =
    Http int string "int option" \<comment> \<open>status, detail, Retry-After\<close>
  | Escapes py_error

datatype verify_reply = Verified | Mismatch | Invalid_Hash

text \<open>
  \<open>_audit_async\<close>: the row and everything pending in the session are committed together; a
  failed write rolls the session back and is swallowed. The first state is what the session
  has committed, the second what it holds.
\<close>

definition audit_entry ::
  "auth_request \<Rightarrow> string \<Rightarrow> string \<Rightarrow> uuid option \<Rightarrow> uuid option \<Rightarrow> ustr option \<Rightarrow> dict \<Rightarrow> audit_row" where
  "audit_entry q action result tid actor label payload =
     \<lparr>lg_occurred_at = aq_wall q,
      lg_actor_type = (if actor \<noteq> None then ''api_key'' else ''system''), lg_actor_id = actor,
      lg_actor_label = label, lg_tenant_id = tid, lg_action = action, lg_result = result,
      lg_target_type = None, lg_target_id = None, lg_ip_addr = aq_ip q, lg_user_agent = aq_agent q,
      lg_request_id = None, lg_payload = payload\<rparr>"

definition audit_async ::
  "auth_request \<Rightarrow> string \<Rightarrow> string \<Rightarrow> uuid option \<Rightarrow> uuid option \<Rightarrow> ustr option \<Rightarrow> dict
   \<Rightarrow> 'z auth_state \<Rightarrow> 'z auth_state \<Rightarrow> 'z auth_state" where
  "audit_async q action result tid actor label payload committed s =
     (case (if aq_audit_ok q
            then audit_record (as_tenants s) (audit_entry q action result tid actor label payload) (as_log s)
            else Inl (RuntimeError ''database'')) of
        Inr log' \<Rightarrow> s\<lparr>as_log := log'\<rparr>
      | Inl e \<Rightarrow> committed\<lparr>as_key_buckets := as_key_buckets s, as_tenant_buckets := as_tenant_buckets s\<rparr>)"

definition deny ::
  "auth_request \<Rightarrow> string \<Rightarrow> uuid option \<Rightarrow> uuid option \<Rightarrow> ustr option \<Rightarrow> dict \<Rightarrow> auth_error
   \<Rightarrow> 'z auth_state \<Rightarrow> (auth_error + 'b) \<times> 'z auth_state" where
  "deny q action tid actor label payload e s =
     (Inl e, audit_async q action ''denied'' tid actor label payload s s)"

abbreviation generic_auth_error :: string where
  "generic_auth_error \<equiv> ''invalid or revoked api key''"

abbreviation reason_json :: "string \<Rightarrow> dict" where
  "reason_json w \<equiv> [(''reason'', JStr (cps w))]"

definition ascii_lower :: "nat \<Rightarrow> nat" where
  "ascii_lower c = (if 65 \<le> c \<and> c \<le> 90 then c + 32 else c)"

definition bearer_token :: "ustr option \<Rightarrow> ustr option" where
  "bearer_token authorization =
     (case authorization of
        None \<Rightarrow> None
      | Some a \<Rightarrow> if map ascii_lower (take 7 a) = cps ''bearer '' then Some (strip_spaces (drop 7 a)) else None)"

definition missing_scopes :: "string list \<Rightarrow> string list \<Rightarrow> string list" where
  "missing_scopes required scopes = filter (\<lambda>s. s \<notin> set scopes) required"

definition retry_seconds :: "int \<Rightarrow> int" where
  "retry_seconds ms = max 1 (ms div 1000 + 1)"

text \<open>Steps 7 and 8: the key's bucket, the tenant's bucket, then the side effects.\<close>

definition admit ::
  "'z zset_ops \<Rightarrow> int \<Rightarrow> auth_request \<Rightarrow> api_key_row \<Rightarrow> tenant_row \<Rightarrow> 'z auth_state
   \<Rightarrow> (auth_error + tenant_row \<times> api_key_row) \<times> 'z auth_state" where
  "admit Z tenant_limit q key tenant s =
     (let kid = ak_id key; tid = te_id tenant;
          refuse = (\<lambda>detail payload r s. deny q ''auth.rate_limited'' (Some tid) (Some kid) (Some (ak_prefix key)) payload
                      (Http 429 detail (Some (retry_seconds (rr_retry_after_ms r)))) s)
      in case rate_check Z (aq_key_reply q) (aq_key_now q) (ak_rate_limit_per_minute key) 60000
                (aq_key_member q) (as_key_buckets s kid) of
           Inl e \<Rightarrow> (Inl (Escapes e), s)
         | Inr (r, b) \<Rightarrow>
             (let s1 = s\<lparr>as_key_buckets := (as_key_buckets s)(kid := b)\<rparr>
              in if \<not> rr_allowed r
                 then refuse ''rate limited''
                        [(''limit'', JInt (ak_rate_limit_per_minute key)), (''count'', JInt (rr_count r))] r s1
                 else case rate_check Z (aq_tenant_reply q) (aq_tenant_now q) tenant_limit 60000
                             (aq_tenant_member q) (as_tenant_buckets s1 tid) of
                        Inl e \<Rightarrow> (Inl (Escapes e), s1)
                      | Inr (r2, b2) \<Rightarrow>
                          (let s2 = s1\<lparr>as_tenant_buckets := (as_tenant_buckets s1)(tid := b2)\<rparr>
                           in if \<not> rr_allowed r2
                              then refuse ''rate limited (tenant)''
                                     [(''scope'', JStr (cps ''tenant'')), (''limit'', JInt tenant_limit),
                                      (''count'', JInt (rr_count r2))] r2 s2
                              else (Inr (tenant, key),
                                    audit_async q ''auth.success'' ''success'' (Some tid) (Some kid)
                                      (Some (ak_prefix key)) [] s2
                                      (s2\<lparr>as_keys := touch_last_used kid (aq_wall q) (as_keys s2)\<rparr>)))))"

text \<open>Steps 4 to 6, for a key that was found with its tenant.\<close>

definition check_key ::
  "(string \<Rightarrow> ustr \<Rightarrow> verify_reply) \<Rightarrow> 'z zset_ops \<Rightarrow> int \<Rightarrow> auth_request \<Rightarrow> ustr \<Rightarrow> api_key_row \<Rightarrow> tenant_row
   \<Rightarrow> 'z auth_state \<Rightarrow> (auth_error + tenant_row \<times> api_key_row) \<times> 'z auth_state" where
  "check_key verify Z tenant_limit q secret key tenant s =
     (let refuse = (\<lambda>payload e. deny q ''auth.fail'' (Some (te_id tenant)) (Some (ak_id key))
                                 (Some (ak_prefix key)) payload e s)
      in case verify (ak_secret_hash key) secret of
           Invalid_Hash \<Rightarrow> (Inl (Escapes (ValueError ''invalid hash'')), s)
         | Mismatch \<Rightarrow> refuse (reason_json ''secret_mismatch'') (Http 401 generic_auth_error None)
         | Verified \<Rightarrow>
             if te_status tenant \<noteq> ''active''
             then refuse (reason_json (''tenant_status_'' @ te_status tenant)) (Http 403 generic_auth_error None)
             else (let missing = missing_scopes (aq_scopes q) (ak_scopes key)
                   in if missing \<noteq> []
                      then refuse (reason_json ''insufficient_scope'' @ [(''missing'', JList (map (JStr \<circ> cps) missing))])
                             (Http 403 ''insufficient scope'' None)
                      else admit Z tenant_limit q key tenant s))"

definition authenticate_bearer ::
  "(string \<Rightarrow> ustr \<Rightarrow> verify_reply) \<Rightarrow> 'z zset_ops \<Rightarrow> int \<Rightarrow> auth_request \<Rightarrow> 'z auth_state
   \<Rightarrow> (auth_error + tenant_row \<times> api_key_row) \<times> 'z auth_state" where
  "authenticate_bearer verify Z tenant_limit q s =
     (let refuse = (\<lambda>label w. deny q ''auth.fail'' None None label (reason_json w) (Http 401 generic_auth_error None) s)
      in case bearer_token (aq_authorization q) of
           None \<Rightarrow> refuse None ''missing_bearer''
         | Some token \<Rightarrow>
             (case parse_api_key token of
                Inl e \<Rightarrow> refuse None ''bad_format''
              | Inr parsed \<Rightarrow>
                  (case lookup_active_by_prefix (pk_prefix parsed) (as_tenants s) (as_keys s) of
                     None \<Rightarrow> refuse (Some (pk_prefix parsed)) ''unknown_prefix''
                   | Some (key, None) \<Rightarrow>
                       (Inl (Escapes (case verify (ak_secret_hash key) (pk_secret parsed) of
                                        Invalid_Hash \<Rightarrow> ValueError ''invalid hash''
                                      | _ \<Rightarrow> TypeError ''tenant is None'')), s)
                   | Some (key, Some tenant) \<Rightarrow>
                       check_key verify Z tenant_limit q (pk_secret parsed) key tenant s)))"

subsection \<open>What a decision means\<close>

lemma audit_async_keeps [simp]:
  "as_key_buckets (audit_async q a r t i l p c s) = as_key_buckets s"
  "as_tenant_buckets (audit_async q a r t i l p c s) = as_tenant_buckets s"
  "as_tenants c = as_tenants s \<Longrightarrow> as_tenants (audit_async q a r t i l p c s) = as_tenants s"
  by (simp_all add: audit_async_def split: sum.split)

lemma deny_simps [simp]:
  "fst (deny q a t i l p e s) = Inl e"
  "deny q a t i l p e s = (Inr x, s') \<longleftrightarrow> False"
  "as_tenant_buckets (snd (deny q a t i l p e s)) = as_tenant_buckets s"
  by (simp_all add: deny_def)

lemma admit_Inr:
  assumes "admit Z limit q key tenant s = (Inr x, s')"
  shows "x = (tenant, key) \<and>
    (\<exists>r b r2 b2. rate_check Z (aq_key_reply q) (aq_key_now q) (ak_rate_limit_per_minute key) 60000
         (aq_key_member q) (as_key_buckets s (ak_id key)) = Inr (r, b) \<and> rr_allowed r
       \<and> rate_check Z (aq_tenant_reply q) (aq_tenant_now q) limit 60000
         (aq_tenant_member q) (as_tenant_buckets s (te_id tenant)) = Inr (r2, b2) \<and> rr_allowed r2)"
  using assms by (auto simp: admit_def Let_def split: sum.splits prod.splits if_splits)

lemma check_key_Inr:
  assumes "check_key verify Z limit q secret key tenant s = (Inr x, s')"
  shows "verify (ak_secret_hash key) secret = Verified \<and> te_status tenant = ''active''
    \<and> set (aq_scopes q) \<subseteq> set (ak_scopes key) \<and> admit Z limit q key tenant s = (Inr x, s')"
  using assms by (auto simp: check_key_def Let_def missing_scopes_def filter_empty_conv
      split: verify_reply.splits if_splits)

lemma authenticate_Inr:
  assumes "authenticate_bearer verify Z limit q s = (Inr x, s')"
  obtains token parsed key tenant where "bearer_token (aq_authorization q) = Some token"
    and "parse_api_key token = Inr parsed"
    and "lookup_active_by_prefix (pk_prefix parsed) (as_tenants s) (as_keys s) = Some (key, Some tenant)"
    and "check_key verify Z limit q (pk_secret parsed) key tenant s = (Inr x, s')"
proof -
  note run = assms [unfolded authenticate_bearer_def Let_def]
  obtain token where t: "bearer_token (aq_authorization q) = Some token"
    using run by (cases "bearer_token (aq_authorization q)") simp_all
  obtain parsed where p: "parse_api_key token = Inr parsed"
    using run t by (cases "parse_api_key token") simp_all
  obtain found where f: "lookup_active_by_prefix (pk_prefix parsed) (as_tenants s) (as_keys s) = Some found"
    using run t p by (cases "lookup_active_by_prefix (pk_prefix parsed) (as_tenants s) (as_keys s)") simp_all
  obtain key te where found: "found = (key, te)" by (cases found)
  obtain tenant where te: "te = Some tenant"
    using run t p f found by (cases te) simp_all
  show thesis
    by (rule that [OF t p]) (use run t p f found te in simp_all)
qed

lemma lookup_SomeD:
  "lookup_active_by_prefix p ts ks = Some (key, t) \<Longrightarrow>
     key \<in> set ks \<and> ak_prefix key = p \<and> ak_revoked_at key = None \<and> t = tenant_get (ak_tenant_id key) ts"
  by (auto simp: lookup_active_by_prefix_def split: option.splits dest!: find_SomeD)

text \<open>
  C10: nobody gets in without a key. When the pipeline admits a request, the header carried
  a well-formed key whose prefix belongs to a stored, unrevoked key of the answered tenant,
  the presented secret verified against that key's hash, the tenant is active, every required
  scope is among the key's, and both quotas had room.
\<close>

theorem auth_sound:
  assumes "authenticate_bearer verify Z limit q s = (Inr (tenant, key), s')"
  shows "\<exists>token parsed r b r2 b2.
     bearer_token (aq_authorization q) = Some token \<and> parse_api_key token = Inr parsed
     \<and> key \<in> set (as_keys s) \<and> ak_prefix key = pk_prefix parsed \<and> ak_revoked_at key = None
     \<and> tenant_get (ak_tenant_id key) (as_tenants s) = Some tenant
     \<and> verify (ak_secret_hash key) (pk_secret parsed) = Verified \<and> te_status tenant = ''active''
     \<and> set (aq_scopes q) \<subseteq> set (ak_scopes key)
     \<and> rate_check Z (aq_key_reply q) (aq_key_now q) (ak_rate_limit_per_minute key) 60000
         (aq_key_member q) (as_key_buckets s (ak_id key)) = Inr (r, b) \<and> rr_allowed r
     \<and> rate_check Z (aq_tenant_reply q) (aq_tenant_now q) limit 60000
         (aq_tenant_member q) (as_tenant_buckets s (te_id tenant)) = Inr (r2, b2) \<and> rr_allowed r2"
proof (rule authenticate_Inr [OF assms])
  fix token parsed key' tenant'
  assume a: "bearer_token (aq_authorization q) = Some token" "parse_api_key token = Inr parsed"
    and l: "lookup_active_by_prefix (pk_prefix parsed) (as_tenants s) (as_keys s) = Some (key', Some tenant')"
    and c: "check_key verify Z limit q (pk_secret parsed) key' tenant' s = (Inr (tenant, key), s')"
  note c = check_key_Inr [OF c]
  note adm = admit_Inr [OF c [THEN conjunct2, THEN conjunct2, THEN conjunct2]]
  then have [simp]: "tenant' = tenant" "key' = key" by simp_all
  obtain r b r2 b2 where "rate_check Z (aq_key_reply q) (aq_key_now q) (ak_rate_limit_per_minute key) 60000
         (aq_key_member q) (as_key_buckets s (ak_id key)) = Inr (r, b)" "rr_allowed r"
    "rate_check Z (aq_tenant_reply q) (aq_tenant_now q) limit 60000
         (aq_tenant_member q) (as_tenant_buckets s (te_id tenant)) = Inr (r2, b2)" "rr_allowed r2"
    using adm by auto
  then show ?thesis
    using a c lookup_SomeD [OF l]
    by (intro exI [of _ token] exI [of _ parsed] exI [of _ r] exI [of _ b] exI [of _ r2] exI [of _ b2]) simp
qed

text \<open>
  The audit trail: when the write succeeds a decision adds exactly its row; when it fails,
  nothing the session held survives.
\<close>

lemma audit_async_log:
  assumes "aq_audit_ok q" "r \<in> {''success'', ''denied''}"
    "case t of None \<Rightarrow> True | Some i \<Rightarrow> tenant_get i (as_tenants s) \<noteq> None"
  shows "audit_async q a r t i l p c s = s\<lparr>as_log := as_log s @ [audit_entry q a r t i l p]\<rparr>"
proof -
  have "audit_checks (audit_entry q a r t i l p)"
    using assms(2) by (auto simp: audit_checks_def audit_entry_def)
  moreover have "lg_tenant_id (audit_entry q a r t i l p) = t" by (simp add: audit_entry_def)
  ultimately show ?thesis
    using assms(1,3) by (cases t) (auto simp add: audit_async_def audit_record_def)
qed

lemma audit_async_failed:
  "\<not> aq_audit_ok q \<Longrightarrow> audit_async q a r t i l p c s
     = c\<lparr>as_key_buckets := as_key_buckets s, as_tenant_buckets := as_tenant_buckets s\<rparr>"
  by (simp add: audit_async_def)

definition decision_logged ::
  "auth_request \<Rightarrow> 'z auth_state \<Rightarrow> (auth_error + tenant_row \<times> api_key_row) \<times> 'z auth_state \<Rightarrow> bool" where
  "decision_logged q s o' \<longleftrightarrow>
     (case o' of (r, s') \<Rightarrow>
        as_tenants s' = as_tenants s
        \<and> (case r of
             Inl (Escapes e) \<Rightarrow> as_keys s' = as_keys s \<and> as_log s' = as_log s
           | Inl (Http status detail retry) \<Rightarrow>
               as_keys s' = as_keys s
               \<and> (\<exists>a t i l p. as_log s' = as_log s @ [audit_entry q a ''denied'' t i l p])
           | Inr (tenant, key) \<Rightarrow>
               as_keys s' = touch_last_used (ak_id key) (aq_wall q) (as_keys s)
               \<and> as_log s' = as_log s @ [audit_entry q ''auth.success'' ''success'' (Some (te_id tenant))
                                          (Some (ak_id key)) (Some (ak_prefix key)) []]))"

lemma deny_logged:
  assumes "aq_audit_ok q" "case t of None \<Rightarrow> True | Some i \<Rightarrow> tenant_get i (as_tenants s) \<noteq> None"
    and "as_tenants s1 = as_tenants s" "as_keys s1 = as_keys s" "as_log s1 = as_log s"
  shows "decision_logged q s (deny q a t i l p (Http c d ra) s1)"
proof -
  have "case t of None \<Rightarrow> True | Some i \<Rightarrow> tenant_get i (as_tenants s1) \<noteq> None"
    using assms(2,3) by (cases t) simp_all
  then have "audit_async q a ''denied'' t i l p s1 s1 = s1\<lparr>as_log := as_log s1 @ [audit_entry q a ''denied'' t i l p]\<rparr>"
    by (simp add: audit_async_log [OF assms(1)])
  then show ?thesis unfolding decision_logged_def deny_def by (simp add: assms(3-5)) blast
qed

lemma admit_logged:
  assumes "aq_audit_ok q" "tenant_get (te_id tenant) (as_tenants s) \<noteq> None"
  shows "decision_logged q s (admit Z limit q key tenant s)"
proof -
  have t: "case Some (te_id tenant) of None \<Rightarrow> True | Some i \<Rightarrow> tenant_get i (as_tenants s) \<noteq> None"
    using assms(2) by simp
  have ok: "decision_logged q s (Inr (tenant, key),
      audit_async q ''auth.success'' ''success'' (Some (te_id tenant)) (Some (ak_id key)) (Some (ak_prefix key)) [] c s3)"
    if "as_tenants s3 = as_tenants s" "as_keys s3 = touch_last_used (ak_id key) (aq_wall q) (as_keys s)"
      "as_log s3 = as_log s" for c s3
    using that assms by (subst audit_async_log) (simp_all add: decision_logged_def)
  note d = deny_logged [OF assms(1) t]
  show ?thesis
  proof (cases "rate_check Z (aq_key_reply q) (aq_key_now q) (ak_rate_limit_per_minute key) 60000
                (aq_key_member q) (as_key_buckets s (ak_id key))")
    case (Inl e)
    then show ?thesis by (simp add: admit_def decision_logged_def)
  next
    case key: (Inr rb)
    obtain r b where rb: "rb = (r, b)" by (cases rb)
    show ?thesis
    proof (cases "rr_allowed r")
      case False
      then show ?thesis using key rb by (simp add: admit_def Let_def d)
    next
      case True
      show ?thesis
      proof (cases "rate_check Z (aq_tenant_reply q) (aq_tenant_now q) limit 60000
                (aq_tenant_member q) (as_tenant_buckets s (te_id tenant))")
        case (Inl e)
        then show ?thesis using key rb True by (simp add: admit_def Let_def decision_logged_def)
      next
        case (Inr rb2)
        then show ?thesis
          using key rb True by (cases rb2) (simp add: admit_def Let_def d ok)
      qed
    qed
  qed
qed

lemma check_key_logged:
  assumes "aq_audit_ok q" "tenant_get (te_id tenant) (as_tenants s) \<noteq> None"
  shows "decision_logged q s (check_key verify Z limit q secret key tenant s)"
proof -
  have t: "case Some (te_id tenant) of None \<Rightarrow> True | Some i \<Rightarrow> tenant_get i (as_tenants s) \<noteq> None"
    using assms(2) by simp
  have "decision_logged q s (Inl (Escapes e), s)" for e by (simp add: decision_logged_def)
  then show ?thesis
    using deny_logged [OF assms(1) t] admit_logged [OF assms]
    by (simp add: check_key_def Let_def split: verify_reply.split)
qed

text \<open>
  Every decision is on record. When the audit write succeeds, a refusal adds exactly one
  \<open>denied\<close> row and changes neither tenants nor keys; an admission adds exactly one
  \<open>success\<close> row naming tenant and key, and touches that key only; only an escaping exception
  leaves no row.
\<close>

theorem decision_audited:
  assumes "aq_audit_ok q"
  shows "decision_logged q s (authenticate_bearer verify Z limit q s)"
proof -
  have esc: "decision_logged q s (Inl (Escapes e), s)" for e by (simp add: decision_logged_def)
  have chk: "decision_logged q s (check_key verify Z limit q sec key tenant s)"
    if "lookup_active_by_prefix p (as_tenants s) (as_keys s) = Some (key, Some tenant)" for p sec key tenant
  proof -
    have g: "tenant_get (ak_tenant_id key) (as_tenants s) = Some tenant" using lookup_SomeD [OF that] by simp
    then have "te_id tenant = ak_tenant_id key" by (auto simp: tenant_get_def dest: find_SomeD)
    then show ?thesis using g by (intro check_key_logged [OF assms]) simp
  qed
  show ?thesis
    using deny_logged [OF assms, where t = None and s = s and ?s1.0 = s] chk esc
    by (auto simp add: authenticate_bearer_def Let_def split: option.split sum.split)
qed

subsection \<open>A fresh key works\<close>

lemma alnum_not_space: "alnum c \<Longrightarrow> \<not> py_space c"
  by (auto simp: alnum_def py_space_def)

lemma bearer_token_strip: "strip_spaces t = t \<Longrightarrow> bearer_token (Some (cps ''Bearer '' @ t)) = Some t"
  by (simp add: bearer_token_def cps_def ascii_lower_def)

lemma bearer_full:
  assumes "list_all alnum secret" "secret \<noteq> []"
  shows "bearer_token (Some (cps ''Bearer '' @ key_head env @ pr @ [95] @ secret)) = Some (key_head env @ pr @ [95] @ secret)"
proof -
  have "last secret \<in> set secret" using assms(2) by simp
  then have "\<not> py_space (last secret)" using assms(1) alnum_not_space by (auto simp: list_all_iff)
  moreover have "hd (key_head env @ pr @ [95] @ secret) = 110" by (simp add: key_head_def cps_def)
  moreover have "\<not> py_space 110" by (simp add: py_space_def)
  ultimately have "strip_spaces (key_head env @ pr @ [95] @ secret) = key_head env @ pr @ [95] @ secret"
    using assms(2) by (intro strip_spaces_edges) (simp_all del: append_assoc)
  then show ?thesis by (rule bearer_token_strip)
qed

lemma key_create_lookup:
  assumes "keys_ok ts ks" "key_create ops i now tid p h sc l lab opr ts ks = Inr (row, ks')"
  shows "lookup_active_by_prefix p ts ks' = Some (row, tenant_get tid ts) \<and> ak_secret_hash row = h"
proof -
  have ks': "ks' = ks @ [row]" and row: "ak_prefix row = p" "ak_revoked_at row = None" "ak_tenant_id row = tid"
    "ak_secret_hash row = h" and new: "\<forall>x\<in>set ks. \<not> key_clash row x"
    using assms(2) by (auto simp: key_create_def Let_def bindS_Inr split: if_splits dest!: insert_row_InrD)
  have "find (\<lambda>r. ak_prefix r = p \<and> ak_revoked_at r = None) ks = None"
    using new row(1) by (auto simp: find_None key_clash_def)
  then show ?thesis using row by (simp add: lookup_active_by_prefix_def ks' find_append)
qed

lemma fresh_key_authenticates:
  assumes "generate_api_key hash_secret env pr secret = Inr (full, pfx, h)"
    and "length pr = 14" "length secret = 40" "list_all alnum pr" "list_all alnum secret"
    and "keys_ok (as_tenants s) ks"
    and "key_create ops i now tid pfx h sc l lab opr (as_tenants s) ks = Inr (key, as_keys s)"
    and "tenant_get tid (as_tenants s) = Some tenant" "te_status tenant = ''active''"
    and "\<forall>x. verify (hash_secret x) x = Verified"
    and "aq_authorization q = Some (cps ''Bearer '' @ full)" "set (aq_scopes q) \<subseteq> set (ak_scopes key)"
    and "rate_check Z (aq_key_reply q) (aq_key_now q) (ak_rate_limit_per_minute key) 60000
         (aq_key_member q) (as_key_buckets s (ak_id key)) = Inr (r, b)" "rr_allowed r"
    and "rate_check Z (aq_tenant_reply q) (aq_tenant_now q) limit 60000
         (aq_tenant_member q) (as_tenant_buckets s (te_id tenant)) = Inr (r2, b2)" "rr_allowed r2"
  shows "fst (authenticate_bearer verify Z limit q s) = Inr (tenant, key)"
proof -
  have full: "full = key_head env @ pr @ [95] @ secret"
    using assms(1) by (auto simp: generate_api_key_def split: if_splits)
  have "bearer_token (aq_authorization q) = Some full"
    unfolding assms(11) full using assms(3,5) by (intro bearer_full) auto
  moreover note generated_key_parses [OF assms(1-5)]
  moreover note key_create_lookup [OF assms(6,7)]
  moreover have "missing_scopes (aq_scopes q) (ak_scopes key) = []"
    using assms(12) by (auto simp: missing_scopes_def filter_empty_conv)
  ultimately show ?thesis
    using assms(8-10,13-16) by (simp add: authenticate_bearer_def check_key_def admit_def Let_def)
qed

text \<open>
  A fresh key gets in. When \<open>generate_api_key\<close> and \<open>create\<close> have issued a key of an
  active tenant, the header \<open>Bearer <key>\<close> authenticates as that tenant and that row, whenever
  the hash verifies what it hashed, the scopes suffice and both quotas have room.
\<close>

theorem fresh_key_admitted:
  assumes "generate_api_key hash_secret env pr secret = Inr (full, pfx, h)"
    and "length pr = 14" "length secret = 40" "list_all alnum pr" "list_all alnum secret"
    and "keys_ok (as_tenants s) ks"
    and "key_create ops i now tid pfx h sc l lab opr (as_tenants s) ks = Inr (key, as_keys s)"
    and "tenant_get tid (as_tenants s) = Some tenant" "te_status tenant = ''active''"
    and "\<forall>x. verify (hash_secret x) x = Verified"
    and "aq_authorization q = Some (cps ''Bearer '' @ full)" "set (aq_scopes q) \<subseteq> set (ak_scopes key)"
    and "rate_check Z (aq_key_reply q) (aq_key_now q) (ak_rate_limit_per_minute key) 60000
         (aq_key_member q) (as_key_buckets s (ak_id key)) = Inr (r, b)" "rr_allowed r"
    and "rate_check Z (aq_tenant_reply q) (aq_tenant_now q) limit 60000
         (aq_tenant_member q) (as_tenant_buckets s (te_id tenant)) = Inr (r2, b2)" "rr_allowed r2"
  shows "fst (authenticate_bearer verify Z limit q s) = Inr (tenant, key)"
  by (rule fresh_key_authenticates [where verify = verify and hash_secret = hash_secret, OF assms])

definition sample_request :: auth_request where
  "sample_request = \<lparr>aq_authorization = Some (cps ''Bearer '' @ key_head ''dev'' @ replicate 14 97 @ [95] @ replicate 40 48),
     aq_scopes = [''tts:write''], aq_ip = None, aq_agent = None, aq_wall = 9, aq_audit_ok = True,
     aq_key_now = 5, aq_key_member = ''m'', aq_key_reply = Evaluated,
     aq_tenant_now = 6, aq_tenant_member = ''n'', aq_tenant_reply = Script_Missing\<rparr>"

definition sample_auth_state :: "zlist auth_state" where
  "sample_auth_state = \<lparr>as_tenants = [sample_tenant], as_keys = [sample_key], as_log = [],
     as_key_buckets = (\<lambda>_. ([], None)), as_tenant_buckets = (\<lambda>_. ([], None))\<rparr>"

definition sample_verify :: "string \<Rightarrow> ustr \<Rightarrow> verify_reply" where
  "sample_verify h x = (if h = ''h'' then Verified else Mismatch)"

definition sample_pass :: rate_result where
  "sample_pass = \<lparr>rr_allowed = True, rr_count = 1, rr_retry_after_ms = 0\<rparr>"

lemma sample_checks:
  "rate_check zlist_ops Evaluated 5 60 60000 ''m'' ([], None) = Inr (sample_pass, ([(''m'', 5)], Some 60005))"
  "rate_check zlist_ops Script_Missing 6 600 60000 ''n'' ([], None) = Inr (sample_pass, ([(''n'', 6)], Some 60006))"
  by (simp_all add: rate_check_def sliding_window_def zlist_ops_def zl_load_def zl_drop_def sample_pass_def)

lemma sample_key_created:
  "key_create [] 2 0 1 (key_head ''dev'' @ replicate 14 97) ''h'' (Some [''tts:write'']) 60 None None
     [sample_tenant] [] = Inr (sample_key, [sample_key])"
proof -
  have "key_checks sample_key" using sample_keys_ok by (simp add: keys_ok_def)
  then show ?thesis
    by (simp add: key_create_def Let_def sample_key_def insert_row_def tenant_get_def sample_tenant_def)
qed

lemma sample_generated:
  "generate_api_key (\<lambda>_. ''h'') ''dev'' (replicate 14 97) (replicate 40 48)
     = Inr (key_head ''dev'' @ replicate 14 97 @ [95] @ replicate 40 48, key_head ''dev'' @ replicate 14 97, ''h'')"
  by (simp add: generate_api_key_def environments_def)

lemmas sample_auth_defs = sample_request_def sample_auth_state_def

lemma sample_facts:
  "as_tenants sample_auth_state = [sample_tenant]" "as_keys sample_auth_state = [sample_key]"
  "tenant_get (Suc 0) [sample_tenant] = Some sample_tenant" "te_status sample_tenant = ''active''" "te_id sample_tenant = 1"
  "ak_scopes sample_key = [''tts:write'']" "ak_rate_limit_per_minute sample_key = 60" "ak_id sample_key = 2"
  "keys_ok [sample_tenant] []"
  by (simp_all add: sample_auth_state_def sample_tenant_def sample_key_def tenant_get_def keys_ok_def)

lemma sample_admitted:
  "fst (authenticate_bearer sample_verify zlist_ops 600 sample_request sample_auth_state) = Inr (sample_tenant, sample_key)"
  by (rule fresh_key_authenticates [OF sample_generated, where ks = "[]" and tid = 1 and ops = "[]" and i = 2 and now = 0
        and sc = "Some [''tts:write'']" and l = 60 and lab = None and opr = None
        and r = sample_pass and ?r2.0 = sample_pass],
      simp_all add: sample_facts sample_key_created [simplified] sample_checks sample_auth_defs list_all_iff alnum_def
        sample_verify_def sample_pass_def)

lemma sample_parses:
  "parse_api_key (key_head ''dev'' @ replicate 14 97 @ [95] @ replicate 40 48)
     = Inr \<lparr>pk_environment = cps ''dev'', pk_prefix = key_head ''dev'' @ replicate 14 97, pk_secret = replicate 40 48\<rparr>"
  using generated_key_parses [OF sample_generated] by (simp add: list_all_iff alnum_def)

lemma sample_token:
  "bearer_token (aq_authorization sample_request) = Some (key_head ''dev'' @ replicate 14 97 @ [95] @ replicate 40 48)"
proof -
  have "list_all alnum (replicate 40 (48::nat))" by (simp add: list_all_iff alnum_def)
  then show ?thesis
    using bearer_full [of "replicate 40 48" "''dev''" "replicate 14 97"] by (simp add: sample_request_def)
qed

theorem fresh_key_admitted_witness:
  "fst (authenticate_bearer sample_verify zlist_ops 600 sample_request sample_auth_state) = Inr (sample_tenant, sample_key)"
  by (rule fresh_key_admitted [OF sample_generated, where ks = "[]" and tid = 1 and ops = "[]" and i = 2 and now = 0
        and sc = "Some [''tts:write'']" and l = 60 and lab = None and opr = None
        and r = sample_pass and ?r2.0 = sample_pass],
      simp_all add: sample_facts sample_key_created [simplified] sample_checks sample_auth_defs list_all_iff alnum_def
        sample_verify_def sample_pass_def)

theorem auth_sound_witness:
  "ak_prefix sample_key = key_head ''dev'' @ replicate 14 97
     \<and> sample_verify (ak_secret_hash sample_key) (replicate 40 48) = Verified"
proof -
  obtain s' where "authenticate_bearer sample_verify zlist_ops 600 sample_request sample_auth_state = (Inr (sample_tenant, sample_key), s')"
    using sample_admitted by (metis prod.collapse)
  from auth_sound [OF this] show ?thesis
    using sample_parses by (auto simp: sample_token)
qed

theorem decision_audited_witness:
  "length (as_log (snd (authenticate_bearer sample_verify zlist_ops 600 sample_request sample_auth_state))) = 1"
  using decision_audited [of sample_request sample_auth_state sample_verify zlist_ops 600] sample_admitted
  by (auto simp: decision_logged_def sample_auth_defs split: prod.splits)

subsection \<open>The tenant's quota\<close>

text \<open>
  A history of requests. The database may be anything when a request arrives; the buckets
  are what the requests before it left.
\<close>

fun run_auth ::
  "(string \<Rightarrow> ustr \<Rightarrow> verify_reply) \<Rightarrow> 'z zset_ops \<Rightarrow> int \<Rightarrow> (auth_request \<times> tenant_table \<times> key_table) list
   \<Rightarrow> 'z auth_state \<Rightarrow> (auth_request \<times> (auth_error + tenant_row \<times> api_key_row)) list" where
  "run_auth verify Z limit [] s = []"
| "run_auth verify Z limit ((q, ts, ks) # qs) s =
     (case authenticate_bearer verify Z limit q (s\<lparr>as_tenants := ts, as_keys := ks\<rparr>) of
        (r, s') \<Rightarrow> (q, r) # run_auth verify Z limit qs s')"

definition admitted_for :: "uuid \<Rightarrow> auth_error + tenant_row \<times> api_key_row \<Rightarrow> bool" where
  "admitted_for tid r = (case r of Inr (tenant, key) \<Rightarrow> te_id tenant = tid | Inl e \<Rightarrow> False)"

definition bucket_step :: "'z zset_ops \<Rightarrow> int \<Rightarrow> auth_request \<Rightarrow> uuid \<Rightarrow> 'z auth_state
    \<Rightarrow> (auth_error + tenant_row \<times> api_key_row) \<times> 'z auth_state \<Rightarrow> bool" where
  "bucket_step Z limit q tid s o' \<longleftrightarrow>
     (as_tenant_buckets (snd o') tid = as_tenant_buckets s tid \<and> \<not> admitted_for tid (fst o'))
     \<or> (\<exists>r b. sliding_window Z (aq_tenant_now q) 60000 limit (aq_tenant_member q) (as_tenant_buckets s tid) = (r, b)
            \<and> as_tenant_buckets (snd o') tid = b \<and> (admitted_for tid (fst o') \<longrightarrow> rr_allowed r))"

lemma bucket_deny: "bucket_step Z limit q tid s (deny q' a t i l p e s)"
  by (simp add: bucket_step_def admitted_for_def)

lemma rate_check_Inr: "rate_check Z reply now limit w m z = Inr x \<Longrightarrow> sliding_window Z now w limit m z = x"
  by (auto simp: rate_check_def split: if_splits evalsha_reply.splits)

lemma bucket_admit: "bucket_step Z limit q tid s (admit Z limit q key tenant s)"
proof (cases "rate_check Z (aq_key_reply q) (aq_key_now q) (ak_rate_limit_per_minute key) 60000
                (aq_key_member q) (as_key_buckets s (ak_id key))")
  case (Inl e)
  then show ?thesis by (simp add: admit_def bucket_step_def admitted_for_def)
next
  case key: (Inr rb)
  obtain r b where rb: "rb = (r, b)" by (cases rb)
  show ?thesis
  proof (cases "rr_allowed r")
    case False
    then show ?thesis using key rb by (simp add: admit_def Let_def bucket_step_def admitted_for_def)
  next
    case True
    show ?thesis
    proof (cases "rate_check Z (aq_tenant_reply q) (aq_tenant_now q) limit 60000
                (aq_tenant_member q) (as_tenant_buckets s (te_id tenant))")
      case (Inl e)
      then show ?thesis using key rb True by (simp add: admit_def Let_def bucket_step_def admitted_for_def)
    next
      case (Inr rb2)
      then show ?thesis
        using key rb True rate_check_Inr [OF Inr]
        by (cases rb2) (auto simp: admit_def Let_def bucket_step_def admitted_for_def)
    qed
  qed
qed

lemma bucket_check_key: "bucket_step Z limit q tid s (check_key verify Z limit q secret key tenant s)"
proof -
  have "bucket_step Z limit q tid s (Inl e, s)" for e by (simp add: bucket_step_def admitted_for_def)
  then show ?thesis
    using bucket_admit [of Z limit q tid s] bucket_deny [of Z limit q tid s]
    by (simp add: check_key_def Let_def split: verify_reply.split)
qed

lemma bucket_authenticate: "bucket_step Z limit q tid s (authenticate_bearer verify Z limit q s)"
proof -
  have esc: "bucket_step Z limit q tid s (Inl e, s)" for e by (simp add: bucket_step_def admitted_for_def)
  show ?thesis
    using bucket_check_key [of Z limit q tid s verify] bucket_deny [of Z limit q tid s] esc
    by (simp add: authenticate_bearer_def Let_def split: option.split sum.split)
qed

lemma subseq_sorted: "subseq xs ys \<Longrightarrow> sorted ys \<Longrightarrow> sorted xs"
  by (induction rule: list_emb.induct) (auto dest: subseq_order.order_trans list_emb_set)

lemma subseq_distinct': "subseq xs ys \<Longrightarrow> distinct ys \<Longrightarrow> distinct xs"
  by (induction rule: list_emb.induct) (auto dest: list_emb_set)

lemma subseq_set: "subseq xs ys \<Longrightarrow> set xs \<subseteq> set ys"
  by (induction rule: list_emb.induct) auto

lemma run_auth_checks:
  "\<exists>cs. subseq cs (map (\<lambda>x. (aq_tenant_now (fst x), aq_tenant_member (fst x))) qs)
    \<and> length (filter (\<lambda>(q, r). admitted_for tid r \<and> P (aq_tenant_now q)) (run_auth verify Z limit qs s))
      \<le> length (filter (\<lambda>(u, ok). ok \<and> P u) (run_checks Z 60000 limit cs (as_tenant_buckets s tid)))"
proof (induction qs arbitrary: s)
  case Nil
  show ?case by (intro exI [of _ "[]"]) simp
next
  case (Cons x qs)
  obtain q ts ks where x: "x = (q, ts, ks)" by (cases x)
  obtain r s' where run: "authenticate_bearer verify Z limit q (s\<lparr>as_tenants := ts, as_keys := ks\<rparr>) = (r, s')"
    by fastforce
  from Cons.IH [of s'] obtain cs where cs: "subseq cs (map (\<lambda>x. (aq_tenant_now (fst x), aq_tenant_member (fst x))) qs)"
    "length (filter (\<lambda>(q, r). admitted_for tid r \<and> P (aq_tenant_now q)) (run_auth verify Z limit qs s'))
      \<le> length (filter (\<lambda>(u, ok). ok \<and> P u) (run_checks Z 60000 limit cs (as_tenant_buckets s' tid)))"
    by blast
  have step: "bucket_step Z limit q tid (s\<lparr>as_tenants := ts, as_keys := ks\<rparr>) (r, s')"
    using bucket_authenticate [of Z limit q tid "s\<lparr>as_tenants := ts, as_keys := ks\<rparr>" verify] run by simp
  show ?case
  proof (cases "as_tenant_buckets s' tid = as_tenant_buckets s tid \<and> \<not> admitted_for tid r")
    case True
    then show ?thesis using cs by (intro exI [of _ cs]) (auto simp: x run intro: list_emb_Cons)
  next
    case False
    then obtain res b where "sliding_window Z (aq_tenant_now q) 60000 limit (aq_tenant_member q) (as_tenant_buckets s tid) = (res, b)"
      "as_tenant_buckets s' tid = b" "admitted_for tid r \<longrightarrow> rr_allowed res"
      using step by (auto simp: bucket_step_def)
    then show ?thesis
      using cs by (intro exI [of _ "(aq_tenant_now q, aq_tenant_member q) # cs"]) (auto simp: x run)
  qed
qed

text \<open>
  C17: the tenant quota holds end to end. Over any history of requests, whatever happens to
  the database in between and however many keys the tenant uses, at most \<open>limit\<close> of its
  requests are admitted in any window of a minute, when the limiter's clock does not run
  backwards and its entries differ.
\<close>

theorem tenant_quota_holds:
  assumes "sorted_set Z scores expiry" and "scores (as_tenant_buckets s tid) = Map.empty" and "0 < limit"
    and "sorted (map (\<lambda>x. aq_tenant_now (fst x)) qs)"
    and "list_all (\<lambda>x. 0 \<le> aq_tenant_now (fst x)) qs"
    and "distinct (map (\<lambda>x. aq_tenant_member (fst x)) qs)"
  shows "int (length (filter (\<lambda>(q, r). admitted_for tid r \<and> in_window 60000 t (aq_tenant_now q))
           (run_auth verify Z limit qs s))) \<le> limit"
proof -
  obtain cs where cs: "subseq cs (map (\<lambda>x. (aq_tenant_now (fst x), aq_tenant_member (fst x))) qs)"
    "length (filter (\<lambda>(q, r). admitted_for tid r \<and> in_window 60000 t (aq_tenant_now q)) (run_auth verify Z limit qs s))
      \<le> length (filter (\<lambda>(u, ok). ok \<and> in_window 60000 t u) (run_checks Z 60000 limit cs (as_tenant_buckets s tid)))"
    using run_auth_checks by blast
  have "subseq (map fst cs) (map (\<lambda>x. aq_tenant_now (fst x)) qs)"
    using subseq_map [OF cs(1), of fst] by (simp add: comp_def)
  then have "sorted (map fst cs)" using assms(4) by (rule subseq_sorted)
  moreover have "subseq (map snd cs) (map (\<lambda>x. aq_tenant_member (fst x)) qs)"
    using subseq_map [OF cs(1), of snd] by (simp add: comp_def)
  then have "distinct (map snd cs)" using assms(6) by (rule subseq_distinct')
  moreover have "list_all (\<lambda>(s, m). 0 \<le> s) cs"
    using subseq_set [OF cs(1)] assms(5) by (auto simp: list_all_iff)
  ultimately have "int (length (filter (\<lambda>(u, ok). ok \<and> in_window 60000 t u)
      (run_checks Z 60000 limit cs (as_tenant_buckets s tid)))) \<le> limit"
    using window_quota [OF assms(1,2) _ assms(3), of 60000 cs t] by simp
  then show ?thesis using cs(2) by linarith
qed

theorem tenant_quota_holds_witness:
  "int (length (filter (\<lambda>(q, r). admitted_for 1 r \<and> in_window 60000 100 (aq_tenant_now q))
     (run_auth sample_verify zlist_ops 1
        [(sample_request, [sample_tenant], [sample_key]),
         (sample_request\<lparr>aq_tenant_now := 60, aq_tenant_member := ''o''\<rparr>, [sample_tenant], [sample_key])]
        sample_auth_state))) \<le> 1"
  by (rule tenant_quota_holds [OF zlists.sorted_set_axioms]) (simp_all add: sample_auth_defs)

end
