(* ===== verification/Cluster.thy ===== *)
theory Cluster
  imports Wire "HOL-Library.List_Lexorder" "HOL-Library.Char_ord"
begin

text \<open>
  Worker capacity: the hash a worker's heartbeat writes (\<^verbatim>\<open>src/worker/heartbeat.py\<close>), the
  gateway's aggregation over all of them (\<^verbatim>\<open>src/server/heartbeat.py\<close>), and the admission
  decision built on it (\<open>_compute_backpressure_decision\<close> in \<^verbatim>\<open>src/server/main.py\<close>).
\<close>

subsection \<open>The worker's side\<close>

record heartbeat_state =
  hb_capacity :: int
  hb_in_flight :: int
  hb_last_pickup_ms :: int
  hb_started_at_ms :: int

definition heartbeat_mapping :: "int \<Rightarrow> heartbeat_state \<Rightarrow> (string \<times> ustr) list" where
  "heartbeat_mapping now st =
     [(''capacity'', show_int (hb_capacity st)),
      (''in_flight'', show_int (hb_in_flight st)),
      (''updated_at_ms'', show_int now),
      (''last_pickup_ms'', show_int (hb_last_pickup_ms st)),
      (''started_at_ms'', show_int (hb_started_at_ms st))]"

definition heartbeat_prefix :: string where
  "heartbeat_prefix = ''neurovoice.worker.heartbeat''"

definition heartbeat_key :: "string \<Rightarrow> string \<Rightarrow> string" where
  "heartbeat_key prefix worker_id = prefix @ ''.'' @ worker_id"

text \<open>
  Redis' hashes as the two sides see them: a list of keys with their fields and expiry time.
  One refresh is HSET, which keeps fields it does not name, and then PEXPIRE; either command
  may fail, and a failure of the first skips the second.
\<close>

record hash_entry =
  he_key :: string
  he_fields :: "(string \<times> ustr) list"
  he_expires_at :: "int option"

definition hset :: "string \<Rightarrow> (string \<times> ustr) list \<Rightarrow> hash_entry list \<Rightarrow> hash_entry list" where
  "hset key mapping hs =
     (if list_ex (\<lambda>h. he_key h = key) hs
      then map (\<lambda>h. if he_key h = key then h\<lparr>he_fields := dict_merge (he_fields h) mapping\<rparr> else h) hs
      else hs @ [\<lparr>he_key = key, he_fields = mapping, he_expires_at = None\<rparr>])"

definition pexpire :: "int \<Rightarrow> string \<Rightarrow> int \<Rightarrow> hash_entry list \<Rightarrow> hash_entry list" where
  "pexpire now key ttl hs = map (\<lambda>h. if he_key h = key then h\<lparr>he_expires_at := Some (now + ttl)\<rparr> else h) hs"

definition unexpired :: "int \<Rightarrow> hash_entry list \<Rightarrow> hash_entry list" where
  "unexpired now hs = filter (\<lambda>h. case he_expires_at h of None \<Rightarrow> True | Some e \<Rightarrow> now < e) hs"

definition write_once ::
  "bool \<Rightarrow> bool \<Rightarrow> int \<Rightarrow> string \<Rightarrow> heartbeat_state \<Rightarrow> int \<Rightarrow> hash_entry list \<Rightarrow> hash_entry list" where
  "write_once hset_ok pexpire_ok now key st ttl_ms hs =
     (let hs = unexpired now hs
      in if \<not> hset_ok then hs
         else (let hs1 = hset key (heartbeat_mapping now st) hs
               in if \<not> pexpire_ok then hs1 else pexpire now key ttl_ms hs1))"

text \<open>
  The loop until the stop event, one tick per element of the list: the clock, the state
  \<open>get_state\<close> returns, and which commands go through. The key is deleted on the way out,
  unless that fails too.
\<close>

record tick_input =
  ti_now :: int
  ti_state :: "heartbeat_state option"
  ti_hset_ok :: bool
  ti_pexpire_ok :: bool

fun heartbeat_ticks :: "string \<Rightarrow> int \<Rightarrow> tick_input list \<Rightarrow> hash_entry list \<Rightarrow> hash_entry list" where
  "heartbeat_ticks key ttl_ms [] hs = hs"
| "heartbeat_ticks key ttl_ms (t # ts) hs =
     heartbeat_ticks key ttl_ms ts
       (case ti_state t of
          None \<Rightarrow> hs
        | Some st \<Rightarrow> write_once (ti_hset_ok t) (ti_pexpire_ok t) (ti_now t) key st ttl_ms hs)"

definition heartbeat_loop ::
  "string \<Rightarrow> rat \<Rightarrow> rat \<Rightarrow> string \<Rightarrow> tick_input list \<Rightarrow> bool \<Rightarrow> hash_entry list \<Rightarrow> py_error + hash_entry list" where
  "heartbeat_loop worker_id interval ttl prefix ts del_ok hs =
     (if worker_id = [] then Inl (ValueError ''worker_id must be non-empty'')
      else if interval \<le> 0 then Inl (ValueError ''interval_s must be > 0'')
      else if ttl \<le> 0 then Inl (ValueError ''ttl_s must be > 0'')
      else (let key = heartbeat_key prefix worker_id;
                hs' = heartbeat_ticks key \<lfloor>ttl * 1000\<rfloor> ts hs
            in Inr (if del_ok then filter (\<lambda>h. he_key h \<noteq> key) hs' else hs')))"

subsection \<open>The gateway's side\<close>

record parsed_hash =
  ph_capacity :: int
  ph_in_flight :: int
  ph_last_pickup_ms :: int
  ph_started_at_ms :: int
  ph_updated_at_ms :: int

definition int_field :: "(string \<times> ustr) list \<Rightarrow> string \<Rightarrow> int option" where
  "int_field raw k =
     (case map_of raw k of None \<Rightarrow> None
      | Some v \<Rightarrow> (case py_int v of Inl e \<Rightarrow> None | Inr i \<Rightarrow> Some i))"

text \<open>Keys and values arrive decoded; a hash is read as text either way.\<close>

definition parse_hash :: "(string \<times> ustr) list \<Rightarrow> parsed_hash option" where
  "parse_hash raw =
     (case (int_field raw ''capacity'', int_field raw ''in_flight'',
            int_field raw ''last_pickup_ms'', int_field raw ''started_at_ms'') of
        (Some cap, Some infl, Some pick, Some start) \<Rightarrow>
          (case map_of raw ''updated_at_ms'' of
             None \<Rightarrow> Some \<lparr>ph_capacity = cap, ph_in_flight = infl, ph_last_pickup_ms = pick,
                          ph_started_at_ms = start, ph_updated_at_ms = pick\<rparr>
           | Some v \<Rightarrow>
               (case py_int v of
                  Inl e \<Rightarrow> None
                | Inr u \<Rightarrow> Some \<lparr>ph_capacity = cap, ph_in_flight = infl, ph_last_pickup_ms = pick,
                                ph_started_at_ms = start, ph_updated_at_ms = u\<rparr>))
      | _ \<Rightarrow> None)"

record cluster_capacity =
  cc_total_capacity :: int
  cc_total_inflight :: int
  cc_worker_count :: nat
  cc_healthy_worker_ids :: "string list"
  cc_last_pickup_max_age_ms :: "int option"

definition starts_with :: "string \<Rightarrow> string \<Rightarrow> bool" where
  "starts_with s p \<longleftrightarrow> take (length p) s = p"

definition worker_id_from_key :: "string \<Rightarrow> string \<Rightarrow> string" where
  "worker_id_from_key key prefix =
     (let cut = prefix @ ''.'' in if starts_with key cut then drop (length cut) key else key)"

text \<open>The scan, over the keys that match \<open>prefix.*\<close> in the order SCAN yields them.\<close>

record scan_acc =
  sc_capacity :: int
  sc_inflight :: int
  sc_ids :: "string list"
  sc_pickup :: "int option"

definition scan_step :: "int \<Rightarrow> string \<Rightarrow> string \<times> (string \<times> ustr) list \<Rightarrow> scan_acc \<Rightarrow> scan_acc" where
  "scan_step cutoff prefix kv acc =
     (case parse_hash (snd kv) of
        None \<Rightarrow> acc
      | Some p \<Rightarrow>
          if ph_updated_at_ms p < cutoff then acc
          else \<lparr>sc_capacity = sc_capacity acc + ph_capacity p,
                sc_inflight = sc_inflight acc + ph_in_flight p,
                sc_ids = sc_ids acc @ [worker_id_from_key (fst kv) prefix],
                sc_pickup = (case sc_pickup acc of
                   None \<Rightarrow> Some (ph_last_pickup_ms p)
                 | Some m \<Rightarrow> if ph_last_pickup_ms p > m then Some (ph_last_pickup_ms p) else Some m)\<rparr>)"

definition scan_start :: scan_acc where
  "scan_start = \<lparr>sc_capacity = 0, sc_inflight = 0, sc_ids = [], sc_pickup = None\<rparr>"

definition cluster_of :: "int \<Rightarrow> scan_acc \<Rightarrow> cluster_capacity" where
  "cluster_of now acc =
     (if sc_ids acc = []
      then \<lparr>cc_total_capacity = 0, cc_total_inflight = 0, cc_worker_count = 0, cc_healthy_worker_ids = [],
            cc_last_pickup_max_age_ms = None\<rparr>
      else \<lparr>cc_total_capacity = sc_capacity acc, cc_total_inflight = sc_inflight acc,
            cc_worker_count = length (sc_ids acc), cc_healthy_worker_ids = sort (sc_ids acc),
            cc_last_pickup_max_age_ms = map_option (\<lambda>p. max 0 (now - p)) (sc_pickup acc)\<rparr>)"

definition default_stale_ms :: int where
  "default_stale_ms = 5000"

definition read_cluster_capacity ::
  "int \<Rightarrow> int \<Rightarrow> string \<Rightarrow> (string \<times> (string \<times> ustr) list) list \<Rightarrow> cluster_capacity" where
  "read_cluster_capacity now stale_ms prefix kvs =
     cluster_of now (fold (scan_step (now - stale_ms) prefix) kvs scan_start)"

text \<open>What SCAN and HGETALL see of the hashes at \<open>now\<close>.\<close>

definition scan_keys :: "int \<Rightarrow> string \<Rightarrow> hash_entry list \<Rightarrow> (string \<times> (string \<times> ustr) list) list" where
  "scan_keys now prefix hs =
     map (\<lambda>h. (he_key h, he_fields h)) (filter (\<lambda>h. starts_with (he_key h) (prefix @ ''.'')) (unexpired now hs))"

subsection \<open>Admission\<close>

text \<open>
  \<open>cluster\<close> is \<open>None\<close> when reading the capacity raised; the reason of a refusal comes with
  the figures of the audit payload.
\<close>

definition queue_depth_backpressure :: int where
  "queue_depth_backpressure = 200"

definition compute_backpressure_decision ::
  "int \<Rightarrow> int \<Rightarrow> cluster_capacity option \<Rightarrow> bool \<times> string option \<times> dict" where
  "compute_backpressure_decision limit depth cluster =
     (case cluster of
        Some c \<Rightarrow>
          if cc_worker_count c > 0
          then (let headroom = cc_total_capacity c - cc_total_inflight c
                in if headroom \<ge> 0 \<and> depth \<le> limit \<and> depth \<le> headroom + cc_total_capacity c
                   then (True, None, [])
                   else (False, Some ''capacity_exhausted'',
                         [(''queue_depth'', JInt depth), (''limit'', JInt limit),
                          (''worker_count'', JInt (int (cc_worker_count c))),
                          (''total_capacity'', JInt (cc_total_capacity c)),
                          (''total_inflight'', JInt (cc_total_inflight c))]))
          else if depth \<le> limit then (True, None, [])
          else (False, Some ''queue_depth_limit'', [(''queue_depth'', JInt depth), (''limit'', JInt limit)])
      | None \<Rightarrow>
          if depth \<le> limit then (True, None, [])
          else (False, Some ''queue_depth_limit'', [(''queue_depth'', JInt depth), (''limit'', JInt limit)]))"

subsection \<open>The aggregate\<close>

text \<open>The live workers of a scan, with their parsed figures.\<close>

definition healthy ::
  "int \<Rightarrow> string \<Rightarrow> (string \<times> (string \<times> ustr) list) list \<Rightarrow> (string \<times> parsed_hash) list" where
  "healthy cutoff prefix kvs =
     List.map_filter (\<lambda>(k, raw). case parse_hash raw of
        None \<Rightarrow> None
      | Some p \<Rightarrow> if ph_updated_at_ms p < cutoff then None else Some (worker_id_from_key k prefix, p)) kvs"

definition max_opt :: "int list \<Rightarrow> int option" where
  "max_opt xs = (if xs = [] then None else Some (Max (set xs)))"

lemma max_opt_snoc:
  "max_opt (xs @ [x]) = Some (case max_opt xs of None \<Rightarrow> x | Some m \<Rightarrow> if x > m then x else m)"
proof (cases "xs = []")
  case False
  define m where "m = Max (set xs)"
  have "Max (insert x (set xs)) = max x m" unfolding m_def using False by (intro Max_insert) auto
  moreover have "max_opt xs = Some m" using False by (simp add: max_opt_def m_def)
  ultimately show ?thesis by (simp add: max_opt_def max_def)
qed (simp add: max_opt_def)

definition scan_of :: "(string \<times> parsed_hash) list \<Rightarrow> scan_acc" where
  "scan_of hs = \<lparr>sc_capacity = sum_list (map (ph_capacity \<circ> snd) hs), sc_inflight = sum_list (map (ph_in_flight \<circ> snd) hs),
     sc_ids = map fst hs, sc_pickup = max_opt (map (ph_last_pickup_ms \<circ> snd) hs)\<rparr>"

lemma scan_step_of:
  "scan_step cutoff prefix (k, raw) (scan_of hs)
     = scan_of (hs @ (case parse_hash raw of None \<Rightarrow> []
                      | Some p \<Rightarrow> if ph_updated_at_ms p < cutoff then [] else [(worker_id_from_key k prefix, p)]))"
  by (auto simp: scan_step_def scan_of_def max_opt_snoc split: option.split)

lemma healthy_Cons:
  "healthy cutoff prefix ((k, raw) # kvs)
     = (case parse_hash raw of None \<Rightarrow> []
        | Some p \<Rightarrow> if ph_updated_at_ms p < cutoff then [] else [(worker_id_from_key k prefix, p)])
       @ healthy cutoff prefix kvs"
  by (simp add: healthy_def split: option.split)

lemma scan_fold: "fold (scan_step cutoff prefix) kvs (scan_of hs) = scan_of (hs @ healthy cutoff prefix kvs)"
proof (induction kvs arbitrary: hs)
  case Nil
  show ?case by (simp add: healthy_def)
next
  case (Cons kv kvs)
  obtain k raw where kv: "kv = (k, raw)" by (cases kv)
  show ?case unfolding kv healthy_Cons by (simp add: scan_step_of Cons.IH)
qed

lemma scan_start_of: "scan_start = scan_of []"
  by (simp add: scan_start_def scan_of_def max_opt_def)

text \<open>
  The cluster's capacity is exactly the sum over its live workers. The scan's running
  totals are the sums, the count and the newest pickup over the hashes that parse and are
  not stale; a malformed or stale hash changes nothing.
\<close>

theorem cluster_is_sum_of_live_workers:
  "read_cluster_capacity now stale prefix kvs
     = (let live = healthy (now - stale) prefix kvs
        in \<lparr>cc_total_capacity = sum_list (map (ph_capacity \<circ> snd) live),
            cc_total_inflight = sum_list (map (ph_in_flight \<circ> snd) live),
            cc_worker_count = length live, cc_healthy_worker_ids = sort (map fst live),
            cc_last_pickup_max_age_ms =
              (if live = [] then None
               else Some (max 0 (now - Max (set (map (ph_last_pickup_ms \<circ> snd) live)))))\<rparr>)"
  by (simp add: read_cluster_capacity_def cluster_of_def scan_start_of scan_fold)
    (simp add: scan_of_def max_opt_def Let_def)

subsection \<open>A live worker is counted\<close>

lemma parse_heartbeat:
  "parse_hash (dict_merge old (heartbeat_mapping now st))
     = Some \<lparr>ph_capacity = hb_capacity st, ph_in_flight = hb_in_flight st,
             ph_last_pickup_ms = hb_last_pickup_ms st, ph_started_at_ms = hb_started_at_ms st,
             ph_updated_at_ms = now\<rparr>"
  by (simp add: parse_hash_def int_field_def map_of_dict_merge heartbeat_mapping_def py_int_show)

lemma parse_heartbeat_new:
  "parse_hash (heartbeat_mapping now st)
     = Some \<lparr>ph_capacity = hb_capacity st, ph_in_flight = hb_in_flight st,
             ph_last_pickup_ms = hb_last_pickup_ms st, ph_started_at_ms = hb_started_at_ms st,
             ph_updated_at_ms = now\<rparr>"
  by (simp add: parse_hash_def int_field_def heartbeat_mapping_def py_int_show)

lemma write_once_entry:
  assumes "0 < ttl"
  shows "\<exists>h\<in>set (write_once True True now key st ttl hs).
     he_key h = key \<and> he_expires_at h = Some (now + ttl) \<and>
     parse_hash (he_fields h) = Some \<lparr>ph_capacity = hb_capacity st, ph_in_flight = hb_in_flight st,
             ph_last_pickup_ms = hb_last_pickup_ms st, ph_started_at_ms = hb_started_at_ms st,
             ph_updated_at_ms = now\<rparr>"
proof (cases "list_ex (\<lambda>h. he_key h = key) (unexpired now hs)")
  case True
  then obtain h where h: "h \<in> set (unexpired now hs)" "he_key h = key" by (auto simp: list_ex_iff)
  let ?h = "h\<lparr>he_fields := dict_merge (he_fields h) (heartbeat_mapping now st), he_expires_at := Some (now + ttl)\<rparr>"
  have "?h \<in> set (write_once True True now key st ttl hs)"
    using h True by (force simp: write_once_def hset_def pexpire_def image_iff)
  then show ?thesis using h by (intro bexI [of _ ?h]) (simp_all add: parse_heartbeat)
next
  case False
  then show ?thesis by (simp add: write_once_def hset_def pexpire_def parse_heartbeat_new Let_def)
qed

lemma heartbeat_ticks_snoc:
  "heartbeat_ticks key ttl (ts @ [t]) hs
     = (let hs' = heartbeat_ticks key ttl ts hs
        in case ti_state t of None \<Rightarrow> hs'
           | Some st \<Rightarrow> write_once (ti_hset_ok t) (ti_pexpire_ok t) (ti_now t) key st ttl hs')"
  by (induction ts arbitrary: hs) simp_all

lemma worker_id_of_key: "worker_id_from_key (heartbeat_key prefix w) prefix = w"
  by (simp add: worker_id_from_key_def starts_with_def heartbeat_key_def)

text \<open>
  An idle worker stays in the cluster. However long ago it picked a job up, a worker
  whose last refresh went through is counted, under its own id and with the figures it wrote,
  until the earlier of the key's expiry and the staleness limit.
\<close>

theorem idle_worker_counted:
  assumes "ti_state t = Some st" "ti_hset_ok t" "ti_pexpire_ok t" "0 < ttl"
    and "ti_now t \<le> now" "now < ti_now t + ttl" "now - stale \<le> ti_now t"
  shows "let live = healthy (now - stale) prefix
             (scan_keys now prefix (heartbeat_ticks (heartbeat_key prefix w) ttl (ts @ [t]) hs))
         in (w, \<lparr>ph_capacity = hb_capacity st, ph_in_flight = hb_in_flight st,
                 ph_last_pickup_ms = hb_last_pickup_ms st, ph_started_at_ms = hb_started_at_ms st,
                 ph_updated_at_ms = ti_now t\<rparr>) \<in> set live"
proof -
  let ?p = "\<lparr>ph_capacity = hb_capacity st, ph_in_flight = hb_in_flight st,
                 ph_last_pickup_ms = hb_last_pickup_ms st, ph_started_at_ms = hb_started_at_ms st,
                 ph_updated_at_ms = ti_now t\<rparr>"
  let ?hs = "heartbeat_ticks (heartbeat_key prefix w) ttl (ts @ [t]) hs"
  obtain h where h: "h \<in> set ?hs" "he_key h = heartbeat_key prefix w"
      "he_expires_at h = Some (ti_now t + ttl)" "parse_hash (he_fields h) = Some ?p"
    using write_once_entry [OF assms(4)] assms(1-3) by (fastforce simp: heartbeat_ticks_snoc Let_def)
  have "(he_key h, he_fields h) \<in> set (scan_keys now prefix ?hs)"
    using h assms(6) by (auto simp: scan_keys_def unexpired_def starts_with_def heartbeat_key_def image_iff)
  then show ?thesis
    using h assms(7) by (force simp: healthy_def map_filter_def worker_id_of_key image_iff)
qed


theorem idle_worker_counted_witness:
  "(''w1'', \<lparr>ph_capacity = 4, ph_in_flight = 0, ph_last_pickup_ms = 10, ph_started_at_ms = 0, ph_updated_at_ms = 90000\<rparr>)
     \<in> set (healthy (95000 - 15000) ''hb:''
              (scan_keys 95000 ''hb:''
                (heartbeat_ticks (heartbeat_key ''hb:'' ''w1'') 15000
                  [\<lparr>ti_now = 90000, ti_state = Some \<lparr>hb_capacity = 4, hb_in_flight = 0, hb_last_pickup_ms = 10,
                      hb_started_at_ms = 0\<rparr>, ti_hset_ok = True, ti_pexpire_ok = True\<rparr>] [])))"
  using idle_worker_counted [of "\<lparr>ti_now = 90000, ti_state = Some \<lparr>hb_capacity = 4, hb_in_flight = 0, hb_last_pickup_ms = 10,
      hb_started_at_ms = 0\<rparr>, ti_hset_ok = True, ti_pexpire_ok = True\<rparr>" _ 15000 95000 15000 "''hb:''" "''w1''" "[]" "[]"]
  by (simp add: Let_def)

end
