(* ===== verification/Gateway.thy ===== *)
theory Gateway
  imports Effects Presets Wire Job_Store Usage_Store Voice_Store Governance Authentication Cluster Result_Stream
begin

text \<open>
  What the HTTP handlers of \<^verbatim>\<open>src/server/main.py\<close> share: the state of one request (its
  database session over what is committed, the queue, the reference files), the errors a
  client sees, the voice gates, admission, and the identifiers taken from headers.
\<close>

subsection \<open>State\<close>

record gdb =
  gd_voices :: voice_table
  gd_access :: access_table
  gd_consents :: consent_table
  gd_contracts :: contract_table
  gd_deletions :: deletion_table
  gd_jobs :: job_table
  gd_usages :: usage_table
  gd_log :: audit_table

text \<open>
  \<open>gs_db\<close> is what the request's session sees and writes, \<open>gs_saved\<close> what is committed;
  \<open>gs_queue\<close> the job stream, oldest first; \<open>gs_files\<close> the reference files by path.
\<close>

record gstate =
  gs_db :: gdb
  gs_saved :: gdb
  gs_queue :: "tts_job list"
  gs_files :: "string \<rightharpoonup> bytes"

datatype http_error =
    Status int string
  | Conflict millis string \<comment> \<open>409 with the original row's creation time and status\<close>
  | Gone string \<comment> \<open>\<open>VoiceNotSynthesizableError\<close>, answered as 410\<close>
  | Crash py_error \<comment> \<open>an exception no handler expects: 500\<close>

type_synonym 'a gact = "(gstate, http_error, 'a) act"

record auth_context =
  cx_tenant_id :: uuid
  cx_api_key_id :: uuid
  cx_key_prefix :: ustr

definition context_of :: "tenant_row \<times> api_key_row \<Rightarrow> auth_context" where
  "context_of tk = \<lparr>cx_tenant_id = te_id (fst tk), cx_api_key_id = ak_id (snd tk), cx_key_prefix = ak_prefix (snd tk)\<rparr>"

text \<open>
  Everything a handler reads besides its state: settings, one reading of the clock, fresh
  ids, the outcome of its Redis commands, what other sessions commit while it runs, and the
  functions of hashing, presigning and audio that live in libraries.
\<close>

record genv =
  ge_now :: millis
  ge_max_chars :: int
  ge_async_max_chars :: int
  ge_depth_limit :: int
  ge_depth :: "int option" \<comment> \<open>\<open>backlog_depth\<close>; \<open>None\<close> when XLEN raises\<close>
  ge_cluster :: "cluster_capacity option"
  ge_xadd_ok :: bool
  ge_uuid :: "nat \<Rightarrow> uuid"
  ge_others :: "job_table \<Rightarrow> job_table"
  ge_presign :: "string \<Rightarrow> string option"

subsection \<open>Sessions\<close>

definition commit :: "unit gact" where
  "commit = modifyA (\<lambda>s. s\<lparr>gs_saved := gs_db s\<rparr>)"

definition set_db :: "(gdb \<Rightarrow> gdb) \<Rightarrow> unit gact" where
  "set_db f = modifyA (\<lambda>s. s\<lparr>gs_db := f (gs_db s)\<rparr>)"

definition get_db :: "(gdb \<Rightarrow> 'a) \<Rightarrow> 'a gact" where
  "get_db f = getsA (\<lambda>s. f (gs_db s))"

text \<open>A repository call that may raise.\<close>

definition in_db :: "(gdb \<Rightarrow> py_error + 'a \<times> gdb) \<Rightarrow> 'a gact" where
  "in_db f s = (case f (gs_db s) of
      Inl e \<Rightarrow> (Inl (Crash e), s)
    | Inr (x, d) \<Rightarrow> (Inr x, s\<lparr>gs_db := d\<rparr>))"

text \<open>
  \<open>get_session\<close>: whatever a handler did not commit is gone when its session closes, after an
  exception (rollback) and after a normal return alike.
\<close>

definition in_session :: "'a gact \<Rightarrow> 'a gact" where
  "in_session m s = (case m s of (r, s') \<Rightarrow> (r, s'\<lparr>gs_db := gs_saved s'\<rparr>))"

definition require :: "bool \<Rightarrow> http_error \<Rightarrow> unit gact" where
  "require ok e = (if ok then ret () else throw e)"

text \<open>What other gateways and workers commit to the job table at this point.\<close>

definition other_sessions :: "(job_table \<Rightarrow> job_table) \<Rightarrow> unit gact" where
  "other_sessions f = modifyA (\<lambda>s. s\<lparr>gs_db := (gs_db s)\<lparr>gd_jobs := f (gd_jobs (gs_db s))\<rparr>,
                                    gs_saved := (gs_saved s)\<lparr>gd_jobs := f (gd_jobs (gs_saved s))\<rparr>\<rparr>)"

definition audit_row_for ::
  "genv \<Rightarrow> auth_context \<Rightarrow> string \<Rightarrow> string \<Rightarrow> string option \<Rightarrow> string option \<Rightarrow> dict \<Rightarrow> audit_row" where
  "audit_row_for E cx action result ttype tid payload =
     \<lparr>lg_occurred_at = ge_now E, lg_actor_type = ''api_key'', lg_actor_id = Some (cx_api_key_id cx),
      lg_actor_label = Some (cx_key_prefix cx), lg_tenant_id = Some (cx_tenant_id cx), lg_action = action,
      lg_result = result, lg_target_type = ttype, lg_target_id = tid, lg_ip_addr = None, lg_user_agent = None,
      lg_request_id = None, lg_payload = payload\<rparr>"

text \<open>The insert of an audit row; the tenant exists, it was just authenticated.\<close>

definition audit :: "audit_row \<Rightarrow> unit gact" where
  "audit r = in_db (\<lambda>d. if audit_checks r then Inr ((), d\<lparr>gd_log := gd_log d @ [r]\<rparr>) else Inl IntegrityError)"

subsection \<open>Voices\<close>

text \<open>\<open>VOICE_ID_PATTERN.match\<close>: the dollar also accepts one trailing newline.\<close>

definition voice_id_matches :: "string \<Rightarrow> bool" where
  "voice_id_matches s \<longleftrightarrow> slug_shape (if s \<noteq> [] \<and> last s = CHR 0x0A then butlast s else s)"

definition validate_voice_id :: "string \<Rightarrow> unit gact" where
  "validate_voice_id s = require (voice_id_matches s) (Status 400 ''voice_id invalid'')"

definition accessible_or_404 :: "auth_context \<Rightarrow> string \<Rightarrow> voice gact" where
  "accessible_or_404 cx slug =
     seqA (validate_voice_id slug)
     (bindA (get_db (\<lambda>d. get_accessible (cx_tenant_id cx) slug (gd_access d) (gd_voices d))) (\<lambda>v.
        case v of None \<Rightarrow> throw (Status 404 ''voice not found'') | Some v \<Rightarrow> ret v))"

definition underscored :: "string \<Rightarrow> string" where
  "underscored s = map (\<lambda>c. if c = CHR ''-'' then CHR ''_'' else c) s"

definition ensure_synthesizable :: "voice \<Rightarrow> unit gact" where
  "ensure_synthesizable v =
     (if lifecycle_state v \<noteq> ''active'' then throw (Gone (''voice_'' @ underscored (lifecycle_state v)))
      else bindA (get_db (\<lambda>d. latest_active (v_id v) (gd_consents d))) (\<lambda>c.
             case c of None \<Rightarrow> throw (Gone ''voice_no_active_consent'') | Some c \<Rightarrow> ret ()))"

definition model_or_400 :: "string option \<Rightarrow> model_preset gact" where
  "model_or_400 mid = (case resolve_model mid of
      Inl e \<Rightarrow> throw (Status 400 ''unknown model_id'') | Inr p \<Rightarrow> ret p)"

subsection \<open>Admission\<close>

definition check_queue_depth_or_503 :: "genv \<Rightarrow> auth_context \<Rightarrow> unit gact" where
  "check_queue_depth_or_503 E cx =
     (case ge_depth E of
        None \<Rightarrow> throw (Crash (RuntimeError ''redis''))
      | Some depth \<Rightarrow>
          (case compute_backpressure_decision (ge_depth_limit E) depth (ge_cluster E) of
             (True, _, _) \<Rightarrow> ret ()
           | (False, denied_reason, payload) \<Rightarrow>
               seqA (audit (audit_row_for E cx ''tts.backpressure'' ''denied'' None None
                              (payload @ [(''reason'', JStr (cps (case denied_reason of None \<Rightarrow> [] | Some r \<Rightarrow> r)))])))
               (seqA commit (throw (Status 503 ''queue is saturated; retry shortly'')))))"

text \<open>One XADD of the encoded payload; the worker reads it back with \<open>payload_decode\<close>.\<close>

definition submit :: "genv \<Rightarrow> tts_job \<Rightarrow> unit gact" where
  "submit E job =
     (if ge_xadd_ok E then modifyA (\<lambda>s. s\<lparr>gs_queue := gs_queue s @ [job]\<rparr>)
      else throw (Crash (RuntimeError ''redis'')))"

text \<open>The reservation is withdrawn when the job could not be queued.\<close>

definition submit_or_502 :: "genv \<Rightarrow> auth_context \<Rightarrow> uuid \<Rightarrow> tts_job \<Rightarrow> unit gact" where
  "submit_or_502 E cx rid job =
     catchA (submit E job) (\<lambda>e.
       seqA (set_db (\<lambda>d. d\<lparr>gd_jobs := fst (idem_delete (cx_tenant_id cx) rid (gd_jobs d))\<rparr>))
       (seqA commit (throw (Status 502 ''failed to enqueue job''))))"

subsection \<open>Headers\<close>

text \<open>\<open>_request_id_for\<close>: the client's UUID, or a fresh one.\<close>

definition request_id_for :: "genv \<Rightarrow> ustr option \<Rightarrow> uuid" where
  "request_id_for E header =
     (case header of
        None \<Rightarrow> ge_uuid E 0
      | Some h \<Rightarrow> if h = [] then ge_uuid E 0
                  else (case uuid_parse h of Inl e \<Rightarrow> ge_uuid E 0 | Inr u \<Rightarrow> u))"

definition app_label_from :: "ustr option \<Rightarrow> ustr option" where
  "app_label_from header =
     (case header of
        None \<Rightarrow> None
      | Some raw \<Rightarrow> if raw = [] then None
                    else (let v = take 64 (strip_spaces raw) in if v = [] then None else Some v))"

text \<open>\<open>reserve_or_get\<close> in the session, with its conflict as an error of its own.\<close>

definition reserve_in_session ::
  "genv \<Rightarrow> auth_context \<Rightarrow> uuid \<Rightarrow> string \<Rightarrow> (job_row \<Rightarrow> http_error) \<Rightarrow> (job_row \<times> bool) gact" where
  "reserve_in_session E cx rid rhash on_conflict s =
     (case reserve_or_get (cx_tenant_id cx) (ge_now E) rid (cx_api_key_id cx) rhash None (gd_jobs (gs_db s)) of
        Inl (IdempotencyConflict row) \<Rightarrow> (Inl (on_conflict row), s)
      | Inl (StoreError e) \<Rightarrow> (Inl (Crash e), s)
      | Inr (x, jobs) \<Rightarrow> (Inr x, s\<lparr>gs_db := (gs_db s)\<lparr>gd_jobs := jobs\<rparr>\<rparr>))"

end
