(* ===== verification/Gateway_Jobs.thy ===== *)
theory Gateway_Jobs
  imports Gateway
begin

text \<open>
  The asynchronous job pair of \<^verbatim>\<open>src/server/main.py\<close>, \<open>create_tts_job\<close> and
  \<open>get_tts_job\<close>, with the request schema of \<^verbatim>\<open>src/server/schemas.py\<close>.
\<close>

subsection \<open>Requests\<close>

text \<open>\<open>TTSJobCreate\<close>; \<open>TTSRequest\<close> is the same without \<open>params\<close>.\<close>

record tts_body =
  tb_text :: ustr
  tb_voice_id :: string
  tb_language :: string
  tb_audio_format :: string
  tb_model_id :: "string option"
  tb_voice_settings :: "dict option"
  tb_params :: "dict option"
  tb_seed :: "int option"
  tb_previous_text :: "ustr option"
  tb_next_text :: "ustr option"
  tb_pronunciation_dict :: "(string \<times> ustr) list option"

definition in_range :: "rat \<Rightarrow> rat \<Rightarrow> json option \<Rightarrow> bool" where
  "in_range lo hi v = (case v of None \<Rightarrow> True
      | Some x \<Rightarrow> (case num_of x of None \<Rightarrow> False | Some q \<Rightarrow> lo \<le> q \<and> q \<le> hi))"

text \<open>\<open>VoiceSettings\<close> after \<open>model_dump(exclude_none=True)\<close>.\<close>

definition voice_settings_ok :: "dict option \<Rightarrow> bool" where
  "voice_settings_ok vs = (case vs of None \<Rightarrow> True | Some d \<Rightarrow>
     in_range 0 1 (map_of d ''stability'') \<and> in_range 0 1 (map_of d ''similarity_boost'')
     \<and> in_range 0 1 (map_of d ''style'') \<and> in_range (7/10) (12/10) (map_of d ''speed'')
     \<and> in_range (-12) 12 (map_of d ''pitch'')
     \<and> (case map_of d ''use_speaker_boost'' of None \<Rightarrow> True | Some (JBool b) \<Rightarrow> True | Some _ \<Rightarrow> False))"

definition validate_pronunciation_dict :: "(string \<times> ustr) list option \<Rightarrow> bool" where
  "validate_pronunciation_dict value = (case value of None \<Rightarrow> True | Some d \<Rightarrow>
     length d \<le> 64 \<and> list_all (\<lambda>(k, v). strip_spaces (cps k) \<noteq> [] \<and> length k \<le> 64 \<and> length v \<le> 64) d)"

fun opt_len_le :: "nat \<Rightarrow> 'a list option \<Rightarrow> bool" where
  "opt_len_le n None = True"
| "opt_len_le n (Some x) = (length x \<le> n)"

definition body_ok :: "nat \<Rightarrow> string list \<Rightarrow> tts_body \<Rightarrow> bool" where
  "body_ok max_text languages b \<longleftrightarrow>
     1 \<le> length (tb_text b) \<and> length (tb_text b) \<le> max_text
     \<and> 3 \<le> length (tb_voice_id b) \<and> length (tb_voice_id b) \<le> 64
     \<and> tb_language b \<in> set languages \<and> tb_audio_format b \<in> {''wav'', ''pcm16'', ''mp3'', ''opus''}
     \<and> opt_len_le 64 (tb_model_id b) \<and> voice_settings_ok (tb_voice_settings b) \<and> params_ok (tb_params b)
     \<and> (case tb_seed b of None \<Rightarrow> True | Some n \<Rightarrow> 0 \<le> n \<and> n \<le> 2147483647)
     \<and> opt_len_le 4000 (tb_previous_text b) \<and> opt_len_le 4000 (tb_next_text b)
     \<and> validate_pronunciation_dict (tb_pronunciation_dict b)"

definition job_body_ok :: "tts_body \<Rightarrow> bool" where
  "job_body_ok = body_ok 250000 [''tr'', ''en'']"

definition request_ok :: "tts_body \<Rightarrow> bool" where
  "request_ok b \<longleftrightarrow> body_ok 20000 [''tr''] b \<and> tb_params b = None"

text \<open>The job a handler queues for a request.\<close>

definition payload_for ::
  "genv \<Rightarrow> auth_context \<Rightarrow> uuid \<Rightarrow> voice \<Rightarrow> model_preset \<Rightarrow> ustr option \<Rightarrow> tts_body \<Rightarrow> tts_job" where
  "payload_for E cx rid v p app_header b =
     \<lparr>tj_request_id = uuid_str rid, tj_tenant_id = uuid_str (cx_tenant_id cx),
      tj_api_key_id = uuid_str (cx_api_key_id cx), tj_voice_id = v_voice_id v, tj_text = tb_text b,
      tj_language = tb_language b, tj_audio_format = tb_audio_format b, tj_model_id = Some (mp_model_id p),
      tj_voice_settings = tb_voice_settings b,
      tj_params = tb_params b,
      tj_seed = tb_seed b, tj_previous_text = tb_previous_text b, tj_next_text = tb_next_text b,
      tj_pronunciation_dict = tb_pronunciation_dict b, tj_app_label = app_label_from app_header,
      tj_callback_url = None, tj_enqueued_at_ms = Some (ge_now E)\<rparr>"

subsection \<open>Asynchronous jobs\<close>

record job_accepted =
  ja_job_id :: uuid
  ja_status :: string
  ja_created_at :: millis
  ja_deduplicated :: bool

text \<open>The steps shared by every synthesis route before anything is reserved.\<close>

definition vet_request :: "auth_context \<Rightarrow> tts_body \<Rightarrow> (voice \<times> model_preset) gact" where
  "vet_request cx b =
     bindA (accessible_or_404 cx (tb_voice_id b)) (\<lambda>v.
     seqA (ensure_synthesizable v)
     (bindA (model_or_400 (tb_model_id b)) (\<lambda>p. ret (v, p))))"

definition replay_job :: "uuid \<Rightarrow> job_row \<Rightarrow> job_accepted" where
  "replay_job key row =
     \<lparr>ja_job_id = key, ja_status = (if jr_status row = ''complete'' then ''complete'' else ''queued''),
      ja_created_at = jr_created_at row, ja_deduplicated = True\<rparr>"

definition conflict_with :: "job_row \<Rightarrow> http_error" where
  "conflict_with row = Conflict (jr_created_at row) (jr_status row)"

definition idempotency_key_of :: "ustr option \<Rightarrow> uuid gact" where
  "idempotency_key_of header =
     (case parse_idempotency_key header of
        Inl (ValueError m) \<Rightarrow> throw (Status 400 m)
      | Inl e \<Rightarrow> throw (Crash e)
      | Inr key \<Rightarrow> ret key)"

text \<open>The end of a submission: reserve, commit, enqueue; \<open>_is_new\<close> is not looked at.\<close>

definition reserve_and_enqueue ::
  "genv \<Rightarrow> auth_context \<Rightarrow> uuid \<Rightarrow> string \<Rightarrow> tts_job \<Rightarrow> job_accepted gact" where
  "reserve_and_enqueue E cx key rhash job =
     bindA (reserve_in_session E cx key rhash conflict_with) (\<lambda>(reserved, is_new).
     seqA commit
     (seqA (submit_or_502 E cx key job)
           (ret \<lparr>ja_job_id = key, ja_status = ''queued'', ja_created_at = jr_created_at reserved,
                 ja_deduplicated = False\<rparr>)))"

text \<open>\<open>rhash\<close> is \<open>_hash_job_body(body)\<close>, the SHA-256 of the body's JSON.\<close>

definition create_tts_job ::
  "genv \<Rightarrow> auth_context \<Rightarrow> ustr option \<Rightarrow> ustr option \<Rightarrow> string \<Rightarrow> tts_body \<Rightarrow> job_accepted gact" where
  "create_tts_job E cx key_header app_header rhash b =
     seqA (require (int (length (tb_text b)) \<le> ge_async_max_chars E) (Status 400 ''text exceeds async_max_chars''))
     (bindA (idempotency_key_of key_header) (\<lambda>key.
      bindA (vet_request cx b) (\<lambda>(v, p).
      bindA (get_db (\<lambda>d. idem_get (cx_tenant_id cx) (ge_now E) key (gd_jobs d))) (\<lambda>existing.
      case existing of
        Some row \<Rightarrow>
          if jr_request_hash row \<noteq> rhash then throw (conflict_with row) else ret (replay_job key row)
      | None \<Rightarrow>
          seqA (check_queue_depth_or_503 E cx)
          (seqA (other_sessions (ge_others E))
                (reserve_and_enqueue E cx key rhash (payload_for E cx key v p app_header b)))))))"

record job_metrics =
  jm_queue_wait_ms :: "int option"
  jm_inference_ms :: "int option"
  jm_first_audio_ms :: "int option"
  jm_generated_audio_ms :: "int option"
  jm_rtf :: "rat option"
  jm_character_count :: "int option"
  jm_model_id :: "string option"

record job_status_response =
  js_job_id :: ustr
  js_status :: string
  js_created_at :: millis
  js_output :: "(string \<times> millis) option" \<comment> \<open>audio URL and its expiry\<close>
  js_metrics :: "job_metrics option"
  js_alignment :: "align_row list option"

definition map_status :: "string \<Rightarrow> string" where
  "map_status s = (if s = ''complete'' then ''complete'' else if s = ''failed'' then ''failed'' else ''queued'')"

definition has_prefix :: "string \<Rightarrow> string \<Rightarrow> bool" where
  "has_prefix p s \<longleftrightarrow> take (length p) s = p"

definition maybe_presigned_url :: "genv \<Rightarrow> string \<Rightarrow> string" where
  "maybe_presigned_url E uri =
     (if \<not> (has_prefix ''s3://'' uri \<or> has_prefix ''r2://'' uri) then uri
      else (case ge_presign E uri of None \<Rightarrow> uri | Some url \<Rightarrow> url))"

definition metrics_of :: "usage_row \<Rightarrow> job_metrics" where
  "metrics_of u =
     \<lparr>jm_queue_wait_ms = ur_queue_wait_ms u,
      jm_inference_ms = (case ur_inference_ms u of None \<Rightarrow> Some (ur_elapsed_ms u)
                         | Some i \<Rightarrow> if i = 0 then Some (ur_elapsed_ms u) else Some i),
      jm_first_audio_ms = ur_first_audio_ms u, jm_generated_audio_ms = Some (ur_duration_ms u),
      jm_rtf = ur_rtf u, jm_character_count = Some (ur_text_char_count u), jm_model_id = ur_model_version u\<rparr>"

definition status_of_row :: "genv \<Rightarrow> ustr \<Rightarrow> job_row \<Rightarrow> usage_row option \<Rightarrow> job_status_response" where
  "status_of_row E job_id row u =
     \<lparr>js_job_id = job_id, js_status = map_status (jr_status row), js_created_at = jr_created_at row,
      js_output = (if jr_status row = ''complete'' \<and> truthy (jr_response_uri row)
                   then Some (maybe_presigned_url E (the (jr_response_uri row)), ge_now E + 3600000) else None),
      js_metrics = (if jr_status row = ''complete'' then map_option metrics_of u else None),
      js_alignment = (if jr_status row = ''complete''
                      then (case jr_alignment row of Some (a # as) \<Rightarrow> Some (a # as) | _ \<Rightarrow> None) else None)\<rparr>"

definition get_tts_job :: "genv \<Rightarrow> auth_context \<Rightarrow> ustr \<Rightarrow> job_status_response gact" where
  "get_tts_job E cx job_id =
     (case uuid_parse job_id of
        Inl (ValueError m) \<Rightarrow> throw (Status 400 ''job_id must be a UUID'')
      | Inl e \<Rightarrow> throw (Crash e)
      | Inr rid \<Rightarrow>
          bindA (get_db (\<lambda>d. idem_get (cx_tenant_id cx) (ge_now E) rid (gd_jobs d))) (\<lambda>row.
          case row of
            None \<Rightarrow> throw (Status 404 ''job not found'')
          | Some row \<Rightarrow>
              bindA (get_db (\<lambda>d. usage_find (cx_tenant_id cx) rid (gd_usages d))) (\<lambda>u.
              ret (status_of_row E job_id row u))))"

subsection \<open>How a submission can end\<close>

lemmas gact_defs = require_def commit_def set_db_def get_db_def in_db_def

lemma require_eval: "require ok e s = (if ok then (Inr (), s) else (Inl e, s))"
  by (simp add: require_def ret_def throw_def)

lemma seqA_ret: "seqA (ret ()) m = m"
  by (rule ext) (simp add: seqA_def bindA_def ret_def)

lemma accessible_or_404_out:
  "accessible_or_404 cx slug s =
     (if \<not> voice_id_matches slug then (Inl (Status 400 ''voice_id invalid''), s)
      else case get_accessible (cx_tenant_id cx) slug (gd_access (gs_db s)) (gd_voices (gs_db s)) of
             None \<Rightarrow> (Inl (Status 404 ''voice not found''), s)
           | Some v \<Rightarrow> (Inr v, s))"
  by (simp add: accessible_or_404_def validate_voice_id_def require_def get_db_def act_eval split: option.split)

lemma ensure_synthesizable_out:
  "ensure_synthesizable v s =
     (if lifecycle_state v \<noteq> ''active'' then (Inl (Gone (''voice_'' @ underscored (lifecycle_state v))), s)
      else if latest_active (v_id v) (gd_consents (gs_db s)) = None then (Inl (Gone ''voice_no_active_consent''), s)
      else (Inr (), s))"
  by (simp add: ensure_synthesizable_def get_db_def act_eval split: option.split)

definition vet_result :: "auth_context \<Rightarrow> tts_body \<Rightarrow> gdb \<Rightarrow> http_error + voice \<times> model_preset" where
  "vet_result cx b d =
     (if \<not> voice_id_matches (tb_voice_id b) then Inl (Status 400 ''voice_id invalid'')
      else case get_accessible (cx_tenant_id cx) (tb_voice_id b) (gd_access d) (gd_voices d) of
             None \<Rightarrow> Inl (Status 404 ''voice not found'')
           | Some v \<Rightarrow>
               if lifecycle_state v \<noteq> ''active'' then Inl (Gone (''voice_'' @ underscored (lifecycle_state v)))
               else if latest_active (v_id v) (gd_consents d) = None then Inl (Gone ''voice_no_active_consent'')
               else case resolve_model (tb_model_id b) of
                      Inl e \<Rightarrow> Inl (Status 400 ''unknown model_id'') | Inr p \<Rightarrow> Inr (v, p))"

lemma vet_request_out: "vet_request cx b s = (vet_result cx b (gs_db s), s)"
  by (simp add: vet_request_def vet_result_def bindA_def seqA_def accessible_or_404_out ensure_synthesizable_out
      model_or_400_def ret_def throw_def split: option.split sum.split)

definition logged :: "audit_row \<Rightarrow> gstate \<Rightarrow> gstate" where
  "logged row s = (let d = (gs_db s)\<lparr>gd_log := gd_log (gs_db s) @ [row]\<rparr> in s\<lparr>gs_db := d, gs_saved := d\<rparr>)"

lemma check_queue_depth_out:
  "check_queue_depth_or_503 E cx s =
     (case ge_depth E of
        None \<Rightarrow> (Inl (Crash (RuntimeError ''redis'')), s)
      | Some depth \<Rightarrow>
          (case compute_backpressure_decision (ge_depth_limit E) depth (ge_cluster E) of
             (True, _, _) \<Rightarrow> (Inr (), s)
           | (False, why, payload) \<Rightarrow>
               (Inl (Status 503 ''queue is saturated; retry shortly''),
                logged (audit_row_for E cx ''tts.backpressure'' ''denied'' None None
                  (payload @ [(''reason'', JStr (cps (case why of None \<Rightarrow> [] | Some r \<Rightarrow> r)))])) s)))"
  by (simp add: check_queue_depth_or_503_def audit_def gact_defs act_eval audit_checks_def audit_row_for_def
      logged_def Let_def split: option.split prod.split bool.split)

definition with_jobs :: "(job_table \<Rightarrow> job_table) \<Rightarrow> gstate \<Rightarrow> gstate" where
  "with_jobs f s = (let d = (gs_db s)\<lparr>gd_jobs := f (gd_jobs (gs_db s))\<rparr> in s\<lparr>gs_db := d, gs_saved := d\<rparr>)"

lemma submit_or_502_out:
  "submit_or_502 E cx rid job s =
     (if ge_xadd_ok E then (Inr (), s\<lparr>gs_queue := gs_queue s @ [job]\<rparr>)
      else (Inl (Status 502 ''failed to enqueue job''),
            with_jobs (\<lambda>t. fst (idem_delete (cx_tenant_id cx) rid t)) s))"
  by (simp add: submit_or_502_def submit_def gact_defs act_eval with_jobs_def Let_def)

text \<open>\<open>fresh s\<close>: a session that has just been opened.\<close>

definition fresh :: "gstate \<Rightarrow> bool" where
  "fresh s \<longleftrightarrow> gs_db s = gs_saved s"

lemma other_sessions_fresh: "fresh s \<Longrightarrow> other_sessions f s = (Inr (), with_jobs f s)"
  by (simp add: other_sessions_def modifyA_def with_jobs_def fresh_def Let_def)

lemma reserve_in_session_out:
  "reserve_in_session E cx rid rhash oc s =
     (case reserve_or_get (cx_tenant_id cx) (ge_now E) rid (cx_api_key_id cx) rhash None (gd_jobs (gs_db s)) of
        Inl (IdempotencyConflict row) \<Rightarrow> (Inl (oc row), s)
      | Inl (StoreError e) \<Rightarrow> (Inl (Crash e), s)
      | Inr (x, jobs) \<Rightarrow> (Inr x, s\<lparr>gs_db := (gs_db s)\<lparr>gd_jobs := jobs\<rparr>\<rparr>))"
  by (simp add: reserve_in_session_def)

lemma reserve_then_commit:
  "seqA commit m (s\<lparr>gs_db := (gs_db s)\<lparr>gd_jobs := jobs\<rparr>\<rparr>) = m (with_jobs (\<lambda>_. jobs) s)"
  by (simp add: commit_def act_eval with_jobs_def Let_def)

text \<open>The reservation and everything after it.\<close>

definition reserve_and_submit ::
  "genv \<Rightarrow> auth_context \<Rightarrow> uuid \<Rightarrow> string \<Rightarrow> tts_job \<Rightarrow> gstate \<Rightarrow> (http_error + job_accepted) \<times> gstate" where
  "reserve_and_submit E cx key rhash job s =
     (case reserve_or_get (cx_tenant_id cx) (ge_now E) key (cx_api_key_id cx) rhash None (gd_jobs (gs_db s)) of
        Inl (IdempotencyConflict row) \<Rightarrow> (Inl (conflict_with row), s)
      | Inl (StoreError e) \<Rightarrow> (Inl (Crash e), s)
      | Inr ((row, is_new), jobs) \<Rightarrow>
          if ge_xadd_ok E
          then (Inr \<lparr>ja_job_id = key, ja_status = ''queued'', ja_created_at = jr_created_at row, ja_deduplicated = False\<rparr>,
                (with_jobs (\<lambda>_. jobs) s)\<lparr>gs_queue := gs_queue s @ [job]\<rparr>)
          else (Inl (Status 502 ''failed to enqueue job''),
                with_jobs (\<lambda>_. fst (idem_delete (cx_tenant_id cx) key jobs)) s))"

lemma reserve_and_enqueue_out: "reserve_and_enqueue E cx key rhash job s = reserve_and_submit E cx key rhash job s"
proof -
  have wj: "gs_queue (with_jobs f s) = gs_queue s" for f s by (simp add: with_jobs_def Let_def)
  show ?thesis
    by (simp add: reserve_and_enqueue_def bindA_def reserve_in_session_out reserve_and_submit_def reserve_then_commit
        seqA_def [of "submit_or_502 E cx key job"] submit_or_502_out ret_def wj
        split: sum.split reserve_error.split prod.split)
      (simp add: with_jobs_def Let_def)
qed

lemma check_queue_depth_same: "check_queue_depth_or_503 E cx s = (Inr u, s1) \<Longrightarrow> s1 = s"
  by (auto simp: check_queue_depth_out split: option.splits prod.splits bool.splits)

lemma create_tts_job_out:
  assumes "fresh s"
  shows "create_tts_job E cx kh ah rhash b s =
     (if \<not> int (length (tb_text b)) \<le> ge_async_max_chars E then (Inl (Status 400 ''text exceeds async_max_chars''), s)
      else case parse_idempotency_key kh of
        Inl (ValueError m) \<Rightarrow> (Inl (Status 400 m), s)
      | Inl e \<Rightarrow> (Inl (Crash e), s)
      | Inr key \<Rightarrow>
          (case vet_result cx b (gs_db s) of
             Inl e \<Rightarrow> (Inl e, s)
           | Inr (v, p) \<Rightarrow>
               (case idem_get (cx_tenant_id cx) (ge_now E) key (gd_jobs (gs_db s)) of
                  Some row \<Rightarrow> if jr_request_hash row \<noteq> rhash then (Inl (conflict_with row), s)
                              else (Inr (replay_job key row), s)
                | None \<Rightarrow>
                    (case check_queue_depth_or_503 E cx s of
                       (Inl e, s1) \<Rightarrow> (Inl e, s1)
                     | (Inr _, s1) \<Rightarrow>
                         reserve_and_submit E cx key rhash (payload_for E cx key v p ah b)
                           (with_jobs (ge_others E) s)))))"
  unfolding create_tts_job_def idempotency_key_of_def
  by (auto simp: act_eval require_def get_db_def vet_request_out other_sessions_fresh [OF assms]
      reserve_and_enqueue_out split: sum.split option.split py_error.split prod.split dest: check_queue_depth_same)

subsection \<open>All or nothing\<close>

lemma reserve_or_get_new:
  assumes "idem_get T now key t = None"
  shows "reserve_or_get T now key k h None t =
    (if key \<in> jr_request_id ` set t then Inl (StoreError IntegrityError)
     else Inr ((new_job_row T now key k h None, True), t @ [new_job_row T now key k h None]))"
  using assms by (simp add: reserve_or_get_def reserve_or_get_among_def idem_reserve_cases Let_def)

lemma delete_reserved:
  "key \<notin> jr_request_id ` set t \<Longrightarrow> fst (idem_delete T key (t @ [new_job_row T now key k h None])) = t"
  by (auto simp: idem_delete_def delete_rows_def filter_id_conv image_iff)

lemma get_reserved:
  assumes "key \<notin> jr_request_id ` set t"
  shows "idem_get T now key (t @ [new_job_row T now key k h None]) = Some (new_job_row T now key k h None)"
proof -
  have "idem_get T now key t = None" using assms by (auto simp: idem_get_def find_None idem_visible_def image_iff)
  moreover have "idem_visible T now key (new_job_row T now key k h None)" by (rule new_job_row_visible) simp
  ultimately show ?thesis by (simp add: idem_get_def find_append)
qed

text \<open>The tables other than the audit log.\<close>

definition same_data :: "gdb \<Rightarrow> gdb \<Rightarrow> bool" where
  "same_data d d' \<longleftrightarrow> gd_voices d' = gd_voices d \<and> gd_access d' = gd_access d \<and> gd_consents d' = gd_consents d
     \<and> gd_contracts d' = gd_contracts d \<and> gd_deletions d' = gd_deletions d \<and> gd_jobs d' = gd_jobs d
     \<and> gd_usages d' = gd_usages d"

lemma same_data_refl [simp]: "same_data d d" by (simp add: same_data_def)

lemma create_accepted:
  assumes "fresh s" "ge_others E = (\<lambda>t. t)" "create_tts_job E cx kh ah rhash b s = (Inr a, s')"
  shows "\<exists>key v p. parse_idempotency_key kh = Inr key \<and> vet_result cx b (gs_db s) = Inr (v, p) \<and>
    (if ja_deduplicated a
     then s' = s \<and> (\<exists>row. idem_get (cx_tenant_id cx) (ge_now E) key (gd_jobs (gs_db s)) = Some row
                     \<and> jr_request_hash row = rhash \<and> a = replay_job key row)
     else (let row = new_job_row (cx_tenant_id cx) (ge_now E) key (cx_api_key_id cx) rhash None in
           key \<notin> jr_request_id ` set (gd_jobs (gs_db s))
           \<and> a = \<lparr>ja_job_id = key, ja_status = ''queued'', ja_created_at = jr_created_at row, ja_deduplicated = False\<rparr>
           \<and> s' = (with_jobs (\<lambda>t. t @ [row]) s)\<lparr>gs_queue := gs_queue s @ [payload_for E cx key v p ah b]\<rparr>))"
proof -
  have wj: "with_jobs (\<lambda>t. t) s = s" using assms(1) by (simp add: with_jobs_def fresh_def Let_def)
  show ?thesis
    using assms(3) unfolding create_tts_job_out [OF assms(1)] assms(2) wj
    by (auto simp: reserve_and_submit_def reserve_or_get_new replay_job_def with_jobs_def Let_def
        split: if_splits sum.splits py_error.splits prod.splits option.splits dest: check_queue_depth_same)
qed

lemma with_jobs_cong: "f (gd_jobs (gs_db s)) = g (gd_jobs (gs_db s)) \<Longrightarrow> with_jobs f s = with_jobs g s"
  by (simp add: with_jobs_def)

lemma create_refused:
  assumes "fresh s" "ge_others E = (\<lambda>t. t)" "create_tts_job E cx kh ah rhash b s = (Inl e, s')"
  shows "gs_queue s' = gs_queue s \<and> same_data (gs_saved s) (gs_saved s') \<and> fresh s'"
proof -
  have fr: "gs_db s = gs_saved s" using assms(1) by (simp add: fresh_def)
  have wj: "with_jobs (\<lambda>t. t) s = s" using fr by (simp add: with_jobs_def Let_def)
  have log: "gs_queue (logged row s) = gs_queue s \<and> same_data (gs_saved s) (gs_saved (logged row s)) \<and> fresh (logged row s)" for row
    using fr by (simp add: logged_def same_data_def fresh_def Let_def)
  have dep: "gs_queue s1 = gs_queue s \<and> same_data (gs_saved s) (gs_saved s1) \<and> fresh s1"
    if "check_queue_depth_or_503 E cx s = (x, s1)" for x s1
    using that log assms(1) by (auto simp: check_queue_depth_out split: option.splits prod.splits bool.splits)
  have res: "gs_queue s1 = gs_queue s \<and> same_data (gs_saved s) (gs_saved s1) \<and> fresh s1"
    if "idem_get (cx_tenant_id cx) (ge_now E) key (gd_jobs (gs_db s)) = None"
      "reserve_and_submit E cx key rhash job s = (Inl e', s1)" for key job e' s1
  proof -
    have "with_jobs (\<lambda>_. fst (idem_delete (cx_tenant_id cx) key (gd_jobs (gs_db s) @
            [new_job_row (cx_tenant_id cx) (ge_now E) key (cx_api_key_id cx) rhash None]))) s = s"
      if "key \<notin> jr_request_id ` set (gd_jobs (gs_db s))"
      using that wj by (simp add: delete_reserved with_jobs_def Let_def)
    then show ?thesis
      using that assms(1) by (auto simp: reserve_and_submit_def reserve_or_get_new split: if_splits)
  qed
  show ?thesis
    using assms(3) unfolding create_tts_job_out [OF assms(1)] assms(2) wj
    using assms(1) dep res
    by (auto split: if_splits sum.splits py_error.splits prod.splits option.splits dest: check_queue_depth_same)
qed


subsection \<open>Replays\<close>

text \<open>What workers do to the job table: they complete and fail rows, any tenant's, at any time.\<close>

inductive worker_step :: "job_table \<Rightarrow> job_table \<Rightarrow> bool" where
  ws_complete: "worker_step t (idem_complete T now rid u a t)"
| ws_fail: "worker_step t (idem_fail T now rid t)"

definition reservation :: "job_row \<Rightarrow> uuid \<times> uuid \<times> string \<times> millis \<times> millis" where
  "reservation r = (jr_request_id r, jr_tenant_id r, jr_request_hash r, jr_created_at r, jr_expires_at r)"

lemma worker_step_reservation: "worker_step t t' \<Longrightarrow> map reservation t' = map reservation t"
  by (induction rule: worker_step.induct)
    (auto simp: idem_complete_def idem_fail_def reservation_def intro!: map_update_rows)

lemma worker_steps_reservation: "worker_step\<^sup>*\<^sup>* t t' \<Longrightarrow> map reservation t' = map reservation t"
  by (induction rule: rtranclp_induct) (auto dest: worker_step_reservation)

lemma find_by_map:
  assumes "map g t = map g t'" "\<And>x y. g x = g y \<Longrightarrow> P x = P y"
  shows "map_option g (find P t) = map_option g (find P t')"
  using assms(1)
proof (induction t arbitrary: t')
  case (Cons x t)
  then obtain y ys where t': "t' = y # ys" and g: "g x = g y" "map g t = map g ys" by (cases t') auto
  then show ?case using Cons.IH [OF g(2)] assms(2) [OF g(1)] by simp
qed simp

lemma idem_get_reservation:
  assumes "map reservation t = map reservation t'"
  shows "map_option reservation (idem_get T now key t) = map_option reservation (idem_get T now key t')"
  unfolding idem_get_def by (rule find_by_map [OF assms]) (auto simp: reservation_def idem_visible_def)

lemma get_new_row_later:
  assumes "key \<notin> jr_request_id ` set t" "now \<le> now'" "now' < now + default_ttl"
  shows "idem_get T now' key (t @ [new_job_row T now key k h None]) = Some (new_job_row T now key k h None)"
proof -
  have "idem_get T now' key t = None" using assms(1) by (auto simp: idem_get_def find_None idem_visible_def image_iff)
  moreover have "idem_visible T now' key (new_job_row T now key k h None)"
    using assms(3) by (simp add: idem_visible_def new_job_row_def)
  ultimately show ?thesis by (simp add: idem_get_def find_append)
qed


text \<open>
  C30: the window between the lookup and the reservation. When another request reserves the
  same key with the same body in between, \<open>reserve_or_get\<close> answers the winner's row and the
  handler, which does not look at its second result, queues the job again and answers it as new.
\<close>

theorem race_enqueues_twice:
  assumes "fresh s" and "int (length (tb_text b)) \<le> ge_async_max_chars E"
    and "parse_idempotency_key kh = Inr key" and "vet_result cx b (gs_db s) = Inr (v, p)"
    and "key \<notin> jr_request_id ` set (gd_jobs (gs_db s))"
    and "ge_others E = (\<lambda>t. t @ [row])"
    and "row = new_job_row (cx_tenant_id cx) now key k rhash None"
    and "now \<le> ge_now E" and "ge_now E < now + default_ttl"
    and "fst (check_queue_depth_or_503 E cx s) = Inr ()" and "ge_xadd_ok E"
  shows "create_tts_job E cx kh ah rhash b s
     = (Inr \<lparr>ja_job_id = key, ja_status = ''queued'', ja_created_at = now, ja_deduplicated = False\<rparr>,
        (with_jobs (\<lambda>t. t @ [row]) s)\<lparr>gs_queue := gs_queue s @ [payload_for E cx key v p ah b]\<rparr>)"
proof -
  have none: "idem_get (cx_tenant_id cx) (ge_now E) key (gd_jobs (gs_db s)) = None"
    using assms(5) by (auto simp: idem_get_def find_None idem_visible_def image_iff)
  obtain u s1 where d: "check_queue_depth_or_503 E cx s = (Inr u, s1)" using assms(10) by (cases "check_queue_depth_or_503 E cx s") auto
  have "idem_get (cx_tenant_id cx) (ge_now E) key (gd_jobs (gs_db s) @ [row]) = Some row"
    unfolding assms(7) by (rule get_new_row_later [OF assms(5,8,9)])
  moreover have "jr_request_hash row = rhash" "jr_created_at row = now" by (simp_all add: assms(7) new_job_row_def)
  ultimately have "reserve_and_submit E cx key rhash job (with_jobs (\<lambda>t. t @ [row]) s)
      = (Inr \<lparr>ja_job_id = key, ja_status = ''queued'', ja_created_at = now, ja_deduplicated = False\<rparr>,
         (with_jobs (\<lambda>t. t @ [row]) s)\<lparr>gs_queue := gs_queue s @ [job]\<rparr>)" for job
    using assms(11) by (simp add: reserve_and_submit_def reserve_or_get_def reserve_or_get_among_def with_jobs_def Let_def)
  then show ?thesis
    using assms(2-4) d none by (simp add: create_tts_job_out [OF assms(1)] assms(6))
qed

subsection \<open>A concrete submission\<close>

definition gw_voice :: voice where
  "gw_voice = sample_voice\<lparr>v_owner := 7, v_voice_id := ''ada'', v_visibility := ''private''\<rparr>"

definition gw_consent :: consent where
  "gw_consent = \<lparr>cr_id = 1, cr_voice_id = v_id sample_voice, cr_consent_kind = ''tenant-asserted'', cr_evidence_uri = None,
     cr_evidence_sha256 = None, cr_evidence_notes = None, cr_recorded_at = 0, cr_recorded_by_kind = ''tenant'',
     cr_recorded_by_actor_id = Some 2, cr_revoked_at = None, cr_revoked_reason = None\<rparr>"

definition gw_db :: gdb where
  "gw_db = \<lparr>gd_voices = [gw_voice], gd_access = [], gd_consents = [gw_consent], gd_contracts = [], gd_deletions = [],
     gd_jobs = [], gd_usages = [], gd_log = []\<rparr>"

definition gw_state :: gstate where
  "gw_state = \<lparr>gs_db = gw_db, gs_saved = gw_db, gs_queue = [], gs_files = Map.empty\<rparr>"

definition gw_cx :: auth_context where
  "gw_cx = \<lparr>cx_tenant_id = 7, cx_api_key_id = 2, cx_key_prefix = []\<rparr>"

definition gw_env :: genv where
  "gw_env = \<lparr>ge_now = 100, ge_max_chars = 4000, ge_async_max_chars = 100000, ge_depth_limit = 200, ge_depth = Some 0,
     ge_cluster = None, ge_xadd_ok = True, ge_uuid = (\<lambda>n. n), ge_others = (\<lambda>t. t), ge_presign = (\<lambda>u. None)\<rparr>"

definition gw_body :: tts_body where
  "gw_body = \<lparr>tb_text = [77, 0x131], tb_voice_id = ''ada'', tb_language = ''tr'', tb_audio_format = ''wav'',
     tb_model_id = None, tb_voice_settings = None, tb_params = None, tb_seed = None, tb_previous_text = None,
     tb_next_text = None, tb_pronunciation_dict = None\<rparr>"

definition gw_row :: job_row where
  "gw_row = new_job_row 7 100 5 2 ''h'' None"

lemma gw_fresh [simp]: "fresh gw_state" by (simp add: fresh_def gw_state_def)

lemma gw_sel [simp]:
  "ge_others gw_env = (\<lambda>t. t)" "ge_now gw_env = 100" "ge_async_max_chars gw_env = 100000" "ge_xadd_ok gw_env"
  "ge_depth gw_env = Some 0" "ge_depth_limit gw_env = 200" "ge_cluster gw_env = None"
  "cx_tenant_id gw_cx = 7" "cx_api_key_id gw_cx = 2" "gs_db gw_state = gw_db" "gs_saved gw_state = gw_db"
  "gd_jobs gw_db = []" "gd_usages gw_db = []" "gs_queue gw_state = []" "tb_text gw_body = [77, 0x131]"
  by (simp_all add: gw_env_def gw_cx_def gw_state_def gw_db_def gw_body_def)

lemma gw_key [simp]: "parse_idempotency_key (Some (uuid_str 5)) = Inr 5"
  using uuid_parse_str [of 5] by simp

lemma gw_vet: "vet_result gw_cx gw_body gw_db = Inr (gw_voice, default_model)"
  by (simp add: vet_result_def gw_cx_def gw_body_def gw_db_def voice_id_matches_def slug_shape_def slug_edge_def
      slug_inner_def get_accessible_def get_owned_def gw_voice_def gw_consent_def sample_voice_def lifecycle_state_def
      latest_active_def resolve_model_def)

lemma gw_admits: "check_queue_depth_or_503 gw_env gw_cx gw_state = (Inr (), gw_state)"
  by (simp add: check_queue_depth_out compute_backpressure_decision_def)

lemma gw_create:
  "create_tts_job gw_env gw_cx (Some (uuid_str 5)) None ''h'' gw_body gw_state
     = (Inr \<lparr>ja_job_id = 5, ja_status = ''queued'', ja_created_at = 100, ja_deduplicated = False\<rparr>,
        (with_jobs (\<lambda>t. t @ [gw_row]) gw_state)\<lparr>gs_queue := [payload_for gw_env gw_cx 5 gw_voice default_model None gw_body]\<rparr>)"
  by (simp add: create_tts_job_out gw_vet gw_admits reserve_and_submit_def reserve_or_get_new idem_get_def
      with_jobs_def gw_row_def Let_def) (simp add: new_job_row_def)

lemma vet_result_jobs: "vet_result cx b (d\<lparr>gd_jobs := t\<rparr>) = vet_result cx b d"
  by (simp add: vet_result_def split: option.split)



theorem race_enqueues_twice_witness:
  "gs_queue (snd (create_tts_job (gw_env\<lparr>ge_others := (\<lambda>t. t @ [gw_row])\<rparr>) gw_cx (Some (uuid_str 5)) None ''h'' gw_body gw_state))
     \<noteq> []"
proof -
  let ?E = "gw_env\<lparr>ge_others := (\<lambda>t. t @ [gw_row])\<rparr>"
  have "check_queue_depth_or_503 ?E gw_cx gw_state = (Inr (), gw_state)"
    by (simp add: check_queue_depth_out compute_backpressure_decision_def)
  then show ?thesis
    using race_enqueues_twice [OF gw_fresh, of gw_body ?E "Some (uuid_str 5)" 5 gw_cx gw_voice default_model gw_row 100 2 "''h''" None]
    by (simp add: gw_vet gw_row_def default_ttl_def)
qed

end
