(* ===== verification/Job_Lifecycle.thy ===== *)
theory Job_Lifecycle
  imports Gateway_Jobs Pipeline_Facts
begin

text \<open>
  The asynchronous job across its three parts: the gateway accepts it
  (\<open>create_tts_job\<close>), a worker runs it (\<open>process_one_job\<close>), and the gateway answers its
  status (\<open>get_tts_job\<close>). The two processes share the job and usage tables and nothing else.
\<close>

subsection \<open>What the worker reads from the queue\<close>

lemma uuid_parse_range: "uuid_parse s = Inr u \<Longrightarrow> u < 2 ^ 128"
  by (auto simp: uuid_parse_def Let_def split: if_splits option.splits)

lemma parse_key_range: "parse_idempotency_key h = Inr u \<Longrightarrow> u < 2 ^ 128"
  by (auto simp: parse_idempotency_key_def split: option.splits if_splits sum.splits py_error.splits
      dest: uuid_parse_range)

lemma job_ids_payload:
  assumes "key < 2 ^ 128" "cx_tenant_id cx < 2 ^ 128" "cx_api_key_id cx < 2 ^ 128"
  shows "job_ids (payload_for E cx key v p ah b) = Inr (key, cx_tenant_id cx, cx_api_key_id cx)"
  using assms by (simp add: job_ids_def payload_for_def uuid_parse_str)

lemma tj_text_payload: "tj_text (payload_for E cx key v p ah b) = tb_text b"
  by (simp add: payload_for_def)

subsection \<open>Rows seen by two clocks\<close>

text \<open>The worker updates the row it sees at its own time; the gateway looks at another time.\<close>

lemma find_same_updated:
  assumes "find Q t = Some row" "P row" "\<And>r. P r \<Longrightarrow> Q (f r) = Q r"
  shows "find Q (update_rows P f t) = Some (f row)"
  using assms by (simp add: find_update_rows)

lemma get_completed_later:
  assumes "idem_get T now' rid t = Some row" "idem_visible T now rid row"
  shows "idem_get T now' rid (idem_complete T now rid u a t)
    = Some (row\<lparr>jr_status := ''complete'', jr_response_uri := (if u \<noteq> None then u else jr_response_uri row),
        jr_alignment := (if a \<noteq> None then a else jr_alignment row)\<rparr>)"
  unfolding idem_get_def idem_complete_def
  by (rule find_same_updated [where Q = "idem_visible T now' rid"])
    (use assms in \<open>auto simp: idem_get_def idem_visible_def\<close>)

lemma get_failed_later:
  assumes "idem_get T now' rid t = Some row" "idem_visible T now rid row"
  shows "idem_get T now' rid (idem_fail T now rid t) = Some (row\<lparr>jr_status := ''failed''\<rparr>)"
  unfolding idem_get_def idem_fail_def
  by (rule find_same_updated [where Q = "idem_visible T now' rid"])
    (use assms in \<open>auto simp: idem_get_def idem_visible_def\<close>)

subsection \<open>The client's view of a run\<close>

text \<open>What the status route may say after one attempt that ended in \<open>r\<close>.\<close>

definition status_after :: "job_exn + unit \<Rightarrow> bool \<Rightarrow> string" where
  "status_after r billed =
     (case r of
        Inr _ \<Rightarrow> ''complete''
      | Inl (PoisonJob code) \<Rightarrow> ''failed''
      | Inl _ \<Rightarrow> if billed then ''complete'' else ''queued'')"

lemma get_tts_job_row:
  assumes "rid < 2 ^ 128" "idem_get (cx_tenant_id cx) (ge_now E) rid (gd_jobs (gs_db s)) = Some row"
  shows "get_tts_job E cx (uuid_str rid) s
     = (Inr (status_of_row E (uuid_str rid) row (usage_find (cx_tenant_id cx) rid (gd_usages (gs_db s)))), s)"
  using assms uuid_parse_str [of rid] by (simp add: get_tts_job_def get_db_def act_eval)

lemma status_of_complete:
  assumes "jr_status row = ''complete''" "jr_response_uri row = Some uri" "uri \<noteq> []"
  shows "status_of_row E jid row (Some u)
    = \<lparr>js_job_id = jid, js_status = ''complete'', js_created_at = jr_created_at row,
       js_output = Some (maybe_presigned_url E uri, ge_now E + 3600000), js_metrics = Some (metrics_of u),
       js_alignment = (case jr_alignment row of Some (a # as) \<Rightarrow> Some (a # as) | _ \<Rightarrow> None)\<rparr>"
  using assms by (simp add: status_of_row_def map_status_def)

lemma committed_view:
  assumes "committed_by W job (rid, tenant, api_key) pcm n p p'"
    and "idem_get tenant now' rid (ps_jobs p) = Some row" "idem_visible tenant (pe_now_ms W) rid row"
  shows "\<exists>row' u uri. idem_get tenant now' rid (ps_jobs p') = Some row' \<and> jr_status row' = ''complete''
     \<and> jr_response_uri row' = Some uri \<and> uri \<noteq> [] \<and> jr_created_at row' = jr_created_at row
     \<and> usage_find tenant rid (ps_usages p') = Some u
     \<and> ur_text_char_count u = int (length (tj_text job)) \<and> ps_usages p' \<noteq> ps_usages p
     \<and> last (ps_archived p') = (rid, pcm) \<and> pcm \<noteq> []"
proof -
  obtain v pr settings overrides acc uri where c:
    "ps_archived p' = ps_archived p @ [(rid, pcm)]" "pcm \<noteq> []" "uri \<noteq> []"
    "success_tx W job rid tenant api_key v pr settings overrides acc uri (ps_jobs p, ps_usages p)
       = Inr (ps_jobs p', ps_usages p')"
    using assms(1) unfolding committed_by_def prod.case by blast
  let ?u = "ok_usage W job rid tenant api_key v pr settings overrides acc"
  have rec: "usage_record tenant (pe_now_ms W) ?u (ps_usages p) = Inr (ps_usages p')"
    and jobs: "ps_jobs p' = idem_complete tenant (pe_now_ms W) rid (Some uri) (nonempty (Some (la_align acc))) (ps_jobs p)"
    using c(4) by (auto simp: success_tx_def Let_def bindS_Inr)
  have sel: "ur_request_id ?u = rid" "ur_text_char_count ?u = int (length (tj_text job))"
    by (simp_all add: ok_usage_def Let_def)
  have "usage_find tenant rid (ps_usages p') = Some (?u\<lparr>ur_tenant_id := tenant, ur_occurred_at := pe_now_ms W\<rparr>)"
    using usage_find_after_record [OF rec] by (simp add: sel)
  moreover have "ps_usages p' \<noteq> ps_usages p"
    using rec by (auto simp: usage_record_cases split: if_splits)
  ultimately show ?thesis
    using get_completed_later [OF assms(2,3)] c(1-3) sel by (simp add: jobs)
qed

lemma failed_view:
  assumes "failed_by W job (rid, tenant, api_key) code el p p'"
    and "idem_get tenant now' rid (ps_jobs p) = Some row" "idem_visible tenant (pe_now_ms W) rid row"
  shows "idem_get tenant now' rid (ps_jobs p') = Some (row\<lparr>jr_status := ''failed''\<rparr>)"
proof -
  have "ps_jobs p' = idem_fail tenant (pe_now_ms W) rid (ps_jobs p)"
    using assms(1) by (auto simp: failed_by_def failure_tx_def Let_def bindS_Inr split: option.splits)
  then show ?thesis using get_failed_later [OF assms(2,3)] by simp
qed


text \<open>One attempt at a queued job, from the row's side.\<close>

definition stage_after :: "job_exn + unit \<Rightarrow> bool \<Rightarrow> string" where
  "stage_after r billed = (let st = status_after r billed in if st = ''queued'' then ''processing'' else st)"

lemma attempt_view:
  assumes ids: "job_ids job = Inr (rid, T, api_key)" and run: "process_one_job W job attempt p = (r, p')"
    and get: "idem_get T now' rid (ps_jobs p) = Some row" and vis: "idem_visible T (pe_now_ms W) rid row"
    and pend: "jr_status row = ''processing''"
  shows "\<exists>x. idem_get T now' rid (ps_jobs p') = Some x \<and> jr_created_at x = jr_created_at row
     \<and> jr_status x = stage_after r (ps_usages p' \<noteq> ps_usages p)
     \<and> (jr_status x = ''complete'' \<longrightarrow>
         (\<exists>u uri pcm. jr_response_uri x = Some uri \<and> uri \<noteq> [] \<and> usage_find T rid (ps_usages p') = Some u
            \<and> ur_text_char_count u = int (length (tj_text job)) \<and> last (ps_archived p') = (rid, pcm) \<and> pcm \<noteq> []))"
    (is ?thesis)
proof -
  note sa = stage_after_def status_after_def
  have same: ?thesis if "same_tables p p'" "\<And>c. r \<noteq> Inl (PoisonJob c)" "r \<noteq> Inr ()"
    using that get pend by (cases r) (auto simp: sa same_tables_def split: job_exn.split)
  have com: ?thesis if c: "committed_by W job (rid, T, api_key) pcm n p p'" and st: "\<And>c. r \<noteq> Inl (PoisonJob c)" for pcm n
  proof -
    have "stage_after r True = ''complete''" using st by (auto simp: sa split: sum.split job_exn.split)
    then show ?thesis using committed_view [OF c get vis] by auto
  qed
  have fail: ?thesis if "failed_by W job (rid, T, api_key) code el p p'" "r = Inl (PoisonJob code')" for code el code'
    using failed_view [OF that(1) get vis] that(2) by (simp add: sa)
  from process_out [OF ids run] consider
      m where "r = Inl (OtherError m)" "same_tables p p'"
    | pieces tail where "run_end W job (rid, T, api_key) attempt pieces tail p r p'"
    by (auto simp: same_store_def)
  then show ?thesis
  proof cases
    case 1
    then show ?thesis by (intro same) simp_all
  next
    case 2
    then consider "same_tables p p'" "\<And>c. r \<noteq> Inl (PoisonJob c)" "r \<noteq> Inr ()"
      | "committed_by W job (rid, T, api_key) (pieces_pcm pieces) (length pieces) p p'" "\<And>c. r \<noteq> Inl (PoisonJob c)"
      | code where "failed_by W job (rid, T, api_key) code (pe_elapsed_ms W) p p'" "r = Inl (PoisonJob code)"
      by (auto simp: run_end_def Let_def split: sum.splits job_exn.splits)
    then show ?thesis by cases (rule same com fail; assumption)+
  qed
qed

text \<open>
  C3: the life of a job. A submission is accepted; some worker makes one attempt at the
  queued job over the tables the gateway committed; then the client asks. Within the row's
  24 hours the answer tells how the attempt ended: complete after a normal end, failed after
  PoisonJob, and queued otherwise, unless the attempt had already committed, which is then
  shown as complete. A complete answer, and only that, carries an audio URL with one hour to
  run, the metrics of the request with the length of the submitted text, and the audio is in
  the archive under the job's id. The client always sees the creation time it was given.
\<close>

theorem job_lifecycle:
  assumes "fresh s" and "ge_others E = (\<lambda>t. t)" and "create_tts_job E cx kh ah rhash b s = (Inr a, s1)"
    and "\<not> ja_deduplicated a" and "cx_tenant_id cx < 2 ^ 128" and "cx_api_key_id cx < 2 ^ 128"
    and "ps_jobs p = gd_jobs (gs_saved s1)"
    and "process_one_job W (last (gs_queue s1)) attempt p = (r, p')"
    and "gd_jobs (gs_db s2) = ps_jobs p'" and "gd_usages (gs_db s2) = ps_usages p'"
    and "ge_now E \<le> pe_now_ms W" and "pe_now_ms W < ge_now E + default_ttl"
    and "ge_now E \<le> ge_now E2" and "ge_now E2 < ge_now E + default_ttl"
  shows "\<exists>st. get_tts_job E2 cx (uuid_str (ja_job_id a)) s2 = (Inr st, s2)
     \<and> js_status st = status_after r (ps_usages p' \<noteq> ps_usages p) \<and> js_created_at st = ja_created_at a
     \<and> (if js_status st = ''complete''
        then (\<exists>pcm url m. pcm \<noteq> [] \<and> last (ps_archived p') = (ja_job_id a, pcm)
                \<and> js_output st = Some (url, ge_now E2 + 3600000) \<and> js_metrics st = Some m
                \<and> jm_character_count m = Some (int (length (tb_text b))))
        else js_output st = None \<and> js_metrics st = None)"
proof -
  from create_accepted [OF assms(1-3)] assms(4) obtain key v pr where
    k: "parse_idempotency_key kh = Inr key" and new: "key \<notin> jr_request_id ` set (gd_jobs (gs_db s))"
    and a: "ja_job_id a = key" "ja_created_at a = ge_now E"
    and q: "last (gs_queue s1) = payload_for E cx key v pr ah b"
    and s1: "gd_jobs (gs_saved s1) = gd_jobs (gs_db s) @ [new_job_row (cx_tenant_id cx) (ge_now E) key (cx_api_key_id cx) rhash None]"
    by (auto simp: Let_def with_jobs_def new_job_row_def)
  let ?T = "cx_tenant_id cx"
  let ?row = "new_job_row ?T (ge_now E) key (cx_api_key_id cx) rhash None"
  have key: "key < 2 ^ 128" by (rule parse_key_range [OF k])
  have run: "process_one_job W (payload_for E cx key v pr ah b) attempt p = (r, p')" using assms(8) q by simp
  have get: "idem_get ?T (ge_now E2) key (ps_jobs p) = Some ?row"
    using get_new_row_later [OF new assms(13,14)] by (simp add: assms(7) s1)
  have vis: "idem_visible ?T (pe_now_ms W) key ?row"
    using assms(12) by (simp add: idem_visible_def new_job_row_def)
  from attempt_view [OF job_ids_payload [OF key assms(5,6)] run get vis]
  obtain x where x: "idem_get ?T (ge_now E2) key (ps_jobs p') = Some x" "jr_created_at x = ge_now E"
      "jr_status x = stage_after r (ps_usages p' \<noteq> ps_usages p)"
    and fin: "jr_status x = ''complete'' \<Longrightarrow> \<exists>u uri pcm. jr_response_uri x = Some uri \<and> uri \<noteq> []
        \<and> usage_find ?T key (ps_usages p') = Some u \<and> ur_text_char_count u = int (length (tb_text b))
        \<and> last (ps_archived p') = (key, pcm) \<and> pcm \<noteq> []"
    by (auto simp: new_job_row_def tj_text_payload)
  let ?st = "status_of_row E2 (uuid_str key) x (usage_find ?T key (ps_usages p'))"
  have "get_tts_job E2 cx (uuid_str key) s2 = (Inr ?st, s2)"
    using get_tts_job_row [OF key, of cx E2 s2 x] x(1) by (simp add: assms(9,10))
  moreover have "js_status ?st = status_after r (ps_usages p' \<noteq> ps_usages p)" "js_created_at ?st = ge_now E"
    using x(2,3) by (auto simp: status_of_row_def map_status_def stage_after_def status_after_def Let_def
        split: sum.split job_exn.split)
  moreover have "js_output ?st = None \<and> js_metrics ?st = None" if "js_status ?st \<noteq> ''complete''"
    using that by (auto simp: status_of_row_def map_status_def split: if_splits)
  moreover have "\<exists>pcm url m. pcm \<noteq> [] \<and> last (ps_archived p') = (key, pcm) \<and> js_output ?st = Some (url, ge_now E2 + 3600000)
      \<and> js_metrics ?st = Some m \<and> jm_character_count m = Some (int (length (tb_text b)))" if "js_status ?st = ''complete''"
  proof -
    from that have c: "jr_status x = ''complete''" by (auto simp: status_of_row_def map_status_def split: if_splits)
    from fin [OF c] show ?thesis using c by (auto simp: status_of_complete metrics_of_def)
  qed
  ultimately show ?thesis unfolding a by (intro exI [of _ ?st]) simp
qed


subsection \<open>A concrete life\<close>

definition gw_job :: tts_job where
  "gw_job = payload_for gw_env gw_cx 5 gw_voice default_model None gw_body"

definition gw_tables :: pstate where
  "gw_tables = \<lparr>ps_jobs = [gw_row], ps_usages = [], ps_stream = [], ps_archived = [], ps_redis_ops = 0, ps_db_ops = 0\<rparr>"

lemma gw_job_sel [simp]:
  "tj_voice_id gw_job = ''ada''" "tj_model_id gw_job = Some ''voxcpm2-tr-hd''" "tj_params gw_job = None"
  "tj_voice_settings gw_job = None" "tj_text gw_job = [77, 0x131]" "tj_app_label gw_job = None"
  "tj_enqueued_at_ms gw_job = Some 100"
  by (simp_all add: gw_job_def payload_for_def gw_voice_def default_model_def presets_def preset_def gw_body_def
      gw_env_def app_label_from_def)

lemma gw_ids: "job_ids gw_job = Inr (5, 7, 2)"
  by (simp add: gw_job_def job_ids_payload)

lemma gw_tables_sel [simp]: "ps_jobs gw_tables = [gw_row]" "ps_usages gw_tables = []"
  by (simp_all add: gw_tables_def)

lemma gw_run: "fst (process_one_job sample_env gw_job 1 gw_tables) = Inr ()"
  by (simp add: run_simps gw_ids gw_tables_def)

theorem job_lifecycle_witness:
  "let p' = snd (process_one_job sample_env gw_job 1 gw_tables);
       d = gw_db\<lparr>gd_jobs := ps_jobs p', gd_usages := ps_usages p'\<rparr>;
       s2 = \<lparr>gs_db = d, gs_saved = d, gs_queue = [], gs_files = Map.empty\<rparr>
   in \<exists>st. get_tts_job gw_env gw_cx (uuid_str 5) s2 = (Inr st, s2) \<and> js_status st = ''complete''
        \<and> js_output st \<noteq> None"
proof -
  let ?r = "process_one_job sample_env gw_job 1 gw_tables"
  let ?d = "gw_db\<lparr>gd_jobs := ps_jobs (snd ?r), gd_usages := ps_usages (snd ?r)\<rparr>"
  let ?s2 = "\<lparr>gs_db = ?d, gs_saved = ?d, gs_queue = [], gs_files = Map.empty\<rparr>"
  let ?s1 = "snd (create_tts_job gw_env gw_cx (Some (uuid_str 5)) None ''h'' gw_body gw_state)"
  have run: "process_one_job sample_env (last (gs_queue ?s1)) 1 gw_tables = (Inr (), snd ?r)"
    using gw_run by (simp add: gw_create gw_job_def prod_eq_iff)
  have "ps_jobs gw_tables = gd_jobs (gs_saved ?s1)" by (simp add: gw_create with_jobs_def Let_def)
  from job_lifecycle [OF gw_fresh _ gw_create _ _ _ this [unfolded gw_create snd_conv] run [unfolded gw_create snd_conv], of ?s2 gw_env]
  show ?thesis by (auto simp: status_after_def default_ttl_def Let_def)
qed

end
