(* ===== verification/Wav.thy ===== *)
theory Wav
  imports Audio_Post
begin

text \<open>
  The byte formats of \<^verbatim>\<open>src/audio/wav.py\<close>: floats to 16-bit PCM, and the RIFF/WAVE
  container in its two forms, the complete file of the synchronous route and the header of
  unknown length that the streaming route sends first (\<open>_yield_wav\<close> in
  \<^verbatim>\<open>src/server/main.py\<close>). Floats are rationals.
\<close>

subsection \<open>Packing\<close>

fun le_bytes :: "nat \<Rightarrow> nat \<Rightarrow> bytes" where
  "le_bytes 0 k = []"
| "le_bytes (Suc n) k = k mod 256 # le_bytes n (k div 256)"

fun of_le :: "bytes \<Rightarrow> nat" where
  "of_le [] = 0"
| "of_le (b # bs) = b + 256 * of_le bs"

text \<open>\<open>struct.pack\<close> of one unsigned field of \<open>n\<close> bytes.\<close>

definition pack_le :: "nat \<Rightarrow> int \<Rightarrow> py_error + bytes" where
  "pack_le n k = (if 0 \<le> k \<and> k < 256 ^ n then Inr (le_bytes n (nat k)) else Inl (RuntimeError ''struct.error''))"

fun pack_all :: "(nat \<times> int) list \<Rightarrow> py_error + bytes" where
  "pack_all [] = Inr []"
| "pack_all ((n, k) # fs) = bindS (pack_le n k) (\<lambda>b. bindS (pack_all fs) (\<lambda>bs. Inr (b @ bs)))"

lemma length_le_bytes [simp]: "length (le_bytes n k) = n"
  by (induction n arbitrary: k) auto

lemma of_le_bytes: "of_le (le_bytes n k) = k mod 256 ^ n"
proof (induction n arbitrary: k)
  case (Suc n)
  then show ?case by (simp add: mod_mult2_eq)
qed simp

lemma le_bytes_small: "k < 256 ^ n \<Longrightarrow> of_le (le_bytes n k) = k"
  by (simp add: of_le_bytes)

lemma pack_le_Inr: "pack_le n k = Inr b \<longleftrightarrow> 0 \<le> k \<and> k < 256 ^ n \<and> b = le_bytes n (nat k)"
  by (auto simp: pack_le_def)

subsection \<open>Samples\<close>

text \<open>\<open>float_to_pcm16_bytes\<close>: clip, scale, truncate.\<close>

definition float_to_pcm16_bytes :: "rat list \<Rightarrow> bytes" where
  "float_to_pcm16_bytes wav = tobytes (map (\<lambda>x. to_int16 (clip (-1) 1 x * 32767)) wav)"

subsection \<open>Containers\<close>

definition fmt_fields :: "int \<Rightarrow> int \<Rightarrow> (nat \<times> int) list" where
  "fmt_fields channels rate =
     [(4, 16), (2, 1), (2, channels), (4, rate), (4, channels * rate * 2), (2, channels * 2), (2, 16)]"

text \<open>
  \<open>pcm16_to_wav_bytes\<close>, with what the standard library's \<open>wave\<close> writes: the sizes are those
  of the data, whole frames or not, and there is no padding byte.
\<close>

definition pcm16_to_wav_bytes :: "bytes \<Rightarrow> int \<Rightarrow> int \<Rightarrow> py_error + bytes" where
  "pcm16_to_wav_bytes pcm rate channels =
     (if channels < 1 then Inl (RuntimeError ''bad # of channels'')
      else if rate \<le> 0 then Inl (RuntimeError ''bad frame rate'')
      else bindS (pack_all [(4, 36 + int (length pcm))]) (\<lambda>size.
           bindS (pack_all (fmt_fields channels rate)) (\<lambda>fmt.
           bindS (pack_all [(4, int (length pcm))]) (\<lambda>len.
             Inr (cps ''RIFF'' @ size @ cps ''WAVE'' @ cps ''fmt '' @ fmt @ cps ''data'' @ len @ pcm)))))"

text \<open>The header of \<open>_yield_wav\<close>: both sizes are the largest there is.\<close>

definition wav_stream_header :: "int \<Rightarrow> py_error + bytes" where
  "wav_stream_header rate =
     bindS (pack_all [(4, 0xFFFFFFFF)]) (\<lambda>size.
     bindS (pack_all (fmt_fields 1 rate)) (\<lambda>fmt.
       Inr (cps ''RIFF'' @ size @ cps ''WAVE'' @ cps ''fmt '' @ fmt @ cps ''data'' @ size)))"

subsection \<open>A player\<close>

text \<open>
  A reader of the canonical 44-byte layout: channels, rate, bits and the audio, where the
  largest size means that the audio goes on to the end of the stream.
\<close>

definition field :: "nat \<Rightarrow> nat \<Rightarrow> bytes \<Rightarrow> nat" where
  "field off n bs = of_le (take n (drop off bs))"

definition read_wav :: "bytes \<Rightarrow> (nat \<times> nat \<times> nat \<times> bytes) option" where
  "read_wav bs =
     (if 44 \<le> length bs \<and> take 4 bs = cps ''RIFF'' \<and> take 8 (drop 8 bs) = cps ''WAVEfmt ''
         \<and> field 16 4 bs = 16 \<and> field 20 2 bs = 1 \<and> take 4 (drop 36 bs) = cps ''data''
      then Some (field 22 2 bs, field 24 4 bs, field 34 2 bs,
                 if field 40 4 bs = 0xFFFFFFFF then drop 44 bs else take (field 40 4 bs) (drop 44 bs))
      else None)"

lemma length_cps [simp]: "length (cps s) = length s"
  by (simp add: cps_def)

lemma cps_eq [simp]: "cps (c # s) = of_char c # cps s" "cps [] = []"
  by (simp_all add: cps_def)

lemma pack_one: "pack_all [(n, k)] = (if 0 \<le> k \<and> k < 256 ^ n then Inr (le_bytes n (nat k)) else Inl (RuntimeError ''struct.error''))"
  by (simp add: pack_le_def bindS_def)

lemma pack_fmt:
  assumes "pack_all (fmt_fields c r) = Inr fmt"
  shows "\<exists>a b. fmt = le_bytes 4 16 @ le_bytes 2 1 @ le_bytes 2 (nat c) @ le_bytes 4 (nat r) @ a @ b @ le_bytes 2 16
    \<and> length a = 4 \<and> length b = 2 \<and> 0 \<le> c \<and> c < 256 ^ 2 \<and> 0 \<le> r \<and> r < 256 ^ 4"
proof -
  have "fmt = le_bytes 4 16 @ le_bytes 2 1 @ le_bytes 2 (nat c) @ le_bytes 4 (nat r)
      @ le_bytes 4 (nat (c * r * 2)) @ le_bytes 2 (nat (c * 2)) @ le_bytes 2 16"
    "0 \<le> c" "c < 256 ^ 2" "0 \<le> r" "r < 256 ^ 4"
    using assms by (auto simp: fmt_fields_def bindS_Inr pack_le_Inr)
  then show ?thesis by (metis length_le_bytes)
qed


lemma read_layout:
  assumes "pack_all (fmt_fields c r) = Inr fmt"
  shows "read_wav (cps ''RIFF'' @ le_bytes 4 m @ cps ''WAVE'' @ cps ''fmt '' @ fmt @ cps ''data'' @ le_bytes 4 n @ pcm)
    = Some (nat c, nat r, 16, if n mod 256 ^ 4 = 0xFFFFFFFF then pcm else take (n mod 256 ^ 4) pcm)"
proof -
  from pack_fmt [OF assms] obtain a b where
    fmt: "fmt = le_bytes 4 16 @ le_bytes 2 1 @ le_bytes 2 (nat c) @ le_bytes 4 (nat r) @ a @ b @ le_bytes 2 16"
    and l: "length a = 4" "length b = 2" and c: "0 \<le> c" "c < 256 ^ 2" "0 \<le> r" "r < 256 ^ 4" by auto
  have "nat c < 256 ^ 2" "nat r < 256 ^ 4" using c by auto
  then show ?thesis
    unfolding fmt read_wav_def field_def by (simp add: l of_le_bytes)
qed


lemma wav_file_read:
  assumes "pcm16_to_wav_bytes pcm rate channels = Inr body"
  shows "read_wav body = Some (nat channels, nat rate, 16, pcm)"
proof -
  from assms obtain fmt where
    len: "36 + int (length pcm) < 256 ^ 4" and fmt: "pack_all (fmt_fields channels rate) = Inr fmt"
    and whole: "body = cps ''RIFF'' @ le_bytes 4 (36 + length pcm) @ cps ''WAVE'' @ cps ''fmt '' @ fmt
                 @ cps ''data'' @ le_bytes 4 (length pcm) @ pcm"
    by (auto simp: pcm16_to_wav_bytes_def bindS_Inr pack_le_Inr nat_add_distrib split: if_splits)
  from len have "length pcm mod 256 ^ 4 = length pcm" "length pcm \<noteq> 0xFFFFFFFF" by simp_all
  then show ?thesis unfolding whole using read_layout [OF fmt, of "36 + length pcm" "length pcm" pcm] by simp
qed

lemma wav_stream_read:
  assumes "wav_stream_header rate = Inr header"
  shows "read_wav (header @ pcm) = Some (1, nat rate, 16, pcm)"
proof -
  from assms obtain fmt where fmt: "pack_all (fmt_fields 1 rate) = Inr fmt"
    and h: "header = cps ''RIFF'' @ le_bytes 4 0xFFFFFFFF @ cps ''WAVE'' @ cps ''fmt '' @ fmt
               @ cps ''data'' @ le_bytes 4 0xFFFFFFFF"
    by (auto simp: wav_stream_header_def bindS_Inr pack_le_Inr split: if_splits)
  show ?thesis unfolding h using read_layout [OF fmt, of "0xFFFFFFFF" "0xFFFFFFFF" pcm] by simp
qed

lemma wav_file_total:
  assumes "1 \<le> channels" "channels * 2 < 2 ^ 16" "0 < rate" "channels * rate * 2 < 2 ^ 32"
    and "length pcm + 36 < 2 ^ 32"
  shows "\<exists>body. pcm16_to_wav_bytes pcm rate channels = Inr body"
proof -
  have "rate \<le> channels * rate" using assms(1,3) by (simp add: mult_le_cancel_right1)
  then have "rate < 2 ^ 32" "channels < 2 ^ 16" using assms by linarith+
  then have "\<exists>fmt. pack_all (fmt_fields channels rate) = Inr fmt"
    using assms by (simp add: fmt_fields_def pack_le_def bindS_def)
  then show ?thesis using assms by (auto simp: pcm16_to_wav_bytes_def bindS_def pack_le_def)
qed

lemma wav_stream_total: "0 < rate \<Longrightarrow> rate < 2 ^ 31 \<Longrightarrow> \<exists>header. wav_stream_header rate = Inr header"
  by (simp add: wav_stream_header_def bindS_def fmt_fields_def pack_le_def)

text \<open>
  Both containers carry the audio. A file that \<open>pcm16_to_wav_bytes\<close> builds, and
  the streaming header followed by any amount of audio, read back as one channel of 16-bit
  samples at the given rate with exactly the PCM that went in, odd lengths included; and a
  file is built whenever its size fits the 32-bit fields.
\<close>

theorem wav_roundtrip:
  assumes "0 < rate" "rate < 2 ^ 31" "length pcm + 36 < 2 ^ 32"
  shows "\<exists>body header. pcm16_to_wav_bytes pcm rate 1 = Inr body \<and> read_wav body = Some (1, nat rate, 16, pcm)
     \<and> wav_stream_header rate = Inr header \<and> read_wav (header @ pcm) = Some (1, nat rate, 16, pcm)"
proof -
  obtain body where f: "pcm16_to_wav_bytes pcm rate 1 = Inr body"
    using wav_file_total [of 1 rate pcm] assms by auto
  moreover have "\<exists>h. wav_stream_header rate = Inr h"
    by (rule wav_stream_total [OF assms(1,2)])
  ultimately show ?thesis using wav_file_read [OF f] wav_stream_read by auto
qed

theorem wav_roundtrip_witness:
  "\<exists>body header. pcm16_to_wav_bytes [1, 2, 3] 48000 1 = Inr body \<and> read_wav body = Some (1, 48000, 16, [1, 2, 3])
     \<and> wav_stream_header 48000 = Inr header \<and> read_wav (header @ [1, 2, 3]) = Some (1, 48000, 16, [1, 2, 3])"
  using wav_roundtrip [of 48000 "[1, 2, 3]"] by simp

subsection \<open>Clipping\<close>

definition truncate :: "rat \<Rightarrow> int" where
  "truncate q = (if 0 \<le> q then \<lfloor>q\<rfloor> else \<lceil>q\<rceil>)"

text \<open>No sample wraps: what a player reads is the truncation of the clipped, scaled value.\<close>

theorem float_pcm_no_wrap:
  "frombuffer (float_to_pcm16_bytes wav) = Inr (map (\<lambda>x. to_int16 (clip (-1) 1 x * 32767)) wav)
   \<and> map (\<lambda>x. sint (to_int16 (clip (-1) 1 x * 32767))) wav = map (\<lambda>x. truncate (clip (-1) 1 x * 32767)) wav"
proof -
  have "sint (to_int16 (clip (-1) 1 x * 32767)) = truncate (clip (-1) 1 x * 32767)" for x
  proof -
    let ?q = "clip (-1) 1 x * 32767"
    have "- 32767 \<le> ?q" "?q \<le> 32767" by (simp_all add: clip_def)
    then have "- 32767 \<le> truncate ?q" "truncate ?q \<le> 32767"
      by (auto simp: truncate_def le_floor_iff ceiling_le_iff floor_le_iff le_ceiling_iff)
    moreover have "to_int16 ?q = of_int (truncate ?q)" unfolding to_int16_def truncate_def by (rule refl)
    ultimately show ?thesis by (simp only: sint_of_range)
  qed
  then show ?thesis by (simp add: float_to_pcm16_bytes_def)
qed

end
