(* ===== verification/Gateway_Sync.thy ===== *)
theory Gateway_Sync
  imports Job_Lifecycle Wav
begin

text \<open>
  The two routes of \<^verbatim>\<open>src/server/main.py\<close> that proxy the queue and answer with audio:
  \<open>synthesize\<close> (POST /v1/tts, one body) and \<open>synthesize_stream\<close> (POST /v1/tts/stream,
  chunked), with their vendor aliases, over the encoder layer of
  \<^verbatim>\<open>src/audio/encoders.py\<close>. The ffmpeg encoders are parameters; the worker's side of the
  result stream comes in as the polls of \<open>Result_Stream\<close>.
\<close>

subsection \<open>Encoders\<close>

text \<open>
  A \<open>StreamEncoder\<close>: whether \<open>start\<close> succeeds, what \<open>encode_chunk\<close> gives after the PCM fed so
  far (the last element is the chunk at hand; \<open>None\<close> is \<open>EncoderError\<close>), and the tail of \<open>close\<close>.
\<close>

record encoder =
  en_start_ok :: bool
  en_chunk :: "bytes list \<Rightarrow> bytes option"
  en_close :: "bytes list \<Rightarrow> bytes"

definition pcm16_passthrough :: encoder where
  "pcm16_passthrough = \<lparr>en_start_ok = True, en_chunk = (\<lambda>h. Some (last h)), en_close = (\<lambda>h. [])\<rparr>"

record senv =
  se_polls :: "poll list"
  se_sample_rate :: int
  se_elapsed_ms :: int
  se_mp3 :: encoder
  se_opus :: encoder
  se_first_byte_ns :: int \<comment> \<open>request to first buffer, on the monotonic clock\<close>
  se_pulled :: nat \<comment> \<open>how many buffers the client takes before it goes\<close>
  se_usage_up :: bool \<comment> \<open>whether the closing usage update reaches the database\<close>

definition get_stream_encoder :: "senv \<Rightarrow> string \<Rightarrow> py_error + encoder" where
  "get_stream_encoder X fmt =
     (if fmt = ''pcm16'' then Inr pcm16_passthrough
      else if fmt = ''mp3'' then Inr (se_mp3 X)
      else if fmt = ''opus'' then Inr (se_opus X)
      else Inl (KeyError ''unsupported audio_format''))"

definition media_type :: "string \<Rightarrow> string" where
  "media_type fmt =
     (if fmt = ''wav'' then ''audio/wav'' else if fmt = ''mp3'' then ''audio/mpeg''
      else if fmt = ''opus'' then ''audio/ogg'' else ''application/octet-stream'')"

subsection \<open>Enqueuing\<close>

text \<open>
  The common head of both routes. Unlike \<open>create_tts_job\<close> it looks at the second result of
  \<open>reserve_or_get\<close>: only a fresh reservation is queued, a replay subscribes to the stream.
\<close>

definition enqueue_sync ::
  "genv \<Rightarrow> auth_context \<Rightarrow> ustr option \<Rightarrow> ustr option \<Rightarrow> string \<Rightarrow> tts_body \<Rightarrow> (uuid \<times> voice \<times> model_preset) gact" where
  "enqueue_sync E cx rid_header app_header rhash b =
     seqA (require (int (length (tb_text b)) \<le> ge_max_chars E) (Status 400 ''text exceeds max_chars''))
     (bindA (vet_request cx b) (\<lambda>(v, p).
      let rid = request_id_for E rid_header in
      seqA (check_queue_depth_or_503 E cx)
      (seqA (other_sessions (ge_others E))
      (bindA (reserve_in_session E cx rid rhash (\<lambda>_. Status 409 ''X-Request-Id reuse with different body'')) (\<lambda>(row, reserved_new).
       seqA commit
       (seqA (if reserved_new then submit_or_502 E cx rid (payload_for E cx rid v p app_header (b\<lparr>tb_params := None\<rparr>))
              else ret ())
             (ret (rid, v, p))))))))"

subsection \<open>One body\<close>

record response =
  rp_body :: bytes
  rp_media :: string
  rp_request_id :: uuid
  rp_sample_rate :: int
  rp_voice_id :: string
  rp_model_id :: string
  rp_character_count :: nat
  rp_output_format :: string
  rp_sentences :: "nat option"
  rp_duration_ms :: "int option"
  rp_elapsed_ms :: "int option"
  rp_rtf :: "rat option"
  rp_deprecation :: bool \<comment> \<open>the Deprecation, Sunset and Link headers\<close>

definition duration_of :: "bytes \<Rightarrow> int \<Rightarrow> int" where
  "duration_of pcm rate = \<lfloor>rat_of_int (int (length pcm div 2)) / rat_of_int (max rate 1) * 1000\<rfloor>"

text \<open>The encoder run to completion on one body; \<open>None\<close> is the caught \<open>EncoderError\<close>.\<close>

definition encode_whole :: "encoder \<Rightarrow> bytes \<Rightarrow> bytes option" where
  "encode_whole en pcm =
     (if \<not> en_start_ok en then None
      else case en_chunk en [pcm] of None \<Rightarrow> None | Some encoded \<Rightarrow> Some (encoded @ en_close en [pcm]))"

definition encoded_body :: "senv \<Rightarrow> string \<Rightarrow> bytes \<Rightarrow> py_error + bytes \<times> string" where
  "encoded_body X fmt pcm =
     (let wav = bindS (pcm16_to_wav_bytes pcm (se_sample_rate X) 1) (\<lambda>w. Inr (w, ''audio/wav''))
      in if fmt = ''wav'' then wav
         else if fmt = ''pcm16'' then Inr (pcm, ''application/octet-stream'')
         else bindS (get_stream_encoder X fmt) (\<lambda>en.
                case encode_whole en pcm of
                  None \<Rightarrow> wav
                | Some body \<Rightarrow> Inr (body, media_type fmt)))"

definition sync_response ::
  "senv \<Rightarrow> uuid \<Rightarrow> voice \<Rightarrow> model_preset \<Rightarrow> tts_body \<Rightarrow> bytes \<Rightarrow> nat \<Rightarrow> py_error + response" where
  "sync_response X rid v p b pcm sentences =
     (let duration = duration_of pcm (se_sample_rate X)
      in bindS (encoded_body X (tb_audio_format b) pcm) (\<lambda>(body, media).
           Inr \<lparr>rp_body = body, rp_media = media, rp_request_id = rid, rp_sample_rate = se_sample_rate X,
                rp_voice_id = v_voice_id v, rp_model_id = mp_model_id p,
                rp_character_count = length (tb_text b), rp_output_format = tb_audio_format b,
                rp_sentences = Some sentences, rp_duration_ms = Some duration,
                rp_elapsed_ms = Some (se_elapsed_ms X),
                rp_rtf = (if duration > 0 then Some (rat_of_int (se_elapsed_ms X) / rat_of_int duration) else None),
                rp_deprecation = True\<rparr>))"

text \<open>\<open>None\<close> when the polls end before the collector has decided.\<close>

definition synthesize ::
  "genv \<Rightarrow> senv \<Rightarrow> auth_context \<Rightarrow> ustr option \<Rightarrow> ustr option \<Rightarrow> string \<Rightarrow> tts_body \<Rightarrow> response option gact" where
  "synthesize E X cx rid_header app_header rhash b =
     bindA (enqueue_sync E cx rid_header app_header rhash b) (\<lambda>(rid, v, p).
       case collect_pcm_until_final (se_polls X) of
         Inl Timed_Out \<Rightarrow> throw (Status 504 ''worker did not finish in time; retry via /v1/tts/jobs'')
       | Inl (Decode_Error e) \<Rightarrow> throw (Crash e)
       | Inl _ \<Rightarrow> ret None
       | Inr (pcm, sentences, error) \<Rightarrow>
           if (case error of None \<Rightarrow> False | Some m \<Rightarrow> m \<noteq> []) then throw (Status 502 ''worker error'')
           else (case sync_response X rid v p b pcm sentences of Inl e \<Rightarrow> throw (Crash e) | Inr r \<Rightarrow> ret (Some r)))"

text \<open>The alias checks the path's voice id first and delegates.\<close>

definition synthesize_alias ::
  "genv \<Rightarrow> senv \<Rightarrow> auth_context \<Rightarrow> ustr option \<Rightarrow> ustr option \<Rightarrow> string \<Rightarrow> string \<Rightarrow> tts_body \<Rightarrow> response option gact" where
  "synthesize_alias E X cx rid_header app_header rhash voice_id b =
     seqA (validate_voice_id voice_id) (synthesize E X cx rid_header app_header rhash (b\<lparr>tb_voice_id := voice_id\<rparr>))"

subsection \<open>Chunked\<close>

text \<open>
  \<open>_yield_pcm\<close>: the buffers, and whether the generator returns (at the terminal chunk or the
  deadline) rather than raising or still reading.
\<close>

definition yield_pcm :: "poll list \<Rightarrow> bytes list \<times> bool" where
  "yield_pcm polls =
     (case consume_result_stream polls of
        (cs, e) \<Rightarrow> (map tr_pcm_bytes (takeWhile (\<lambda>c. \<not> is_error c \<and> \<not> tr_final c) cs),
                    e = Finished \<or> e = Timed_Out))"

definition yield_wav :: "senv \<Rightarrow> bytes list" where
  "yield_wav X = (case wav_stream_header (se_sample_rate X) of
      Inl e \<Rightarrow> [] | Inr header \<Rightarrow> header # fst (yield_pcm (se_polls X)))"

definition out_if :: "bytes \<Rightarrow> bytes list" where
  "out_if out = (if out = [] then [] else [out])"

text \<open>The encoding loop over the PCM buffers; the tail comes only when the inner generator returned.\<close>

fun encode_loop :: "encoder \<Rightarrow> bool \<Rightarrow> bytes list \<Rightarrow> bytes list \<Rightarrow> bytes list" where
  "encode_loop en returned fed [] = (if returned then out_if (en_close en fed) else [])"
| "encode_loop en returned fed (pcm # ps) =
     (case en_chunk en (fed @ [pcm]) of
        None \<Rightarrow> []
      | Some out \<Rightarrow> out_if out @ encode_loop en returned (fed @ [pcm]) ps)"

definition yield_encoded :: "senv \<Rightarrow> string \<Rightarrow> bytes list" where
  "yield_encoded X fmt =
     (case get_stream_encoder X fmt of
        Inl e \<Rightarrow> []
      | Inr en \<Rightarrow>
          (case yield_pcm (se_polls X) of
             (bufs, returned) \<Rightarrow> if \<not> en_start_ok en then bufs else encode_loop en returned [] bufs))"

text \<open>
  \<open>_instrumented\<close>: what the client took, and the closing update of the usage row, in a session
  of its own, when at least one buffer went out. A failure of the update is swallowed.
\<close>

definition first_byte_ms :: "senv \<Rightarrow> bytes list \<Rightarrow> int option" where
  "first_byte_ms X out = (if out = [] then None else Some (max 0 (se_first_byte_ns X div 1000000)))"

definition stitch_first_byte :: "senv \<Rightarrow> uuid \<Rightarrow> uuid \<Rightarrow> int option \<Rightarrow> usage_table \<Rightarrow> usage_table" where
  "stitch_first_byte X tenant rid ms us =
     (case ms of
        None \<Rightarrow> us
      | Some m \<Rightarrow> if \<not> se_usage_up X then us
                  else (case update_gateway_first_byte_ms tenant rid m us of
                          Inl e \<Rightarrow> us | Inr (us', rowcount) \<Rightarrow> us'))"

definition other_usages :: "(usage_table \<Rightarrow> usage_table) \<Rightarrow> unit gact" where
  "other_usages f = modifyA (\<lambda>s. s\<lparr>gs_db := (gs_db s)\<lparr>gd_usages := f (gd_usages (gs_db s))\<rparr>,
                                  gs_saved := (gs_saved s)\<lparr>gd_usages := f (gd_usages (gs_saved s))\<rparr>\<rparr>)"

definition synthesize_stream ::
  "genv \<Rightarrow> senv \<Rightarrow> auth_context \<Rightarrow> ustr option \<Rightarrow> ustr option \<Rightarrow> string \<Rightarrow> tts_body \<Rightarrow> response gact" where
  "synthesize_stream E X cx rid_header app_header rhash b =
     bindA (enqueue_sync E cx rid_header app_header rhash b) (\<lambda>(rid, v, p).
       let fmt = tb_audio_format b;
           out = take (se_pulled X) (if fmt = ''wav'' then yield_wav X else yield_encoded X fmt)
       in seqA (other_usages (stitch_first_byte X (cx_tenant_id cx) rid (first_byte_ms X out)))
          (ret \<lparr>rp_body = concat out, rp_media = media_type fmt, rp_request_id = rid,
                rp_sample_rate = se_sample_rate X, rp_voice_id = v_voice_id v, rp_model_id = mp_model_id p,
                rp_character_count = length (tb_text b), rp_output_format = fmt, rp_sentences = None,
                rp_duration_ms = None, rp_elapsed_ms = None, rp_rtf = None, rp_deprecation = False\<rparr>))"

definition synthesize_stream_alias ::
  "genv \<Rightarrow> senv \<Rightarrow> auth_context \<Rightarrow> ustr option \<Rightarrow> ustr option \<Rightarrow> string \<Rightarrow> string \<Rightarrow> tts_body \<Rightarrow> response gact" where
  "synthesize_stream_alias E X cx rid_header app_header rhash voice_id b =
     seqA (validate_voice_id voice_id)
       (synthesize_stream E X cx rid_header app_header rhash (b\<lparr>tb_voice_id := voice_id\<rparr>))"


subsection \<open>A reservation is queued at most once\<close>

lemma reserve_or_get_out:
  "reserve_or_get T now key k h None t =
    (case idem_get T now key t of
       Some row \<Rightarrow> if jr_request_hash row \<noteq> h then Inl (IdempotencyConflict row) else Inr ((row, False), t)
     | None \<Rightarrow> if key \<in> jr_request_id ` set t then Inl (StoreError IntegrityError)
               else Inr ((new_job_row T now key k h None, True), t @ [new_job_row T now key k h None]))"
proof (cases "idem_get T now key t")
  case None
  then show ?thesis by (simp add: reserve_or_get_new)
next
  case (Some row)
  then show ?thesis by (simp add: reserve_or_get_def reserve_or_get_among_def)
qed

lemma with_jobs_queue [simp]: "gs_queue (with_jobs f s) = gs_queue s"
  by (simp add: with_jobs_def Let_def)

lemma bindA_step: "m s = (Inr x, s') \<Longrightarrow> bindA m f s = f x s'" "m s = (Inl e, s') \<Longrightarrow> bindA m f s = (Inl e, s')"
  by (simp_all add: bindA_def)

lemma seqA_step: "m s = (Inr x, s') \<Longrightarrow> seqA m f s = f s'" "m s = (Inl e, s') \<Longrightarrow> seqA m f s = (Inl e, s')"
  by (simp_all add: seqA_def bindA_def)

lemma seqA_other: "fresh s \<Longrightarrow> seqA (other_sessions f) m s = m (with_jobs f s)"
  by (simp add: seqA_def bindA_def other_sessions_fresh)

lemma reserve_tail:
  "bindA (reserve_in_session E cx rid h oc) (\<lambda>(row, reserved_new). seqA commit
      (seqA (if reserved_new then submit_or_502 E cx rid job else ret ()) (ret x))) (with_jobs f s)
    = (let t = f (gd_jobs (gs_db s)); new = new_job_row (cx_tenant_id cx) (ge_now E) rid (cx_api_key_id cx) h None
       in case idem_get (cx_tenant_id cx) (ge_now E) rid t of
            Some row \<Rightarrow> if jr_request_hash row \<noteq> h then (Inl (oc row), with_jobs f s) else (Inr x, with_jobs f s)
          | None \<Rightarrow>
              if rid \<in> jr_request_id ` set t then (Inl (Crash IntegrityError), with_jobs f s)
              else if ge_xadd_ok E then (Inr x, (with_jobs (\<lambda>_. t @ [new]) s)\<lparr>gs_queue := gs_queue s @ [job]\<rparr>)
              else (Inl (Status 502 ''failed to enqueue job''), with_jobs (\<lambda>_. t) s))"
proof -
  have db: "gs_db (with_jobs f s) = (gs_db s)\<lparr>gd_jobs := f (gd_jobs (gs_db s))\<rparr>"
    "gs_saved (with_jobs f s) = gs_db (with_jobs f s)" by (simp_all add: with_jobs_def Let_def)
  show ?thesis
    by (cases "idem_get (cx_tenant_id cx) (ge_now E) rid (f (gd_jobs (gs_db s)))")
      (simp_all add: bindA_def seqA_def reserve_in_session_out reserve_or_get_out db submit_or_502_out
        ret_def commit_def modifyA_def Let_def delete_reserved with_jobs_def)
qed

lemma enqueue_sync_out:
  assumes "fresh s"
  shows "enqueue_sync E cx rh ah h b s =
    (if \<not> int (length (tb_text b)) \<le> ge_max_chars E then (Inl (Status 400 ''text exceeds max_chars''), s)
     else case vet_result cx b (gs_db s) of
       Inl e \<Rightarrow> (Inl e, s)
     | Inr (v, p) \<Rightarrow>
         (case check_queue_depth_or_503 E cx s of
            (Inl e, s1) \<Rightarrow> (Inl e, s1)
          | (Inr _, s1) \<Rightarrow>
              (let rid = request_id_for E rh; T = cx_tenant_id cx; s2 = with_jobs (ge_others E) s;
                   t = ge_others E (gd_jobs (gs_db s)); new = new_job_row T (ge_now E) rid (cx_api_key_id cx) h None
               in case idem_get T (ge_now E) rid t of
                    Some row \<Rightarrow>
                      if jr_request_hash row \<noteq> h then (Inl (Status 409 ''X-Request-Id reuse with different body''), s2)
                      else (Inr (rid, v, p), s2)
                  | None \<Rightarrow>
                      if rid \<in> jr_request_id ` set t then (Inl (Crash IntegrityError), s2)
                      else if ge_xadd_ok E
                      then (Inr (rid, v, p), (with_jobs (\<lambda>_. t @ [new]) s)\<lparr>gs_queue := gs_queue s
                              @ [payload_for E cx rid v p ah (b\<lparr>tb_params := None\<rparr>)]\<rparr>)
                      else (Inl (Status 502 ''failed to enqueue job''), with_jobs (\<lambda>_. t) s))))"
proof (cases "vet_result cx b (gs_db s)")
  case (Inl e)
  then show ?thesis
    by (simp add: enqueue_sync_def require_def seqA_step(1) [of _ _ "()"] seqA_step(2) ret_def throw_def
        bindA_step(2) vet_request_out)
next
  case (Inr vp)
  obtain v p where vp: "vp = (v, p)" by (cases vp)
  obtain r s1 where q: "check_queue_depth_or_503 E cx s = (r, s1)" by fastforce
  have head: "enqueue_sync E cx rh ah h b s = (case r of Inl e \<Rightarrow> (Inl e, s1) | Inr _ \<Rightarrow> seqA (other_sessions (ge_others E))
      (bindA (reserve_in_session E cx (request_id_for E rh) h (\<lambda>_. Status 409 ''X-Request-Id reuse with different body''))
        (\<lambda>(row, reserved_new). seqA commit
          (seqA (if reserved_new then submit_or_502 E cx (request_id_for E rh)
                   (payload_for E cx (request_id_for E rh) v p ah (b\<lparr>tb_params := None\<rparr>)) else ret ())
             (ret (request_id_for E rh, v, p))))) s1)"
    if "int (length (tb_text b)) \<le> ge_max_chars E"
    using that Inr vp q
    by (cases r) (simp_all add: enqueue_sync_def require_def ret_def seqA_step bindA_step vet_request_out Let_def)
  show ?thesis
  proof (cases r)
    case (Inl e)
    then show ?thesis using head Inr vp q
      by (simp add: enqueue_sync_def require_def throw_def seqA_step(2) Let_def)
  next
    case Ok: (Inr u)
    then have "s1 = s" using q check_queue_depth_same by blast
    then show ?thesis using head Ok Inr vp q
      by (simp add: seqA_other [OF assms] reserve_tail Let_def split: option.split)
        (simp add: enqueue_sync_def require_def throw_def seqA_step(2))
  qed
qed


lemma synthesize_state: "snd (synthesize E X cx rh ah h b s) = snd (enqueue_sync E cx rh ah h b s)"
  by (auto simp: synthesize_def bindA_def ret_def throw_def split: sum.split prod.split read_end.split)

lemma synthesize_stream_state:
  "gs_queue (snd (synthesize_stream E X cx rh ah h b s)) = gs_queue (snd (enqueue_sync E cx rh ah h b s))
   \<and> gd_jobs (gs_saved (snd (synthesize_stream E X cx rh ah h b s))) = gd_jobs (gs_saved (snd (enqueue_sync E cx rh ah h b s)))"
  by (auto simp: synthesize_stream_def bindA_def seqA_def ret_def other_usages_def modifyA_def Let_def split: sum.split prod.split)

lemma enqueue_sync_once:
  assumes "fresh s" and "gs_queue (snd (enqueue_sync E cx rh ah h b s)) \<noteq> gs_queue s"
  shows "\<exists>v p. vet_result cx b (gs_db s) = Inr (v, p) \<and>
    (let rid = request_id_for E rh; t = ge_others E (gd_jobs (gs_db s))
     in rid \<notin> jr_request_id ` set t
        \<and> enqueue_sync E cx rh ah h b s = (Inr (rid, v, p),
            (with_jobs (\<lambda>_. t @ [new_job_row (cx_tenant_id cx) (ge_now E) rid (cx_api_key_id cx) h None]) s)
              \<lparr>gs_queue := gs_queue s @ [payload_for E cx rid v p ah (b\<lparr>tb_params := None\<rparr>)]\<rparr>))"
proof -
  have dep: "gs_queue s1 = gs_queue s" if "check_queue_depth_or_503 E cx s = (x, s1)" for x s1
    using that by (auto simp: check_queue_depth_out logged_def Let_def split: option.splits prod.splits bool.splits)
  show ?thesis
    using assms(2) unfolding enqueue_sync_out [OF assms(1)]
    by (auto simp: Let_def dep split: if_splits sum.splits prod.splits option.splits)
qed


subsection \<open>The client hears the archived audio\<close>

lemma request_id_range: "ge_uuid E 0 < 2 ^ 128 \<Longrightarrow> request_id_for E rh < 2 ^ 128"
  by (auto simp: request_id_for_def split: option.split sum.split dest: uuid_parse_range)

lemma sync_wav_response:
  assumes "enqueue_sync E cx rh ah h b s = (Inr (rid, v, p), s1)"
    and "collect_pcm_until_final (se_polls X) = Inr (pcm, k, None)" and "tb_audio_format b = ''wav''"
    and "0 < se_sample_rate X" "se_sample_rate X < 2 ^ 31" "length pcm + 36 < 2 ^ 32"
  shows "\<exists>resp. synthesize E X cx rh ah h b s = (Inr (Some resp), s1)
     \<and> read_wav (rp_body resp) = Some (1, nat (se_sample_rate X), 16, pcm) \<and> rp_media resp = ''audio/wav''
     \<and> rp_request_id resp = rid \<and> rp_sentences resp = Some k"
proof -
  obtain w where w: "pcm16_to_wav_bytes pcm (se_sample_rate X) 1 = Inr w"
    using wav_file_total [of 1 "se_sample_rate X" pcm] assms(4-6) by auto
  show ?thesis
    using wav_file_read [OF w] assms(1-3) w
    by (simp add: synthesize_def bindA_def sync_response_def encoded_body_def bindS_def Let_def ret_def)
qed

text \<open>
  C6: POST /v1/tts end to end. When the request is queued, a worker finishes the job, and
  the collector polls the result stream before its deadline, the response is a WAV file whose
  audio is exactly the PCM in the archive under the request id, and whose sentence count is
  the billed one.
\<close>

theorem sync_client_hears:
  assumes "fresh s" and "enqueue_sync E cx rh ah h b s = (Inr (rid, v, p), s1)" and "gs_queue s1 \<noteq> gs_queue s"
    and "ge_uuid E 0 < 2 ^ 128" "cx_tenant_id cx < 2 ^ 128" "cx_api_key_id cx < 2 ^ 128"
    and "0 \<le> attempt" and "process_one_job W (last (gs_queue s1)) attempt q = (Inr (), q')"
    and "list_all result_ok (ps_stream q')" and "length (ps_stream q') \<le> 64 * n"
    and "se_polls X = replicate n \<lparr>po_expired = False, po_stream = entries_of dr 1 (ps_stream q')\<rparr>"
    and "tb_audio_format b = ''wav''" and "0 < se_sample_rate X" "se_sample_rate X < 2 ^ 31"
    and "length (snd (last (ps_archived q'))) + 36 < 2 ^ 32"
  shows "\<exists>resp pcm k. synthesize E X cx rh ah h b s = (Inr (Some resp), s1)
     \<and> last (ps_archived q') = (rid, pcm) \<and> read_wav (rp_body resp) = Some (1, nat (se_sample_rate X), 16, pcm)
     \<and> rp_sentences resp = Some k
     \<and> map_option ur_sentence_count (usage_find (cx_tenant_id cx) rid (ps_usages q')) = Some (int k)"
proof -
  have "gs_queue (snd (enqueue_sync E cx rh ah h b s)) \<noteq> gs_queue s" using assms(2,3) by simp
  from enqueue_sync_once [OF assms(1) this] assms(2)
  have rid: "rid = request_id_for E rh"
    and job: "last (gs_queue s1) = payload_for E cx rid v p ah (b\<lparr>tb_params := None\<rparr>)"
    by (auto simp: Let_def)
  have "job_ids (last (gs_queue s1)) = Inr (rid, cx_tenant_id cx, cx_api_key_id cx)"
    unfolding job using request_id_range [OF assms(4), of rh] assms(5,6) by (intro job_ids_payload) (simp_all add: rid)
  from finished_job_collected [OF this assms(7-10), of dr] obtain pcm k where
    "last (ps_archived q') = (rid, pcm)" "collect_pcm_until_final (se_polls X) = Inr (pcm, k, None)"
    "map_option ur_sentence_count (usage_find (cx_tenant_id cx) rid (ps_usages q')) = Some (int k)"
    unfolding assms(11) by blast
  then show ?thesis
    using sync_wav_response [OF assms(2) _ assms(12-14), of pcm k] assms(15) by auto
qed


subsection \<open>Both routes carry the same audio\<close>

lemma collect_one_attempt:
  assumes "\<forall>c\<in>set cs. tr_attempt c = a" "co_attempt st = a" "co_error st = None"
  shows "co_pcm (collect_chunks st cs) = co_pcm st @ concat (map tr_pcm_bytes (takeWhile (\<lambda>c. \<not> is_error c \<and> \<not> tr_final c) cs))"
    and "co_sentences (collect_chunks st cs) = co_sentences st + length (takeWhile (\<lambda>c. \<not> is_error c \<and> \<not> tr_final c) cs)"
  using assms by (induction cs arbitrary: st) (simp_all add: Let_def)

text \<open>
  C27: the streaming route plays what the synchronous one returns. On a stream that ends
  without a retry in between, the buffers of \<open>_yield_pcm\<close> put together are the collector's
  body, one buffer per counted sentence; behind the streaming header they read back as that
  same audio, and the pass-through encoding is the audio itself.
\<close>

theorem stream_equals_sync:
  assumes "collect_pcm_until_final (se_polls X) = Inr (pcm, k, err)"
    and "\<forall>c\<in>set (fst (consume_result_stream (se_polls X))). tr_attempt c = a" and "0 \<le> a"
    and "0 < se_sample_rate X" "se_sample_rate X < 2 ^ 31"
  shows "concat (fst (yield_pcm (se_polls X))) = pcm \<and> length (fst (yield_pcm (se_polls X))) = k
     \<and> read_wav (concat (yield_wav X)) = Some (1, nat (se_sample_rate X), 16, pcm)
     \<and> concat (yield_encoded X ''pcm16'') = pcm"
proof -
  let ?ok = "\<lambda>c. \<not> is_error c \<and> \<not> tr_final c"
  obtain cs where cs: "consume_result_stream (se_polls X) = (cs, Finished)"
    and pcm: "pcm = co_pcm (collect_chunks collector_start cs)" "k = co_sentences (collect_chunks collector_start cs)"
    using assms(1) by (auto simp: collect_pcm_until_final_def Let_def split: prod.splits read_end.splits)
  have one: "co_pcm (collect_chunks collector_start cs) = concat (map tr_pcm_bytes (takeWhile ?ok cs))
    \<and> co_sentences (collect_chunks collector_start cs) = length (takeWhile ?ok cs)"
  proof (cases cs)
    case Nil
    then show ?thesis by (simp add: collector_start_def)
  next
    case (Cons c ds)
    have att: "\<forall>c\<in>set cs. tr_attempt c = a" using assms(2) cs by simp
    have "collect_chunks collector_start cs = collect_chunks (collector_start\<lparr>co_attempt := a\<rparr>) cs"
      using att assms(3) by (simp add: Cons collector_start_def Let_def)
    then show ?thesis using collect_one_attempt [OF att, of "collector_start\<lparr>co_attempt := a\<rparr>"]
      by (simp add: collector_start_def)
  qed
  have bufs: "yield_pcm (se_polls X) = (map tr_pcm_bytes (takeWhile ?ok cs), True)"
    by (simp add: yield_pcm_def cs)
  have pass: "concat (encode_loop pcm16_passthrough r fed ps) = concat ps" for r fed ps
    by (induction ps arbitrary: fed) (simp_all add: pcm16_passthrough_def out_if_def)
  obtain hd where hd: "wav_stream_header (se_sample_rate X) = Inr hd"
    using wav_stream_total [OF assms(4,5)] by blast
  show ?thesis
    using wav_stream_read [OF hd, of pcm] one
    by (simp add: bufs pcm yield_wav_def hd yield_encoded_def get_stream_encoder_def pass)
qed

subsection \<open>When the encoder fails\<close>

text \<open>
  The synchronous fallback answers a WAV body, but the format header, documented as the
  format actually returned, still names the codec; the streaming fallback sends bare PCM
  under the codec's media type.
\<close>

theorem fallback_mislabelled:
  assumes "enqueue_sync E cx rh ah h b s = (Inr (rid, v, p), s1)" and "collect_pcm_until_final (se_polls X) = Inr (pcm, k, None)"
    and "tb_audio_format b = ''mp3''" and "\<not> en_start_ok (se_mp3 X)" and "pcm16_to_wav_bytes pcm (se_sample_rate X) 1 = Inr w"
  shows "\<exists>r. synthesize E X cx rh ah h b s = (Inr (Some r), s1) \<and> rp_body r = w \<and> rp_media r = ''audio/wav''
     \<and> rp_output_format r = ''mp3''"
    and "yield_encoded X ''mp3'' = fst (yield_pcm (se_polls X)) \<and> media_type ''mp3'' = ''audio/mpeg''"
  using assms
  by (simp_all add: synthesize_def bindA_def sync_response_def encoded_body_def bindS_def Let_def ret_def
      get_stream_encoder_def encode_whole_def yield_encoded_def media_type_def split: prod.split)


subsection \<open>A concrete request\<close>

lemma gw_rid [simp]: "request_id_for gw_env (Some (uuid_str 5)) = 5"
  using uuid_parse_str [of 5] by (simp add: request_id_for_def uuid_str_def Let_def)

lemma gw_env_max [simp]: "ge_max_chars gw_env = 4000" "ge_others gw_env = (\<lambda>t. t)" "ge_uuid gw_env 0 = 0"
  by (simp_all add: gw_env_def)

lemma gw_no_params [simp]: "gw_body\<lparr>tb_params := None\<rparr> = gw_body" "tb_audio_format gw_body = ''wav''"
  by (simp_all add: gw_body_def)

lemma gw_enqueue:
  "enqueue_sync gw_env gw_cx (Some (uuid_str 5)) None ''h'' gw_body gw_state
     = (Inr (5, gw_voice, default_model), (with_jobs (\<lambda>_. [gw_row]) gw_state)\<lparr>gs_queue := [gw_job]\<rparr>)"
  by (simp add: enqueue_sync_out gw_vet gw_admits idem_get_def gw_row_def gw_job_def Let_def)

definition gw_senv :: senv where
  "gw_senv = \<lparr>se_polls = [\<lparr>po_expired = False,
       po_stream = entries_of False 1 (ps_stream (snd (process_one_job sample_env gw_job 1 gw_tables)))\<rparr>],
     se_sample_rate = 48000, se_elapsed_ms = 20, se_mp3 = pcm16_passthrough\<lparr>en_start_ok := False\<rparr>,
     se_opus = pcm16_passthrough, se_first_byte_ns = 3000000, se_pulled = 9, se_usage_up = True\<rparr>"

lemma gw_stream:
  "ps_stream (snd (process_one_job sample_env gw_job 1 gw_tables))
     = audio_chunks (uuid_str 5) 1 0 [([1, 0, 2, 0], Some [77]), ([3, 0], None)] @ [final_chunk (uuid_str 5) 1 2]"
  "ps_archived (snd (process_one_job sample_env gw_job 1 gw_tables)) = [(5, [1, 0, 2, 0, 3, 0])]"
  by (simp_all add: run_simps gw_ids gw_tables_def)

lemma gw_run_eq: "process_one_job sample_env gw_job 1 gw_tables = (Inr (), snd (process_one_job sample_env gw_job 1 gw_tables))"
  using gw_run by (metis prod.collapse)


theorem sync_client_hears_witness:
  "\<exists>resp s1. synthesize gw_env gw_senv gw_cx (Some (uuid_str 5)) None ''h'' gw_body gw_state = (Inr (Some resp), s1)
     \<and> read_wav (rp_body resp) = Some (1, 48000, 16, [1, 0, 2, 0, 3, 0])"
proof -
  have "process_one_job sample_env (last (gs_queue ((with_jobs (\<lambda>_. [gw_row]) gw_state)\<lparr>gs_queue := [gw_job]\<rparr>))) 1 gw_tables
      = (Inr (), snd (process_one_job sample_env gw_job 1 gw_tables))"
    using gw_run_eq by simp
  from sync_client_hears [OF gw_fresh gw_enqueue _ _ _ _ _ this, of 1 gw_senv False]
  show ?thesis
    by (simp add: gw_stream result_ok_def audio_chunk_def final_chunk_def scalar_def gw_senv_def) blast
qed

lemma gw_consume:
  "consume_result_stream (se_polls gw_senv)
     = (audio_chunks (uuid_str 5) 1 0 [([1, 0, 2, 0], Some [77]), ([3, 0], None)] @ [final_chunk (uuid_str 5) 1 2], Finished)"
proof -
  have "consume_result_stream (replicate 1 \<lparr>po_expired = False, po_stream = entries_of False 1
        (audio_chunks (uuid_str 5) 1 0 [([1, 0, 2, 0], Some [77]), ([3, 0], None)]
          @ [final_chunk (uuid_str 5) 1 (int (length [([1, 0, 2, 0::nat], Some [77::nat]), ([3, 0], None)]))])\<rparr>)
      = (audio_chunks (uuid_str 5) 1 0 [([1, 0, 2, 0], Some [77]), ([3, 0], None)]
          @ [final_chunk (uuid_str 5) 1 (int (length [([1, 0, 2, 0::nat], Some [77::nat]), ([3, 0], None)]))], Finished)"
    by (rule consume_whole) (simp_all add: piece_ok_def scalar_def)
  then show ?thesis by (simp add: gw_senv_def gw_stream)
qed

theorem stream_equals_sync_witness:
  "read_wav (concat (yield_wav gw_senv)) = Some (1, 48000, 16, [1, 0, 2, 0, 3, 0])"
proof -
  have "collect_pcm_until_final (se_polls gw_senv) = Inr ([1, 0, 2, 0, 3, 0], 2, None)"
    by (simp add: collect_pcm_until_final_def gw_consume)
      (simp add: collector_start_def Let_def is_error_def final_chunk_def audio_chunk_def)
  moreover have "se_sample_rate gw_senv = 48000" by (simp add: gw_senv_def)
  ultimately show ?thesis using stream_equals_sync [of gw_senv _ 2 None 1] by (simp add: gw_consume)
qed

end
