(* ===== verification/Gateway_Voices.thy ===== *)
theory Gateway_Voices
  imports Gateway_Jobs Audio_Post
begin

text \<open>
  The voice routes of \<^verbatim>\<open>src/server/main.py\<close>: the catalog with its masking of foreign
  voices, enrollment (with the reference file of \<^verbatim>\<open>src/registry/audio_io.py\<close>), metadata edits,
  deletion, and the tenant's data deletion requests.
\<close>

subsection \<open>The public view\<close>

record voice_public =
  vo_voice_id :: string
  vo_display_name :: ustr
  vo_language :: string
  vo_gender :: string
  vo_style_tags :: "ustr list"
  vo_reference_seconds :: rat
  vo_source :: string
  vo_license_kind :: string
  vo_license_ref :: "string option"
  vo_visibility :: string
  vo_lifecycle_state :: string
  vo_frozen_reason :: "ustr option"
  vo_purge_after_at :: "millis option"
  vo_eval_metrics :: "dict option"
  vo_created_at :: millis
  vo_created_by :: "uuid option" \<comment> \<open>\<open>None\<close> is the text "system"\<close>
  vo_description :: "ustr option"
  vo_labels :: "ustr list option"
  vo_preview_url :: "string option"
  vo_voice_settings_defaults :: "dict option"

text \<open>
  \<open>_voice_to_public\<close>; \<open>None\<close> as viewer is an internal caller. Defaults that do not parse as
  \<open>VoiceSettings\<close> are dropped.
\<close>

definition settings_fields :: "string list" where
  "settings_fields = [''stability'', ''similarity_boost'', ''style'', ''use_speaker_boost'', ''speed'', ''pitch'']"

definition voice_to_public :: "uuid option \<Rightarrow> voice \<Rightarrow> voice_public" where
  "voice_to_public viewer v =
     (let vsd = (case v_settings_defaults v of
                   Some (x # xs) \<Rightarrow> if voice_settings_ok (Some (x # xs)) then Some (filter (\<lambda>(k, _). k \<in> set settings_fields) (x # xs)) else None
                 | _ \<Rightarrow> None);
          is_owner = (viewer = Some (v_owner v));
          open_view = (viewer = None \<or> is_owner)
      in \<lparr>vo_voice_id = v_voice_id v, vo_display_name = v_display_name v, vo_language = v_language v,
          vo_gender = v_gender v, vo_style_tags = v_style_tags v, vo_reference_seconds = v_reference_seconds v,
          vo_source = v_source v, vo_license_kind = v_license_kind v, vo_license_ref = v_license_ref v,
          vo_visibility = v_visibility v, vo_lifecycle_state = lifecycle_state v,
          vo_frozen_reason = (if open_view then v_frozen_reason v else None),
          vo_purge_after_at = v_purge_after_at v,
          vo_eval_metrics = (if open_view then v_eval_metrics v else None),
          vo_created_at = v_created_at v,
          vo_created_by = (if open_view then v_created_by_key_id v else None),
          vo_description = v_description v,
          vo_labels = (case v_labels v of Some (l # ls) \<Rightarrow> Some (l # ls) | _ \<Rightarrow> None),
          vo_preview_url = v_preview_url v, vo_voice_settings_defaults = vsd\<rparr>)"

record voice_page =
  pg_voices :: "voice_public list"
  pg_count :: nat
  pg_limit :: int
  pg_offset :: int
  pg_total :: nat

definition list_voices :: "auth_context \<Rightarrow> int \<Rightarrow> int \<Rightarrow> voice_page gact" where
  "list_voices cx limit offset =
     seqA (require (1 \<le> limit \<and> limit \<le> 200) (Status 400 ''limit must be in [1, 200]''))
     (seqA (require (0 \<le> offset) (Status 400 ''offset must be >= 0''))
     (bindA (get_db (\<lambda>d. list_accessible (cx_tenant_id cx) False (gd_access d) (gd_voices d))) (\<lambda>all.
       let page = take (nat limit) (drop (nat offset) all);
           voices = map (voice_to_public (Some (cx_tenant_id cx))) page
       in ret \<lparr>pg_voices = voices, pg_count = length voices, pg_limit = limit, pg_offset = offset,
               pg_total = length all\<rparr>)))"

definition get_voice :: "auth_context \<Rightarrow> string \<Rightarrow> voice_public gact" where
  "get_voice cx slug =
     bindA (accessible_or_404 cx slug) (\<lambda>v. ret (voice_to_public (Some (cx_tenant_id cx)) v))"

subsection \<open>Edits by the owner\<close>

text \<open>A repository call on the voice table; \<open>None\<close> is answered as 404.\<close>

definition on_voices ::
  "(voice_table \<Rightarrow> py_error + voice option \<times> voice_table) \<Rightarrow> voice gact" where
  "on_voices f =
     bindA (in_db (\<lambda>d. case f (gd_voices d) of
                         Inl e \<Rightarrow> Inl e | Inr (r, t) \<Rightarrow> Inr (r, d\<lparr>gd_voices := t\<rparr>))) (\<lambda>r.
       case r of None \<Rightarrow> throw (Status 404 ''voice not found'') | Some v \<Rightarrow> ret v)"

text \<open>\<open>except ValueError\<close>, as the client's error.\<close>

definition bad_request_on_value_error :: "'a gact \<Rightarrow> 'a gact" where
  "bad_request_on_value_error m =
     catchA m (\<lambda>e. case e of Crash (ValueError msg) \<Rightarrow> throw (Status 400 msg) | _ \<Rightarrow> throw e)"

definition empty_patch :: voice_patch where
  "empty_patch = \<lparr>vp_display_name = None, vp_description = None, vp_labels = None, vp_preview_url = None,
     vp_settings_defaults = None, vp_style_tags = None, vp_visibility = None\<rparr>"

definition update_voice :: "auth_context \<Rightarrow> string \<Rightarrow> voice_patch \<Rightarrow> voice_public gact" where
  "update_voice cx slug p =
     seqA (validate_voice_id slug)
     (seqA (require (p \<noteq> empty_patch) (Status 400 ''patch body is empty''))
     (bindA (bad_request_on_value_error (on_voices (update_metadata (cx_tenant_id cx) slug p))) (\<lambda>v.
      seqA commit (ret (voice_to_public (Some (cx_tenant_id cx)) v)))))"

definition delete_voice :: "genv \<Rightarrow> auth_context \<Rightarrow> string \<Rightarrow> string gact" where
  "delete_voice E cx slug =
     seqA (validate_voice_id slug)
     (bindA (on_voices (soft_delete (cx_tenant_id cx) (ge_now E) slug)) (\<lambda>v.
      seqA (audit (audit_row_for E cx ''voice.delete'' ''success'' (Some ''voice'')
                     (Some (map char_of (uuid_str (v_id v)))) []))
      (seqA commit (ret slug))))"

subsection \<open>Slugs from display names\<close>

definition alnum :: "nat \<Rightarrow> bool" where
  "alnum c \<longleftrightarrow> (97 \<le> c \<and> c \<le> 122) \<or> (48 \<le> c \<and> c \<le> 57)"

text \<open>\<open>re.sub(r"[^a-z0-9]+", "-", s)\<close>\<close>

fun dash_runs :: "bool \<Rightarrow> ustr \<Rightarrow> string" where
  "dash_runs in_run [] = []"
| "dash_runs in_run (c # cs) =
     (if alnum c then char_of c # dash_runs False cs
      else if in_run then dash_runs True cs else CHR ''-'' # dash_runs True cs)"

definition rstrip_dash :: "string \<Rightarrow> string" where
  "rstrip_dash s = rev (dropWhile (\<lambda>c. c = CHR ''-'') (rev s))"

definition strip_dash :: "string \<Rightarrow> string" where
  "strip_dash s = rstrip_dash (dropWhile (\<lambda>c. c = CHR ''-'') s)"

text \<open>\<open>lower\<close> is \<open>str.lower\<close>, \<open>token\<close> the six hex digits of \<open>secrets.token_hex(3)\<close>.\<close>

definition slugify_voice_id :: "(ustr \<Rightarrow> ustr) \<Rightarrow> string \<Rightarrow> ustr \<Rightarrow> string" where
  "slugify_voice_id lower token display_name =
     (let cleaned = strip_dash (dash_runs False (lower display_name));
          cleaned = (if cleaned = [] then ''voice'' else cleaned);
          base = rstrip_dash (take 55 cleaned);
          base = (if base = [] then ''voice'' else base)
      in base @ ''-'' @ token)"


subsection \<open>Reference audio\<close>

text \<open>
  What enrollment reads besides the form: settings, librosa's decoder at the target rate,
  soundfile's writer, SHA-256, fresh ids.
\<close>

record venv =
  ve_max_mb :: int
  ve_min_seconds :: rat
  ve_trim_seconds :: rat
  ve_sample_rate :: int
  ve_ref_dir :: string
  ve_decode :: "bytes \<Rightarrow> py_error + rat list"
  ve_write :: "rat list \<Rightarrow> bytes"
  ve_sha256 :: "bytes \<Rightarrow> string"
  ve_voice_uuid :: uuid
  ve_consent_uuid :: uuid
  ve_lower :: "ustr \<Rightarrow> ustr"
  ve_token :: string

definition set_file :: "string \<Rightarrow> bytes \<Rightarrow> unit gact" where
  "set_file path b = modifyA (\<lambda>s. s\<lparr>gs_files := (gs_files s)(path \<mapsto> b)\<rparr>)"

definition unlink :: "string \<Rightarrow> unit gact" where
  "unlink path = modifyA (\<lambda>s. s\<lparr>gs_files := (gs_files s)(path := None)\<rparr>)"

definition peak :: "rat list \<Rightarrow> rat" where
  "peak audio = Max (abs ` set audio)"

text \<open>Decode, trim, normalise the peak to 0.95, write; the duration that was written.\<close>

definition trim_and_resample_to_wav :: "venv \<Rightarrow> bytes \<Rightarrow> string \<Rightarrow> rat gact" where
  "trim_and_resample_to_wav V src path =
     (case ve_decode V src of
        Inl e \<Rightarrow> throw (Crash e)
      | Inr audio \<Rightarrow>
          if audio = [] then throw (Crash (ValueError ''decoded audio is empty''))
          else
            (let audio = take (nat \<lfloor>ve_trim_seconds V * of_int (ve_sample_rate V)\<rfloor>) audio
             in if audio = [] then throw (Crash (ValueError ''zero-size array''))
                else (let audio = (if peak audio > 0 then map (\<lambda>x. x * ((95/100) / peak audio)) audio else audio)
                      in seqA (set_file path (ve_write V audio))
                           (ret (of_nat (length audio) / of_int (ve_sample_rate V))))))"

text \<open>\<open>Path(name).suffix\<close> in lower case.\<close>

definition lower_ascii :: "string \<Rightarrow> string" where
  "lower_ascii s = map (\<lambda>c. if 65 \<le> (of_char c :: nat) \<and> (of_char c :: nat) \<le> 90 then char_of ((of_char c :: nat) + 32) else c) s"

definition path_suffix :: "string \<Rightarrow> string" where
  "path_suffix name =
     (let comps = filter (\<lambda>p. p \<noteq> [] \<and> p \<noteq> ''.'') (split_on (CHR ''/'') name);
          base = (if comps = [] then [] else last comps);
          ext = rev (takeWhile (\<lambda>c. c \<noteq> CHR ''.'') (rev base))
      in if ext = [] \<or> length ext = length base \<or> length ext + 1 = length base then []
         else CHR ''.'' # ext)"

definition allowed_audio_suffixes :: "string set" where
  "allowed_audio_suffixes = {''.wav'', ''.mp3'', ''.flac'', ''.ogg'', ''.m4a''}"

definition upload_suffix :: "string option \<Rightarrow> string" where
  "upload_suffix filename =
     (let sfx = lower_ascii (path_suffix (case filename of None \<Rightarrow> ''ref.wav'' | Some f \<Rightarrow> if f = [] then ''ref.wav'' else f))
      in if sfx = [] then ''.wav'' else sfx)"

subsection \<open>Enrollment\<close>

record enroll_form =
  ef_voice_id :: string
  ef_display_name :: ustr
  ef_data :: bytes
  ef_filename :: "string option"
  ef_language :: string
  ef_gender :: string
  ef_style_tags :: ustr
  ef_license_kind :: string
  ef_consent_kind :: string
  ef_license_ref :: "string option"
  ef_evidence_uri :: "string option"
  ef_evidence_sha256 :: "string option"
  ef_evidence_notes :: "ustr option"
  ef_description :: "ustr option"
  ef_labels :: "ustr option"
  ef_visibility :: string
  ef_remove_noise :: bool

definition enroll_target :: "venv \<Rightarrow> auth_context \<Rightarrow> string \<Rightarrow> string" where
  "enroll_target V cx slug =
     ve_ref_dir V @ ''/tenants/'' @ map char_of (uuid_str (cx_tenant_id cx)) @ ''/'' @ slug @ ''.wav''"

definition comma_list :: "ustr \<Rightarrow> ustr list" where
  "comma_list s = filter (\<lambda>t. t \<noteq> []) (map strip_spaces (split_on 44 s))"

definition license_kinds :: "string set" where
  "license_kinds = {''example'', ''synthetic'', ''user-owned'', ''talent-contract'', ''public-figure'', ''partner-licensed''}"

definition consent_kinds :: "string set" where
  "consent_kinds = {''tenant-asserted'', ''recorded-statement'', ''signed-contract'', ''estate-permission''}"

text \<open>A refusal after the file was written takes the file away again.\<close>

definition refuse_unless :: "bool \<Rightarrow> string \<Rightarrow> http_error \<Rightarrow> unit gact" where
  "refuse_unless ok path e = (if ok then ret () else seqA (unlink path) (throw e))"

definition vet_upload :: "venv \<Rightarrow> enroll_form \<Rightarrow> unit gact" where
  "vet_upload V f =
     seqA (validate_voice_id (ef_voice_id f))
     (seqA (require (ef_visibility f \<in> visibility_values) (Status 400 ''invalid visibility''))
     (seqA (require (int (length (ef_data f)) \<le> ve_max_mb V * 1024 * 1024) (Status 413 ''reference audio too large''))
     (seqA (require (1024 \<le> length (ef_data f)) (Status 400 ''reference audio too small (<1 KB)''))
           (require (upload_suffix (ef_filename f) \<in> allowed_audio_suffixes) (Status 400 ''audio suffix not allowed'')))))"

text \<open>The license and consent rules, in the order of the code.\<close>

definition vet_license :: "genv \<Rightarrow> enroll_form \<Rightarrow> string \<Rightarrow> unit gact" where
  "vet_license E f path =
     seqA (refuse_unless (ef_license_kind f \<in> license_kinds) path (Status 400 ''invalid license_kind''))
     (seqA (refuse_unless (ef_consent_kind f \<in> consent_kinds) path (Status 400 ''invalid consent_kind''))
     (seqA (refuse_unless (\<not> (ef_consent_kind f = ''tenant-asserted'' \<and> ef_evidence_uri f \<noteq> None)) path
              (Status 400 ''tenant-asserted consent must NOT carry evidence_uri''))
     (seqA (refuse_unless (ef_consent_kind f = ''tenant-asserted'' \<or> truthy (ef_evidence_uri f)) path
              (Status 400 ''consent_kind requires consent_evidence_uri''))
     (if ef_license_kind f \<noteq> ''talent-contract'' then ret ()
      else case ef_license_ref f of
             None \<Rightarrow> refuse_unless False path (Status 400 ''talent-contract requires license_ref'')
           | Some ref \<Rightarrow>
               if ref = [] then refuse_unless False path (Status 400 ''talent-contract requires license_ref'')
               else case uuid_parse (cps ref) of
                      Inl e \<Rightarrow> refuse_unless False path (Status 400 ''license_ref is not a valid UUID'')
                    | Inr cid \<Rightarrow>
                        bindA (get_db (\<lambda>d. contract_get_active cid (ge_now E) (gd_contracts d))) (\<lambda>c.
                          refuse_unless (c \<noteq> None) path (Status 422 ''talent contract is not active''))))))"


definition enroll_row :: "venv \<Rightarrow> auth_context \<Rightarrow> enroll_form \<Rightarrow> string \<Rightarrow> string \<Rightarrow> rat \<Rightarrow> voice" where
  "enroll_row V cx f path sha seconds =
     \<lparr>v_id = ve_voice_uuid V, v_owner = cx_tenant_id cx, v_voice_id = ef_voice_id f,
      v_display_name = ef_display_name f, v_language = ef_language f, v_gender = ef_gender f,
      v_style_tags = comma_list (ef_style_tags f), v_reference_uri = ''file://'' @ path,
      v_reference_sha256 = sha, v_reference_seconds = seconds, v_reference_sample_rate = ve_sample_rate V,
      v_source = ''tenant-enroll'', v_license_kind = ef_license_kind f, v_license_ref = ef_license_ref f,
      v_visibility = ef_visibility f,
      v_engine_params = [(''remove_background_noise'', JBool (ef_remove_noise f))],
      v_description = ef_description f,
      v_labels = (case ef_labels f of None \<Rightarrow> None | Some l \<Rightarrow> if l = [] then None else Some (comma_list l)),
      v_preview_url = None, v_settings_defaults = None, v_adapter_uri = None, v_adapter_sha256 = None,
      v_adapter_type = None, v_watermark_key_id = None, v_watermark_enabled = True, v_eval_metrics = None,
      v_release_status = ''draft'', v_created_by_key_id = Some (cx_api_key_id cx), v_created_at = 0,
      v_deleted_at = None, v_frozen_at = None, v_frozen_reason = None, v_purge_after_at = None, v_purged_at = None\<rparr>"

definition enroll_audit :: "enroll_form \<Rightarrow> string \<Rightarrow> rat \<Rightarrow> dict" where
  "enroll_audit f sha seconds =
     [(''voice_id'', JStr (cps (ef_voice_id f))), (''reference_sha256'', JStr (cps sha)),
      (''duration_seconds'', JFloat (of_int (py_round (seconds * 1000)) / 1000)),
      (''remove_background_noise'', JBool (ef_remove_noise f)),
      (''requires_verification'', JBool (ef_consent_kind f = ''tenant-asserted'')),
      (''visibility'', JStr (cps (ef_visibility f))), (''license_kind'', JStr (cps (ef_license_kind f))),
      (''license_ref'', case ef_license_ref f of None \<Rightarrow> JNull | Some r \<Rightarrow> JStr (cps r)),
      (''consent_kind'', JStr (cps (ef_consent_kind f))),
      (''has_consent_evidence'', JBool (ef_evidence_uri f \<noteq> None))]"

text \<open>The one transaction of an enrollment: voice, first consent record, audit row.\<close>

definition persist_voice ::
  "genv \<Rightarrow> venv \<Rightarrow> auth_context \<Rightarrow> enroll_form \<Rightarrow> string \<Rightarrow> string \<Rightarrow> rat \<Rightarrow> (voice_public \<times> bool) gact" where
  "persist_voice E V cx f path sha seconds =
     bindA (in_db (\<lambda>d. case create_voice (cx_tenant_id cx) (ge_now E) (enroll_row V cx f path sha seconds) (gd_voices d) of
                         Inl e \<Rightarrow> Inl e | Inr (v, t) \<Rightarrow> Inr (v, d\<lparr>gd_voices := t\<rparr>))) (\<lambda>v.
     bindA (in_db (\<lambda>d. case consent_record (ve_consent_uuid V) (ge_now E) (v_id v) (ef_consent_kind f) ''tenant''
                              (Some (cx_api_key_id cx)) (ef_evidence_uri f) (ef_evidence_sha256 f)
                              (ef_evidence_notes f) (gd_consents d) of
                         Inl e \<Rightarrow> Inl e | Inr (c, t) \<Rightarrow> Inr (c, d\<lparr>gd_consents := t\<rparr>))) (\<lambda>c.
     seqA (audit (audit_row_for E cx ''voice.create'' ''success'' (Some ''voice'')
                    (Some (map char_of (uuid_str (v_id v)))) (enroll_audit f sha seconds)))
     (seqA commit
           (ret (voice_to_public (Some (cx_tenant_id cx)) v, ef_consent_kind f = ''tenant-asserted'')))))"

text \<open>
  \<open>_enroll_voice_impl\<close>. The file is written before it is known whether the slug is free, and
  every later refusal removes it.
\<close>

definition enroll_voice :: "genv \<Rightarrow> venv \<Rightarrow> auth_context \<Rightarrow> enroll_form \<Rightarrow> (voice_public \<times> bool) gact" where
  "enroll_voice E V cx f =
     (let path = enroll_target V cx (ef_voice_id f)
      in seqA (vet_upload V f)
         (bindA (bad_request_on_value_error (trim_and_resample_to_wav V (ef_data f) path)) (\<lambda>seconds.
          seqA (refuse_unless (ve_min_seconds V \<le> seconds) path (Status 400 ''reference audio too short''))
          (bindA (getsA (\<lambda>s. case gs_files s path of None \<Rightarrow> [] | Some b \<Rightarrow> ve_sha256 V b)) (\<lambda>sha.
           bindA (get_db (\<lambda>d. get_owned (cx_tenant_id cx) (ef_voice_id f) (gd_voices d))) (\<lambda>existing.
           seqA (refuse_unless (existing = None) path (Status 409 ''voice already exists in this workspace''))
           (seqA (vet_license E f path)
                 (persist_voice E V cx f path sha seconds))))))))"

text \<open>The vendor's alias derives a missing slug and fixes license and consent.\<close>

definition enroll_voice_alias ::
  "genv \<Rightarrow> venv \<Rightarrow> auth_context \<Rightarrow> string option \<Rightarrow> enroll_form \<Rightarrow> (voice_public \<times> bool) gact" where
  "enroll_voice_alias E V cx voice_id f =
     enroll_voice E V cx
       (f\<lparr>ef_voice_id := (if truthy voice_id then the voice_id
                          else slugify_voice_id (ve_lower V) (ve_token V) (ef_display_name f)),
          ef_license_kind := ''user-owned'', ef_consent_kind := ''tenant-asserted'', ef_license_ref := None,
          ef_evidence_uri := None, ef_evidence_sha256 := None, ef_evidence_notes := None\<rparr>)"

subsection \<open>Data deletion requests\<close>

record deletion_form =
  df_voice_slugs :: "string list"
  df_jurisdiction :: "string option"
  df_reason :: "ustr option"

definition deletion_form_ok :: "deletion_form \<Rightarrow> bool" where
  "deletion_form_ok f \<longleftrightarrow> opt_len_le 8 (df_jurisdiction f) \<and> opt_len_le 2048 (df_reason f)"

fun resolve_slugs :: "uuid \<Rightarrow> string list \<Rightarrow> voice list gact" where
  "resolve_slugs tenant [] = ret []"
| "resolve_slugs tenant (slug # slugs) =
     bindA (get_db (\<lambda>d. get_owned tenant slug (gd_voices d))) (\<lambda>v.
       case v of
         None \<Rightarrow> throw (Status 404 ''voice not owned by this tenant'')
       | Some v \<Rightarrow> bindA (resolve_slugs tenant slugs) (\<lambda>vs. ret (v # vs)))"

text \<open>Freeze and schedule each voice that is no tombstone; the count of those.\<close>

fun schedule_all :: "millis \<Rightarrow> voice list \<Rightarrow> nat gact" where
  "schedule_all now [] = ret 0"
| "schedule_all now (v # vs) =
     (if v_purged_at v \<noteq> None then schedule_all now vs
      else seqA (bindA (in_db (\<lambda>d. case schedule_purge (v_id v) now default_purge_delay_days (gd_voices d) of
                                     Inl e \<Rightarrow> Inl e | Inr (r, t) \<Rightarrow> Inr (r, d\<lparr>gd_voices := t\<rparr>))) (\<lambda>_. ret ()))
           (bindA (schedule_all now vs) (\<lambda>n. ret (n + 1))))"

definition close_or_start :: "millis \<Rightarrow> nat \<Rightarrow> deletion_request \<Rightarrow> deletion_request" where
  "close_or_start now pending r =
     (if pending = 0
      then r\<lparr>dd_status := ''completed'', dd_completed_at := Some now,
             dd_completion_notes := Some (cps ''no synthesizable voices remained for this request'')\<rparr>
      else r\<lparr>dd_status := ''in-progress''\<rparr>)"

definition create_data_deletion_request ::
  "genv \<Rightarrow> uuid \<Rightarrow> auth_context \<Rightarrow> deletion_form \<Rightarrow> deletion_request gact" where
  "create_data_deletion_request E rid cx f =
     (let T = cx_tenant_id cx in
      bindA (if df_voice_slugs f \<noteq> [] then resolve_slugs T (df_voice_slugs f)
             else get_db (\<lambda>d. filter (\<lambda>v. v_owner v = T \<and> v_purged_at v = None)
                                     (list_accessible T False (gd_access d) (gd_voices d)))) (\<lambda>resolved.
      bindA (schedule_all (ge_now E) resolved) (\<lambda>pending.
      bindA (in_db (\<lambda>d. case deletion_create (Some T) rid (ge_now E) (map (\<lambda>v. cps (v_voice_id v)) resolved)
                               (cx_api_key_id cx) (df_jurisdiction f) (df_reason f) (gd_deletions d) of
                          Inl e \<Rightarrow> Inl e | Inr (r, t) \<Rightarrow> Inr (r, d\<lparr>gd_deletions := t\<rparr>))) (\<lambda>r.
      let ticket = close_or_start (ge_now E) pending r in
      seqA (bindA (in_db (\<lambda>d. if \<not> deletion_checks ticket then Inl IntegrityError
                              else Inr ((), d\<lparr>gd_deletions := update_rows (\<lambda>x. dd_id x = rid) (\<lambda>_. ticket) (gd_deletions d)\<rparr>)))
                  (\<lambda>_. ret ()))
      (seqA (audit (audit_row_for E cx ''data_deletion.request'' ''success'' (Some ''tenant'')
                     (Some (map char_of (uuid_str T)))
                     [(''request_id'', JStr (uuid_str rid)), (''voice_count'', JInt (int (length resolved))),
                      (''voice_slugs'', JList (map (\<lambda>v. JStr (cps (v_voice_id v))) resolved)),
                      (''pending_count'', JInt (int pending)),
                      (''jurisdiction'', case df_jurisdiction f of None \<Rightarrow> JNull | Some j \<Rightarrow> JStr (cps j))]))
      (seqA commit (ret ticket)))))))"

definition get_data_deletion_request :: "auth_context \<Rightarrow> uuid \<Rightarrow> deletion_request gact" where
  "get_data_deletion_request cx rid =
     bindA (get_db (\<lambda>d. deletion_get (Some (cx_tenant_id cx)) rid (gd_deletions d))) (\<lambda>r.
       case r of None \<Rightarrow> throw (Status 404 ''data deletion request not found'') | Some r \<Rightarrow> ret r)"


subsection \<open>Derived slugs are valid\<close>

lemma alnum_edge: "alnum c \<Longrightarrow> slug_edge (char_of c)"
proof -
  assume "alnum c"
  then have "c \<in> set ([97..<123] @ [48..<58])" unfolding set_append set_upt alnum_def by auto
  moreover have "list_all (\<lambda>c. slug_edge (char_of c)) ([97..<123] @ [48..<58])" by code_simp
  ultimately show ?thesis unfolding list_all_iff by blast
qed

lemma dash_runs_inner: "list_all slug_inner (dash_runs r s)"
  by (induction r s rule: dash_runs.induct) (auto simp: slug_inner_def alnum_edge)

lemma list_all_dropWhile: "list_all P xs \<Longrightarrow> list_all P (dropWhile Q xs)"
  by (induction xs) auto

lemma list_all_take: "list_all P xs \<Longrightarrow> list_all P (take n xs)"
  by (auto simp: list_all_iff dest: in_set_takeD)

lemma rstrip_dash_inner: "list_all slug_inner s \<Longrightarrow> list_all slug_inner (rstrip_dash s)"
  by (simp add: rstrip_dash_def list_all_dropWhile list_all_rev)

lemma rstrip_dash_length: "length (rstrip_dash s) \<le> length s"
  by (simp add: rstrip_dash_def length_dropWhile_le [of _ "rev s", simplified])

lemma rstrip_dash_hd: "rstrip_dash s \<noteq> [] \<Longrightarrow> hd (rstrip_dash s) = hd s"
proof -
  let ?P = "\<lambda>c. c = CHR ''-''"
  have "rev s = takeWhile ?P (rev s) @ dropWhile ?P (rev s)" by simp
  then have "rev (rev s) = rev (dropWhile ?P (rev s)) @ rev (takeWhile ?P (rev s))" by (metis rev_append)
  then have s: "s = rstrip_dash s @ rev (takeWhile ?P (rev s))" by (simp add: rstrip_dash_def)
  assume "rstrip_dash s \<noteq> []"
  then have "hd (rstrip_dash s @ rev (takeWhile ?P (rev s))) = hd (rstrip_dash s)" by simp
  then show ?thesis using s by metis
qed

lemma hd_not_dash:
  assumes "list_all slug_inner s" "dropWhile (\<lambda>c. c = CHR ''-'') s \<noteq> []"
  shows "slug_edge (hd (dropWhile (\<lambda>c. c = CHR ''-'') s))"
proof -
  have "hd (dropWhile (\<lambda>c. c = CHR ''-'') s) \<in> set s" using assms(2) by (meson hd_in_set set_dropWhileD)
  then have "slug_inner (hd (dropWhile (\<lambda>c. c = CHR ''-'') s))" using assms(1) by (simp add: list_all_iff)
  then show ?thesis using hd_dropWhile [OF assms(2)] unfolding slug_inner_def by blast
qed

lemma strip_dash_shape:
  assumes "list_all slug_inner s" "strip_dash s \<noteq> []"
  shows "slug_edge (hd (strip_dash s)) \<and> list_all slug_inner (strip_dash s)"
proof -
  let ?t = "dropWhile (\<lambda>c. c = CHR ''-'') s"
  have st: "strip_dash s = rstrip_dash ?t" by (rule strip_dash_def)
  have "rstrip_dash [] = []" by (simp add: rstrip_dash_def)
  then have "?t \<noteq> []" using assms(2) st by metis
  then have "slug_edge (hd ?t)" by (rule hd_not_dash [OF assms(1)])
  moreover have "hd (rstrip_dash ?t) = hd ?t" using assms(2) unfolding st by (rule rstrip_dash_hd)
  moreover have "list_all slug_inner (rstrip_dash ?t)" by (rule rstrip_dash_inner [OF list_all_dropWhile [OF assms(1)]])
  ultimately show ?thesis unfolding st by simp
qed

text \<open>
  C40: a slug derived from a display name is a valid voice id, whatever the name, however
  Python lowers it, and whichever six hex digits are drawn: the pattern, the length limits
  and the database CHECK accept it.
\<close>

theorem slugify_valid:
  assumes "length token = 6" "list_all slug_edge token"
  shows "slug_shape (slugify_voice_id lower token name) \<and> voice_id_matches (slugify_voice_id lower token name)"
proof -
  define cleaned where "cleaned = (let c = strip_dash (dash_runs False (lower name)) in if c = [] then ''voice'' else c)"
  define base where "base = (let b = rstrip_dash (take 55 cleaned) in if b = [] then ''voice'' else b)"
  have slug: "slugify_voice_id lower token name = base @ ''-'' @ token"
    by (simp add: slugify_voice_id_def cleaned_def base_def Let_def)
  have v: "slug_edge (hd ''voice'') \<and> list_all slug_inner ''voice''" by (simp add: slug_edge_def slug_inner_def)
  have c: "slug_edge (hd cleaned) \<and> list_all slug_inner cleaned \<and> cleaned \<noteq> []"
    using strip_dash_shape [OF dash_runs_inner, of False "lower name"] v by (simp add: cleaned_def Let_def)
  then have "hd (take 55 cleaned) = hd cleaned" by (cases cleaned) auto
  then have b: "slug_edge (hd base) \<and> list_all slug_inner base \<and> base \<noteq> [] \<and> length base \<le> 55"
    using c v rstrip_dash_hd [of "take 55 cleaned"] rstrip_dash_inner [of "take 55 cleaned"]
      rstrip_dash_length [of "take 55 cleaned"] list_all_take [of slug_inner cleaned 55]
    by (auto simp: base_def Let_def)
  have ne: "token \<noteq> []" using assms(1) by auto
  have t: "token \<noteq> []" "list_all slug_inner token" "slug_edge (last token)"
    using assms(2) last_in_set [OF ne] ne by (simp_all add: list_all_iff slug_inner_def)
  have d: "slug_inner (CHR ''-'')" by (simp add: slug_inner_def)
  have shape: "slug_shape (base @ ''-'' @ token)"
    using b t assms(1) d by (auto simp: slug_shape_def)
  have "last token \<noteq> CHR 0x0A" using t(3) by (auto simp: slug_edge_def)
  with shape t(1) show ?thesis by (simp add: slug voice_id_matches_def)
qed

theorem slugify_valid_witness:
  "slug_shape (slugify_voice_id (\<lambda>s. s) ''0a1b2c'' (cps ''--my voice!--''))"
  using slugify_valid [of "''0a1b2c''" "\<lambda>s. s" "cps ''--my voice!--''"] by (simp add: slug_edge_def)


subsection \<open>Foreign voices are masked\<close>

text \<open>Other values in the columns a foreign viewer must not see, for every voice the tenant does not own.\<close>

type_synonym hidden = "uuid option \<times> ustr option \<times> dict option \<times> dict \<times> string"

definition rewrite_hidden :: "uuid \<Rightarrow> (voice \<Rightarrow> hidden) \<Rightarrow> voice \<Rightarrow> voice" where
  "rewrite_hidden T g v =
     (if v_owner v = T then v
      else case g v of (created_by, reason, eval, params, ref_uri) \<Rightarrow>
        v\<lparr>v_created_by_key_id := created_by, v_frozen_reason := reason, v_eval_metrics := eval,
          v_engine_params := params, v_reference_uri := ref_uri\<rparr>)"

lemma rewrite_hidden_sel [simp]:
  "v_id (rewrite_hidden T g v) = v_id v" "v_owner (rewrite_hidden T g v) = v_owner v"
  "v_voice_id (rewrite_hidden T g v) = v_voice_id v" "v_visibility (rewrite_hidden T g v) = v_visibility v"
  "v_deleted_at (rewrite_hidden T g v) = v_deleted_at v" "v_created_at (rewrite_hidden T g v) = v_created_at v"
  by (simp_all add: rewrite_hidden_def split: prod.split)

lemma rewrite_hidden_public: "voice_to_public (Some T) (rewrite_hidden T g v) = voice_to_public (Some T) v"
  by (simp add: rewrite_hidden_def voice_to_public_def lifecycle_state_def Let_def split: prod.split)

lemma sort_key_map:
  assumes "\<And>x. k (f x) = k x"
  shows "sort_key k (map f xs) = map f (sort_key k xs)"
proof -
  have ins: "insort_key k (f x) (map f ys) = map f (insort_key k x ys)" for x ys
    by (induction ys) (simp_all add: assms)
  show ?thesis by (induction xs) (simp_all add: ins)
qed

lemma first_of_map: "first_of (map f xs) = map_option f (first_of xs)"
  by (cases xs) simp_all

lemma get_owned_hidden: "get_owned T slug (map (rewrite_hidden T g) t) = map_option (rewrite_hidden T g) (get_owned T slug t)"
  unfolding get_owned_def by (rule find_map_inv) simp

lemma filter_map_hidden:
  "(\<And>v. P (rewrite_hidden T g v) = P v) \<Longrightarrow> filter P (map (rewrite_hidden T g) t) = map (rewrite_hidden T g) (filter P t)"
  by (simp add: filter_map comp_def)

lemma get_accessible_hidden:
  "get_accessible T slug acc (map (rewrite_hidden T g) t) = map_option (rewrite_hidden T g) (get_accessible T slug acc t)"
  by (simp add: get_accessible_def get_owned_hidden filter_map_hidden sort_key_map first_of_map Let_def
      split: option.split)

lemma list_accessible_hidden:
  "list_accessible T del acc (map (rewrite_hidden T g) t) = map (rewrite_hidden T g) (list_accessible T del acc t)"
  by (simp add: list_accessible_def filter_map_hidden sort_key_map Let_def)

text \<open>
  No foreign secret reaches a tenant. Whatever the enrolling key, the operator's freeze
  reason, the evaluation blob, the engine parameters or the reference location of other
  tenants' voices are, the catalog pages and the voice route answer this tenant the same.
\<close>

theorem foreign_view_masked:
  assumes "gd_voices (gs_db s') = map (rewrite_hidden (cx_tenant_id cx) g) (gd_voices (gs_db s))"
    and "gd_access (gs_db s') = gd_access (gs_db s)"
  shows "fst (get_voice cx slug s') = fst (get_voice cx slug s)
     \<and> fst (list_voices cx limit offset s') = fst (list_voices cx limit offset s)"
proof
  show "fst (get_voice cx slug s') = fst (get_voice cx slug s)"
    by (simp add: get_voice_def bindA_def accessible_or_404_out assms get_accessible_hidden ret_def
        rewrite_hidden_public split: option.split)
  show "fst (list_voices cx limit offset s') = fst (list_voices cx limit offset s)"
    by (simp add: list_voices_def act_eval require_def get_db_def assms list_accessible_hidden Let_def
        take_map drop_map comp_def rewrite_hidden_public split: sum.split)
qed

theorem foreign_view_masked_witness:
  "let voices = [sample_voice\<lparr>v_owner := 9, v_visibility := ''public'', v_created_by_key_id := Some 3\<rparr>];
       s = \<lparr>gs_db = gw_db\<lparr>gd_voices := voices\<rparr>, gs_saved = gw_db, gs_queue = [], gs_files = Map.empty\<rparr>;
       s' = s\<lparr>gs_db := gw_db\<lparr>gd_voices := map (rewrite_hidden 7 (\<lambda>v. (None, Some [], None, [], ''''))) voices\<rparr>\<rparr>
   in fst (get_voice gw_cx ''ada'' s') = fst (get_voice gw_cx ''ada'' s)"
  using foreign_view_masked [of _ gw_cx "\<lambda>v. (None, Some [], None, [], '''')" _ "''ada''"] by (simp add: Let_def)

subsection \<open>Enrollment\<close>

definition trimmed :: "venv \<Rightarrow> bytes \<Rightarrow> py_error + bytes \<times> rat" where
  "trimmed V src =
     bindS (ve_decode V src) (\<lambda>audio.
       let cut = take (nat \<lfloor>ve_trim_seconds V * of_int (ve_sample_rate V)\<rfloor>) audio;
           out = (if peak cut > 0 then map (\<lambda>x. x * ((95/100) / peak cut)) cut else cut)
       in if audio = [] then Inl (ValueError ''decoded audio is empty'')
          else if cut = [] then Inl (ValueError ''zero-size array'')
          else Inr (ve_write V out, of_nat (length out) / of_int (ve_sample_rate V)))"

lemma trim_out:
  "trim_and_resample_to_wav V src path s =
     (case trimmed V src of
        Inl e \<Rightarrow> (Inl (Crash e), s)
      | Inr (b, seconds) \<Rightarrow> (Inr seconds, s\<lparr>gs_files := (gs_files s)(path \<mapsto> b)\<rparr>))"
  by (simp add: trim_and_resample_to_wav_def trimmed_def bindS_def set_file_def act_eval Let_def split: sum.split)

lemma bad_request_out:
  "bad_request_on_value_error m s =
     (case m s of (Inl (Crash (ValueError msg)), s') \<Rightarrow> (Inl (Status 400 msg), s') | r \<Rightarrow> r)"
  by (auto simp: bad_request_on_value_error_def catchA_def throw_def split: prod.split sum.split http_error.split py_error.split)

lemma refuse_unless_out:
  "refuse_unless ok path e s = (if ok then (Inr (), s) else (Inl e, s\<lparr>gs_files := (gs_files s)(path := None)\<rparr>))"
  by (simp add: refuse_unless_def unlink_def act_eval)

lemma vet_upload_state: "snd (vet_upload V f s) = s"
  by (simp add: vet_upload_def validate_voice_id_def require_def act_eval)


text \<open>
  C31: enrolling under a taken slug destroys the live reference. The upload overwrites the
  reference file of the tenant's existing voice before the slug is looked up, and both
  refusals that follow, too short and already exists, then delete it; the voice's row stays
  as it is, still active and still naming the deleted file.
\<close>

theorem enroll_destroys_reference:
  assumes "vet_upload V f s = (Inr (), s)" and "trimmed V (ef_data f) = Inr (b, seconds)"
    and "get_owned (cx_tenant_id cx) (ef_voice_id f) (gd_voices (gs_db s)) = Some v"
    and "v_reference_uri v = ''file://'' @ enroll_target V cx (ef_voice_id f)"
  shows "\<exists>e s'. enroll_voice E V cx f s = (Inl e, s')
     \<and> e \<in> {Status 400 ''reference audio too short'', Status 409 ''voice already exists in this workspace''}
     \<and> gs_files s' (enroll_target V cx (ef_voice_id f)) = None \<and> gs_db s' = gs_db s
     \<and> get_owned (cx_tenant_id cx) (ef_voice_id f) (gd_voices (gs_db s')) = Some v"
  using assms
  by (cases "ve_min_seconds V \<le> seconds")
    (simp_all add: enroll_voice_def seqA_def bindA_def trim_out bad_request_out refuse_unless_out getsA_def get_db_def Let_def)

text \<open>A transaction that ends in an error leaves what is committed alone.\<close>

definition saved_same :: "gstate \<Rightarrow> gstate \<Rightarrow> bool" where
  "saved_same s s' \<longleftrightarrow> gs_saved s' = gs_saved s \<and> gs_queue s' = gs_queue s"

lemma saved_same_refl [simp]: "saved_same s s"
  by (simp add: saved_same_def)

lemma vet_license_out:
  "vet_license E f path s = (r, s') \<Longrightarrow>
     (r = Inr () \<and> s' = s) \<or> (\<exists>e. r = Inl e \<and> s' = s\<lparr>gs_files := (gs_files s)(path := None)\<rparr>)"
  by (auto simp: vet_license_def seqA_def bindA_def refuse_unless_out get_db_def getsA_def ret_def
      split: if_splits option.splits sum.splits)

lemma persist_voice_eval:
  "persist_voice E V cx f path sha seconds s =
     (case create_voice (cx_tenant_id cx) (ge_now E) (enroll_row V cx f path sha seconds) (gd_voices (gs_db s)) of
        Inl e \<Rightarrow> (Inl (Crash e), s)
      | Inr (v, t) \<Rightarrow>
          (case consent_record (ve_consent_uuid V) (ge_now E) (v_id v) (ef_consent_kind f) ''tenant'' (Some (cx_api_key_id cx))
                  (ef_evidence_uri f) (ef_evidence_sha256 f) (ef_evidence_notes f) (gd_consents (gs_db s)) of
             Inl e \<Rightarrow> (Inl (Crash e), s\<lparr>gs_db := (gs_db s)\<lparr>gd_voices := t\<rparr>\<rparr>)
           | Inr (c, ct) \<Rightarrow>
               (let d = (gs_db s)\<lparr>gd_voices := t, gd_consents := ct,
                     gd_log := gd_log (gs_db s) @ [audit_row_for E cx ''voice.create'' ''success'' (Some ''voice'')
                       (Some (map char_of (uuid_str (v_id v)))) (enroll_audit f sha seconds)]\<rparr>
                in (Inr (voice_to_public (Some (cx_tenant_id cx)) v, ef_consent_kind f = ''tenant-asserted''),
                    s\<lparr>gs_db := d, gs_saved := d\<rparr>))))"
proof -
  have log: "audit_checks (audit_row_for E cx ''voice.create'' ''success'' tt ti pl)" for tt ti pl
    by (simp add: audit_checks_def audit_row_for_def)
  show ?thesis
    by (simp add: persist_voice_def in_db_def audit_def bindA_def seqA_def commit_def modifyA_def ret_def log Let_def
        split: sum.split prod.split)
qed

lemma persist_voice_out:
  assumes "persist_voice E V cx f path sha seconds s = (r, s')"
  shows "(\<exists>e. r = Inl e \<and> saved_same s s')
   \<or> (\<exists>v t c ct. r = Inr (voice_to_public (Some (cx_tenant_id cx)) v, ef_consent_kind f = ''tenant-asserted'')
        \<and> create_voice (cx_tenant_id cx) (ge_now E) (enroll_row V cx f path sha seconds) (gd_voices (gs_db s)) = Inr (v, t)
        \<and> consent_record (ve_consent_uuid V) (ge_now E) (v_id v) (ef_consent_kind f) ''tenant'' (Some (cx_api_key_id cx))
             (ef_evidence_uri f) (ef_evidence_sha256 f) (ef_evidence_notes f) (gd_consents (gs_db s)) = Inr (c, ct)
        \<and> gd_voices (gs_db s') = t \<and> gd_consents (gs_db s') = ct \<and> gd_access (gs_db s') = gd_access (gs_db s)
        \<and> gs_saved s' = gs_db s' \<and> gs_files s' = gs_files s)"
proof (cases "create_voice (cx_tenant_id cx) (ge_now E) (enroll_row V cx f path sha seconds) (gd_voices (gs_db s))")
  case (Inl e)
  have "(r, s') = (Inl (Crash e), s)" unfolding assms [symmetric] persist_voice_eval Inl by simp
  then have "r = Inl (Crash e) \<and> saved_same s s'" by simp
  then show ?thesis by (intro disjI1 exI)
next
  case (Inr vt)
  obtain v t where vt: "vt = (v, t)" by (cases vt)
  show ?thesis
  proof (cases "consent_record (ve_consent_uuid V) (ge_now E) (v_id v) (ef_consent_kind f) ''tenant'' (Some (cx_api_key_id cx))
      (ef_evidence_uri f) (ef_evidence_sha256 f) (ef_evidence_notes f) (gd_consents (gs_db s))")
    case e: (Inl e)
    have "(r, s') = (Inl (Crash e), s\<lparr>gs_db := (gs_db s)\<lparr>gd_voices := t\<rparr>\<rparr>)"
      unfolding assms [symmetric] persist_voice_eval Inr vt by (simp add: e)
    then have "r = Inl (Crash e) \<and> saved_same s s'" by (simp add: saved_same_def)
    then show ?thesis by (intro disjI1 exI)
  next
    case c: (Inr ct)
    obtain c1 c2 where ct: "ct = (c1, c2)" by (cases ct)
    have run: "(r, s') = (let d = (gs_db s)\<lparr>gd_voices := t, gd_consents := c2,
                     gd_log := gd_log (gs_db s) @ [audit_row_for E cx ''voice.create'' ''success'' (Some ''voice'')
                       (Some (map char_of (uuid_str (v_id v)))) (enroll_audit f sha seconds)]\<rparr>
                in (Inr (voice_to_public (Some (cx_tenant_id cx)) v, ef_consent_kind f = ''tenant-asserted''),
                    s\<lparr>gs_db := d, gs_saved := d\<rparr>))"
      unfolding assms [symmetric] persist_voice_eval Inr vt by (simp add: c ct)
    show ?thesis
      by (rule disjI2, rule exI [of _ v], rule exI [of _ t], rule exI [of _ c1], rule exI [of _ c2])
        (use run Inr vt c ct in \<open>simp add: Let_def\<close>)
  qed
qed


definition upload_error :: "py_error \<Rightarrow> http_error" where
  "upload_error e = (case e of ValueError m \<Rightarrow> Status 400 m | _ \<Rightarrow> Crash e)"

lemma trim_bad_request:
  "bad_request_on_value_error (trim_and_resample_to_wav V src path) s =
     (case trimmed V src of
        Inl e \<Rightarrow> (Inl (upload_error e), s)
      | Inr (b, seconds) \<Rightarrow> (Inr seconds, s\<lparr>gs_files := (gs_files s)(path \<mapsto> b)\<rparr>))"
  by (simp add: bad_request_out trim_out upload_error_def split: sum.split py_error.split prod.split)

lemma enroll_voice_eval:
  assumes "vet_upload V f s = (x, s)" and "path = enroll_target V cx (ef_voice_id f)"
  shows "enroll_voice E V cx f s =
    (case x of Inl e \<Rightarrow> (Inl e, s) | Inr _ \<Rightarrow>
      (case trimmed V (ef_data f) of
         Inl e \<Rightarrow> (Inl (upload_error e), s)
       | Inr (b, seconds) \<Rightarrow>
           (let gone = s\<lparr>gs_files := (gs_files s)(path := None)\<rparr>;
                s1 = s\<lparr>gs_files := (gs_files s)(path \<mapsto> b)\<rparr> in
            if \<not> ve_min_seconds V \<le> seconds then (Inl (Status 400 ''reference audio too short''), gone)
            else if get_owned (cx_tenant_id cx) (ef_voice_id f) (gd_voices (gs_db s)) \<noteq> None
            then (Inl (Status 409 ''voice already exists in this workspace''), gone)
            else (case vet_license E f path s1 of
                    (Inl e, s2) \<Rightarrow> (Inl e, s2)
                  | (Inr _, s2) \<Rightarrow> persist_voice E V cx f path (ve_sha256 V b) seconds s2))))"
  by (cases x) (simp_all add: enroll_voice_def assms seqA_def bindA_def trim_bad_request refuse_unless_out getsA_def
      get_db_def Let_def split: sum.split prod.split)

lemma enroll_cases:
  assumes "enroll_voice E V cx f s = (r, s')" and "path = enroll_target V cx (ef_voice_id f)"
  shows "(\<exists>e. r = Inl e \<and> saved_same s s') \<or>
    (\<exists>b seconds. vet_upload V f s = (Inr (), s) \<and> trimmed V (ef_data f) = Inr (b, seconds)
       \<and> get_owned (cx_tenant_id cx) (ef_voice_id f) (gd_voices (gs_db s)) = None
       \<and> persist_voice E V cx f path (ve_sha256 V b) seconds (s\<lparr>gs_files := (gs_files s)(path \<mapsto> b)\<rparr>) = (r, s'))"
proof -
  obtain x where x: "vet_upload V f s = (x, s)" using vet_upload_state [of V f s] by (metis prod.collapse)
  note ev = enroll_voice_eval [OF x assms(2), of E]
  show ?thesis
  proof (cases "\<exists>b seconds. x = Inr () \<and> trimmed V (ef_data f) = Inr (b, seconds) \<and> ve_min_seconds V \<le> seconds
      \<and> get_owned (cx_tenant_id cx) (ef_voice_id f) (gd_voices (gs_db s)) = None")
    case False
    then have "(\<exists>e. r = Inl e) \<and> saved_same s s'"
      using assms(1) unfolding ev by (auto simp: saved_same_def Let_def split: sum.splits prod.splits if_splits)
    then show ?thesis by blast
  next
    case True
    then obtain b seconds where t: "x = Inr ()" "trimmed V (ef_data f) = Inr (b, seconds)" "ve_min_seconds V \<le> seconds"
      "get_owned (cx_tenant_id cx) (ef_voice_id f) (gd_voices (gs_db s)) = None" by blast
    let ?s1 = "s\<lparr>gs_files := (gs_files s)(path \<mapsto> b)\<rparr>"
    obtain y s2 where y: "vet_license E f path ?s1 = (y, s2)" by fastforce
    show ?thesis
    proof (cases y)
      case (Inl e)
      then have "s2 = ?s1\<lparr>gs_files := (gs_files ?s1)(path := None)\<rparr>" using vet_license_out [OF y] by auto
      then have "r = Inl e \<and> saved_same s s'"
        using assms(1) t y Inl unfolding ev by (auto simp: saved_same_def Let_def)
      then show ?thesis by blast
    next
      case (Inr u)
      then have "s2 = ?s1" using vet_license_out [OF y] by auto
      then show ?thesis using assms(1) t y x Inr unfolding ev by (simp add: Let_def)
    qed
  qed
qed


lemma latest_active_after:
  assumes "consent_record cid now vid kind bk actor uri sha notes t = Inr (c, t')"
  shows "latest_active vid t' \<noteq> None"
proof -
  have "t' = t @ [c]" "cr_voice_id c = vid" "cr_revoked_at c = None"
    using assms by (auto simp: consent_record_def Let_def split: if_splits)
  then have "c \<in> set (sort_key (\<lambda>r. - cr_recorded_at r) (filter (\<lambda>r. cr_voice_id r = vid \<and> cr_revoked_at r = None) t'))" by simp
  then have "sort_key (\<lambda>r. - cr_recorded_at r) (filter (\<lambda>r. cr_voice_id r = vid \<and> cr_revoked_at r = None) t') \<noteq> []"
    by (metis empty_iff list.set(1))
  then show ?thesis by (simp add: latest_active_def split: list.split)
qed

lemma create_voice_row:
  assumes "create_voice T now (enroll_row V cx f path sha seconds) t = Inr (v, t')" and "T = cx_tenant_id cx"
  shows "t' = t @ [v] \<and> v_owner v = T \<and> v_voice_id v = ef_voice_id f \<and> v_id v = ve_voice_uuid V
     \<and> v_deleted_at v = None \<and> lifecycle_state v = ''active'' \<and> v_reference_uri v = ''file://'' @ path
     \<and> v_reference_sha256 v = sha"
  using assms
  by (auto simp: create_voice_def insert_voice_def insert_row_def enroll_row_def lifecycle_state_def Let_def
      split: if_splits sum.splits)

text \<open>
  C22: an enrollment is all or nothing, and complete. When it is refused, nothing is
  committed; when it is accepted, the committed catalog is the old one and exactly the new
  voice, whose reference URI and digest are those of the file that was stored, and the same
  tenant's next synthesis request for it passes the voice, lifecycle and consent gates.
\<close>

theorem enroll_complete:
  assumes "enroll_voice E V cx f s = (r, s')"
    and "tb_voice_id b = ef_voice_id f" and "resolve_model (tb_model_id b) = Inr p"
  shows "case r of
     Inl e \<Rightarrow> gs_saved s' = gs_saved s
   | Inr (pub, rv) \<Rightarrow>
       (\<exists>v audio. gd_voices (gs_saved s') = gd_voices (gs_db s) @ [v] \<and> pub = voice_to_public (Some (cx_tenant_id cx)) v
          \<and> gs_files s' (enroll_target V cx (ef_voice_id f)) = Some audio
          \<and> v_reference_uri v = ''file://'' @ enroll_target V cx (ef_voice_id f)
          \<and> v_reference_sha256 v = ve_sha256 V audio \<and> vet_result cx b (gs_saved s') = Inr (v, p))"
proof -
  let ?path = "enroll_target V cx (ef_voice_id f)"
  from enroll_cases [OF assms(1) refl] consider
      e where "r = Inl e" "saved_same s s'"
    | audio seconds where "vet_upload V f s = (Inr (), s)"
        "get_owned (cx_tenant_id cx) (ef_voice_id f) (gd_voices (gs_db s)) = None"
        "persist_voice E V cx f ?path (ve_sha256 V audio) seconds (s\<lparr>gs_files := (gs_files s)(?path \<mapsto> audio)\<rparr>) = (r, s')"
    by blast
  then show ?thesis
  proof cases
    case 1
    then show ?thesis by (simp add: saved_same_def)
  next
    case 2
    have slug: "voice_id_matches (ef_voice_id f)"
      using 2(1) by (auto simp: vet_upload_def validate_voice_id_def require_def act_eval split: if_splits)
    from persist_voice_out [OF 2(3)] show ?thesis
    proof (elim disjE exE conjE)
      fix e assume "r = Inl e" "saved_same (s\<lparr>gs_files := (gs_files s)(?path \<mapsto> audio)\<rparr>) s'"
      then show ?thesis by (simp add: saved_same_def)
    next
      fix v t c ct
      assume r: "r = Inr (voice_to_public (Some (cx_tenant_id cx)) v, ef_consent_kind f = ''tenant-asserted'')"
        and v: "create_voice (cx_tenant_id cx) (ge_now E) (enroll_row V cx f ?path (ve_sha256 V audio) seconds)
              (gd_voices (gs_db (s\<lparr>gs_files := (gs_files s)(?path \<mapsto> audio)\<rparr>))) = Inr (v, t)"
        and c: "consent_record (ve_consent_uuid V) (ge_now E) (v_id v) (ef_consent_kind f) ''tenant''
              (Some (cx_api_key_id cx)) (ef_evidence_uri f) (ef_evidence_sha256 f) (ef_evidence_notes f)
              (gd_consents (gs_db (s\<lparr>gs_files := (gs_files s)(?path \<mapsto> audio)\<rparr>))) = Inr (c, ct)"
        and s': "gd_voices (gs_db s') = t" "gd_consents (gs_db s') = ct" "gs_saved s' = gs_db s'"
          "gs_files s' = gs_files (s\<lparr>gs_files := (gs_files s)(?path \<mapsto> audio)\<rparr>)"
      note row = create_voice_row [OF v refl]
      have "get_owned (cx_tenant_id cx) (ef_voice_id f) t = Some v"
        using row 2(2) by (simp add: get_owned_def find_append)
      then have "get_accessible (cx_tenant_id cx) (ef_voice_id f) (gd_access (gs_db s')) t = Some v"
        by (simp add: get_accessible_def)
      then have "vet_result cx b (gs_saved s') = Inr (v, p)"
        using row latest_active_after [OF c] slug assms(2,3) s' by (simp add: vet_result_def)
      then have "gd_voices (gs_saved s') = gd_voices (gs_db s) @ [v] \<and> gs_files s' ?path = Some audio
          \<and> v_reference_uri v = ''file://'' @ ?path \<and> v_reference_sha256 v = ve_sha256 V audio
          \<and> vet_result cx b (gs_saved s') = Inr (v, p)"
        using row s' by simp
      then show ?thesis unfolding r sum.case prod.case by (intro exI [of _ v] exI [of _ audio]) simp
    qed
  qed
qed


subsection \<open>Erasure requests\<close>

text \<open>A row that is scheduled for purge or already a tombstone never becomes active again by itself.\<close>

definition doomed :: "voice \<Rightarrow> bool" where
  "doomed v \<longleftrightarrow> v_purge_after_at v \<noteq> None \<or> v_purged_at v \<noteq> None"

definition only_ids :: "uuid set \<Rightarrow> voice \<Rightarrow> voice \<Rightarrow> bool" where
  "only_ids I w w' \<longleftrightarrow> v_id w' = v_id w \<and> v_owner w' = v_owner w \<and> (v_id w \<notin> I \<longrightarrow> w' = w) \<and> (doomed w \<longrightarrow> doomed w')"

lemma list_all2_partner:
  "list_all2 R xs ys \<Longrightarrow> x \<in> set xs \<Longrightarrow> \<exists>y\<in>set ys. R x y"
  "list_all2 R xs ys \<Longrightarrow> y \<in> set ys \<Longrightarrow> \<exists>x\<in>set xs. R x y"
  by (induction rule: list_all2_induct) auto

lemma only_ids_refl: "list_all2 (only_ids I) t t"
  by (simp add: list_all2_refl only_ids_def)

lemma only_ids_trans:
  "list_all2 (only_ids I) t t1 \<Longrightarrow> list_all2 (only_ids J) t1 t2 \<Longrightarrow> list_all2 (only_ids (I \<union> J)) t t2"
  by (rule list_all2_trans [of "only_ids I" "only_ids J" "only_ids (I \<union> J)"]) (auto simp: only_ids_def)

lemma only_ids_ids: "list_all2 (only_ids I) t t' \<Longrightarrow> map v_id t' = map v_id t"
  by (induction rule: list_all2_induct) (simp_all add: only_ids_def)

lemma schedule_row_sel:
  "v_id (schedule_row now d v) = v_id v" "v_owner (schedule_row now d v) = v_owner v" "doomed (schedule_row now d v)"
  by (simp_all add: schedule_row_def doomed_def Let_def)

lemma schedule_purge_rows:
  assumes "schedule_purge vid now d t = Inr (x, t')" and "distinct (map v_id t)"
  shows "list_all2 (only_ids {vid}) t t' \<and> (\<forall>w'\<in>set t'. v_id w' = vid \<longrightarrow> doomed w')"
proof (cases "get_by_id vid t")
  case None
  then have "t' = t" using assms(1) by (simp add: schedule_purge_def on_unpurged_def)
  then show ?thesis using None by (auto simp: only_ids_refl get_by_id_def find_None)
next
  case (Some v)
  then have v: "v \<in> set t" "v_id v = vid" by (auto simp: get_by_id_def dest: find_SomeD)
  have uniq: "w = v" if "w \<in> set t" "v_id w = vid" for w
    using assms(2) v that by (auto simp: distinct_map inj_on_def)
  show ?thesis
  proof (cases "v_purged_at v = None")
    case False
    then have "t' = t" using assms(1) Some by (simp add: schedule_purge_def on_unpurged_def)
    then show ?thesis using uniq False by (auto simp: only_ids_refl doomed_def)
  next
    case True
    then have t': "t' = update_rows (\<lambda>w. v_id w = vid) (\<lambda>_. schedule_row now d v) t"
      using assms(1) Some v by (auto simp: schedule_purge_def on_unpurged_def flush_voice_def schedule_row_sel split: if_splits)
    have "list_all2 (only_ids {vid}) t t'"
      unfolding t' update_rows_def list_all2_map2
      by (rule list.rel_refl_strong) (use uniq v in \<open>auto simp: only_ids_def schedule_row_sel\<close>)
    then show ?thesis unfolding t' by (auto simp: update_rows_def schedule_row_sel)
  qed
qed


definition due :: "voice list \<Rightarrow> uuid set" where
  "due vs = v_id ` {v \<in> set vs. v_purged_at v = None}"

lemma due_Cons: "due (v # vs) = (if v_purged_at v = None then insert (v_id v) (due vs) else due vs)"
  by (auto simp: due_def)

lemma schedule_all_rows:
  assumes "schedule_all now vs s = (r, s')" and "distinct (map v_id (gd_voices (gs_db s)))"
  shows "saved_same s s' \<and> gs_files s' = gs_files s \<and> gs_db s' = (gs_db s)\<lparr>gd_voices := gd_voices (gs_db s')\<rparr>
     \<and> list_all2 (only_ids (due vs)) (gd_voices (gs_db s)) (gd_voices (gs_db s'))
     \<and> (\<forall>n. r = Inr n \<longrightarrow> (\<forall>w'\<in>set (gd_voices (gs_db s')). v_id w' \<in> due vs \<longrightarrow> doomed w'))"
  using assms
proof (induction vs arbitrary: s r)
  case Nil
  then show ?case by (simp add: ret_def only_ids_refl due_def)
next
  case (Cons v vs)
  show ?case
  proof (cases "v_purged_at v = None")
    case False
    then have "due (v # vs) = due vs" "schedule_all now vs s = (r, s')" using False Cons.prems(1) by (auto simp: due_Cons)
    then show ?thesis using Cons.IH [of s r] Cons.prems(2) by simp
  next
    case True
    show ?thesis
    proof (cases "schedule_purge (v_id v) now default_purge_delay_days (gd_voices (gs_db s))")
      case (Inl e)
      then show ?thesis using Cons.prems(1) True
        by (simp add: seqA_def bindA_def in_db_def only_ids_refl) (auto simp: only_ids_refl)
    next
      case (Inr xt)
      obtain x t where xt: "xt = (x, t)" by (cases xt)
      let ?s1 = "s\<lparr>gs_db := (gs_db s)\<lparr>gd_voices := t\<rparr>\<rparr>"
      obtain r1 where run: "schedule_all now vs ?s1 = (r1, s')" and r: "\<And>n. r = Inr n \<Longrightarrow> \<exists>m. r1 = Inr m"
        using Cons.prems(1) True Inr xt
        by (auto simp: seqA_def bindA_def in_db_def ret_def split: sum.splits prod.splits)
      note one = schedule_purge_rows [OF Inr [unfolded xt] Cons.prems(2)]
      have "distinct (map v_id (gd_voices (gs_db ?s1)))"
        using only_ids_ids [OF one [THEN conjunct1]] Cons.prems(2) by simp
      note ih = Cons.IH [OF run this]
      have rows: "list_all2 (only_ids (due (v # vs))) (gd_voices (gs_db s)) (gd_voices (gs_db s'))"
        using only_ids_trans [OF one [THEN conjunct1]] ih True by (simp add: due_Cons)
      have "doomed w'" if hyp: "r = Inr n" "w' \<in> set (gd_voices (gs_db s'))" "v_id w' \<in> due (v # vs)" for n w'
      proof (cases "v_id w' \<in> due vs")
        case True
        then show ?thesis using ih r [OF hyp(1)] hyp(2) by blast
      next
        case False
        then have w: "v_id w' = v_id v" using hyp(3) True by (simp add: due_Cons)
        have "list_all2 (only_ids (due vs)) t (gd_voices (gs_db s'))" using ih by simp
        from list_all2_partner(2) [OF this hyp(2)] obtain w where "w \<in> set t" "only_ids (due vs) w w'" by blast
        then show ?thesis using one w by (auto simp: only_ids_def)
      qed
      then show ?thesis using ih rows by (simp add: saved_same_def)
    qed
  qed
qed


lemma resolve_slugs_out:
  "resolve_slugs T slugs s = (r, s') \<Longrightarrow> s' = s \<and> (\<forall>vs. r = Inr vs \<longrightarrow>
     (\<forall>v\<in>set vs. v \<in> set (gd_voices (gs_db s)) \<and> v_owner v = T)
     \<and> (\<forall>slug\<in>set slugs. \<exists>v\<in>set vs. get_owned T slug (gd_voices (gs_db s)) = Some v))"
proof (induction slugs arbitrary: r s')
  case Nil
  then show ?case by (auto simp: ret_def)
next
  case (Cons slug slugs)
  show ?case
  proof (cases "get_owned T slug (gd_voices (gs_db s))")
    case None
    then show ?thesis using Cons.prems by (auto simp: bindA_def get_db_def getsA_def throw_def)
  next
    case (Some v)
    obtain r1 s1 where run: "resolve_slugs T slugs s = (r1, s1)" by fastforce
    have "v \<in> set (gd_voices (gs_db s)) \<and> v_owner v = T" using Some by (auto simp: get_owned_def dest: find_SomeD)
    then show ?thesis using Cons.prems Cons.IH [OF run] run Some
      by (cases r1) (auto simp: bindA_def get_db_def getsA_def ret_def)
  qed
qed

text \<open>What the request works on: the named voices, or every owned voice that is no tombstone.\<close>

definition erasure_targets :: "uuid \<Rightarrow> string list \<Rightarrow> gdb \<Rightarrow> voice list gact" where
  "erasure_targets T slugs d =
     (if slugs \<noteq> [] then resolve_slugs T slugs
      else ret (filter (\<lambda>v. v_owner v = T \<and> v_purged_at v = None) (list_accessible T False (gd_access d) (gd_voices d))))"

lemma erasure_targets_out:
  assumes "erasure_targets T slugs (gs_db s) s = (r, s')"
  shows "s' = s \<and> (\<forall>vs. r = Inr vs \<longrightarrow> (\<forall>v\<in>set vs. v \<in> set (gd_voices (gs_db s)) \<and> v_owner v = T)
     \<and> (\<forall>v\<in>set (gd_voices (gs_db s)). v_owner v = T \<and> v_deleted_at v = None \<and> v_purged_at v = None
           \<and> (slugs = [] \<or> (\<exists>slug\<in>set slugs. get_owned T slug (gd_voices (gs_db s)) = Some v)) \<longrightarrow> v \<in> set vs))"
proof (cases "slugs = []")
  case True
  then show ?thesis using assms by (auto simp: erasure_targets_def ret_def list_accessible_def Let_def)
next
  case False
  then have "resolve_slugs T slugs s = (r, s')" using assms by (simp add: erasure_targets_def)
  from resolve_slugs_out [OF this] False show ?thesis by fastforce
qed

lemma create_deletion_head:
  "create_data_deletion_request E rid cx f s =
    (case erasure_targets (cx_tenant_id cx) (df_voice_slugs f) (gs_db s) s of
       (Inl e, s1) \<Rightarrow> (Inl e, s1)
     | (Inr vs, s1) \<Rightarrow>
         (case schedule_all (ge_now E) vs s1 of
            (Inl e, s2) \<Rightarrow> (Inl e, s2)
          | (Inr n, s2) \<Rightarrow>
              (let row = \<lparr>dd_id = rid, dd_tenant_id = cx_tenant_id cx, dd_voice_slugs = map (\<lambda>v. cps (v_voice_id v)) vs,
                     dd_jurisdiction = df_jurisdiction f, dd_status = ''pending'', dd_requested_at = ge_now E,
                     dd_requested_by_actor_id = Some (cx_api_key_id cx), dd_reason = df_reason f,
                     dd_completed_at = None, dd_completion_notes = None\<rparr>;
                   ticket = close_or_start (ge_now E) n row
               in if \<not> jurisdiction_ok (df_jurisdiction f) \<or> rid \<in> dd_id ` set (gd_deletions (gs_db s2))
                  then (Inl (Crash IntegrityError), s2)
                  else let d = (gs_db s2)\<lparr>gd_deletions := gd_deletions (gs_db s2) @ [ticket],
                          gd_log := gd_log (gs_db s2) @ [audit_row_for E cx ''data_deletion.request'' ''success'' (Some ''tenant'')
                            (Some (map char_of (uuid_str (cx_tenant_id cx))))
                            [(''request_id'', JStr (uuid_str rid)), (''voice_count'', JInt (int (length vs))),
                             (''voice_slugs'', JList (map (\<lambda>v. JStr (cps (v_voice_id v))) vs)),
                             (''pending_count'', JInt (int n)),
                             (''jurisdiction'', case df_jurisdiction f of None \<Rightarrow> JNull | Some j \<Rightarrow> JStr (cps j))]]\<rparr>
                       in (Inr ticket, s2\<lparr>gs_db := d, gs_saved := d\<rparr>))))"
proof -
  have tg: "(if df_voice_slugs f \<noteq> [] then resolve_slugs T (df_voice_slugs f)
        else get_db (\<lambda>d. filter (\<lambda>v. v_owner v = T \<and> v_purged_at v = None) (list_accessible T False (gd_access d) (gd_voices d)))) s
      = erasure_targets T (df_voice_slugs f) (gs_db s) s" for T
    by (simp add: erasure_targets_def get_db_def getsA_def ret_def)
  have upd: "rid \<notin> dd_id ` set t \<Longrightarrow> update_rows (\<lambda>x. dd_id x = rid) (\<lambda>_. k) (t @ [r0]) = t @ [if dd_id r0 = rid then k else r0]"
    for t k r0 by (auto simp: update_rows_def image_iff intro!: map_idI)
  have log: "audit_checks (audit_row_for E cx ''data_deletion.request'' ''success'' tt ti pl)" for tt ti pl
    by (simp add: audit_checks_def audit_row_for_def)
  have chk: "deletion_checks (close_or_start now n r0) = deletion_checks r0"
    if "dd_status r0 = ''pending''" "dd_completed_at r0 = None" "dd_requested_at r0 = now" for now n r0
    using that by (simp add: deletion_checks_def close_or_start_def)
  have ok: "deletion_checks \<lparr>dd_id = rid, dd_tenant_id = T, dd_voice_slugs = sl, dd_jurisdiction = j,
      dd_status = ''pending'', dd_requested_at = now, dd_requested_by_actor_id = a, dd_reason = re,
      dd_completed_at = None, dd_completion_notes = None\<rparr> = jurisdiction_ok j" for T sl j now a re
    by (simp add: deletion_checks_def)
  show ?thesis
    by (simp add: create_data_deletion_request_def Let_def bindA_def tg seqA_def in_db_def deletion_create_def ok chk
        audit_def log commit_def modifyA_def ret_def upd split: sum.split prod.split)
qed


text \<open>
  An accepted erasure request takes effect at once and only on the tenant's own voices.
  Every live voice it names, or every live voice of the tenant when it names none, is
  committed as scheduled for purge or gone, so no synthesis gate passes it; voices of other
  tenants are exactly as before; and the ticket is on file, in progress unless there was
  nothing left to do. A refused request commits nothing.
\<close>

theorem erasure_request_schedules:
  assumes "create_data_deletion_request E rid cx f s = (r, s')"
    and "distinct (map v_id (gd_voices (gs_db s)))"
  shows "case r of
     Inl e \<Rightarrow> gs_saved s' = gs_saved s
   | Inr ticket \<Rightarrow>
       (\<forall>v\<in>set (gd_voices (gs_db s)).
          (v_owner v \<noteq> cx_tenant_id cx \<longrightarrow> v \<in> set (gd_voices (gs_saved s')))
          \<and> (v_owner v = cx_tenant_id cx \<and> v_deleted_at v = None \<and> v_purged_at v = None
              \<and> (df_voice_slugs f = [] \<or> (\<exists>slug\<in>set (df_voice_slugs f). get_owned (cx_tenant_id cx) slug (gd_voices (gs_db s)) = Some v))
             \<longrightarrow> (\<forall>w\<in>set (gd_voices (gs_saved s')). v_id w = v_id v \<longrightarrow> lifecycle_state w \<notin> {''active'', ''frozen''})))
       \<and> ticket \<in> set (gd_deletions (gs_saved s')) \<and> dd_tenant_id ticket = cx_tenant_id cx
       \<and> dd_status ticket \<in> {''in-progress'', ''completed''}"
proof -
  let ?T = "cx_tenant_id cx"
  obtain x s1 where x: "erasure_targets ?T (df_voice_slugs f) (gs_db s) s = (x, s1)" by fastforce
  note tg = erasure_targets_out [OF x]
  show ?thesis
  proof (cases x)
    case (Inl e)
    then show ?thesis using assms(1) x tg by (auto simp: create_deletion_head)
  next
    case (Inr vs)
    obtain y s2 where y: "schedule_all (ge_now E) vs s = (y, s2)" by fastforce
    note sc = schedule_all_rows [OF y assms(2)]
    have own: "v \<in> set (gd_voices (gs_db s2))" if v: "v \<in> set (gd_voices (gs_db s))" "v_owner v \<noteq> ?T" for v
    proof -
      have "v_id v \<notin> due vs"
      proof
        assume "v_id v \<in> due vs"
        then obtain w where "w \<in> set vs" "v_id w = v_id v" by (auto simp: due_def)
        then have "w \<in> set (gd_voices (gs_db s))" "v_owner w = ?T" "v_id w = v_id v" using tg Inr by auto
        then have "w = v" using assms(2) v(1) by (auto simp: distinct_map inj_on_def)
        then show False using v(2) \<open>v_owner w = ?T\<close> by simp
      qed
      moreover have "list_all2 (only_ids (due vs)) (gd_voices (gs_db s)) (gd_voices (gs_db s2))" using sc by simp
      from list_all2_partner(1) [OF this v(1)]
      obtain w where "w \<in> set (gd_voices (gs_db s2))" "only_ids (due vs) v w" by blast
      ultimately show ?thesis by (auto simp: only_ids_def)
    qed
    have gone: "lifecycle_state w \<notin> {''active'', ''frozen''}" if "doomed w" for w
      using that by (auto simp: doomed_def lifecycle_state_def)
    show ?thesis
    proof (cases y)
      case e: (Inl e)
      then show ?thesis using assms(1) x y sc tg Inr by (auto simp: create_deletion_head saved_same_def)
    next
      case n: (Inr n)
      have hit: "doomed w" if "v \<in> set vs" "v_purged_at v = None" "w \<in> set (gd_voices (gs_db s2))" "v_id w = v_id v" for v w
        using sc n that by (auto simp: due_def)
      have s1: "s1 = s" and xx: "erasure_targets ?T (df_voice_slugs f) (gs_db s) s = (Inr vs, s)"
        and yy: "schedule_all (ge_now E) vs s = (Inr n, s2)" using x y tg Inr n by auto
      show ?thesis
      proof (cases "\<not> jurisdiction_ok (df_jurisdiction f) \<or> rid \<in> dd_id ` set (gd_deletions (gs_db s2))")
        case True
        then have "(r, s') = (Inl (Crash IntegrityError), s2)"
          unfolding assms(1) [symmetric] create_deletion_head xx by (simp add: yy Let_def)
        then show ?thesis using sc by (simp add: saved_same_def)
      next
        case False
        obtain ticket d where d: "r = Inr ticket" "gs_saved s' = d" "gd_voices d = gd_voices (gs_db s2)"
          "gd_deletions d = gd_deletions (gs_db s2) @ [ticket]" "dd_tenant_id ticket = ?T"
          "dd_status ticket \<in> {''in-progress'', ''completed''}"
          using False assms(1) unfolding create_deletion_head xx
          by (simp add: yy Let_def) (auto simp: close_or_start_def)
        have vs: "v \<in> set vs" if "v \<in> set (gd_voices (gs_db s))" "v_owner v = ?T" "v_deleted_at v = None" "v_purged_at v = None"
          "df_voice_slugs f = [] \<or> (\<exists>slug\<in>set (df_voice_slugs f). get_owned ?T slug (gd_voices (gs_db s)) = Some v)" for v
          using tg Inr that by blast
        have fin: "lifecycle_state w \<notin> {''active'', ''frozen''}"
          if "v \<in> set (gd_voices (gs_db s))" "v_owner v = ?T \<and> v_deleted_at v = None \<and> v_purged_at v = None
              \<and> (df_voice_slugs f = [] \<or> (\<exists>slug\<in>set (df_voice_slugs f). get_owned ?T slug (gd_voices (gs_db s)) = Some v))"
            "w \<in> set (gd_voices (gs_db s2))" "v_id w = v_id v" for v w
          using that by (intro gone hit [of v] vs) blast+
        show ?thesis
          unfolding d(1) sum.case d(2-4)
          by (intro conjI, use own fin in blast, simp, rule d(5), rule d(6))
      qed
    qed
  qed
qed


subsection \<open>Concrete uploads\<close>

definition gv_venv :: venv where
  "gv_venv = \<lparr>ve_max_mb = 20, ve_min_seconds = 1/2, ve_trim_seconds = 15, ve_sample_rate = 2, ve_ref_dir = ''/d'',
     ve_decode = (\<lambda>b. Inr [1/2, -1/4]), ve_write = (\<lambda>a. [7]), ve_sha256 = (\<lambda>b. replicate 64 CHR ''a''),
     ve_voice_uuid = 50, ve_consent_uuid = 60, ve_lower = (\<lambda>s. s), ve_token = ''0a1b2c''\<rparr>"

definition gv_form :: enroll_form where
  "gv_form = \<lparr>ef_voice_id = ''ada'', ef_display_name = [65], ef_data = replicate 1024 0, ef_filename = None,
     ef_language = ''tr'', ef_gender = ''neutral'', ef_style_tags = [], ef_license_kind = ''user-owned'',
     ef_consent_kind = ''tenant-asserted'', ef_license_ref = None, ef_evidence_uri = None,
     ef_evidence_sha256 = None, ef_evidence_notes = None, ef_description = None, ef_labels = None,
     ef_visibility = ''private'', ef_remove_noise = False\<rparr>"

lemma gv_suffix: "upload_suffix None = ''.wav''"
  by code_simp

lemma gv_form_sel [simp]:
  "ef_voice_id gv_form = ''ada''" "ef_data gv_form = replicate 1024 0" "ef_filename gv_form = None"
  "ef_visibility gv_form = ''private''" "ef_license_kind gv_form = ''user-owned''"
  "ef_consent_kind gv_form = ''tenant-asserted''" "ef_evidence_uri gv_form = None"
  by (simp_all add: gv_form_def)

lemma gv_slug: "voice_id_matches ''ada''"
  by (simp add: voice_id_matches_def slug_shape_def slug_edge_def slug_inner_def)

lemma gv_vet: "vet_upload gv_venv gv_form s = (Inr (), s)"
  by (simp add: vet_upload_def validate_voice_id_def require_def act_eval gv_slug gv_suffix visibility_values_def
      allowed_audio_suffixes_def gv_venv_def)

lemma gv_trim: "trimmed gv_venv (ef_data gv_form) = Inr ([7], 1)"
  by (simp add: trimmed_def gv_venv_def bindS_def peak_def Let_def)

theorem enroll_destroys_reference_witness:
  "\<exists>e s'. enroll_voice gw_env gv_venv gw_cx gv_form
       (gw_state\<lparr>gs_db := gw_db\<lparr>gd_voices := [gw_voice\<lparr>v_reference_uri := ''file://'' @ enroll_target gv_venv gw_cx ''ada''\<rparr>]\<rparr>\<rparr>)
     = (Inl e, s') \<and> gs_files s' (enroll_target gv_venv gw_cx ''ada'') = None"
proof -
  let ?v = "gw_voice\<lparr>v_reference_uri := ''file://'' @ enroll_target gv_venv gw_cx ''ada''\<rparr>"
  have "get_owned 7 ''ada'' [?v] = Some ?v" by (simp add: get_owned_def gw_voice_def sample_voice_def)
  then show ?thesis
    using enroll_destroys_reference [OF gv_vet gv_trim, where cx = gw_cx and v = ?v and E = gw_env
        and s = "gw_state\<lparr>gs_db := gw_db\<lparr>gd_voices := [?v]\<rparr>\<rparr>"] by auto
qed

definition gv_state :: gstate where
  "gv_state = \<lparr>gs_db = gw_db\<lparr>gd_voices := [], gd_consents := []\<rparr>, gs_saved = gw_db\<lparr>gd_voices := [], gd_consents := []\<rparr>,
     gs_queue = [], gs_files = Map.empty\<rparr>"

lemma gv_venv_sel [simp]: "ve_min_seconds gv_venv = 1/2" "ve_sample_rate gv_venv = 2" "ve_voice_uuid gv_venv = 50"
  "ve_consent_uuid gv_venv = 60" "ve_sha256 gv_venv b = replicate 64 CHR ''a''"
  by (simp_all add: gv_venv_def)

lemma gv_state_sel [simp]: "gd_voices (gs_db gv_state) = []" "gd_consents (gs_db gv_state) = []"
  by (simp_all add: gv_state_def)

lemma gv_row: "voice_checks ((enroll_row gv_venv gw_cx gv_form path (replicate 64 CHR ''a'') 1)\<lparr>v_owner := 7, v_created_at := n,
    v_adapter_uri := None, v_adapter_sha256 := None, v_adapter_type := None, v_watermark_key_id := None,
    v_watermark_enabled := True, v_eval_metrics := None, v_release_status := ''draft'', v_deleted_at := None,
    v_frozen_at := None, v_frozen_reason := None, v_purge_after_at := None, v_purged_at := None\<rparr>)"
  by (simp add: voice_checks_def enroll_row_def slug_shape_def slug_edge_def slug_inner_def gv_form_def)

lemma gv_accepted: "\<exists>x. fst (enroll_voice gw_env gv_venv gw_cx gv_form gv_state) = Inr x"
proof -
  have trim: "trimmed gv_venv (replicate 1024 0) = Inr ([7], 1)" using gv_trim by simp
  have lic: "vet_license gw_env gv_form path s = (Inr (), s)" for path s
    by (simp add: vet_license_def refuse_unless_def seqA_ret license_kinds_def consent_kinds_def ret_def)
  have kind: "consent_checks \<lparr>cr_id = 60, cr_voice_id = v, cr_consent_kind = ''tenant-asserted'', cr_evidence_uri = None,
      cr_evidence_sha256 = None, cr_evidence_notes = n, cr_recorded_at = t, cr_recorded_by_kind = ''tenant'',
      cr_recorded_by_actor_id = a, cr_revoked_at = None, cr_revoked_reason = None\<rparr>" for v n t a
    by (simp add: consent_checks_def)
  have sha: "ef_evidence_sha256 gv_form = None" by (simp add: gv_form_def)
  show ?thesis
    unfolding enroll_voice_eval [OF gv_vet refl]
    by (simp add: trim lic get_owned_def persist_voice_eval create_voice_def insert_voice_def insert_row_def gv_row
        consent_record_def kind sha Let_def) blast
qed

theorem enroll_complete_witness:
  "\<exists>v. vet_result gw_cx gw_body (gs_saved (snd (enroll_voice gw_env gv_venv gw_cx gv_form gv_state))) = Inr (v, default_model)
     \<and> v_reference_sha256 v = replicate 64 CHR ''a''"
proof -
  obtain pub rv s' where run: "enroll_voice gw_env gv_venv gw_cx gv_form gv_state = (Inr (pub, rv), s')"
    using gv_accepted by (metis prod.collapse)
  have "tb_voice_id gw_body = ef_voice_id gv_form" "resolve_model (tb_model_id gw_body) = Inr default_model"
    by (simp_all add: gw_body_def resolve_model_def)
  from enroll_complete [OF run this] show ?thesis using run by auto
qed

definition gv_request :: deletion_form where
  "gv_request = \<lparr>df_voice_slugs = [], df_jurisdiction = Some ''EU'', df_reason = None\<rparr>"

theorem erasure_request_schedules_witness:
  "\<exists>ticket s'. create_data_deletion_request gw_env 70 gw_cx gv_request gw_state = (Inr ticket, s')
     \<and> (\<forall>w\<in>set (gd_voices (gs_saved s')). v_id w = v_id gw_voice \<longrightarrow> lifecycle_state w \<notin> {''active'', ''frozen''})"
proof -
  have v: "gd_voices gw_db = [gw_voice]" "gd_access gw_db = []" "v_owner gw_voice = 7" "v_deleted_at gw_voice = None"
    "v_purged_at gw_voice = None" "gd_deletions gw_db = []" "v_purge_after_at gw_voice = None" "v_frozen_at gw_voice = None"
    by (simp_all add: gw_db_def gw_voice_def sample_voice_def)
  have chk: "voice_checks (schedule_row n 30 gw_voice)" if "0 \<le> n" for n
    using that by (simp add: schedule_row_def gw_voice_def sample_voice_def voice_checks_def slug_shape_def slug_edge_def
        slug_inner_def day_ms_def Let_def)
  have "\<exists>x. fst (create_data_deletion_request gw_env 70 gw_cx gv_request gw_state) = Inr x"
    by (simp add: create_deletion_head erasure_targets_def gv_request_def list_accessible_def granted_voice_ids_def v ret_def
        seqA_def bindA_def in_db_def schedule_purge_def on_unpurged_def get_by_id_def flush_voice_def chk
        default_purge_delay_days_def jurisdiction_ok_def Let_def)
  then obtain ticket s' where run: "create_data_deletion_request gw_env 70 gw_cx gv_request gw_state = (Inr ticket, s')"
    by (metis prod.collapse)
  from erasure_request_schedules [OF run] v show ?thesis using run by (simp add: gv_request_def)
qed


text \<open>
  The schema admits jurisdictions of up to eight characters, the table only two letters or
  EU: such a request passes validation and ends in an unhandled integrity error.
\<close>

theorem jurisdiction_crashes:
  assumes "\<not> jurisdiction_ok (df_jurisdiction f)"
    and "erasure_targets (cx_tenant_id cx) (df_voice_slugs f) (gs_db s) s = (Inr vs, s)"
    and "schedule_all (ge_now E) vs s = (Inr n, s2)"
  shows "create_data_deletion_request E rid cx f s = (Inl (Crash IntegrityError), s2)"
    and "deletion_form_ok \<lparr>df_voice_slugs = [], df_jurisdiction = Some ''TUR'', df_reason = None\<rparr>"
    and "\<not> jurisdiction_ok (Some ''TUR'')"
  using assms by (simp_all add: create_deletion_head deletion_form_ok_def jurisdiction_ok_def Let_def)

end
