(* ===== verification/Turkish_Numbers.thy ===== *)
theory Turkish_Numbers
  imports Py_Text
begin

text \<open>
  Numbers as Turkish words (\<^verbatim>\<open>src/frontend/lang_packs/tr/numbers.py\<close>): cardinals below
  10^15, decimals digit by digit, and a listener who reads the words back, which shows that
  no two numbers are spoken alike.
\<close>

subsection \<open>Words\<close>

definition ones_words :: "ustr list" where
  "ones_words =
     [[], cps ''bir'', cps ''iki'', [0xFC, 0xE7], cps ''d'' @ [0xF6] @ cps ''rt'', cps ''be'' @ [0x15F],
      cps ''alt'' @ [0x131], cps ''yedi'', cps ''sekiz'', cps ''dokuz'']"

definition tens_words :: "ustr list" where
  "tens_words =
     [[], cps ''on'', cps ''yirmi'', cps ''otuz'', cps ''k'' @ [0x131] @ cps ''rk'', cps ''elli'',
      cps ''altm'' @ [0x131, 0x15F], cps ''yetmi'' @ [0x15F], cps ''seksen'', cps ''doksan'']"

definition bin_word :: ustr where "bin_word = cps ''bin''"
definition yuz_word :: ustr where "yuz_word = cps ''y'' @ [0xFC] @ cps ''z''"
definition zero_word :: ustr where "zero_word = cps ''s'' @ [0x131] @ cps ''f'' @ [0x131] @ cps ''r''"
definition eksi_word :: ustr where "eksi_word = cps ''eksi ''"
definition virgul_word :: ustr where "virgul_word = cps '' virg'' @ [0xFC] @ cps ''l ''"

definition scales :: "(nat \<times> ustr) list" where
  "scales = [(10 ^ 12, cps ''trilyon''), (10 ^ 9, cps ''milyar''), (10 ^ 6, cps ''milyon''), (10 ^ 3, bin_word)]"

text \<open>\<open>\" \".join\<close>, and indexing a list.\<close>

fun join_sp :: "ustr list \<Rightarrow> ustr" where
  "join_sp [] = []"
| "join_sp [w] = w"
| "join_sp (w # ws) = w @ 32 # join_sp ws"

definition at_index :: "'a list \<Rightarrow> nat \<Rightarrow> py_error + 'a" where
  "at_index xs i = (if i < length xs then Inr (xs ! i) else Inl (IndexError ''list index out of range''))"

subsection \<open>Cardinals\<close>

definition below_thousand :: "nat \<Rightarrow> py_error + ustr" where
  "below_thousand n =
     (if n = 0 then Inr []
      else bindS (if n div 100 = 0 then Inr []
                  else if n div 100 = 1 then Inr [yuz_word]
                  else bindS (at_index ones_words (n div 100)) (\<lambda>w. Inr [w @ 32 # yuz_word])) (\<lambda>hundreds.
           bindS (if n mod 100 div 10 = 0 then Inr []
                  else bindS (at_index tens_words (n mod 100 div 10)) (\<lambda>w. Inr [w])) (\<lambda>tens.
           bindS (if n mod 10 = 0 then Inr []
                  else bindS (at_index ones_words (n mod 10)) (\<lambda>w. Inr [w])) (\<lambda>ones.
           Inr (join_sp (hundreds @ tens @ ones))))))"

fun scale_loop :: "(nat \<times> ustr) list \<Rightarrow> nat \<Rightarrow> ustr list \<Rightarrow> py_error + ustr list \<times> nat" where
  "scale_loop [] remainder parts = Inr (parts, remainder)"
| "scale_loop ((v, name) # ss) remainder parts =
     (if v \<le> remainder
      then (if name = bin_word \<and> remainder div v = 1
            then scale_loop ss (remainder mod v) (parts @ [bin_word])
            else bindS (below_thousand (remainder div v)) (\<lambda>w.
                 scale_loop ss (remainder mod v) (parts @ [strip_spaces (w @ 32 # name)])))
      else scale_loop ss remainder parts)"

function number_to_turkish :: "int \<Rightarrow> py_error + ustr" where
  "number_to_turkish n =
     (if n = 0 then Inr zero_word
      else if n < 0 then bindS (number_to_turkish (- n)) (\<lambda>w. Inr (eksi_word @ w))
      else if 10 ^ 15 \<le> n then Inl (ValueError ''number exceeds supported range'')
      else bindS (scale_loop scales (nat n) []) (\<lambda>(parts, remainder).
           bindS (if remainder > 0 then bindS (below_thousand remainder) (\<lambda>w. Inr (parts @ [w])) else Inr parts)
                 (\<lambda>parts. Inr (join_sp (filter (\<lambda>p. p \<noteq> []) parts)))))"
  by pat_completeness auto
termination by (relation "measure (\<lambda>n. if n < 0 then 1 else 0)") auto

declare number_to_turkish.simps [simp del]

subsection \<open>Decimals\<close>

definition replace_char :: "nat \<Rightarrow> ustr \<Rightarrow> ustr \<Rightarrow> ustr" where
  "replace_char c w s = concat (map (\<lambda>x. if x = c then w else [x]) s)"

text \<open>\<open>s.split(c, 1)\<close> where \<open>c\<close> occurs.\<close>

definition split_once :: "nat \<Rightarrow> ustr \<Rightarrow> ustr \<times> ustr" where
  "split_once c s = (takeWhile (\<lambda>x. x \<noteq> c) s, tl (dropWhile (\<lambda>x. x \<noteq> c) s))"

fun digit_words :: "ustr \<Rightarrow> py_error + ustr list" where
  "digit_words [] = Inr []"
| "digit_words (d # ds) =
     bindS (if d \<noteq> 48 then bindS (py_int [d]) (\<lambda>i. at_index ones_words (nat i)) else Inr zero_word) (\<lambda>w.
     bindS (digit_words ds) (\<lambda>ws. Inr (w # ws)))"

definition decimal_to_turkish :: "ustr \<Rightarrow> py_error + ustr" where
  "decimal_to_turkish s0 =
     (let s = strip_spaces (replace_char 44 [46] s0)
      in if 46 \<notin> set s then bindS (py_int s) number_to_turkish
         else (case split_once 46 s of (int_part, frac_part) \<Rightarrow>
           let sign = (if take 1 int_part = [45] then eksi_word else []);
               int_part = (if take 1 int_part = [45] then drop 1 int_part else int_part)
           in bindS (py_int (if int_part = [] then [48] else int_part)) (\<lambda>i.
              bindS (number_to_turkish i) (\<lambda>int_words.
              bindS (digit_words frac_part) (\<lambda>ws.
              Inr (strip_spaces (sign @ int_words @ virgul_word @ join_sp ws)))))))"

subsection \<open>Hearing a number\<close>

text \<open>
  The reference: a listener keeps the total of the scales closed so far and the group still
  open, and reads the words from left to right.
\<close>

definition unit_words :: "(ustr \<times> nat) list" where
  "unit_words = zip (drop 1 ones_words) [1..<10] @ zip (drop 1 tens_words) (map (\<lambda>k. 10 * k) [1..<10])"

definition scale_words :: "(ustr \<times> nat) list" where
  "scale_words = map (\<lambda>(v, n). (n, v)) scales"

fun hear :: "ustr \<Rightarrow> nat \<times> nat \<Rightarrow> nat \<times> nat" where
  "hear w (tot, g) =
     (case map_of scale_words w of
        Some v \<Rightarrow> (tot + (if g = 0 then 1 else g) * v, 0)
      | None \<Rightarrow>
          if w = yuz_word then (tot, (if g = 0 then 1 else g) * 100)
          else (case map_of unit_words w of Some u \<Rightarrow> (tot, g + u) | None \<Rightarrow> (tot, g)))"

definition spoken_words :: "ustr \<Rightarrow> ustr list" where
  "spoken_words s = filter (\<lambda>w. w \<noteq> []) (split_on 32 s)"

definition heard :: "ustr \<Rightarrow> nat" where
  "heard s = (case fold hear (spoken_words s) (0, 0) of (tot, g) \<Rightarrow> tot + g)"

lemmas word_defs = ones_words_def tens_words_def bin_word_def yuz_word_def scales_def cps_def

lemma spoken_words_append: "spoken_words (a @ 32 # b) = spoken_words a @ spoken_words b"
  by (simp add: spoken_words_def split_on_append)

lemma spoken_words_Nil [simp]: "spoken_words [] = []"
  by (simp add: spoken_words_def)

lemma spoken_words_join: "spoken_words (join_sp ws) = concat (map spoken_words ws)"
  by (induction ws rule: join_sp.induct) (simp_all add: spoken_words_append)

lemma spoken_words_one: "32 \<notin> set w \<Longrightarrow> w \<noteq> [] \<Longrightarrow> spoken_words w = [w]"
  by (simp add: spoken_words_def split_on_plain)

lemma digit_cases: "(d::nat) < 10 \<Longrightarrow> d = 0 \<or> d = 1 \<or> d = 2 \<or> d = 3 \<or> d = 4 \<or> d = 5 \<or> d = 6 \<or> d = 7 \<or> d = 8 \<or> d = 9"
  by arith

lemma hear_one: "0 < d \<Longrightarrow> d < 10 \<Longrightarrow> fold hear (spoken_words (ones_words ! d)) (t, g) = (t, g + d)"
  by (drule digit_cases) (elim disjE; simp add: word_defs spoken_words_def unit_words_def scale_words_def upt_rec)

lemma hear_ten: "0 < d \<Longrightarrow> d < 10 \<Longrightarrow> fold hear (spoken_words (tens_words ! d)) (t, g) = (t, g + 10 * d)"
  by (drule digit_cases) (elim disjE; simp add: word_defs spoken_words_def unit_words_def scale_words_def upt_rec)

lemma hear_yuz: "fold hear (spoken_words yuz_word) (t, g) = (t, (if g = 0 then 1 else g) * 100)"
  by (simp add: word_defs spoken_words_def scale_words_def)

text \<open>The words of the three digits.\<close>

definition group_words :: "nat \<Rightarrow> nat \<Rightarrow> nat \<Rightarrow> ustr list" where
  "group_words h d e =
     (if h = 0 then [] else if h = 1 then [yuz_word] else [ones_words ! h @ 32 # yuz_word])
     @ (if d = 0 then [] else [tens_words ! d]) @ (if e = 0 then [] else [ones_words ! e])"

lemma below_thousand_words:
  assumes "0 < n" "n < 1000"
  shows "\<exists>h d e. h < 10 \<and> d < 10 \<and> e < 10 \<and> n = 100 * h + 10 * d + e
           \<and> below_thousand n = Inr (join_sp (group_words h d e))"
proof -
  define h d e where "h = n div 100" and "d = n mod 100 div 10" and "e = n mod 10"
  have lt: "h < 10" "d < 10" "e < 10" using assms by (auto simp: h_def d_def e_def)
  have e': "e = n mod 100 mod 10" by (simp add: e_def mod_mod_cancel)
  have n: "n = 100 * h + 10 * d + e"
    unfolding e' h_def d_def add.assoc mult_div_mod_eq ..
  have len: "length ones_words = 10" "length tens_words = 10" by (simp_all add: ones_words_def tens_words_def)
  have "below_thousand n = Inr (join_sp (group_words h d e))"
    using assms(1) lt unfolding below_thousand_def h_def [symmetric] d_def [symmetric] e_def [symmetric]
    by (simp add: at_index_def len group_words_def)
  with n lt show ?thesis by blast
qed

lemma below_thousand_heard:
  assumes "n < 1000"
  shows "\<exists>w. below_thousand n = Inr w \<and> (\<forall>t. fold hear (spoken_words w) (t, 0) = (t, n))"
proof (cases "n = 0")
  case True
  then show ?thesis by (simp add: below_thousand_def)
next
  case False
  then obtain h d e where lt: "h < 10" "d < 10" "e < 10" and n: "n = 100 * h + 10 * d + e"
    and w: "below_thousand n = Inr (join_sp (group_words h d e))"
    using below_thousand_words [of n] assms by auto
  have "fold hear (spoken_words (join_sp (group_words h d e))) (t, 0) = (t, n)" for t
    using lt by (simp add: n spoken_words_join spoken_words_append hear_one hear_ten hear_yuz group_words_def)
  with w show ?thesis by blast
qed

lemma spoken_words_filter: "concat (map spoken_words (filter (\<lambda>p. p \<noteq> []) ps)) = concat (map spoken_words ps)"
  by (induction ps) auto

lemma digit_words_start:
  "0 < d \<Longrightarrow> d < 10 \<Longrightarrow> ones_words ! d \<noteq> [] \<and> \<not> py_space (hd (ones_words ! d))"
  "0 < d \<Longrightarrow> d < 10 \<Longrightarrow> tens_words ! d \<noteq> [] \<and> \<not> py_space (hd (tens_words ! d))"
  by (drule digit_cases, elim disjE; simp add: word_defs py_space_def)+

lemma join_sp_hd: "w \<noteq> [] \<Longrightarrow> join_sp (w # ws) \<noteq> [] \<and> hd (join_sp (w # ws)) = hd w"
  by (cases ws) auto

lemma below_thousand_start:
  assumes "below_thousand n = Inr w" "0 < n" "n < 1000"
  shows "w \<noteq> [] \<and> \<not> py_space (hd w)"
proof -
  obtain h d e where lt: "h < 10" "d < 10" "e < 10" and n: "n = 100 * h + 10 * d + e"
    and w: "w = join_sp (group_words h d e)"
    using below_thousand_words [OF assms(2,3)] assms(1) by auto
  have yuz: "yuz_word \<noteq> []" "\<not> py_space (hd yuz_word)" by (simp_all add: yuz_word_def cps_def py_space_def)
  consider "0 < h" | "h = 0" "0 < d" | "h = 0" "d = 0" "0 < e" using n assms(2) by linarith
  then show ?thesis
    by cases (use lt digit_words_start in \<open>simp_all add: w group_words_def join_sp_hd yuz\<close>)
qed

lemma scale_step:
  assumes s: "(v, name) \<in> set scales" and lt: "rem < 1000 * v"
  shows "\<exists>new. scale_loop ((v, name) # ss) rem parts = scale_loop ss (rem mod v) (parts @ new)
     \<and> (\<forall>t. fold hear (concat (map spoken_words new)) (t, 0) = (t + rem div v * v, 0))"
proof (cases "v \<le> rem")
  case False
  then show ?thesis by (intro exI [of _ "[]"]) simp
next
  case True
  have v: "0 < v" using s by (auto simp: scales_def)
  have name: "map_of scale_words name = Some v" "spoken_words name = [name]" "name \<noteq> []" "\<not> py_space (last name)"
    using s by (auto simp: scale_words_def word_defs py_space_def spoken_words_def)
  have count: "0 < rem div v" "rem div v < 1000"
    using True v lt by (simp_all add: div_greater_zero_iff less_mult_imp_div_less)
  show ?thesis
  proof (cases "name = bin_word \<and> rem div v = 1")
    case c: True
    have "fold hear (spoken_words bin_word) (t, 0) = (t + rem div v * v, 0)" for t
      using name c by simp
    then show ?thesis using True c by (intro exI [of _ "[bin_word]"]) (simp del: hear.simps)
  next
    case c: False
    obtain w where w: "below_thousand (rem div v) = Inr w" "\<And>t. fold hear (spoken_words w) (t, 0) = (t, rem div v)"
      using below_thousand_heard [OF count(2)] by blast
    have "strip_spaces (w @ 32 # name) = w @ 32 # name"
      using below_thousand_start [OF w(1) count] name by (intro strip_spaces_edges) auto
    moreover have "fold hear (spoken_words (w @ 32 # name)) (t, 0) = (t + rem div v * v, 0)" for t
      using count name by (simp add: spoken_words_append w(2))
    moreover have "scale_loop ((v, name) # ss) rem parts
        = scale_loop ss (rem mod v) (parts @ [strip_spaces (w @ 32 # name)])"
      using True w(1) c by (subst scale_loop.simps) auto
    ultimately show ?thesis by (intro exI [of _ "[w @ 32 # name]"]) (simp del: hear.simps)
  qed
qed

lemma fold_hear_append:
  "fold hear (concat (map spoken_words (a @ b))) p = fold hear (concat (map spoken_words b)) (fold hear (concat (map spoken_words a)) p)"
  by simp

lemma scales_heard:
  assumes "n < 10 ^ 15"
  shows "\<exists>parts r. scale_loop scales n [] = Inr (parts, r) \<and> r < 1000
     \<and> (\<exists>m. fold hear (concat (map spoken_words parts)) (0, 0) = (m, 0) \<and> n = m + r)"
proof -
  define r1 where "r1 = n mod 10 ^ 12"
  define r2 where "r2 = r1 mod 10 ^ 9"
  define r3 where "r3 = r2 mod 10 ^ 6"
  define r4 where "r4 = r3 mod 10 ^ 3"
  have r: "r1 < 10 ^ 12" "r2 < 10 ^ 9" "r3 < 10 ^ 6" "r4 < 1000" by (simp_all add: r1_def r2_def r3_def r4_def)
  have sc: "scales = (10 ^ 12, cps ''trilyon'') # drop 1 scales" "drop 1 scales = (10 ^ 9, cps ''milyar'') # drop 2 scales"
    "drop 2 scales = (10 ^ 6, cps ''milyon'') # drop 3 scales" "drop 3 scales = [(10 ^ 3, bin_word)]"
    by (simp_all add: scales_def)
  have mem: "(10 ^ 12, cps ''trilyon'') \<in> set scales" "(10 ^ 9, cps ''milyar'') \<in> set scales"
    "(10 ^ 6, cps ''milyon'') \<in> set scales" "(10 ^ 3, bin_word) \<in> set scales"
    by (simp_all add: scales_def)
  have b: "n < 1000 * 10 ^ 12" "r1 < 1000 * 10 ^ 9" "r2 < 1000 * 10 ^ 6" "r3 < 1000 * 10 ^ 3"
    using assms r by simp_all
  obtain p1 where p1: "scale_loop scales n [] = scale_loop (drop 1 scales) r1 ([] @ p1)"
    "\<And>t. fold hear (concat (map spoken_words p1)) (t, 0) = (t + n div 10 ^ 12 * 10 ^ 12, 0)"
    using scale_step [OF mem(1) b(1), of "drop 1 scales" "[]"] unfolding sc(1) [symmetric] r1_def [symmetric] by blast
  obtain p2 where p2: "scale_loop (drop 1 scales) r1 ([] @ p1) = scale_loop (drop 2 scales) r2 (([] @ p1) @ p2)"
    "\<And>t. fold hear (concat (map spoken_words p2)) (t, 0) = (t + r1 div 10 ^ 9 * 10 ^ 9, 0)"
    using scale_step [OF mem(2) b(2), of "drop 2 scales" "[] @ p1"] unfolding sc(2) [symmetric] r2_def [symmetric] by blast
  obtain p3 where p3: "scale_loop (drop 2 scales) r2 (([] @ p1) @ p2) = scale_loop (drop 3 scales) r3 ((([] @ p1) @ p2) @ p3)"
    "\<And>t. fold hear (concat (map spoken_words p3)) (t, 0) = (t + r2 div 10 ^ 6 * 10 ^ 6, 0)"
    using scale_step [OF mem(3) b(3), of "drop 3 scales" "([] @ p1) @ p2"] unfolding sc(3) [symmetric] r3_def [symmetric] by blast
  obtain p4 where p4: "scale_loop (drop 3 scales) r3 ((([] @ p1) @ p2) @ p3) = scale_loop [] r4 (((([] @ p1) @ p2) @ p3) @ p4)"
    "\<And>t. fold hear (concat (map spoken_words p4)) (t, 0) = (t + r3 div 10 ^ 3 * 10 ^ 3, 0)"
    using scale_step [OF mem(4) b(4), of "[]" "(([] @ p1) @ p2) @ p3"] unfolding sc(4) [symmetric] r4_def [symmetric] by blast
  have "n = n div 10 ^ 12 * 10 ^ 12 + r1 div 10 ^ 9 * 10 ^ 9 + r2 div 10 ^ 6 * 10 ^ 6 + r3 div 10 ^ 3 * 10 ^ 3 + r4"
    using div_mult_mod_eq [of n "10 ^ 12"] div_mult_mod_eq [of r1 "10 ^ 9"] div_mult_mod_eq [of r2 "10 ^ 6"]
      div_mult_mod_eq [of r3 "10 ^ 3"]
    unfolding r1_def [symmetric] r2_def [symmetric] r3_def [symmetric] r4_def [symmetric] by linarith
  moreover have "fold hear (concat (map spoken_words (((([] @ p1) @ p2) @ p3) @ p4))) (0, 0)
      = (n div 10 ^ 12 * 10 ^ 12 + r1 div 10 ^ 9 * 10 ^ 9 + r2 div 10 ^ 6 * 10 ^ 6 + r3 div 10 ^ 3 * 10 ^ 3, 0)"
    by (simp only: fold_hear_append append_Nil p1(2) p2(2) p3(2) p4(2) add_0)
  moreover have "scale_loop scales n [] = Inr (((([] @ p1) @ p2) @ p3) @ p4, r4)"
    using p1(1) p2(1) p3(1) p4(1) by (simp only: scale_loop.simps)
  ultimately show ?thesis using r(4) by blast
qed

lemma positive_heard:
  assumes "0 < n" "n < 10 ^ 15"
  shows "\<exists>w. number_to_turkish n = Inr w \<and> heard w = nat n"
proof -
  have "nat n < 10 ^ 15" using assms by (simp add: nat_less_iff)
  then obtain parts r m where s: "scale_loop scales (nat n) [] = Inr (parts, r)" "r < 1000"
    and m: "fold hear (concat (map spoken_words parts)) (0, 0) = (m, 0)" "nat n = m + r"
    using scales_heard by blast
  obtain w where w: "below_thousand r = Inr w" "\<And>t. fold hear (spoken_words w) (t, 0) = (t, r)"
    using below_thousand_heard [OF s(2)] by blast
  have "heard (join_sp (filter (\<lambda>p. p \<noteq> []) (parts @ (if r > 0 then [w] else [])))) = nat n"
    using m w(2) by (simp add: heard_def spoken_words_join spoken_words_filter del: filter_append)
  then show ?thesis
    using assms s(1) w(1) by (subst number_to_turkish.simps) auto
qed

text \<open>
  Numbers are heard as they were meant. \<open>number_to_turkish\<close> answers exactly the integers
  below 10^15 in absolute value, a negative one as \<open>eksi\<close> and the words of its absolute
  value, and a listener who reads a positive one's words back arrives at the number; so no
  two numbers are spoken alike.
\<close>

theorem numbers_heard_back:
  "case number_to_turkish n of
     Inl e \<Rightarrow> 10 ^ 15 \<le> \<bar>n\<bar> \<and> e = ValueError ''number exceeds supported range''
   | Inr w \<Rightarrow> \<bar>n\<bar> < 10 ^ 15
       \<and> (if n = 0 then w = zero_word
          else if n < 0 then (\<exists>u. number_to_turkish (- n) = Inr u \<and> w = eksi_word @ u \<and> heard u = nat (- n))
          else heard w = nat n)"
proof -
  have big: "number_to_turkish m = Inl (ValueError ''number exceeds supported range'')" if "10 ^ 15 \<le> m" for m
    using that by (subst number_to_turkish.simps) simp
  consider "n = 0" | "0 < n" "n < 10 ^ 15" | "10 ^ 15 \<le> n" | "n < 0" "- n < 10 ^ 15" | "n < 0" "10 ^ 15 \<le> - n"
    by linarith
  then show ?thesis
  proof cases
    case 1
    then show ?thesis by (subst number_to_turkish.simps) simp
  next
    case 2
    with positive_heard [OF 2] show ?thesis by auto
  next
    case 3
    with big [OF 3] show ?thesis by simp
  next
    case 4
    then obtain u where u: "number_to_turkish (- n) = Inr u" "heard u = nat (- n)" using positive_heard [of "- n"] by auto
    then have "number_to_turkish n = Inr (eksi_word @ u)" using 4 by (subst number_to_turkish.simps) simp
    with u 4 show ?thesis by simp
  next
    case 5
    then have "number_to_turkish n = Inl (ValueError ''number exceeds supported range'')"
      using big [OF 5(2)] by (subst number_to_turkish.simps) simp
    with 5 show ?thesis by simp
  qed
qed

end
