(* ===== verification/Operators.thy ===== *)
theory Operators
  imports Authentication
begin

text \<open>
  Operators and their sessions: the \<open>operators\<close> table (\<^verbatim>\<open>src/repos/operator.py\<close>) and the JSON
  web tokens of \<^verbatim>\<open>src/server/security/jwt_tokens.py\<close>. PyJWT is a parameter: the operations
  the code calls, with the documented law that a token decodes to its claims until it expires.
\<close>

subsection \<open>The table\<close>

record operator_row =
  op_id :: uuid
  op_email :: string
  op_password_hash :: string
  op_full_name :: "string option"
  op_roles :: "string list"
  op_created_at :: millis
  op_last_login_at :: "millis option"
  op_disabled_at :: "millis option"

type_synonym operator_table = "operator_row list"

text \<open>\<open>email ~ '^[^@]+@[^@]+\.[^@]+$'\<close>.\<close>

definition email_shape :: "string \<Rightarrow> bool" where
  "email_shape s \<longleftrightarrow>
     (case split_on (CHR ''@'') s of
        [user, host] \<Rightarrow> user \<noteq> [] \<and> CHR ''.'' \<in> set (butlast (drop 1 host))
      | _ \<Rightarrow> False)"

definition operator_clash :: "operator_row \<Rightarrow> operator_row \<Rightarrow> bool" where
  "operator_clash r r' \<longleftrightarrow> op_id r' = op_id r \<or> op_email r' = op_email r"

definition operator_get :: "uuid \<Rightarrow> operator_table \<Rightarrow> operator_row option" where
  [repo_defs]: "operator_get oid t = find (\<lambda>r. op_id r = oid) t"

definition get_by_email :: "(string \<Rightarrow> string) \<Rightarrow> string \<Rightarrow> operator_table \<Rightarrow> operator_row option" where
  [repo_defs]: "get_by_email lower email t = find (\<lambda>r. op_email r = lower email) t"

definition operator_create ::
  "(string \<Rightarrow> string) \<Rightarrow> uuid \<Rightarrow> millis \<Rightarrow> string \<Rightarrow> string \<Rightarrow> string option \<Rightarrow> string list option \<Rightarrow> operator_table
   \<Rightarrow> py_error + operator_row \<times> operator_table" where
  [repo_defs]: "operator_create lower new_id now email password_hash full_name roles t =
     (let r = \<lparr>op_id = new_id, op_email = lower email, op_password_hash = password_hash, op_full_name = full_name,
               op_roles = (case roles of Some (x # xs) \<Rightarrow> x # xs | _ \<Rightarrow> [''admin'']), op_created_at = now,
               op_last_login_at = None, op_disabled_at = None\<rparr>
      in if \<not> email_shape (op_email r) then Inl IntegrityError
         else bindS (insert_row operator_clash r t) (\<lambda>t'. Inr (r, t')))"

definition touch_login :: "uuid \<Rightarrow> millis \<Rightarrow> operator_table \<Rightarrow> operator_table" where
  [repo_defs]: "touch_login oid now t = update_rows (\<lambda>r. op_id r = oid) (\<lambda>r. r\<lparr>op_last_login_at := Some now\<rparr>) t"

subsection \<open>Tokens\<close>

datatype jwt_reply = Expired | Invalid | Payload dict

text \<open>\<open>jwt.encode\<close> and \<open>jwt.decode\<close> with the issuer and the required claims the code passes.\<close>

record jwt_lib =
  jl_encode :: "ustr \<Rightarrow> dict \<Rightarrow> ustr"
  jl_decode :: "ustr \<Rightarrow> int \<Rightarrow> ustr \<Rightarrow> jwt_reply"

datatype jwt_error = Jwt_Expired | Jwt_Tampered | Jwt_Type_Mismatch | Not_Jwt py_error

definition access_ttl :: int where "access_ttl = 60 * 60"
definition refresh_ttl :: int where "refresh_ttl = 60 * 60 * 24 * 7"

definition signing_key :: "ustr option \<Rightarrow> py_error + ustr" where
  "signing_key env =
     (case env of
        None \<Rightarrow> Inl (RuntimeError ''NEUROVOICE_JWT_SECRET must be set'')
      | Some key \<Rightarrow> if length key < 32 then Inl (RuntimeError ''NEUROVOICE_JWT_SECRET must be set'') else Inr key)"

definition session_claims :: "uuid \<Rightarrow> int \<Rightarrow> int \<Rightarrow> string \<Rightarrow> dict" where
  "session_claims oid now ttl typ =
     [(''iss'', JStr (cps ''neurovoice'')), (''sub'', JStr (uuid_str oid)), (''iat'', JInt now),
      (''exp'', JInt (now + ttl)), (''type'', JStr (cps typ))]"

definition access_claims :: "uuid \<Rightarrow> int \<Rightarrow> string list \<Rightarrow> dict" where
  "access_claims oid now roles =
     session_claims oid now access_ttl ''access''
     @ [(''scope'', JStr (cps ''admin'')), (''roles'', JList (map (JStr \<circ> cps) roles))]"

definition refresh_claims :: "uuid \<Rightarrow> int \<Rightarrow> uuid \<Rightarrow> ustr \<Rightarrow> dict" where
  "refresh_claims oid now family jti =
     session_claims oid now refresh_ttl ''refresh'' @ [(''family'', JStr (uuid_str family)), (''jti'', JStr jti)]"

definition issue_operator_jwt ::
  "jwt_lib \<Rightarrow> ustr option \<Rightarrow> int \<Rightarrow> uuid \<Rightarrow> string list \<Rightarrow> uuid option \<Rightarrow> uuid \<Rightarrow> ustr
   \<Rightarrow> py_error + ustr \<times> ustr \<times> uuid" where
  "issue_operator_jwt L env now oid roles family fresh jti =
     (let family_id = (case family of Some f \<Rightarrow> f | None \<Rightarrow> fresh)
      in bindS (signing_key env) (\<lambda>secret.
         Inr (jl_encode L secret (access_claims oid now roles),
              jl_encode L secret (refresh_claims oid now family_id jti), family_id)))"

text \<open>
  What PyJWT documents of a token signed with the same secret: it decodes to its claims before
  \<open>exp\<close> and is expired from then on; a token is never empty. The two claim sets the code signs
  carry the required claims and the expected issuer.
\<close>

definition token_law :: "jwt_lib \<Rightarrow> dict \<Rightarrow> int \<Rightarrow> int \<Rightarrow> bool" where
  "token_law L claims issued ttl \<longleftrightarrow> (\<forall>secret now. issued \<le> now \<longrightarrow>
     jl_encode L secret claims \<noteq> []
     \<and> jl_decode L secret now (jl_encode L secret claims) = (if now < issued + ttl then Payload claims else Expired))"

definition jwt_lib_ok :: "jwt_lib \<Rightarrow> bool" where
  "jwt_lib_ok L \<longleftrightarrow> (\<forall>oid issued roles family jti.
     token_law L (access_claims oid issued roles) issued access_ttl
     \<and> token_law L (refresh_claims oid issued family jti) issued refresh_ttl)"

record operator_claims =
  oc_operator_id :: uuid
  oc_roles :: json
  oc_issued_at :: int
  oc_expires_at :: int
  oc_token_type :: string
  oc_family :: "uuid option"

text \<open>\<open>int(x)\<close> and \<open>uuid.UUID(x)\<close> on a JSON value.\<close>

definition json_int :: "json \<Rightarrow> py_error + int" where
  "json_int j =
     (case j of
        JInt i \<Rightarrow> Inr i
      | JBool b \<Rightarrow> Inr (if b then 1 else 0)
      | JFloat q \<Rightarrow> Inr (if q < 0 then \<lceil>q\<rceil> else \<lfloor>q\<rfloor>)
      | JStr s \<Rightarrow> py_int s
      | _ \<Rightarrow> Inl (TypeError ''int() argument must be a string or a number''))"

definition json_uuid :: "json \<Rightarrow> py_error + uuid" where
  "json_uuid j = (case j of JStr s \<Rightarrow> uuid_parse s | _ \<Rightarrow> Inl (TypeError ''badly formed hexadecimal UUID string''))"

definition claim :: "dict \<Rightarrow> string \<Rightarrow> py_error + json" where
  "claim p k = (case map_of p k of None \<Rightarrow> Inl (KeyError k) | Some j \<Rightarrow> Inr j)"

definition claims_of :: "dict \<Rightarrow> string \<Rightarrow> py_error + operator_claims" where
  "claims_of p expected =
     bindS (bindS (claim p ''sub'') json_uuid) (\<lambda>oid.
     bindS (bindS (claim p ''iat'') json_int) (\<lambda>iat.
     bindS (bindS (claim p ''exp'') json_int) (\<lambda>until.
     bindS (case map_of p ''family'' of None \<Rightarrow> Inr None | Some j \<Rightarrow> bindS (json_uuid j) (\<lambda>f. Inr (Some f))) (\<lambda>family.
     Inr \<lparr>oc_operator_id = oid,
          oc_roles = (case map_of p ''roles'' of None \<Rightarrow> JList [] | Some r \<Rightarrow> r),
          oc_issued_at = iat, oc_expires_at = until, oc_token_type = expected, oc_family = family\<rparr>))))"

definition decode_operator_jwt ::
  "jwt_lib \<Rightarrow> ustr option \<Rightarrow> int \<Rightarrow> ustr \<Rightarrow> string \<Rightarrow> jwt_error + operator_claims" where
  "decode_operator_jwt L env now token expected =
     (case signing_key env of
        Inl e \<Rightarrow> Inl (Not_Jwt e)
      | Inr secret \<Rightarrow>
          (case jl_decode L secret now token of
             Expired \<Rightarrow> Inl Jwt_Expired
           | Invalid \<Rightarrow> Inl Jwt_Tampered
           | Payload p \<Rightarrow>
               if map_of p ''type'' \<noteq> Some (JStr (cps expected)) then Inl Jwt_Type_Mismatch
               else (case claims_of p expected of Inl e \<Rightarrow> Inl (Not_Jwt e) | Inr c \<Rightarrow> Inr c)))"

lemma issued_decodes:
  assumes L: "jwt_lib_ok L" and iss: "issue_operator_jwt L env now oid roles family fresh jti = Inr (access, refresh, fam)"
    and oid: "oid < 2 ^ 128" and t: "now \<le> t"
  shows "decode_operator_jwt L env t access ''access''
           = (if t < now + access_ttl
              then Inr \<lparr>oc_operator_id = oid, oc_roles = JList (map (JStr \<circ> cps) roles), oc_issued_at = now,
                        oc_expires_at = now + access_ttl, oc_token_type = ''access'', oc_family = None\<rparr>
              else Inl Jwt_Expired)
         \<and> decode_operator_jwt L env t refresh ''access''
           = (if t < now + refresh_ttl then Inl Jwt_Type_Mismatch else Inl Jwt_Expired)
         \<and> access \<noteq> [] \<and> refresh \<noteq> []"
proof -
  obtain secret where sec: "signing_key env = Inr secret"
    using iss by (auto simp: issue_operator_jwt_def Let_def bindS_def split: sum.splits)
  have a: "access = jl_encode L secret (access_claims oid now roles)"
    and r: "refresh = jl_encode L secret (refresh_claims oid now fam jti)"
    using iss sec by (auto simp: issue_operator_jwt_def Let_def)
  have da: "access \<noteq> []" "jl_decode L secret t access = (if t < now + access_ttl then Payload (access_claims oid now roles) else Expired)"
    using L t unfolding jwt_lib_ok_def token_law_def a by blast+
  have dr: "refresh \<noteq> []" "jl_decode L secret t refresh = (if t < now + refresh_ttl then Payload (refresh_claims oid now fam jti) else Expired)"
    using L t unfolding jwt_lib_ok_def token_law_def r by blast+
  have "cps ''refresh'' \<noteq> cps ''access''" by (simp add: cps_def)
  then show ?thesis
    using oid by (simp add: decode_operator_jwt_def sec da dr access_claims_def refresh_claims_def session_claims_def
        claims_of_def claim_def json_uuid_def json_int_def uuid_parse_str)
qed

subsection \<open>A concrete library\<close>

text \<open>Tokens that spell their claims out, to show that the law can hold.\<close>

definition text_of :: "json \<Rightarrow> ustr" where
  "text_of j = (case j of JStr s \<Rightarrow> s | _ \<Rightarrow> [])"

definition int_of :: "json \<Rightarrow> int" where
  "int_of j = (case j of JInt i \<Rightarrow> i | _ \<Rightarrow> 0)"

definition list_of :: "json \<Rightarrow> json list" where
  "list_of j = (case j of JList xs \<Rightarrow> xs | _ \<Rightarrow> [])"

definition the_claim :: "dict \<Rightarrow> string \<Rightarrow> json" where
  "the_claim p k = (case map_of p k of Some j \<Rightarrow> j | None \<Rightarrow> JNull)"

definition plain_head :: "nat \<Rightarrow> dict \<Rightarrow> ustr" where
  "plain_head tag p =
     (let i = int_of (the_claim p ''iat'')
      in tag # (if i < 0 then 1 else 0) # nat \<bar>i\<bar> # length (text_of (the_claim p ''sub'')) # text_of (the_claim p ''sub''))"

definition plain_encode :: "ustr \<Rightarrow> dict \<Rightarrow> ustr" where
  "plain_encode secret p =
     (if map_of p ''roles'' \<noteq> None
      then plain_head 1 p @ concat (map (\<lambda>j. text_of j @ [256]) (list_of (the_claim p ''roles'')))
      else plain_head 2 p @ length (text_of (the_claim p ''family'')) # text_of (the_claim p ''family'') @ text_of (the_claim p ''jti''))"

definition plain_claims :: "ustr \<Rightarrow> int \<Rightarrow> int \<Rightarrow> string \<Rightarrow> dict" where
  "plain_claims sub iat ttl typ =
     [(''iss'', JStr (cps ''neurovoice'')), (''sub'', JStr sub), (''iat'', JInt iat), (''exp'', JInt (iat + ttl)),
      (''type'', JStr (cps typ))]"

fun plain_decode :: "ustr \<Rightarrow> int \<Rightarrow> ustr \<Rightarrow> jwt_reply" where
  "plain_decode secret now (tag # sign # n # k # rest) =
     (let iat = (if sign = 1 then - int n else int n); sub = take k rest; more = drop k rest
      in if tag = 1
         then (if now < iat + access_ttl
               then Payload (plain_claims sub iat access_ttl ''access''
                      @ [(''scope'', JStr (cps ''admin'')), (''roles'', JList (map JStr (butlast (split_on 256 more))))])
               else Expired)
         else (if now < iat + refresh_ttl
               then Payload (plain_claims sub iat refresh_ttl ''refresh''
                      @ [(''family'', JStr (take (hd more) (tl more))), (''jti'', JStr (drop (hd more) (tl more)))])
               else Expired))"
| "plain_decode secret now token = Invalid"

definition plain_jwt :: jwt_lib where
  "plain_jwt = \<lparr>jl_encode = plain_encode, jl_decode = plain_decode\<rparr>"

lemma cps_below: "256 \<notin> set (cps s)"
proof
  assume "256 \<in> set (cps s)"
  then obtain c where "(of_char c :: nat) = 256" by (auto simp: cps_def)
  moreover have "(of_char c :: nat) < 256" by (rule nat_of_char_less_256)
  ultimately show False by simp
qed

lemma split_lines: "(\<And>w. w \<in> set ws \<Longrightarrow> c \<notin> set w) \<Longrightarrow> split_on c (concat (map (\<lambda>w. w @ [c]) ws)) = ws @ [[]]"
  by (induction ws) (auto simp: split_on_append split_on_plain)

lemma plain_jwt_ok: "jwt_lib_ok plain_jwt"
proof -
  have roles: "map JStr (butlast (split_on 256 (concat (map ((\<lambda>j. text_of j @ [256]) \<circ> (JStr \<circ> cps)) roles)))) = map (JStr \<circ> cps) roles"
    for roles :: "string list"
  proof -
    have "split_on 256 (concat (map (\<lambda>w. w @ [256]) (map cps roles))) = map cps roles @ [[]]"
      by (rule split_lines) (auto simp: cps_below)
    then show ?thesis by (simp add: text_of_def comp_def)
  qed
  have a: "token_law plain_jwt (access_claims oid issued roles) issued access_ttl" for oid issued roles
    by (simp add: token_law_def plain_jwt_def plain_encode_def plain_head_def access_claims_def session_claims_def
        the_claim_def Let_def roles plain_claims_def)
      (simp add: int_of_def list_of_def plain_claims_def roles [unfolded text_of_def] text_of_def)
  have r: "token_law plain_jwt (refresh_claims oid issued family jti) issued refresh_ttl" for oid issued family jti
    by (simp add: token_law_def plain_jwt_def plain_encode_def plain_head_def refresh_claims_def session_claims_def
        the_claim_def Let_def plain_claims_def)
      (simp add: text_of_def int_of_def plain_claims_def)
  show ?thesis unfolding jwt_lib_ok_def using a r by blast
qed

end
