(* ===== verification/Admin.thy ===== *)
theory Admin
  imports Gateway_Voices Operators
begin

text \<open>
  The operator routes of \<^verbatim>\<open>src/server/admin/router.py\<close>: login, tenants, API keys, voice lifecycle,
  deletion tickets, evaluation pins, watermark keys and forensics, and the two revocation
  cascades. A response is its JSON object, a timestamp the integer the clock gave. The HTML
  dashboard only picks a template and is left out.
\<close>

subsection \<open>State\<close>

record adm_db =
  ad_core :: gdb
  ad_tenants :: tenant_table
  ad_keys :: key_table
  ad_operators :: operator_table
  ad_wm :: wm_table

record adm_state =
  an_db :: adm_db
  an_saved :: adm_db
  an_files :: "string \<rightharpoonup> bytes"
  an_objects :: "string \<rightharpoonup> bytes" \<comment> \<open>the bucket, by URI\<close>

type_synonym 'a aact = "(adm_state, http_error, 'a) act"

datatype probe_reply =
    Detector_Down string
  | Detected rat "int option" dict \<comment> \<open>probability, payload from the threshold on, sample rate, duration and detail\<close>

text \<open>
  What a handler reads besides its state. \<open>ae_r2_delete\<close> and \<open>ae_unlink\<close> give the text of the
  exception a delete raises, \<open>ae_decode_audio\<close> is soundfile with the mono mix, \<open>ae_detect\<close> is
  \<open>WatermarkDetector.detect\<close> under a threshold.
\<close>

record aenv =
  ae_now :: millis
  ae_now_s :: int
  ae_uuid :: "nat \<Rightarrow> uuid"
  ae_ip :: "string option"
  ae_jwt :: jwt_lib
  ae_jwt_secret :: "ustr option"
  ae_jti :: ustr
  ae_verify :: "string \<Rightarrow> ustr \<Rightarrow> verify_reply"
  ae_hash_secret :: "ustr \<Rightarrow> string"
  ae_lower :: "string \<Rightarrow> string"
  ae_prefix_random :: ustr
  ae_key_secret :: ustr
  ae_draws :: "int list"
  ae_r2_up :: bool
  ae_r2_delete :: "string \<Rightarrow> string option"
  ae_unlink :: "string \<Rightarrow> string option"
  ae_max_upload_mb :: nat
  ae_decode_audio :: "bytes \<Rightarrow> string + bytes \<times> int"
  ae_detect :: "rat \<Rightarrow> bytes \<Rightarrow> int \<Rightarrow> probe_reply"
  ae_printable :: "nat \<Rightarrow> bool"

definition acommit :: "unit aact" where
  "acommit = modifyA (\<lambda>s. s\<lparr>an_saved := an_db s\<rparr>)"

definition get_adb :: "(adm_db \<Rightarrow> 'a) \<Rightarrow> 'a aact" where
  "get_adb f = getsA (\<lambda>s. f (an_db s))"

definition in_adb :: "(adm_db \<Rightarrow> py_error + 'a \<times> adm_db) \<Rightarrow> 'a aact" where
  "in_adb f s = (case f (an_db s) of
      Inl e \<Rightarrow> (Inl (Crash e), s)
    | Inr (x, d) \<Rightarrow> (Inr x, s\<lparr>an_db := d\<rparr>))"

definition admin_session :: "'a aact \<Rightarrow> 'a aact" where
  "admin_session m s = (case m s of (r, s') \<Rightarrow> (r, s'\<lparr>an_db := an_saved s'\<rparr>))"

definition demand :: "bool \<Rightarrow> http_error \<Rightarrow> unit aact" where
  "demand ok e = (if ok then ret () else throw e)"

definition found :: "string \<Rightarrow> 'a option \<Rightarrow> 'a aact" where
  "found what x = (case x of None \<Rightarrow> throw (Status 404 (what @ '' not found'')) | Some y \<Rightarrow> ret y)"

text \<open>JSON of strings, ids and optional values.\<close>

definition jtext :: "string \<Rightarrow> json" where "jtext s = JStr (cps s)"
definition jid :: "uuid \<Rightarrow> json" where "jid u = JStr (uuid_str u)"
definition jopt :: "('a \<Rightarrow> json) \<Rightarrow> 'a option \<Rightarrow> json" where
  "jopt f x = (case x of None \<Rightarrow> JNull | Some y \<Rightarrow> f y)"
definition uuid_text :: "uuid \<Rightarrow> string" where "uuid_text u = map char_of (uuid_str u)"

text \<open>The insert of an operator's audit row.\<close>

definition operator_row_for ::
  "aenv \<Rightarrow> operator_row \<Rightarrow> string \<Rightarrow> uuid option \<Rightarrow> string option \<Rightarrow> string option \<Rightarrow> string option \<Rightarrow> dict \<Rightarrow> audit_row" where
  "operator_row_for E op action tid ttype target ip payload =
     \<lparr>lg_occurred_at = ae_now E, lg_actor_type = ''operator'', lg_actor_id = Some (op_id op),
      lg_actor_label = Some (cps (op_email op)), lg_tenant_id = tid, lg_action = action, lg_result = ''success'',
      lg_target_type = ttype, lg_target_id = target, lg_ip_addr = ip, lg_user_agent = None,
      lg_request_id = None, lg_payload = payload\<rparr>"

definition audit_as ::
  "aenv \<Rightarrow> operator_row \<Rightarrow> string \<Rightarrow> uuid option \<Rightarrow> string option \<Rightarrow> string option \<Rightarrow> string option \<Rightarrow> dict \<Rightarrow> unit aact" where
  "audit_as E op action tid ttype target ip payload =
     in_adb (\<lambda>d. bindS (audit_record (ad_tenants d) (operator_row_for E op action tid ttype target ip payload)
                          (gd_log (ad_core d)))
                   (\<lambda>log. Inr ((), d\<lparr>ad_core := (ad_core d)\<lparr>gd_log := log\<rparr>\<rparr>)))"

text \<open>Calls into the voice repository.\<close>

definition on_voice_table ::
  "(voice_table \<Rightarrow> py_error + 'a \<times> voice_table) \<Rightarrow> 'a aact" where
  "on_voice_table f =
     in_adb (\<lambda>d. bindS (f (gd_voices (ad_core d))) (\<lambda>(r, t). Inr (r, d\<lparr>ad_core := (ad_core d)\<lparr>gd_voices := t\<rparr>\<rparr>)))"

subsection \<open>Operator sessions\<close>

definition current_operator :: "aenv \<Rightarrow> ustr option \<Rightarrow> operator_row aact" where
  "current_operator E cookie =
     (if cookie = None \<or> cookie = Some [] then throw (Status 401 ''operator login required'')
      else case decode_operator_jwt (ae_jwt E) (ae_jwt_secret E) (ae_now_s E) (the cookie) ''access'' of
             Inl (Not_Jwt e) \<Rightarrow> throw (Crash e)
           | Inl _ \<Rightarrow> throw (Status 401 ''session invalid'')
           | Inr claims \<Rightarrow>
               bindA (get_adb (\<lambda>d. operator_get (oc_operator_id claims) (ad_operators d))) (\<lambda>op.
                 case op of
                   None \<Rightarrow> throw (Status 401 ''operator disabled'')
                 | Some op \<Rightarrow> if op_disabled_at op \<noteq> None then throw (Status 401 ''operator disabled'') else ret op))"

text \<open>The two cookies come back with the response.\<close>

definition login :: "aenv \<Rightarrow> string \<Rightarrow> ustr \<Rightarrow> (dict \<times> ustr \<times> ustr) aact" where
  "login E email password =
     bindA (get_adb (\<lambda>d. get_by_email (ae_lower E) email (ad_operators d))) (\<lambda>op.
       case op of
         None \<Rightarrow> throw (Status 401 ''invalid credentials'')
       | Some op \<Rightarrow>
           if op_disabled_at op \<noteq> None then throw (Status 401 ''invalid credentials'')
           else (case ae_verify E (op_password_hash op) password of
                   Invalid_Hash \<Rightarrow> throw (Crash (ValueError ''invalid hash''))
                 | Mismatch \<Rightarrow> throw (Status 401 ''invalid credentials'')
                 | Verified \<Rightarrow>
                     (case issue_operator_jwt (ae_jwt E) (ae_jwt_secret E) (ae_now_s E) (op_id op) (op_roles op)
                             None (ae_uuid E 0) (ae_jti E) of
                        Inl e \<Rightarrow> throw (Crash e)
                      | Inr (access, refresh, family) \<Rightarrow>
                          seqA (in_adb (\<lambda>d. Inr ((), d\<lparr>ad_operators := touch_login (op_id op) (ae_now E) (ad_operators d)\<rparr>)))
                          (seqA (audit_as E op ''operator.login'' None None None (ae_ip E) [])
                          (seqA acommit
                          (ret ([(''operator_id'', jid (op_id op)), (''email'', jtext (op_email op)),
                                 (''roles'', JList (map jtext (op_roles op)))], access, refresh)))))))"

subsection \<open>Tenants and keys\<close>

definition list_tenants :: "operator_row \<Rightarrow> dict aact" where
  "list_tenants op =
     get_adb (\<lambda>d. [(''tenants'', JList (map (\<lambda>t. JObj
       [(''id'', jid (te_id t)), (''slug'', jtext (te_slug t)), (''display_name'', jtext (te_display_name t)),
        (''status'', jtext (te_status t)), (''created_at'', JInt (te_created_at t))])
       (tenant_list_active (ad_tenants d))))])"

definition create_tenant :: "aenv \<Rightarrow> string \<Rightarrow> string \<Rightarrow> operator_row \<Rightarrow> dict aact" where
  "create_tenant E slug display_name op =
     bindA (get_adb (\<lambda>d. tenant_get_by_slug slug (ad_tenants d))) (\<lambda>taken.
     seqA (demand (taken = None) (Status 409 ''tenant already exists''))
     (bindA (in_adb (\<lambda>d. bindS (tenant_create (ae_uuid E 0) (ae_now E) slug display_name None (ad_tenants d))
                           (\<lambda>(t, ts). Inr (t, d\<lparr>ad_tenants := ts\<rparr>)))) (\<lambda>t.
      seqA (audit_as E op ''tenant.create'' (Some (te_id t)) (Some ''tenant'') (Some (uuid_text (te_id t))) None
              [(''slug'', jtext slug), (''display_name'', jtext display_name)])
      (seqA acommit
      (ret [(''id'', jid (te_id t)), (''slug'', jtext (te_slug t)), (''display_name'', jtext (te_display_name t))])))))"

text \<open>\<open>TenantRepo.get\<close> with the check that follows it in both routes that use it.\<close>

definition live_tenant :: "uuid \<Rightarrow> tenant_row aact" where
  "live_tenant tid =
     bindA (get_adb (\<lambda>d. tenant_get tid (ad_tenants d))) (\<lambda>t.
       case t of
         None \<Rightarrow> throw (Status 404 ''tenant not found'')
       | Some t \<Rightarrow> if te_deleted_at t \<noteq> None then throw (Status 404 ''tenant not found'') else ret t)"

definition summary_json :: "(string \<times> usage_summary) list \<Rightarrow> json" where
  "summary_json xs = JObj (map (\<lambda>(status, u). (status, JObj
     [(''count'', JInt (int (us_count u))), (''chars'', JInt (us_chars u)), (''audio_ms'', JInt (us_audio_ms u)),
      (''avg_rtf'', JFloat (us_avg_rtf u))])) xs)"

definition key_json :: "api_key_row \<Rightarrow> json" where
  "key_json k = JObj
     [(''id'', jid (ak_id k)), (''prefix'', JStr (ak_prefix k)), (''scopes'', JList (map jtext (ak_scopes k))),
      (''rate_limit_per_minute'', JInt (ak_rate_limit_per_minute k)), (''label'', jopt jtext (ak_label k)),
      (''active'', JBool (key_is_active k)), (''created_at'', JInt (ak_created_at k)),
      (''last_used_at'', jopt JInt (ak_last_used_at k))]"

definition get_tenant :: "aenv \<Rightarrow> uuid \<Rightarrow> operator_row \<Rightarrow> dict aact" where
  "get_tenant E tid op =
     bindA (live_tenant tid) (\<lambda>t.
     get_adb (\<lambda>d.
       [(''tenant'', JObj [(''id'', jid (te_id t)), (''slug'', jtext (te_slug t)),
            (''display_name'', jtext (te_display_name t)), (''status'', jtext (te_status t)),
            (''created_at'', JInt (te_created_at t))]),
        (''api_keys'', JList (map key_json (list_keys_for_tenant (te_id t) True (ad_keys d)))),
        (''usage_30d'', summary_json (summary_last_n_days (te_id t) (ae_now E) 30 (gd_usages (ad_core d))))]))"

text \<open>The full key is in the response of this route only.\<close>

definition create_api_key ::
  "aenv \<Rightarrow> uuid \<Rightarrow> string option \<Rightarrow> int \<Rightarrow> string \<Rightarrow> operator_row \<Rightarrow> dict aact" where
  "create_api_key E tid label limit environment op =
     bindA (live_tenant tid) (\<lambda>t.
       case generate_api_key (ae_hash_secret E) environment (ae_prefix_random E) (ae_key_secret E) of
         Inl e \<Rightarrow> throw (Crash e)
       | Inr (full_key, pfx, secret_hash) \<Rightarrow>
           bindA (in_adb (\<lambda>d. bindS (key_create (map op_id (ad_operators d)) (ae_uuid E 0) (ae_now E) (te_id t) pfx
                                        secret_hash None limit label (Some (op_id op)) (ad_tenants d) (ad_keys d))
                                 (\<lambda>(k, ks). Inr (k, d\<lparr>ad_keys := ks\<rparr>)))) (\<lambda>key.
           seqA (audit_as E op ''key.create'' (Some (te_id t)) (Some ''api_key'') (Some (uuid_text (ak_id key))) (ae_ip E)
                   [(''prefix'', JStr pfx), (''rate_limit_per_minute'', JInt limit), (''label'', jopt jtext label),
                    (''environment'', jtext environment)])
           (seqA acommit
           (ret [(''id'', jid (ak_id key)), (''prefix'', JStr pfx), (''full_key'', JStr full_key),
                 (''scopes'', JList (map jtext (ak_scopes key))), (''rate_limit_per_minute'', JInt limit),
                 (''warning'', jtext ''Store full_key now; it cannot be retrieved later.'')]))))"

definition revoke_api_key ::
  "aenv \<Rightarrow> uuid \<Rightarrow> uuid \<Rightarrow> string option \<Rightarrow> operator_row \<Rightarrow> dict aact" where
  "revoke_api_key E tid kid reason op =
     bindA (get_adb (\<lambda>d. find (\<lambda>k. ak_id k = kid) (ad_keys d))) (\<lambda>key.
       case key of
         None \<Rightarrow> throw (Status 404 ''key not found'')
       | Some key \<Rightarrow>
           if ak_tenant_id key \<noteq> tid then throw (Status 404 ''key not found'')
           else if ak_revoked_at key \<noteq> None
           then ret [(''id'', jid (ak_id key)), (''status'', jtext ''already_revoked'')]
           else
             seqA (in_adb (\<lambda>d. Inr ((), d\<lparr>ad_keys := snd (key_revoke (ak_id key) (ae_now E) reason (ad_keys d))\<rparr>)))
             (seqA (audit_as E op ''key.revoke'' (Some tid) (Some ''api_key'') (Some (uuid_text (ak_id key))) None
                      [(''reason'', jopt jtext reason)])
             (seqA acommit
             (ret [(''id'', jid (ak_id key)), (''status'', jtext ''revoked'')]))))"

definition usage_route :: "aenv \<Rightarrow> int \<Rightarrow> operator_row \<Rightarrow> dict aact" where
  "usage_route E days op =
     get_adb (\<lambda>d. [(''days'', JInt days),
       (''tenants'', JObj (map (\<lambda>t. (te_slug t,
            summary_json (summary_last_n_days (te_id t) (ae_now E) days (gd_usages (ad_core d)))))
          (tenant_list_active (ad_tenants d))))])"

subsection \<open>Voice lifecycle\<close>

definition voice_or_404 :: "voice option \<Rightarrow> voice aact" where
  "voice_or_404 v = found ''voice'' v"

definition freeze_route :: "aenv \<Rightarrow> uuid \<Rightarrow> ustr \<Rightarrow> int option \<Rightarrow> operator_row \<Rightarrow> dict aact" where
  "freeze_route E vid reason days op =
     seqA (demand (1 \<le> length reason \<and> length reason \<le> 2048
                   \<and> (case days of None \<Rightarrow> True | Some n \<Rightarrow> 0 \<le> n \<and> n \<le> 3650)) (Status 422 ''form''))
     (bindA (on_voice_table (freeze_voice vid (ae_now E) reason days)) (\<lambda>v.
      bindA (voice_or_404 v) (\<lambda>v.
      seqA (audit_as E op ''voice.freeze'' (Some (v_owner v)) (Some ''voice'') (Some (uuid_text (v_id v))) None
              [(''voice_slug'', jtext (v_voice_id v)), (''reason'', JStr reason), (''purge_after_days'', jopt JInt days)])
      (seqA acommit
      (ret [(''voice_id'', jtext (v_voice_id v)), (''frozen_at'', jopt JInt (v_frozen_at v)),
            (''purge_after_at'', jopt JInt (v_purge_after_at v)), (''reason'', jopt JStr (v_frozen_reason v))])))))"

definition unfreeze_route :: "aenv \<Rightarrow> uuid \<Rightarrow> operator_row \<Rightarrow> dict aact" where
  "unfreeze_route E vid op =
     bindA (on_voice_table (unfreeze_voice vid)) (\<lambda>v.
     bindA (voice_or_404 v) (\<lambda>v.
     seqA (audit_as E op ''voice.unfreeze'' (Some (v_owner v)) (Some ''voice'') (Some (uuid_text (v_id v))) None
             [(''voice_slug'', jtext (v_voice_id v))])
     (seqA acommit
     (ret [(''voice_id'', jtext (v_voice_id v)), (''frozen_at'', JNull)]))))"

text \<open>One artifact of a purge; an exception of the store or the file system is recorded.\<close>

definition artifact_entry :: "string \<Rightarrow> string option \<Rightarrow> dict \<Rightarrow> json" where
  "artifact_entry label uri rest = JObj ([(''label'', jtext label), (''uri'', jopt jtext uri)] @ rest)"

definition deleted_entry :: "string \<Rightarrow> string \<Rightarrow> string \<Rightarrow> string option \<Rightarrow> json" where
  "deleted_entry label uri kind err =
     artifact_entry label (Some uri)
       (case err of
          None \<Rightarrow> [(''ok'', JBool True), (''kind'', jtext kind)]
        | Some m \<Rightarrow> [(''ok'', JBool False), (''kind'', jtext kind), (''error'', jtext m)])"

definition delete_artifact :: "aenv \<Rightarrow> string \<Rightarrow> string option \<Rightarrow> json aact" where
  "delete_artifact E label uri =
     (if \<not> truthy uri then ret (artifact_entry label uri [(''skipped'', jtext ''no_uri'')])
      else (let u = the uri in
        if has_prefix ''s3://'' u \<or> has_prefix ''r2://'' u
        then seqA (modifyA (\<lambda>s. if ae_r2_delete E u = None then s\<lparr>an_objects := (an_objects s)(u := None)\<rparr> else s))
                  (ret (deleted_entry label u ''r2'' (ae_r2_delete E u)))
        else if has_prefix ''file://'' u
        then (let path = drop 7 u in
              seqA (modifyA (\<lambda>s. if ae_unlink E path = None then s\<lparr>an_files := (an_files s)(path := None)\<rparr> else s))
                   (ret (deleted_entry label u ''file'' (ae_unlink E path))))
        else ret (artifact_entry label uri [(''skipped'', jtext ''unknown_scheme'')])))"

definition purge_route :: "aenv \<Rightarrow> uuid \<Rightarrow> bool \<Rightarrow> ustr option \<Rightarrow> operator_row \<Rightarrow> dict aact" where
  "purge_route E vid confirm notes op =
     seqA (demand (opt_len_le 2048 notes) (Status 422 ''form''))
     (seqA (demand confirm (Status 400 ''purge requires confirm=true''))
     (bindA (get_adb (\<lambda>d. get_by_id vid (gd_voices (ad_core d)))) (\<lambda>v.
      bindA (voice_or_404 v) (\<lambda>v.
      case v_purged_at v of
        Some ts \<Rightarrow> ret [(''voice_id'', jtext (v_voice_id v)), (''purged_at'', JInt ts), (''already_purged'', JBool True)]
      | None \<Rightarrow>
          seqA (demand (ae_r2_up E) (Crash (RuntimeError ''R2 storage requires NEUROVOICE_R2_ACCOUNT_ID'')))
          (bindA (delete_artifact E ''reference'' (Some (v_reference_uri v))) (\<lambda>a.
           bindA (delete_artifact E ''adapter'' (v_adapter_uri v)) (\<lambda>b.
           bindA (on_voice_table (execute_purge vid (ae_now E) None)) (\<lambda>purged.
           case purged of
             None \<Rightarrow> throw (Crash (TypeError ''NoneType''))
           | Some p \<Rightarrow>
               seqA (audit_as E op ''voice.purge'' (Some (v_owner p)) (Some ''voice'') (Some (uuid_text (v_id p))) None
                       [(''voice_slug'', jtext (v_voice_id p)), (''notes'', jopt JStr notes),
                        (''artifact_deletes'', JList [a, b])])
               (seqA acommit
               (ret [(''voice_id'', jtext (v_voice_id p)), (''purged_at'', jopt JInt (v_purged_at p)),
                     (''artifact_deletes'', JList [a, b])]))))))))))"

subsection \<open>Deletion tickets\<close>

definition on_tickets ::
  "(deletion_table \<Rightarrow> py_error + deletion_request option \<times> deletion_table) \<Rightarrow> deletion_request aact" where
  "on_tickets f =
     bindA (in_adb (\<lambda>d. bindS (f (gd_deletions (ad_core d)))
                     (\<lambda>(r, t). Inr (r, d\<lparr>ad_core := (ad_core d)\<lparr>gd_deletions := t\<rparr>\<rparr>))))
           (found ''data deletion request'')"

definition list_tickets_route :: "operator_row \<Rightarrow> dict aact" where
  "list_tickets_route op =
     bindA (in_adb (\<lambda>d. bindS (list_pending None (gd_deletions (ad_core d))) (\<lambda>ts. Inr (ts, d)))) (\<lambda>tickets.
     ret [(''requests'', JList (map (\<lambda>r. JObj
       [(''id'', jid (dd_id r)), (''tenant_id'', jid (dd_tenant_id r)),
        (''voice_slugs'', JList (map JStr (dd_voice_slugs r))), (''jurisdiction'', jopt jtext (dd_jurisdiction r)),
        (''status'', jtext (dd_status r)), (''requested_at'', JInt (dd_requested_at r)),
        (''reason'', jopt JStr (dd_reason r))]) tickets))])"

definition complete_ticket_route :: "aenv \<Rightarrow> uuid \<Rightarrow> ustr option \<Rightarrow> operator_row \<Rightarrow> dict aact" where
  "complete_ticket_route E rid notes op =
     seqA (demand (opt_len_le 2048 notes) (Status 422 ''form''))
     (bindA (on_tickets (mark_completed None rid (ae_now E) notes None)) (\<lambda>ticket.
      seqA (audit_as E op ''data_deletion.complete'' (Some (dd_tenant_id ticket)) (Some ''data_deletion_request'')
              (Some (uuid_text (dd_id ticket))) None [(''notes'', jopt JStr notes)])
      (seqA acommit
      (ret [(''id'', jid (dd_id ticket)), (''status'', jtext (dd_status ticket)),
            (''completed_at'', jopt JInt (dd_completed_at ticket))]))))"

definition reject_ticket_route :: "aenv \<Rightarrow> uuid \<Rightarrow> ustr \<Rightarrow> operator_row \<Rightarrow> dict aact" where
  "reject_ticket_route E rid reason op =
     seqA (demand (1 \<le> length reason \<and> length reason \<le> 2048) (Status 422 ''form''))
     (bindA (on_tickets (mark_rejected None rid reason)) (\<lambda>ticket.
      seqA (audit_as E op ''data_deletion.reject'' (Some (dd_tenant_id ticket)) (Some ''data_deletion_request'')
              (Some (uuid_text (dd_id ticket))) None [(''reason'', JStr reason)])
      (seqA acommit
      (ret [(''id'', jid (dd_id ticket)), (''status'', jtext (dd_status ticket))]))))"

subsection \<open>Evaluation pins\<close>

text \<open>
  \<open>EvalPinRequest\<close> and the models inside it, as predicates of the body's JSON after pydantic's
  coercions; unknown keys are kept. \<open>field_is P Q b k\<close>: a value that is there satisfies \<open>P\<close>,
  \<open>Q\<close> says whether it may be missing or null.
\<close>

definition field_is :: "(json \<Rightarrow> bool) \<Rightarrow> bool \<Rightarrow> dict \<Rightarrow> string \<Rightarrow> bool" where
  "field_is P optional b k = (case map_of b k of None \<Rightarrow> optional | Some j \<Rightarrow> P j \<or> optional \<and> j = JNull)"

fun is_jstr :: "json \<Rightarrow> bool" where
  "is_jstr (JStr s) = True" | "is_jstr _ = False"

fun is_jint :: "json \<Rightarrow> bool" where
  "is_jint (JInt n) = True" | "is_jint _ = False"

fun is_jnum :: "json \<Rightarrow> bool" where
  "is_jnum (JInt n) = True" | "is_jnum (JFloat x) = True" | "is_jnum _ = False"

definition metric_entry_ok :: "dict \<Rightarrow> bool" where
  "metric_entry_ok m \<longleftrightarrow> field_is is_jnum False m ''score''
     \<and> field_is (\<lambda>j. j = jtext ''higher'' \<or> j = jtext ''lower'') False m ''direction''
     \<and> field_is is_jint True m ''n'' \<and> field_is is_jnum True m ''p95''"

definition test_set_ok :: "dict \<Rightarrow> bool" where
  "test_set_ok t \<longleftrightarrow> field_is is_jstr False t ''slug'' \<and> field_is is_jint False t ''version''
     \<and> field_is is_jint False t ''sentence_count''"

definition pin_model_ok :: "dict \<Rightarrow> bool" where
  "pin_model_ok m \<longleftrightarrow> list_all (field_is is_jstr True m)
     [''voxcpm_version'', ''lora_adapter_uri'', ''lora_adapter_sha256'', ''frontend_pack_id'', ''lexicon_id'']"

fun object_with :: "(dict \<Rightarrow> bool) \<Rightarrow> json \<Rightarrow> bool" where
  "object_with P (JObj d) = P d" | "object_with P _ = False"

definition pin_request_ok :: "dict \<Rightarrow> bool" where
  "pin_request_ok b \<longleftrightarrow>
     field_is (\<lambda>j. case j of JInt n \<Rightarrow> 1 \<le> n | _ \<Rightarrow> False) False b ''schema_version''
     \<and> field_is is_jstr False b ''evaluated_at'' \<and> field_is (object_with test_set_ok) False b ''test_set''
     \<and> field_is (object_with pin_model_ok) True b ''model''
     \<and> field_is (object_with (\<lambda>ms. ms \<noteq> [] \<and> list_all (\<lambda>(k, m). object_with metric_entry_ok m) ms)) False b ''metrics''
     \<and> field_is is_jstr True b ''report_uri'' \<and> field_is is_jstr True b ''operator_id''
     \<and> field_is (\<lambda>j. case j of JStr s \<Rightarrow> length s \<le> 4096 | _ \<Rightarrow> False) True b ''notes''"

definition field :: "dict \<Rightarrow> string \<Rightarrow> json" where
  "field b k = (case map_of b k of Some j \<Rightarrow> j | None \<Rightarrow> JNull)"

fun keys_json :: "json \<Rightarrow> json" where
  "keys_json (JObj xs) = JList (map jtext (sort (map fst xs)))"
| "keys_json _ = JNull"

fun sub_field :: "json \<Rightarrow> string \<Rightarrow> json" where
  "sub_field (JObj xs) k = field xs k"
| "sub_field _ _ = JNull"

definition bad_value_400 :: "int \<Rightarrow> 'a aact \<Rightarrow> 'a aact" where
  "bad_value_400 code m =
     catchA m (\<lambda>e. case e of Crash (ValueError msg) \<Rightarrow> throw (Status code msg) | _ \<Rightarrow> throw e)"

definition pin_eval_route :: "aenv \<Rightarrow> uuid \<Rightarrow> dict \<Rightarrow> operator_row \<Rightarrow> dict aact" where
  "pin_eval_route E vid body op =
     seqA (demand (pin_request_ok body) (Status 422 ''body''))
     (bindA (bad_value_400 400 (on_voice_table (pin_eval vid body))) (\<lambda>v.
      bindA (voice_or_404 v) (\<lambda>v.
      seqA (demand (v_purged_at v = None) (Status 410 ''voice is purged; cannot pin eval''))
      (seqA (audit_as E op ''voice.eval_pin'' (Some (v_owner v)) (Some ''voice'') (Some (uuid_text (v_id v))) None
               [(''voice_slug'', jtext (v_voice_id v)), (''schema_version'', field body ''schema_version''),
                (''evaluated_at'', field body ''evaluated_at''),
                (''test_set_slug'', sub_field (field body ''test_set'') ''slug''),
                (''metric_names'', keys_json (field body ''metrics''))])
      (seqA acommit
      (ret [(''voice_id'', jtext (v_voice_id v)), (''eval_metrics'', jopt JObj (v_eval_metrics v))]))))))"

subsection \<open>Watermark keys\<close>

definition watermark_key_to_public :: "wm_key \<Rightarrow> dict" where
  "watermark_key_to_public k =
     [(''id'', jid (wk_id k)), (''message_bits'', JInt (wk_message_bits k)), (''label'', JStr (wk_label k)),
      (''allocated_at'', JInt (wk_allocated_at k)), (''retired_at'', jopt JInt (wk_retired_at k)),
      (''retired_reason'', jopt JStr (wk_retired_reason k)), (''notes'', jopt JStr (wk_notes k)),
      (''created_by_operator_id'', jopt jid (wk_created_by k))]"

record allocate_body =
  al_label :: ustr
  al_message_bits :: "int option"
  al_notes :: "ustr option"

definition allocate_body_ok :: "allocate_body \<Rightarrow> bool" where
  "allocate_body_ok b \<longleftrightarrow> 1 \<le> length (al_label b) \<and> length (al_label b) \<le> 200
     \<and> (case al_message_bits b of None \<Rightarrow> True | Some n \<Rightarrow> 0 \<le> n \<and> n \<le> 65535) \<and> opt_len_le 4096 (al_notes b)"

definition allocate_key_route :: "aenv \<Rightarrow> allocate_body \<Rightarrow> operator_row \<Rightarrow> dict aact" where
  "allocate_key_route E b op =
     seqA (demand (allocate_body_ok b) (Status 422 ''body''))
     (bindA (bad_value_400 409 (in_adb (\<lambda>d.
        bindS (wm_allocate (ae_uuid E 0) (ae_now E) (ae_draws E) (al_label b) (Some (op_id op)) (al_notes b)
                 (al_message_bits b) (ad_wm d)) (\<lambda>(k, t). Inr (k, d\<lparr>ad_wm := t\<rparr>))))) (\<lambda>key.
      seqA (audit_as E op ''watermark_key.allocate'' None (Some ''watermark_key'') (Some (uuid_text (wk_id key))) None
              [(''label'', JStr (al_label b)), (''message_bits'', JInt (wk_message_bits key)),
               (''operator_specified_bits'', JBool (al_message_bits b \<noteq> None))])
      (seqA acommit (ret (watermark_key_to_public key)))))"

definition list_keys_route :: "bool \<Rightarrow> operator_row \<Rightarrow> dict aact" where
  "list_keys_route include_retired op =
     get_adb (\<lambda>d. [(''keys'', JList (map (JObj \<circ> watermark_key_to_public)
       (sort_key (\<lambda>k. - wk_allocated_at k)
          (filter (\<lambda>k. include_retired \<or> wk_retired_at k = None) (ad_wm d)))))])"

definition retire_key_route :: "aenv \<Rightarrow> uuid \<Rightarrow> ustr option \<Rightarrow> operator_row \<Rightarrow> dict aact" where
  "retire_key_route E kid reason op =
     seqA (demand (opt_len_le 2048 reason) (Status 422 ''body''))
     (bindA (in_adb (\<lambda>d. bindS (wm_retire kid (ae_now E) reason None (ad_wm d)) (\<lambda>(r, t). Inr (r, d\<lparr>ad_wm := t\<rparr>)))) (\<lambda>key.
      bindA (found ''watermark key'' key) (\<lambda>key.
      seqA (audit_as E op ''watermark_key.retire'' None (Some ''watermark_key'') (Some (uuid_text (wk_id key))) None
              [(''reason'', jopt JStr reason), (''label'', JStr (wk_label key))])
      (seqA acommit (ret (watermark_key_to_public key))))))"

definition watermark_required_license_kinds :: "string set" where
  "watermark_required_license_kinds = {''talent-contract'', ''public-figure'', ''partner-licensed''}"

text \<open>Attribute assignments on a loaded voice, then \<open>flush\<close>.\<close>

definition save_voice :: "voice \<Rightarrow> unit aact" where
  "save_voice v = bindA (on_voice_table (flush_voice v)) (\<lambda>_. ret ())"

definition bind_key :: "uuid option \<Rightarrow> voice \<Rightarrow> voice aact" where
  "bind_key kid v =
     (case kid of
        None \<Rightarrow> ret v
      | Some k \<Rightarrow>
          bindA (get_adb (\<lambda>d. wm_get_active k (ad_wm d))) (\<lambda>wk.
            case wk of
              None \<Rightarrow> throw (Status 422 ''watermark key is not active'')
            | Some wk \<Rightarrow> ret (v\<lparr>v_watermark_key_id := Some (wk_id wk)\<rparr>)))"

definition enable_watermark_route :: "aenv \<Rightarrow> uuid \<Rightarrow> uuid option \<Rightarrow> operator_row \<Rightarrow> dict aact" where
  "enable_watermark_route E vid kid op =
     bindA (get_adb (\<lambda>d. get_by_id vid (gd_voices (ad_core d)))) (\<lambda>v.
     bindA (voice_or_404 v) (\<lambda>v.
     bindA (bind_key kid v) (\<lambda>v.
     let v = v\<lparr>v_watermark_enabled := True\<rparr> in
     seqA (save_voice v)
     (seqA (audit_as E op ''voice.watermark_enable'' (Some (v_owner v)) (Some ''voice'') (Some (uuid_text (v_id v))) None
              [(''voice_slug'', jtext (v_voice_id v)), (''key_id'', jopt jid (v_watermark_key_id v))])
     (seqA acommit
     (ret [(''voice_id'', jtext (v_voice_id v)), (''watermark_enabled'', JBool True),
           (''watermark_key_id'', jopt jid (v_watermark_key_id v))]))))))"

definition disable_watermark_route :: "aenv \<Rightarrow> uuid \<Rightarrow> operator_row \<Rightarrow> dict aact" where
  "disable_watermark_route E vid op =
     bindA (get_adb (\<lambda>d. get_by_id vid (gd_voices (ad_core d)))) (\<lambda>v.
     bindA (voice_or_404 v) (\<lambda>v.
     seqA (demand (v_license_kind v \<notin> watermark_required_license_kinds)
             (Status 422 ''license_kind requires watermark; change license_kind first''))
     (let v = v\<lparr>v_watermark_enabled := False\<rparr> in
     seqA (save_voice v)
     (seqA (audit_as E op ''voice.watermark_disable'' (Some (v_owner v)) (Some ''voice'') (Some (uuid_text (v_id v))) None
              [(''voice_slug'', jtext (v_voice_id v))])
     (seqA acommit
     (ret [(''voice_id'', jtext (v_voice_id v)), (''watermark_enabled'', JBool False)]))))))"

subsection \<open>Forensics\<close>

text \<open>
  The keys that ever held a payload, newest first, and the voices bound to one of them. The
  detector's sample rate, duration and detail fields pass through and are left out.
\<close>

record key_match =
  mt_history :: "wm_key list"
  mt_voices :: "voice list"

definition match_payload :: "int option \<Rightarrow> adm_db \<Rightarrow> key_match" where
  "match_payload message d =
     (case message of
        None \<Rightarrow> \<lparr>mt_history = [], mt_voices = []\<rparr>
      | Some bits \<Rightarrow>
          (let history = list_by_bits bits (ad_wm d)
           in \<lparr>mt_history = history,
               mt_voices = filter (\<lambda>v. case v_watermark_key_id v of None \<Rightarrow> False | Some k \<Rightarrow> k \<in> wk_id ` set history)
                             (gd_voices (ad_core d))\<rparr>))"

definition safe_filename :: "aenv \<Rightarrow> ustr option \<Rightarrow> ustr" where
  "safe_filename E name =
     take 256 (filter (\<lambda>c. ae_printable E c \<and> c \<notin> {10, 13})
       (case name of None \<Rightarrow> cps ''(no-filename)'' | Some n \<Rightarrow> if n = [] then cps ''(no-filename)'' else n))"

definition history_json :: "wm_key \<Rightarrow> json" where
  "history_json k = JObj [(''id'', jid (wk_id k)), (''label'', JStr (wk_label k)),
     (''allocated_at'', JInt (wk_allocated_at k)), (''retired_at'', jopt JInt (wk_retired_at k))]"

definition detect_route :: "aenv \<Rightarrow> bytes \<Rightarrow> ustr option \<Rightarrow> rat \<Rightarrow> operator_row \<Rightarrow> dict aact" where
  "detect_route E audio filename threshold op =
     seqA (demand (0 \<le> threshold \<and> threshold \<le> 1) (Status 422 ''form''))
     (seqA (demand (audio \<noteq> []) (Status 400 ''empty audio upload''))
     (seqA (demand (length audio \<le> ae_max_upload_mb E * 1024 * 1024) (Status 413 ''audio upload too large''))
     (case ae_decode_audio E audio of
        Inl m \<Rightarrow> throw (Status 400 ''audio decode failed'')
      | Inr (pcm, rate) \<Rightarrow>
          (case ae_detect E threshold pcm rate of
             Detector_Down m \<Rightarrow> throw (Status 503 m)
           | Detected probability message report \<Rightarrow>
               bindA (get_adb (match_payload message)) (\<lambda>m.
               let first = first_of (mt_history m);
                   key_id = map_option wk_id first;
                   slugs = map (jtext \<circ> v_voice_id) (mt_voices m)
               in
               seqA (audit_as E op ''forensics.detect'' None
                       (Some (if key_id \<noteq> None then ''watermark_key'' else ''forensics_probe''))
                       (Some (uuid_text (case key_id of Some k \<Rightarrow> k | None \<Rightarrow> ae_uuid E 0))) None
                       [(''probability'', JFloat probability), (''decoded_message'', jopt JInt message),
                        (''threshold'', JFloat threshold), (''matched_key_id'', jopt jid key_id),
                        (''matched_key_history_count'', JInt (int (length (mt_history m)))),
                        (''matched_voice_ids'', JList slugs),
                        (''uploaded_filename'', JStr (safe_filename E filename)),
                        (''uploaded_size_bytes'', JInt (int (length audio)))])
               (seqA acommit
               (ret ([(''probability'', JFloat probability), (''message'', jopt JInt message),
                     (''matched_key_id'', jopt jid key_id), (''matched_key_label'', jopt JStr (map_option wk_label first)),
                     (''matched_key_history'', JList (map history_json (mt_history m))),
                     (''matched_voice_ids'', JList slugs), (''detected_at'', JInt (ae_now E))] @ report))))))))"

subsection \<open>Revocation cascades\<close>

definition revoke_consent_route :: "aenv \<Rightarrow> uuid \<Rightarrow> ustr \<Rightarrow> operator_row \<Rightarrow> dict aact" where
  "revoke_consent_route E cid reason op =
     seqA (demand (1 \<le> length reason \<and> length reason \<le> 2048) (Status 422 ''form''))
     (bindA (in_adb (\<lambda>d. bindS (consent_revoke cid (ae_now E) (Some reason) None (gd_consents (ad_core d)))
                (\<lambda>(r, t). Inr (r, d\<lparr>ad_core := (ad_core d)\<lparr>gd_consents := t\<rparr>\<rparr>)))) (\<lambda>consent.
      bindA (found ''voice consent'' consent) (\<lambda>consent.
      bindA (on_voice_table (freeze_voice (cr_voice_id consent) (ae_now E) (cps ''consent revoked: '' @ reason) None)) (\<lambda>v.
      let slug = jopt (jtext \<circ> v_voice_id) v in
      seqA (audit_as E op ''voice_consent.revoke'' (map_option v_owner v) (Some ''voice_consent_record'')
              (Some (uuid_text (cr_id consent))) None
              [(''voice_id'', jid (cr_voice_id consent)), (''reason'', JStr reason), (''cascade_frozen_voice'', slug)])
      (seqA acommit
      (ret [(''consent_id'', jid (cr_id consent)), (''revoked_at'', jopt JInt (cr_revoked_at consent)),
            (''cascade_frozen_voice_id'', slug)]))))))"

definition contract_dependents :: "uuid \<Rightarrow> voice_table \<Rightarrow> voice list" where
  "contract_dependents cid t =
     filter (\<lambda>v. v_license_kind v = ''talent-contract'' \<and> v_license_ref v = Some (uuid_text cid)
                 \<and> v_purged_at v = None) t"

fun freeze_each :: "aenv \<Rightarrow> ustr \<Rightarrow> voice list \<Rightarrow> string list aact" where
  "freeze_each E reason [] = ret []"
| "freeze_each E reason (v # vs) =
     bindA (on_voice_table (freeze_voice (v_id v) (ae_now E) reason None)) (\<lambda>r.
     bindA (freeze_each E reason vs) (\<lambda>slugs.
     ret (case r of None \<Rightarrow> slugs | Some w \<Rightarrow> v_voice_id w # slugs)))"

definition revoke_contract_route :: "aenv \<Rightarrow> uuid \<Rightarrow> ustr \<Rightarrow> operator_row \<Rightarrow> dict aact" where
  "revoke_contract_route E cid reason op =
     seqA (demand (1 \<le> length reason \<and> length reason \<le> 2048) (Status 422 ''form''))
     (bindA (in_adb (\<lambda>d. case contract_revoke cid (ae_now E) None (gd_contracts (ad_core d)) of
                (r, t) \<Rightarrow> Inr (r, d\<lparr>ad_core := (ad_core d)\<lparr>gd_contracts := t\<rparr>\<rparr>))) (\<lambda>contract.
      bindA (found ''talent contract'' contract) (\<lambda>contract.
      bindA (get_adb (\<lambda>d. contract_dependents (tc_id contract) (gd_voices (ad_core d)))) (\<lambda>dependents.
      bindA (freeze_each E (cps ''talent contract revoked: '' @ reason) dependents) (\<lambda>slugs.
      let js = JList (map jtext slugs); n = JInt (int (length slugs)) in
      seqA (audit_as E op ''talent_contract.revoke'' None (Some ''talent_contract'') (Some (uuid_text (tc_id contract))) None
              [(''reason'', JStr reason), (''talent_full_name'', JStr (tc_talent_full_name contract)),
               (''cascade_frozen_voice_count'', n), (''cascade_frozen_voice_slugs'', js)])
      (seqA acommit
      (ret [(''contract_id'', jid (tc_id contract)), (''revoked_at'', jopt JInt (tc_revoked_at contract)),
            (''cascade_frozen_voice_count'', n), (''cascade_frozen_voice_slugs'', js)])))))))"

subsection \<open>The router\<close>

datatype admin_request =
    Get_Tenants
  | Post_Tenant string string
  | Get_Tenant uuid
  | Post_Key uuid "string option" int string
  | Post_Key_Revoke uuid uuid "string option"
  | Get_Usage int
  | Post_Freeze uuid ustr "int option"
  | Post_Unfreeze uuid
  | Post_Purge uuid bool "ustr option"
  | Get_Tickets
  | Post_Complete uuid "ustr option"
  | Post_Reject uuid ustr
  | Post_Eval_Pin uuid dict
  | Post_Watermark_Key allocate_body
  | Get_Watermark_Keys bool
  | Post_Retire uuid "ustr option"
  | Post_Enable uuid "uuid option"
  | Post_Disable uuid
  | Post_Detect bytes "ustr option" rat
  | Post_Revoke_Consent uuid ustr
  | Post_Revoke_Contract uuid ustr

fun handle :: "aenv \<Rightarrow> admin_request \<Rightarrow> operator_row \<Rightarrow> dict aact" where
  "handle E Get_Tenants = list_tenants"
| "handle E (Post_Tenant slug name) = create_tenant E slug name"
| "handle E (Get_Tenant tid) = get_tenant E tid"
| "handle E (Post_Key tid label limit env) = create_api_key E tid label limit env"
| "handle E (Post_Key_Revoke tid kid reason) = revoke_api_key E tid kid reason"
| "handle E (Get_Usage days) = usage_route E days"
| "handle E (Post_Freeze vid reason days) = freeze_route E vid reason days"
| "handle E (Post_Unfreeze vid) = unfreeze_route E vid"
| "handle E (Post_Purge vid confirm notes) = purge_route E vid confirm notes"
| "handle E Get_Tickets = list_tickets_route"
| "handle E (Post_Complete rid notes) = complete_ticket_route E rid notes"
| "handle E (Post_Reject rid reason) = reject_ticket_route E rid reason"
| "handle E (Post_Eval_Pin vid body) = pin_eval_route E vid body"
| "handle E (Post_Watermark_Key b) = allocate_key_route E b"
| "handle E (Get_Watermark_Keys all) = list_keys_route all"
| "handle E (Post_Retire kid reason) = retire_key_route E kid reason"
| "handle E (Post_Enable vid kid) = enable_watermark_route E vid kid"
| "handle E (Post_Disable vid) = disable_watermark_route E vid"
| "handle E (Post_Detect audio name threshold) = detect_route E audio name threshold"
| "handle E (Post_Revoke_Consent cid reason) = revoke_consent_route E cid reason"
| "handle E (Post_Revoke_Contract cid reason) = revoke_contract_route E cid reason"

text \<open>The operator dependency runs first; the session closes after the handler.\<close>

definition admin_route :: "aenv \<Rightarrow> ustr option \<Rightarrow> admin_request \<Rightarrow> dict aact" where
  "admin_route E cookie req = admin_session (bindA (current_operator E cookie) (handle E req))"

end
