(* ===== verification/Admin_Facts.thy ===== *)
theory Admin_Facts
  imports Admin
begin

text \<open>
  What the operator routes guarantee: nobody without a session changes anything, every change is
  signed in the audit log or not made at all, and a session stands for its operator for an hour.
\<close>

subsection \<open>Quiet and signed steps\<close>

named_theorems quiet_rules \<open>steps that leave what is committed, and the log, alone\<close>
named_theorems signed_rules \<open>handlers that commit once, after their audit row\<close>

definition same_committed :: "adm_state \<Rightarrow> adm_state \<Rightarrow> bool" where
  "same_committed s s' \<longleftrightarrow> an_saved s' = an_saved s \<and> gd_log (ad_core (an_db s')) = gd_log (ad_core (an_db s))"

abbreviation quiet :: "'a aact \<Rightarrow> bool" where
  "quiet \<equiv> keeps same_committed"

lemma same_committed_order: "reflp same_committed" "transp same_committed"
  by (auto simp: same_committed_def reflp_def transp_def)

lemma quiet_def:
  "quiet m \<longleftrightarrow> (\<forall>s. an_saved (snd (m s)) = an_saved s
     \<and> gd_log (ad_core (an_db (snd (m s)))) = gd_log (ad_core (an_db s)))"
  by (simp add: keeps_def same_committed_def)

definition signed_by :: "aenv \<Rightarrow> operator_row \<Rightarrow> audit_row \<Rightarrow> bool" where
  "signed_by E op row \<longleftrightarrow> lg_actor_type row = ''operator'' \<and> lg_actor_id row = Some (op_id op)
     \<and> lg_result row = ''success'' \<and> lg_occurred_at row = ae_now E"

definition signed :: "aenv \<Rightarrow> operator_row \<Rightarrow> 'a aact \<Rightarrow> bool" where
  "signed E op m \<longleftrightarrow> (\<forall>s. case m s of
      (Inl e, s') \<Rightarrow> an_saved s' = an_saved s
    | (Inr x, s') \<Rightarrow> an_saved s' = an_saved s
        \<or> (\<exists>row. signed_by E op row \<and> gd_log (ad_core (an_saved s')) = gd_log (ad_core (an_db s)) @ [row]))"

lemmas [quiet_rules] =
  keeps_basic [OF same_committed_order(1)] keeps_bind [OF same_committed_order(2)]
  keeps_seq [OF same_committed_order(2)] keeps_catch [OF same_committed_order(2)]

lemma quiet_get [quiet_rules]: "quiet (get_adb f)"
  unfolding get_adb_def by (intro quiet_rules)

lemma quiet_demand [quiet_rules]: "quiet (demand b e)"
  by (simp add: demand_def quiet_rules)

lemma quiet_found [quiet_rules]: "quiet (found w x)"
  by (simp add: found_def quiet_rules split: option.split)

lemma quiet_voice_or_404 [quiet_rules]: "quiet (voice_or_404 v)"
  by (simp add: voice_or_404_def quiet_rules)

lemma quiet_in_adb:
  "(\<And>d x d'. f d = Inr (x, d') \<Longrightarrow> gd_log (ad_core d') = gd_log (ad_core d)) \<Longrightarrow> quiet (in_adb f)"
  by (auto simp: quiet_def in_adb_def split: sum.split)

lemma quiet_voices [quiet_rules]: "quiet (on_voice_table f)"
  unfolding on_voice_table_def by (rule quiet_in_adb) (auto simp: bindS_Inr)

lemma quiet_tickets [quiet_rules]: "quiet (on_tickets f)"
  unfolding on_tickets_def by (intro quiet_rules quiet_in_adb) (auto simp: bindS_Inr)

lemma quiet_save [quiet_rules]: "quiet (save_voice v)"
  unfolding save_voice_def by (intro quiet_rules)

lemma quiet_bind_key [quiet_rules]: "quiet (bind_key k v)"
  unfolding bind_key_def by (auto intro!: quiet_rules split: option.split)

lemma quiet_live_tenant [quiet_rules]: "quiet (live_tenant t)"
  unfolding live_tenant_def by (auto intro!: quiet_rules split: option.split)

lemma quiet_bad_value [quiet_rules]: "quiet m \<Longrightarrow> quiet (bad_value_400 c m)"
  unfolding bad_value_400_def by (auto intro!: quiet_rules split: http_error.split py_error.split)

lemma quiet_modify: "(\<And>s. an_saved (f s) = an_saved s \<and> an_db (f s) = an_db s) \<Longrightarrow> quiet (modifyA f)"
  by (simp add: quiet_def modifyA_def)

lemma quiet_delete_artifact [quiet_rules]: "quiet (delete_artifact E l u)"
  unfolding delete_artifact_def Let_def by (auto intro!: quiet_rules quiet_modify)

lemma quiet_freeze_each [quiet_rules]: "quiet (freeze_each E r vs)"
  by (induction vs) (auto intro!: quiet_rules)

lemma quiet_current_operator: "current_operator E cookie s = (r, s') \<Longrightarrow> s' = s"
  by (auto simp: current_operator_def get_adb_def bindA_def getsA_def throw_def ret_def
      split: if_splits sum.splits jwt_error.splits option.splits)

lemma signed_ret [signed_rules]: "signed E op (ret x)" and signed_throw [signed_rules]: "signed E op (throw e)"
  by (simp_all add: signed_def ret_def throw_def)

lemma signed_get [signed_rules]: "signed E op (get_adb f)"
  by (simp add: signed_def get_adb_def getsA_def)

lemma signed_bind [signed_rules]:
  assumes "quiet m" "\<And>x. signed E op (f x)" shows "signed E op (bindA m f)"
  unfolding signed_def
proof
  fix s
  obtain r s1 where m: "m s = (r, s1)" by (cases "m s")
  then have q: "an_saved s1 = an_saved s" "gd_log (ad_core (an_db s1)) = gd_log (ad_core (an_db s))"
    using assms(1) unfolding quiet_def by (metis snd_conv)+
  show "case bindA m f s of (Inl e, s') \<Rightarrow> an_saved s' = an_saved s
    | (Inr x, s') \<Rightarrow> an_saved s' = an_saved s
        \<or> (\<exists>row. signed_by E op row \<and> gd_log (ad_core (an_saved s')) = gd_log (ad_core (an_db s)) @ [row])"
  proof (cases r)
    case (Inl e)
    then show ?thesis using q by (simp add: bindA_def m)
  next
    case (Inr x)
    then show ?thesis
      using assms(2) [of x, unfolded signed_def, rule_format, of s1] q
      by (cases "f x s1"; cases "fst (f x s1)") (simp_all add: bindA_def m)
  qed
qed

lemma signed_seq [signed_rules]: "quiet m \<Longrightarrow> signed E op n \<Longrightarrow> signed E op (seqA m n)"
  unfolding seqA_def by (rule signed_bind)

lemma signed_commit [signed_rules]:
  "signed E op (seqA (audit_as E op action tid ttype target ip payload) (seqA acommit (ret x)))"
  by (auto simp: signed_def seqA_def bindA_def audit_as_def in_adb_def acommit_def modifyA_def ret_def
      audit_record_def bindS_def operator_row_for_def signed_by_def split: sum.split)

lemma handle_signed: "signed E op (handle E req op)"
proof (cases req)
  case Get_Tenants
  show ?thesis unfolding Get_Tenants handle.simps list_tenants_def by (intro signed_rules)
next
  case (Post_Tenant slug name)
  show ?thesis unfolding Post_Tenant handle.simps create_tenant_def
    by (intro signed_rules quiet_rules quiet_in_adb) (auto simp: bindS_Inr)
next
  case (Get_Tenant tid)
  show ?thesis unfolding Get_Tenant handle.simps get_tenant_def by (intro signed_rules quiet_rules)
next
  case (Post_Key tid label limit env)
  show ?thesis unfolding Post_Key handle.simps create_api_key_def
    by (intro signed_rules quiet_rules) (auto intro!: signed_rules quiet_in_adb simp: bindS_Inr split: sum.split)
next
  case (Post_Key_Revoke tid kid reason)
  show ?thesis unfolding Post_Key_Revoke handle.simps revoke_api_key_def
    by (intro signed_rules quiet_rules) (auto intro!: signed_rules quiet_in_adb split: option.split)
next
  case (Get_Usage days)
  show ?thesis unfolding Get_Usage handle.simps usage_route_def by (intro signed_rules)
next
  case (Post_Freeze vid reason days)
  show ?thesis unfolding Post_Freeze handle.simps freeze_route_def by (intro signed_rules quiet_rules)
next
  case (Post_Unfreeze vid)
  show ?thesis unfolding Post_Unfreeze handle.simps unfreeze_route_def by (intro signed_rules quiet_rules)
next
  case (Post_Purge vid confirm memo)
  show ?thesis unfolding Post_Purge handle.simps purge_route_def
    by (intro signed_rules quiet_rules) (auto intro!: signed_rules quiet_rules split: option.split)
next
  case Get_Tickets
  show ?thesis unfolding Get_Tickets handle.simps list_tickets_route_def
    by (intro signed_rules quiet_in_adb) (auto simp: bindS_Inr)
next
  case (Post_Complete rid memo)
  show ?thesis unfolding Post_Complete handle.simps complete_ticket_route_def by (intro signed_rules quiet_rules)
next
  case (Post_Reject rid reason)
  show ?thesis unfolding Post_Reject handle.simps reject_ticket_route_def by (intro signed_rules quiet_rules)
next
  case (Post_Eval_Pin vid body)
  show ?thesis unfolding Post_Eval_Pin handle.simps pin_eval_route_def by (intro signed_rules quiet_rules)
next
  case (Post_Watermark_Key b)
  show ?thesis unfolding Post_Watermark_Key handle.simps allocate_key_route_def
    by (intro signed_rules quiet_rules quiet_bad_value quiet_in_adb) (auto simp: bindS_Inr)
next
  case (Get_Watermark_Keys x)
  show ?thesis unfolding Get_Watermark_Keys handle.simps list_keys_route_def by (intro signed_rules)
next
  case (Post_Retire kid reason)
  show ?thesis unfolding Post_Retire handle.simps retire_key_route_def
    by (intro signed_rules quiet_rules quiet_in_adb) (auto simp: bindS_Inr)
next
  case (Post_Enable vid kid)
  show ?thesis unfolding Post_Enable handle.simps enable_watermark_route_def Let_def by (intro signed_rules quiet_rules)
next
  case (Post_Disable vid)
  show ?thesis unfolding Post_Disable handle.simps disable_watermark_route_def Let_def by (intro signed_rules quiet_rules)
next
  case (Post_Detect audio name threshold)
  show ?thesis unfolding Post_Detect handle.simps detect_route_def Let_def
    by (intro signed_rules quiet_rules) (auto intro!: signed_rules quiet_rules split: sum.split probe_reply.split)
next
  case (Post_Revoke_Consent cid reason)
  show ?thesis unfolding Post_Revoke_Consent handle.simps revoke_consent_route_def Let_def
    by (intro signed_rules quiet_rules quiet_in_adb) (auto simp: bindS_Inr)
next
  case (Post_Revoke_Contract cid reason)
  show ?thesis unfolding Post_Revoke_Contract handle.simps revoke_contract_route_def Let_def
    by (intro signed_rules quiet_rules quiet_in_adb) (auto split: prod.splits)
qed

subsection \<open>Sessions and signatures\<close>

lemma current_operator_Inr:
  assumes "current_operator E cookie s = (Inr op, s')"
  shows "s' = s \<and> op \<in> set (ad_operators (an_db s)) \<and> op_disabled_at op = None
     \<and> (\<exists>c. decode_operator_jwt (ae_jwt E) (ae_jwt_secret E) (ae_now_s E) (the cookie) ''access'' = Inr c
          \<and> oc_operator_id c = op_id op)"
  using assms
  by (auto simp: current_operator_def get_adb_def operator_get_def bindA_Inr
      split: if_splits sum.splits jwt_error.splits option.splits dest!: find_SomeD)

lemma admin_changes_signed_aux:
  assumes "an_db s = an_saved s" and "admin_route E cookie req s = (r, s')"
  shows "an_db s' = an_saved s'
     \<and> (case r of
          Inl e \<Rightarrow> an_saved s' = an_saved s
        | Inr resp \<Rightarrow>
            \<exists>op c. op \<in> set (ad_operators (an_saved s)) \<and> op_disabled_at op = None
              \<and> decode_operator_jwt (ae_jwt E) (ae_jwt_secret E) (ae_now_s E) (the cookie) ''access'' = Inr c
              \<and> oc_operator_id c = op_id op
              \<and> (an_saved s' = an_saved s
                 \<or> (\<exists>row. signed_by E op row
                     \<and> gd_log (ad_core (an_saved s')) = gd_log (ad_core (an_saved s)) @ [row])))"
proof -
  obtain x s1 where m: "bindA (current_operator E cookie) (handle E req) s = (x, s1)" by fastforce
  then have s': "r = x" "s' = s1\<lparr>an_db := an_saved s1\<rparr>" using assms(2) by (auto simp: admin_route_def admin_session_def)
  obtain y s0 where c: "current_operator E cookie s = (y, s0)" by fastforce
  note s0 = quiet_current_operator [OF c]
  show ?thesis
  proof (cases y)
    case (Inl e)
    then have "x = Inl e" "s1 = s" using m c s0 by (simp_all add: bindA_def)
    then show ?thesis by (simp add: s')
  next
    case (Inr op)
    then have h: "handle E req op s = (x, s1)" using m c s0 by (simp add: bindA_def)
    note op = current_operator_Inr [OF c [unfolded Inr]]
    have "case (x, s1) of (Inl e, s') \<Rightarrow> an_saved s' = an_saved s
       | (Inr x, s') \<Rightarrow> an_saved s' = an_saved s
           \<or> (\<exists>row. signed_by E op row \<and> gd_log (ad_core (an_saved s')) = gd_log (ad_core (an_db s)) @ [row])"
      using handle_signed [of E op req, unfolded signed_def, rule_format, of s] unfolding h .
    then show ?thesis using op unfolding s' by (cases x) (auto simp: assms(1))
  qed
qed

text \<open>
  C11: every change by an operator is signed. A request to any of the operator routes either is
  refused, and then nothing committed has changed, or comes from an enabled operator whose
  access token decodes to their id, and then it changed nothing or left exactly one new audit
  row, a success row in that operator's name.
\<close>

theorem admin_changes_signed:
  assumes "an_db s = an_saved s" and "admin_route E cookie req s = (r, s')"
  shows "an_db s' = an_saved s'
     \<and> (case r of
          Inl e \<Rightarrow> an_saved s' = an_saved s
        | Inr resp \<Rightarrow>
            \<exists>op c. op \<in> set (ad_operators (an_saved s)) \<and> op_disabled_at op = None
              \<and> decode_operator_jwt (ae_jwt E) (ae_jwt_secret E) (ae_now_s E) (the cookie) ''access'' = Inr c
              \<and> oc_operator_id c = op_id op
              \<and> (an_saved s' = an_saved s
                 \<or> (\<exists>row. signed_by E op row
                     \<and> gd_log (ad_core (an_saved s')) = gd_log (ad_core (an_saved s)) @ [row])))"
  by (rule admin_changes_signed_aux [OF assms])

text \<open>
  C23: an operator's session. Whoever logs in has the email and the password of an enabled
  operator; the access cookie then stands for that operator, as long as the row is there and
  enabled, for exactly one hour, and the refresh cookie is never accepted in its place.
\<close>

theorem operator_session:
  assumes "jwt_lib_ok (ae_jwt E)" and "login E email password s = (Inr (resp, access, refresh), s1)"
    and "list_all (\<lambda>op. op_id op < 2 ^ 128) (ad_operators (an_db s))"
    and "ae_jwt E2 = ae_jwt E" "ae_jwt_secret E2 = ae_jwt_secret E" and "ae_now_s E \<le> ae_now_s E2"
  shows "\<exists>op. op \<in> set (ad_operators (an_db s)) \<and> op_disabled_at op = None \<and> op_email op = ae_lower E email
      \<and> ae_verify E (op_password_hash op) password = Verified
      \<and> current_operator E2 (Some access) s2
          = (if ae_now_s E2 < ae_now_s E + 3600
             then (case operator_get (op_id op) (ad_operators (an_db s2)) of
                     Some op' \<Rightarrow> if op_disabled_at op' = None then (Inr op', s2) else (Inl (Status 401 ''operator disabled''), s2)
                   | None \<Rightarrow> (Inl (Status 401 ''operator disabled''), s2))
             else (Inl (Status 401 ''session invalid''), s2))
      \<and> current_operator E2 (Some refresh) s2 = (Inl (Status 401 ''session invalid''), s2)"
proof -
  obtain op fam where op: "get_by_email (ae_lower E) email (ad_operators (an_db s)) = Some op" "op_disabled_at op = None"
      "ae_verify E (op_password_hash op) password = Verified"
    and iss: "issue_operator_jwt (ae_jwt E) (ae_jwt_secret E) (ae_now_s E) (op_id op) (op_roles op) None (ae_uuid E 0) (ae_jti E)
              = Inr (access, refresh, fam)"
    using assms(2)
    by (auto simp: login_def get_adb_def bindA_Inr seqA_Inr split: option.splits if_splits verify_reply.splits sum.splits)
  have mem: "op \<in> set (ad_operators (an_db s))" "op_email op = ae_lower E email"
    using find_SomeD [OF op(1) [unfolded get_by_email_def]] by auto
  then have "op_id op < 2 ^ 128" using assms(3) by (simp add: list_all_iff)
  note d = issued_decodes [OF assms(1) iss this assms(6)]
  show ?thesis
    using op mem d
    by (intro exI [of _ op])
      (auto simp: current_operator_def assms(4,5) get_adb_def bindA_def getsA_def throw_def ret_def access_ttl_def
        split: option.split)
qed

subsection \<open>A concrete console\<close>

definition console_operator :: operator_row where
  "console_operator = \<lparr>op_id = 3, op_email = ''ops@nv.io'', op_password_hash = ''h'', op_full_name = None,
     op_roles = [''admin''], op_created_at = 0, op_last_login_at = None, op_disabled_at = None\<rparr>"

definition console_db :: adm_db where
  "console_db = \<lparr>ad_core = gw_db, ad_tenants = [sample_tenant\<lparr>te_id := 7\<rparr>], ad_keys = [],
     ad_operators = [console_operator], ad_wm = []\<rparr>"

definition console :: "gdb \<Rightarrow> adm_state" where
  "console d = \<lparr>an_db = console_db\<lparr>ad_core := d\<rparr>, an_saved = console_db\<lparr>ad_core := d\<rparr>,
     an_files = Map.empty, an_objects = Map.empty\<rparr>"

definition console_env :: aenv where
  "console_env = \<lparr>ae_now = 50, ae_now_s = 10, ae_uuid = (\<lambda>n. n), ae_ip = None, ae_jwt = plain_jwt,
     ae_jwt_secret = Some (replicate 32 115), ae_jti = [106], ae_verify = (\<lambda>h p. Verified), ae_hash_secret = (\<lambda>s. ''h''),
     ae_lower = (\<lambda>s. s), ae_prefix_random = replicate 14 97, ae_key_secret = replicate 40 97, ae_draws = [],
     ae_r2_up = True, ae_r2_delete = (\<lambda>u. None), ae_unlink = (\<lambda>p. None), ae_max_upload_mb = 25,
     ae_decode_audio = (\<lambda>a. Inr (a, 48000)), ae_detect = (\<lambda>th pcm rate. Detected 1 (Some 7) []),
     ae_printable = (\<lambda>c. True)\<rparr>"

definition console_cookie :: ustr where
  "console_cookie = plain_encode [] (access_claims 3 0 [''admin''])"

lemma console_sel [simp]:
  "an_db (console d) = console_db\<lparr>ad_core := d\<rparr>" "an_saved (console d) = console_db\<lparr>ad_core := d\<rparr>"
  "ad_core (console_db\<lparr>ad_core := d\<rparr>) = d" "ad_tenants (console_db\<lparr>ad_core := d\<rparr>) = [sample_tenant\<lparr>te_id := 7\<rparr>]"
  "ad_operators (console_db\<lparr>ad_core := d\<rparr>) = [console_operator]" "ad_wm (console_db\<lparr>ad_core := d\<rparr>) = []"
  "ae_now console_env = 50" "ae_r2_up console_env" "ae_unlink console_env p = None" "op_disabled_at console_operator = None"
  "op_id console_operator = 3"
  by (simp_all add: console_def console_db_def console_env_def console_operator_def)

lemma console_decodes:
  "decode_operator_jwt plain_jwt (Some (replicate 32 115)) 10 console_cookie ''access''
     = Inr \<lparr>oc_operator_id = 3, oc_roles = JList (map (JStr \<circ> cps) [''admin'']), oc_issued_at = 0,
            oc_expires_at = 0 + access_ttl, oc_token_type = ''access'', oc_family = None\<rparr>
   \<and> console_cookie \<noteq> []"
proof -
  have "issue_operator_jwt plain_jwt (Some (replicate 32 115)) 0 3 [''admin''] None 0 []
     = Inr (console_cookie, plain_encode (replicate 32 115) (refresh_claims 3 0 0 []), 0)"
    by (simp add: issue_operator_jwt_def signing_key_def plain_jwt_def console_cookie_def plain_encode_def)
  from issued_decodes [OF plain_jwt_ok this, of 10] show ?thesis by (simp add: access_ttl_def)
qed

lemma console_session:
  assumes "an_db s = console_db\<lparr>ad_core := d\<rparr>"
  shows "current_operator console_env (Some console_cookie) s = (Inr console_operator, s)"
proof -
  have "ae_jwt console_env = plain_jwt" "ae_jwt_secret console_env = Some (replicate 32 115)" "ae_now_s console_env = 10"
    by (simp_all add: console_env_def)
  then show ?thesis using assms
    by (simp add: current_operator_def console_decodes get_adb_def bindA_def getsA_def operator_get_def ret_def)
qed

lemma console_signed_in: "current_operator console_env (Some console_cookie) (console d) = (Inr console_operator, console d)"
  by (rule console_session) simp

theorem admin_changes_signed_witness:
  "\<exists>row. signed_by console_env console_operator row
     \<and> gd_log (ad_core (an_saved (snd (admin_route console_env (Some console_cookie) (Post_Unfreeze 10) (console gw_db))))) = [row]"
proof -
  obtain r s' where run: "admin_route console_env (Some console_cookie) (Post_Unfreeze 10) (console gw_db) = (r, s')" by fastforce
  have ok: "\<not> isl r \<and> gd_log (ad_core (an_saved s')) \<noteq> []"
    using run
    by (auto simp: admin_route_def admin_session_def bindA_def console_signed_in unfreeze_route_def seqA_def
        on_voice_table_def in_adb_def bindS_def unfreeze_voice_def on_unpurged_def get_by_id_def flush_voice_def
        voice_or_404_def found_def audit_as_def audit_record_def audit_checks_def operator_row_for_def acommit_def
        modifyA_def ret_def gw_db_def gw_voice_def sample_voice_def voice_checks_def slug_shape_def slug_edge_def
        slug_inner_def tenant_get_def)
  from admin_changes_signed [OF _ run] ok obtain op row where
    "op \<in> set [console_operator]" "signed_by console_env op row"
    "gd_log (ad_core (an_saved s')) = gd_log gw_db @ [row]"
    by (cases r) (auto simp: gw_db_def)
  then show ?thesis using run by (auto simp: gw_db_def)
qed

theorem operator_session_witness:
  "\<exists>resp access refresh s1. login console_env ''ops@nv.io'' [112] (console gw_db) = (Inr (resp, access, refresh), s1)
     \<and> current_operator console_env (Some refresh) (console gw_db) = (Inl (Status 401 ''session invalid''), console gw_db)"
proof -
  obtain access refresh fam where iss: "issue_operator_jwt plain_jwt (Some (replicate 32 115)) 10 3 [''admin''] None 0 [106]
      = Inr (access, refresh, fam)"
    by (simp add: issue_operator_jwt_def signing_key_def Let_def)
  have "\<exists>resp s1. login console_env ''ops@nv.io'' [112] (console gw_db) = (Inr (resp, access, refresh), s1)"
    using iss
    by (simp add: login_def get_adb_def bindA_def getsA_def get_by_email_def console_operator_def seqA_def in_adb_def
        audit_as_def audit_record_def audit_checks_def operator_row_for_def bindS_def acommit_def modifyA_def ret_def
        console_env_def touch_login_def)
  then obtain resp s1 where l: "login console_env ''ops@nv.io'' [112] (console gw_db) = (Inr (resp, access, refresh), s1)" by blast
  have "jwt_lib_ok (ae_jwt console_env)" using plain_jwt_ok by (simp add: console_env_def)
  from operator_session [OF this l, of console_env "console gw_db"] l show ?thesis by auto
qed

subsection \<open>Reading a handler's outcome\<close>

text \<open>The end of every handler that writes.\<close>

lemma signed_tail:
  assumes "seqA (audit_as E op action tid ttype target ip payload) (seqA acommit (ret x)) s = (Inr y, s')"
  shows "y = x \<and> an_db s' = an_saved s' \<and> an_files s' = an_files s \<and> an_objects s' = an_objects s
     \<and> (\<exists>log. an_saved s' = (an_db s)\<lparr>ad_core := (ad_core (an_db s))\<lparr>gd_log := log\<rparr>\<rparr>)"
  using assms
  by (auto simp: seqA_Inr audit_as_def in_adb_def acommit_def bindS_Inr split: sum.splits)

lemma on_voice_table_Inr:
  "on_voice_table f s = (Inr r, s') \<longleftrightarrow> (\<exists>t. f (gd_voices (ad_core (an_db s))) = Inr (r, t)
     \<and> s' = s\<lparr>an_db := (an_db s)\<lparr>ad_core := (ad_core (an_db s))\<lparr>gd_voices := t\<rparr>\<rparr>\<rparr>)"
  by (auto simp: on_voice_table_def in_adb_def bindS_Inr split: sum.splits)

lemma demand_Inr: "demand b e s = (Inr x, s') \<longleftrightarrow> b \<and> s' = s"
  by (auto simp: demand_def)

lemma admin_route_Inr:
  assumes "admin_route E cookie req s = (Inr resp, s')"
  shows "\<exists>op s1. handle E req op s = (Inr resp, s1) \<and> an_saved s1 = an_saved s'"
  using assms current_operator_Inr
  by (fastforce simp: admin_route_def admin_session_def bindA_Inr split: prod.splits)

end
