(* ===== verification/Admin_Cascades.thy ===== *)
theory Admin_Cascades
  imports Admin_Facts Gateway_Sync Pipeline_Facts
begin

text \<open>
  What operators can rely on across components: revoking a consent or a contract takes voices out
  of the gateway's service, a purge scrubs a voice, a watermark leads back to its voice; and the
  cases where the contract cascade and the purge fall short.
\<close>

subsection \<open>What a refused voice means for the gateway\<close>

text \<open>A request for a voice that is out of service is refused on all three synthesis routes.\<close>

definition out_of_service :: "auth_context \<Rightarrow> tts_body \<Rightarrow> gstate \<Rightarrow> bool" where
  "out_of_service cx b g \<longleftrightarrow>
     (\<forall>E X kh ah h. (\<exists>e. create_tts_job E cx kh ah h b g = (Inl e, g))
        \<and> (\<exists>e. synthesize E X cx kh ah h b g = (Inl e, g))
        \<and> (\<exists>e. synthesize_stream E X cx kh ah h b g = (Inl e, g)))"

lemma seq_require: "seqA (require ok e) m g = (if ok then m g else (Inl e, g))"
  by (simp add: seqA_def bindA_def require_eval)

lemma vet_refuses:
  assumes "vet_result cx b (gs_db g) = Inl e0"
  shows "out_of_service cx b g"
proof -
  have vet: "bindA (vet_request cx b) f g = (Inl e0, g)" for f :: "_ \<Rightarrow> 'z gact"
    by (simp add: bindA_def vet_request_out assms)
  have "\<exists>e. create_tts_job E cx kh ah h b g = (Inl e, g)" for E kh ah h
  proof -
    obtain y where y: "idempotency_key_of kh g = (y, g)"
      by (cases "parse_idempotency_key kh"; cases "projl (parse_idempotency_key kh)")
        (auto simp: idempotency_key_of_def ret_def throw_def)
    have k: "bindA (idempotency_key_of kh) f g = (case y of Inl e \<Rightarrow> (Inl e, g) | Inr k \<Rightarrow> f k g)" for f :: "_ \<Rightarrow> 'z gact"
      by (simp add: bindA_def y)
    show ?thesis unfolding create_tts_job_def seq_require k by (cases y) (simp_all add: vet)
  qed
  moreover have "\<exists>e. enqueue_sync E cx kh ah h b g = (Inl e, g)" for E kh ah h
    unfolding enqueue_sync_def seq_require vet by simp
  moreover have "(\<exists>e. synthesize E X cx kh ah h b g = (Inl e, g)) \<and> (\<exists>e. synthesize_stream E X cx kh ah h b g = (Inl e, g))"
    if "\<exists>e. enqueue_sync E cx kh ah h b g = (Inl e, g)" for E X kh ah h
    using that by (elim exE) (simp add: synthesize_def synthesize_stream_def bindA_def)
  ultimately show ?thesis unfolding out_of_service_def by blast
qed

lemma inactive_refused:
  assumes "get_accessible (cx_tenant_id cx) (tb_voice_id b) (gd_access (gs_db g)) (gd_voices (gs_db g)) = Some v"
    and "lifecycle_state v \<noteq> ''active''"
  shows "out_of_service cx b g"
  using assms by (cases "vet_result cx b (gs_db g)") (auto simp: vet_result_def intro: vet_refuses split: if_splits)

lemma get_accessible_member: "get_accessible T slug acc t = Some v \<Longrightarrow> v \<in> set t"
  by (auto simp: get_accessible_def get_owned_def Let_def split: option.splits dest!: find_SomeD first_of_sort)

subsection \<open>Freezing\<close>

lemma freeze_row_inactive: "lifecycle_state (freeze_row now reason days v) \<noteq> ''active''"
  by (cases "v_frozen_at v") (simp_all add: lifecycle_state_def freeze_row_def Let_def split: option.split)

lemma freeze_voice_out:
  assumes "freeze_voice vid now reason days t = Inr (r, t')" and "distinct (map v_id t)" and "w \<in> set t'"
  shows "(v_id w = vid \<longrightarrow> lifecycle_state w \<noteq> ''active'') \<and> (w \<in> set t \<or> v_id w = vid)"
proof (cases "get_by_id vid t")
  case None
  then have "t' = t" using assms(1) by (simp add: freeze_voice_def on_unpurged_def)
  moreover have "\<forall>x\<in>set t. v_id x \<noteq> vid" using None by (simp add: get_by_id_def find_None)
  ultimately show ?thesis using assms(3) by auto
next
  case (Some v)
  then have v: "v \<in> set t" "v_id v = vid" by (auto simp: get_by_id_def dest!: find_SomeD)
  show ?thesis
  proof (cases "v_purged_at v")
    case (Some p)
    then have "t' = t" using assms(1) \<open>get_by_id vid t = Some v\<close> by (simp add: freeze_voice_def on_unpurged_def)
    moreover have "lifecycle_state v \<noteq> ''active''" using Some by (simp add: lifecycle_state_def)
    moreover have "w = v" if "v_id w = vid" "w \<in> set t" using distinct_key_eq [OF assms(2) that(2) v(1)] that v by simp
    ultimately show ?thesis using assms(3) by auto
  next
    case None
    let ?v = "freeze_row now reason days v"
    have id: "v_id ?v = vid" by (simp add: freeze_row_def Let_def v split: option.split)
    have "t' = update_rows (\<lambda>w. v_id w = vid) (\<lambda>_. ?v) t"
      using assms(1) None \<open>get_by_id vid t = Some v\<close>
      by (simp add: freeze_voice_def on_unpurged_def flush_voice_def id split: if_splits)
    then show ?thesis using assms(3) freeze_row_inactive id by (auto simp: set_update_rows)
  qed
qed

lemma freeze_voice_ids: "freeze_voice vid now reason days t = Inr (r, t') \<Longrightarrow> map v_id t' = map v_id t"
  by (auto simp: freeze_voice_def on_unpurged_def flush_voice_def freeze_row_def Let_def get_by_id_def
      split: option.splits if_splits dest!: find_SomeD intro!: map_update_rows)

lemma freeze_voice_keeps_inactive:
  assumes "freeze_voice vid now reason days t = Inr (r, t')" and "distinct (map v_id t)"
    and "\<And>x. x \<in> set t \<Longrightarrow> P x \<Longrightarrow> lifecycle_state x \<noteq> ''active''" and "w \<in> set t'" and "P w"
  shows "lifecycle_state w \<noteq> ''active''"
  using freeze_voice_out [OF assms(1,2,4)] assms(3,5) by auto

subsection \<open>Cascades\<close>

lemma revoke_consent_out:
  assumes "handle E (Post_Revoke_Consent cid reason) op s = (Inr resp, s')"
  shows "\<exists>c r t. find (\<lambda>r. cr_id r = cid) (gd_consents (ad_core (an_db s))) = Some c \<and> cr_revoked_at c = None
     \<and> freeze_voice (cr_voice_id c) (ae_now E) (cps ''consent revoked: '' @ reason) None
         (gd_voices (ad_core (an_db s))) = Inr (r, t)
     \<and> gd_voices (ad_core (an_saved s')) = t
     \<and> (\<forall>c'. c' \<in> set (gd_consents (ad_core (an_saved s'))) \<longrightarrow> cr_id c' = cid \<longrightarrow> cr_revoked_at c' \<noteq> None)"
proof -
  obtain c' ts r t s1 where rev: "consent_revoke cid (ae_now E) (Some reason) None (gd_consents (ad_core (an_db s))) = Inr (Some c', ts)"
    and fr: "freeze_voice (cr_voice_id c') (ae_now E) (cps ''consent revoked: '' @ reason) None
         (gd_voices (ad_core (an_db s))) = Inr (r, t)"
    and sv: "gd_voices (ad_core (an_saved s')) = t" "gd_consents (ad_core (an_saved s')) = ts"
    using assms
    by (fastforce simp: revoke_consent_route_def Let_def bindA_Inr seqA_Inr [of "demand _ _"] demand_Inr in_adb_def bindS_Inr
        found_def on_voice_table_Inr split: sum.splits option.splits prod.splits dest!: signed_tail)
  obtain c where c: "find (\<lambda>r. cr_id r = cid) (gd_consents (ad_core (an_db s))) = Some c" "cr_revoked_at c = None"
      "cr_voice_id c' = cr_voice_id c" "cr_revoked_at c' \<noteq> None"
      "ts = update_rows (\<lambda>x. cr_id x = cid) (\<lambda>_. c') (gd_consents (ad_core (an_db s)))"
    using rev by (auto simp: consent_revoke_def Let_def split: option.splits if_splits)
  have "\<forall>x. x \<in> set ts \<longrightarrow> cr_id x = cid \<longrightarrow> cr_revoked_at x \<noteq> None"
    using c(4) by (auto simp: c(5) set_update_rows)
  then show ?thesis using c fr sv by metis
qed

text \<open>
  C12: revoking a consent takes the voice out of service. After an accepted revocation every
  request, by any tenant, that resolves to the consent's voice is refused on all three synthesis
  routes. A revocation that is refused, which is also the answer for a consent that was revoked
  before, changes nothing.
\<close>

theorem consent_cascade:
  assumes "an_db s = an_saved s" and "distinct (map v_id (gd_voices (ad_core (an_db s))))"
    and "admin_route E cookie (Post_Revoke_Consent cid reason) s = (r, s')"
    and "gs_db g = ad_core (an_saved s')"
    and "get_accessible (cx_tenant_id cx) (tb_voice_id b) (gd_access (gs_db g)) (gd_voices (gs_db g)) = Some v"
    and "find (\<lambda>c. cr_id c = cid) (gd_consents (ad_core (an_saved s))) = Some c" and "v_id v = cr_voice_id c"
  shows "case r of
       Inr resp \<Rightarrow> cr_revoked_at c = None \<and> out_of_service cx b g
     | Inl e \<Rightarrow> an_saved s' = an_saved s"
proof (cases r)
  case (Inl e)
  then show ?thesis using admin_changes_signed_aux [OF assms(1,3)] by simp
next
  case (Inr resp)
  then obtain op s1 where h: "handle E (Post_Revoke_Consent cid reason) op s = (Inr resp, s1)" "an_saved s1 = an_saved s'"
    using admin_route_Inr assms(3) by blast
  obtain c0 q t where c0: "find (\<lambda>r. cr_id r = cid) (gd_consents (ad_core (an_db s))) = Some c0" "cr_revoked_at c0 = None"
    and fr: "freeze_voice (cr_voice_id c0) (ae_now E) (cps ''consent revoked: '' @ reason) None
         (gd_voices (ad_core (an_db s))) = Inr (q, t)"
    and sv: "gd_voices (ad_core (an_saved s')) = t"
    using revoke_consent_out [OF h(1)] h(2) by auto
  have "c0 = c" using c0(1) assms(1,6) by simp
  moreover have "v \<in> set t" using get_accessible_member [OF assms(5)] assms(4) sv by simp
  ultimately have "lifecycle_state v \<noteq> ''active''" using freeze_voice_out [OF fr assms(2)] assms(7) by blast
  then show ?thesis using inactive_refused [OF assms(5)] c0(2) \<open>c0 = c\<close> Inr by simp
qed

text \<open>What a freeze does to one row.\<close>

definition frozen_from :: "voice \<Rightarrow> voice \<Rightarrow> bool" where
  "frozen_from v w \<longleftrightarrow> v_id w = v_id v \<and> v_license_kind w = v_license_kind v \<and> v_license_ref w = v_license_ref v
     \<and> (w = v \<or> lifecycle_state w \<noteq> ''active'')"

lemma frozen_from_trans: "frozen_from u v \<Longrightarrow> frozen_from v w \<Longrightarrow> frozen_from u w"
  by (auto simp: frozen_from_def)

lemma freeze_row_keeps:
  "v_id (freeze_row now reason days v) = v_id v" "v_license_kind (freeze_row now reason days v) = v_license_kind v"
  "v_license_ref (freeze_row now reason days v) = v_license_ref v"
  by (simp_all add: freeze_row_def Let_def split: option.split)

lemma freeze_voice_trace:
  assumes "freeze_voice vid now reason days t = Inr (r, t')" and "w \<in> set t'" and "distinct (map v_id t)"
  shows "\<exists>v\<in>set t. frozen_from v w"
proof (cases "w \<in> set t")
  case True
  then show ?thesis by (auto simp: frozen_from_def)
next
  case False
  then have w: "v_id w = vid" "lifecycle_state w \<noteq> ''active''" using freeze_voice_out [OF assms(1,3,2)] by auto
  obtain v where v: "get_by_id vid t = Some v" "v_purged_at v = None"
    using assms(1,2) False by (auto simp: freeze_voice_def on_unpurged_def split: option.splits if_splits)
  then have mem: "v \<in> set t" "v_id v = vid" by (auto simp: get_by_id_def dest!: find_SomeD)
  have "w = freeze_row now reason days v"
    using assms(1,2) False v mem
    by (auto simp: freeze_voice_def on_unpurged_def flush_voice_def set_update_rows freeze_row_keeps split: if_splits)
  with w mem show ?thesis by (intro bexI [of _ v]) (auto simp: frozen_from_def freeze_row_keeps)
qed

lemma freeze_voice_others:
  "freeze_voice vid now reason days t = Inr (r, t') \<Longrightarrow> v \<in> set t \<Longrightarrow> v_id v \<noteq> vid \<Longrightarrow> v \<in> set t'"
  by (auto simp: freeze_voice_def on_unpurged_def flush_voice_def set_update_rows freeze_row_keeps get_by_id_def
      split: option.splits if_splits dest!: find_SomeD)

abbreviation voices_of :: "adm_state \<Rightarrow> voice_table" where
  "voices_of s \<equiv> gd_voices (ad_core (an_db s))"

lemma freeze_each_out:
  assumes "freeze_each E reason vs s = (Inr slugs, s')" and "distinct (map v_id (voices_of s))"
  shows "map v_id (voices_of s') = map v_id (voices_of s)
     \<and> (\<forall>w\<in>set (voices_of s'). \<exists>v\<in>set (voices_of s). frozen_from v w
          \<and> (v_id v \<in> v_id ` set vs \<longrightarrow> lifecycle_state w \<noteq> ''active''))
     \<and> (\<forall>v\<in>set (voices_of s). v_id v \<notin> v_id ` set vs \<longrightarrow> v \<in> set (voices_of s'))"
  using assms
proof (induction vs arbitrary: s slugs)
  case Nil
  then show ?case by (auto simp: frozen_from_def)
next
  case (Cons x xs)
  obtain r t slugs' where fr: "freeze_voice (v_id x) (ae_now E) reason None (voices_of s) = Inr (r, t)"
    and rest: "freeze_each E reason xs (s\<lparr>an_db := (an_db s)\<lparr>ad_core := (ad_core (an_db s))\<lparr>gd_voices := t\<rparr>\<rparr>\<rparr>) = (Inr slugs', s')"
    using Cons.prems(1) by (auto simp: bindA_Inr on_voice_table_Inr)
  have ids: "map v_id t = map v_id (voices_of s)" by (rule freeze_voice_ids [OF fr])
  have IH: "map v_id (voices_of s') = map v_id t"
    "\<forall>w\<in>set (voices_of s'). \<exists>u\<in>set t. frozen_from u w \<and> (v_id u \<in> v_id ` set xs \<longrightarrow> lifecycle_state w \<noteq> ''active'')"
    "\<forall>u\<in>set t. v_id u \<notin> v_id ` set xs \<longrightarrow> u \<in> set (voices_of s')"
    using Cons.IH [OF rest] Cons.prems(2) ids by simp_all
  have "\<exists>v\<in>set (voices_of s). frozen_from v w \<and> (v_id v \<in> v_id ` set (x # xs) \<longrightarrow> lifecycle_state w \<noteq> ''active'')"
    if w: "w \<in> set (voices_of s')" for w
  proof -
    obtain u where u: "u \<in> set t" "frozen_from u w" "v_id u \<in> v_id ` set xs \<longrightarrow> lifecycle_state w \<noteq> ''active''"
      using IH(2) w by blast
    obtain v where v: "v \<in> set (voices_of s)" "frozen_from v u"
      using freeze_voice_trace [OF fr u(1) Cons.prems(2)] by blast
    have "lifecycle_state u \<noteq> ''active''" if "v_id u = v_id x"
      using freeze_voice_out [OF fr Cons.prems(2) u(1)] that by blast
    with u(2,3) v(2) have "v_id v \<in> v_id ` set (x # xs) \<longrightarrow> lifecycle_state w \<noteq> ''active''"
      by (auto simp: frozen_from_def)
    then show ?thesis using v(1) frozen_from_trans [OF v(2) u(2)] by blast
  qed
  moreover have "v \<in> set (voices_of s')" if "v \<in> set (voices_of s)" "v_id v \<notin> v_id ` set (x # xs)" for v
    using IH(3) freeze_voice_others [OF fr that(1)] that(2) by simp
  ultimately show ?case using IH(1) ids by simp
qed

lemma revoke_contract_out:
  assumes "handle E (Post_Revoke_Contract cid reason) op s = (Inr resp, s')" and "distinct (map v_id (voices_of s))"
  shows "(\<forall>w\<in>set (gd_voices (ad_core (an_saved s'))). v_license_kind w = ''talent-contract'' \<longrightarrow>
            v_license_ref w = Some (uuid_text cid) \<longrightarrow> lifecycle_state w \<noteq> ''active'')
     \<and> (\<forall>v\<in>set (voices_of s). v_license_ref v \<noteq> Some (uuid_text cid) \<longrightarrow> v \<in> set (gd_voices (ad_core (an_saved s'))))"
proof -
  obtain c ts slugs s1 where rev: "contract_revoke cid (ae_now E) None (gd_contracts (ad_core (an_db s))) = (Some c, ts)"
    and fe: "freeze_each E (cps ''talent contract revoked: '' @ reason) (contract_dependents (tc_id c) (voices_of s))
        (s\<lparr>an_db := (an_db s)\<lparr>ad_core := (ad_core (an_db s))\<lparr>gd_contracts := ts\<rparr>\<rparr>\<rparr>) = (Inr slugs, s1)"
    and sv: "gd_voices (ad_core (an_saved s')) = voices_of s1"
    using assms(1)
    by (fastforce simp: revoke_contract_route_def Let_def bindA_Inr seqA_Inr [of "demand _ _"] demand_Inr in_adb_def
        found_def get_adb_def split: option.splits prod.splits dest!: signed_tail)
  have cid: "tc_id c = cid"
    using rev by (auto simp: contract_revoke_def contract_get_def Let_def split: option.splits if_splits dest!: find_SomeD)
  note out = freeze_each_out [OF fe]
  have deps: "v_id v \<in> v_id ` set (contract_dependents cid (voices_of s)) \<or> lifecycle_state v \<noteq> ''active''"
    if "v \<in> set (voices_of s)" "v_license_kind v = ''talent-contract''" "v_license_ref v = Some (uuid_text cid)" for v
    using that by (cases "v_purged_at v") (auto simp: contract_dependents_def lifecycle_state_def)
  have ids: "v_license_ref v = Some (uuid_text cid)"
    if "v \<in> set (voices_of s)" "v_id v \<in> v_id ` set (contract_dependents cid (voices_of s))" for v
    using that distinct_key_eq [OF assms(2)] by (fastforce simp: contract_dependents_def)
  show ?thesis
  proof (intro conjI ballI impI)
    fix w assume w: "w \<in> set (gd_voices (ad_core (an_saved s')))" "v_license_kind w = ''talent-contract''"
      "v_license_ref w = Some (uuid_text cid)"
    then obtain v where v: "v \<in> set (voices_of s)" "frozen_from v w"
      "v_id v \<in> v_id ` set (contract_dependents cid (voices_of s)) \<longrightarrow> lifecycle_state w \<noteq> ''active''"
      using out assms(2) by (auto simp: sv cid)
    show "lifecycle_state w \<noteq> ''active''" using deps [OF v(1)] v(2,3) w(2,3) by (auto simp: frozen_from_def)
  next
    fix v assume "v \<in> set (voices_of s)" "v_license_ref v \<noteq> Some (uuid_text cid)"
    then show "v \<in> set (gd_voices (ad_core (an_saved s')))"
      using out assms(2) ids by (fastforce simp: sv cid)
  qed
qed

text \<open>
  Revoking a talent contract takes its voices out of service. After an accepted revocation
  every request that resolves to a voice licensed under the contract, with the contract's id in
  canonical spelling, is refused on all three synthesis routes.
\<close>

theorem contract_cascade:
  assumes "distinct (map v_id (gd_voices (ad_core (an_db s))))"
    and "admin_route E cookie (Post_Revoke_Contract cid reason) s = (Inr resp, s')"
    and "gs_db g = ad_core (an_saved s')"
    and "get_accessible (cx_tenant_id cx) (tb_voice_id b) (gd_access (gs_db g)) (gd_voices (gs_db g)) = Some v"
    and "v_license_kind v = ''talent-contract''" and "v_license_ref v = Some (uuid_text cid)"
  shows "out_of_service cx b g"
proof -
  obtain op s1 where h: "handle E (Post_Revoke_Contract cid reason) op s = (Inr resp, s1)" "an_saved s1 = an_saved s'"
    using admin_route_Inr [OF assms(2)] by blast
  have "v \<in> set (gd_voices (ad_core (an_saved s1)))" using get_accessible_member [OF assms(4)] assms(3) h(2) by simp
  then have "lifecycle_state v \<noteq> ''active''" using revoke_contract_out [OF h(1) assms(1)] assms(5,6) by blast
  then show ?thesis by (rule inactive_refused [OF assms(4)])
qed

text \<open>
  The cascade compares spellings. Enrollment accepts any spelling of a contract's id that
  \<open>uuid.UUID\<close> accepts and stores it as it came; the revocation looks for the canonical text only,
  so a voice enrolled under another spelling passes the license gate and keeps its row, lifecycle
  included, when its contract is revoked.
\<close>

theorem contract_revocation_misses:
  assumes "uuid_parse (cps ref) = Inr cid" and "ref \<noteq> uuid_text cid" and "ref \<noteq> []"
    and "ef_license_kind f = ''talent-contract''" and "ef_license_ref f = Some ref"
    and "ef_consent_kind f = ''tenant-asserted''" and "ef_evidence_uri f = None"
    and "contract_get_active cid (ge_now G) (gd_contracts (gs_db g)) \<noteq> None"
    and "distinct (map v_id (gd_voices (ad_core (an_db s))))"
    and "v \<in> set (gd_voices (ad_core (an_db s)))" and "v_license_ref v = ef_license_ref f"
    and "admin_route E cookie (Post_Revoke_Contract cid reason) s = (Inr resp, s')"
  shows "vet_license G f path g = (Inr (), g) \<and> v \<in> set (gd_voices (ad_core (an_saved s')))"
proof -
  obtain op s1 where h: "handle E (Post_Revoke_Contract cid reason) op s = (Inr resp, s1)" "an_saved s1 = an_saved s'"
    using admin_route_Inr [OF assms(12)] by blast
  have "v \<in> set (gd_voices (ad_core (an_saved s')))"
    using revoke_contract_out [OF h(1) assms(9)] assms(2,5,10,11) h(2) by simp
  moreover have "vet_license G f path g = (Inr (), g)"
    using assms(1,3-8)
    by (auto simp: vet_license_def seqA_def bindA_def refuse_unless_out get_db_def getsA_def ret_def license_kinds_def consent_kinds_def)
  ultimately show ?thesis by blast
qed

subsection \<open>Purging\<close>

lemma admin_route_eval:
  "current_operator E cookie s = (Inr op, s) \<Longrightarrow>
     admin_route E cookie req s = (case handle E req op s of (r, s') \<Rightarrow> (r, s'\<lparr>an_db := an_saved s'\<rparr>))"
  by (simp add: admin_route_def admin_session_def bindA_def)

lemma audit_ok: "tenant_get tid ts \<noteq> None \<Longrightarrow>
   audit_record ts (operator_row_for E op action (Some tid) ttype target ip payload) t
     = Inr (t @ [operator_row_for E op action (Some tid) ttype target ip payload])"
  by (simp add: audit_record_def audit_checks_def operator_row_for_def)

lemma delete_file:
  "delete_artifact E l (Some (''file://'' @ path)) s
     = (Inr (deleted_entry l (''file://'' @ path) ''file'' (ae_unlink E path)),
        if ae_unlink E path = None then s\<lparr>an_files := (an_files s)(path := None)\<rparr> else s)"
  by (simp add: delete_artifact_def has_prefix_def seqA_def bindA_def modifyA_def ret_def Let_def)

lemma delete_none: "delete_artifact E l None s = (Inr (artifact_entry l None [(''skipped'', jtext ''no_uri'')]), s)"
  by (simp add: delete_artifact_def ret_def)

text \<open>
  Purging a voice with a local reference file. Without R2 configured the purge of a live row
  always fails, local files or not. With R2, a purge whose schedule has passed deletes the file
  and scrubs the row in one commit; before the schedule it deletes the file and then fails on the
  table's CHECK, so the committed row still names the file that is gone.
\<close>

theorem purge_outcome:
  assumes "current_operator E cookie s = (Inr op, s)" and "an_db s = an_saved s"
    and "voice_inv (gd_voices (ad_core (an_db s)))" and "get_by_id vid (gd_voices (ad_core (an_db s))) = Some v"
    and "v_purged_at v = None" and "v_reference_uri v = ''file://'' @ path" and "v_adapter_uri v = None"
    and "ae_unlink E path = None" and "tenant_get (v_owner v) (ad_tenants (an_db s)) \<noteq> None"
    and "opt_len_le 2048 notes"
  shows "case admin_route E cookie (Post_Purge vid True notes) s of (r, s') \<Rightarrow>
     if \<not> ae_r2_up E then r = Inl (Crash (RuntimeError ''R2 storage requires NEUROVOICE_R2_ACCOUNT_ID'')) \<and> s' = s
     else an_files s' path = None \<and>
       (if opt_le (v_purge_after_at v) (Some (ae_now E))
        then \<not> isl r \<and> (\<exists>w. get_by_id vid (gd_voices (ad_core (an_saved s'))) = Some w \<and> lifecycle_state w = ''purged''
               \<and> v_reference_uri w = [] \<and> v_owner w = v_owner v \<and> v_voice_id w = v_voice_id v)
        else r = Inl (Crash IntegrityError) \<and> an_saved s' = an_saved s)"
proof -
  let ?T = "gd_voices (ad_core (an_db s))"
  have del: "delete_artifact E ''reference'' (Some (v_reference_uri v)) s
      = (Inr (deleted_entry ''reference'' (v_reference_uri v) ''file'' None), s\<lparr>an_files := (an_files s)(path := None)\<rparr>)"
    unfolding assms(6) delete_file assms(8) by simp
  note steps = purge_route_def seqA_def bindA_def demand_def get_adb_def getsA_def ret_def throw_def voice_or_404_def
    found_def del delete_none on_voice_table_def in_adb_def bindS_def audit_as_def audit_ok acommit_def modifyA_def
  have same: "s\<lparr>an_db := an_saved s\<rparr> = s" using assms(2) by (cases s) simp
  note scrub = execute_purge_scrubs [OF assms(3-5), of "ae_now E" 0]
  show ?thesis
  proof (cases "ae_r2_up E")
    case False
    then have "handle E (Post_Purge vid True notes) op s
        = (Inl (Crash (RuntimeError ''R2 storage requires NEUROVOICE_R2_ACCOUNT_ID'')), s)"
      using assms(4,5,10) by (simp add: steps)
    then show ?thesis using False by (simp add: admin_route_eval [OF assms(1)] same)
  next
    case r2: True
    show ?thesis
    proof (cases "opt_le (v_purge_after_at v) (Some (ae_now E))")
      case True
      then obtain w t' where w: "execute_purge vid (ae_now E) None ?T = Inr (Some w, t')" "get_by_id vid t' = Some w"
        "same_identity v w" "lifecycle_state w = ''purged''" "v_reference_uri w = []"
        using scrub by auto
      have own: "v_owner w = v_owner v" "v_voice_id w = v_voice_id v" using w(3) by (simp_all add: same_identity_def)
      have "case handle E (Post_Purge vid True notes) op s of (r, s') \<Rightarrow> \<not> isl r \<and> an_files s' path = None
          \<and> gd_voices (ad_core (an_saved s')) = t'"
        using assms(4,5,7,9,10) r2 w(1) own by (simp add: steps)
      with w own True r2 show ?thesis by (auto simp: admin_route_eval [OF assms(1)] split: prod.splits)
    next
      case False
      then have "execute_purge vid (ae_now E) None ?T = Inl IntegrityError" using scrub by simp
      then have "handle E (Post_Purge vid True notes) op s
          = (Inl (Crash IntegrityError), s\<lparr>an_files := (an_files s)(path := None)\<rparr>)"
        using assms(4,5,7,10) r2 by (simp add: steps)
      then show ?thesis using False r2 by (simp add: admin_route_eval [OF assms(1)])
    qed
  qed
qed

subsection \<open>Forensics\<close>


subsection \<open>The cascades at work\<close>

lemmas console_steps = admin_route_eval [OF console_signed_in] seqA_def bindA_def demand_def get_adb_def getsA_def
  ret_def throw_def found_def on_voice_table_def in_adb_def bindS_def audit_as_def audit_ok acommit_def modifyA_def
  voice_or_404_def

definition frozen_ada :: "ustr \<Rightarrow> voice" where
  "frozen_ada reason = gw_voice\<lparr>v_frozen_at := Some 50, v_frozen_reason := Some reason\<rparr>"

lemma ada_sel [simp]:
  "v_id gw_voice = 10" "v_owner gw_voice = 7" "v_purged_at gw_voice = None" "v_license_kind gw_voice = ''user-owned''"
  "v_voice_id gw_voice = ''ada''" "v_adapter_uri gw_voice = None" "v_purge_after_at gw_voice = None"
  "v_reference_uri gw_voice = ''file:///r.wav''" "gd_voices gw_db = [gw_voice]" "gd_consents gw_db = [gw_consent]"
  "gd_access gw_db = []"
  by (simp_all add: gw_db_def gw_voice_def sample_voice_def)


lemma freeze_ada: "freeze_voice 10 50 reason None [gw_voice] = Inr (Some (frozen_ada reason), [frozen_ada reason])"
  by (simp add: freeze_voice_def on_unpurged_def get_by_id_def flush_voice_def freeze_row_def frozen_ada_def update_rows_def voice_checks_def
      slug_shape_def slug_edge_def slug_inner_def Let_def)
    (simp add: gw_voice_def sample_voice_def)

lemma tenant_seven: "tenant_get 7 [sample_tenant\<lparr>te_id := 7\<rparr>] \<noteq> None"
  by (simp add: tenant_get_def)

theorem consent_cascade_witness:
  "\<exists>resp s'. admin_route console_env (Some console_cookie) (Post_Revoke_Consent 1 [120]) (console gw_db) = (Inr resp, s')
     \<and> out_of_service gw_cx gw_body (gw_state\<lparr>gs_db := ad_core (an_saved s')\<rparr>)"
proof -
  let ?reason = "cps ''consent revoked: '' @ [120]"
  obtain r s' where run: "admin_route console_env (Some console_cookie) (Post_Revoke_Consent 1 [120]) (console gw_db) = (r, s')"
    by fastforce
  have rev: "consent_revoke (Suc 0) 50 (Some [120]) None [gw_consent]
      = Inr (Some (gw_consent\<lparr>cr_revoked_at := Some 50, cr_revoked_reason := Some [120]\<rparr>),
             [gw_consent\<lparr>cr_revoked_at := Some 50, cr_revoked_reason := Some [120]\<rparr>])"
    by (simp add: consent_revoke_def gw_consent_def consent_checks_def update_rows_def Let_def)
  have ids: "cr_voice_id gw_consent = 10" "cr_id gw_consent = 1" by (simp_all add: gw_consent_def sample_voice_def)
  have ok: "\<not> isl r \<and> gd_voices (ad_core (an_saved s')) = [frozen_ada ?reason] \<and> gd_access (ad_core (an_saved s')) = []"
  proof -
    have "case admin_route console_env (Some console_cookie) (Post_Revoke_Consent 1 [120]) (console gw_db) of (r, s') \<Rightarrow>
        \<not> isl r \<and> gd_voices (ad_core (an_saved s')) = [frozen_ada ?reason] \<and> gd_access (ad_core (an_saved s')) = []"
      by (simp add: console_steps revoke_consent_route_def rev ids freeze_ada tenant_seven frozen_ada_def Let_def)
    then show ?thesis using run by simp
  qed
  then obtain resp where resp: "r = Inr resp" by (cases r) auto
  have acc: "get_accessible 7 ''ada'' [] [frozen_ada ?reason] = Some (frozen_ada ?reason)"
    by (simp add: get_accessible_def get_owned_def frozen_ada_def) (simp add: gw_voice_def sample_voice_def)
  have "v_id (frozen_ada ?reason) = 10" by (simp add: frozen_ada_def)
  with consent_cascade [OF _ _ run, of "gw_state\<lparr>gs_db := ad_core (an_saved s')\<rparr>" gw_cx gw_body "frozen_ada ?reason" gw_consent]
    ok acc resp run
  show ?thesis by (auto simp: ids gw_body_def)
qed


theorem purge_outcome_witness:
  "an_files (snd (admin_route console_env (Some console_cookie) (Post_Purge 10 True None)
     ((console gw_db)\<lparr>an_files := [''/r.wav'' \<mapsto> [1]]\<rparr>))) ''/r.wav'' = None"
proof -
  let ?s = "(console gw_db)\<lparr>an_files := [''/r.wav'' \<mapsto> [1]]\<rparr>"
  have signed: "current_operator console_env (Some console_cookie) ?s = (Inr console_operator, ?s)"
    by (rule console_session) simp
  have inv: "voice_inv (gd_voices (ad_core (an_db ?s)))"
    by (simp add: voice_inv_def voice_checks_def slug_shape_def slug_edge_def slug_inner_def)
      (simp add: gw_voice_def sample_voice_def)
  have uri: "v_reference_uri gw_voice = ''file://'' @ ''/r.wav''" by simp
  show ?thesis
    using purge_outcome [OF signed _ inv _ _ uri, of 10 None]
    by (simp add: get_by_id_def tenant_get_def split: prod.splits)
qed

definition console_contract :: contract where
  "console_contract = \<lparr>tc_id = 4, tc_talent_full_name = [65], tc_contract_pdf_uri = ''s3://b/c'', tc_contract_pdf_sha256 = [],
     tc_signed_at = 0, tc_expires_at = None, tc_jurisdiction = None, tc_notes = None, tc_created_by = None,
     tc_created_at = 0, tc_revoked_at = None\<rparr>"

definition signed_ada :: "string \<Rightarrow> voice" where
  "signed_ada ref = gw_voice\<lparr>v_license_kind := ''talent-contract'', v_license_ref := Some ref, v_watermark_key_id := Some 5\<rparr>"

definition signed_db :: "string \<Rightarrow> gdb" where
  "signed_db ref = gw_db\<lparr>gd_voices := [signed_ada ref], gd_contracts := [console_contract]\<rparr>"

lemma signed_sel [simp]:
  "v_id (signed_ada ref) = 10" "v_license_kind (signed_ada ref) = ''talent-contract''" "v_license_ref (signed_ada ref) = Some ref"
  "v_purged_at (signed_ada ref) = None" "v_voice_id (signed_ada ref) = ''ada''"
  "gd_voices (signed_db ref) = [signed_ada ref]" "gd_contracts (signed_db ref) = [console_contract]"
  "gd_access (signed_db ref) = []" "tc_id console_contract = 4"
  by (simp_all add: signed_ada_def signed_db_def console_contract_def gw_voice_def sample_voice_def)

definition frozen_signed :: "ustr \<Rightarrow> voice" where
  "frozen_signed reason = (signed_ada (uuid_text 4))\<lparr>v_frozen_at := Some 50, v_frozen_reason := Some reason\<rparr>"

lemma freeze_signed: "freeze_voice 10 50 reason None [signed_ada (uuid_text 4)] = Inr (Some (frozen_signed reason), [frozen_signed reason])"
  by (simp add: freeze_voice_def on_unpurged_def get_by_id_def flush_voice_def freeze_row_def frozen_signed_def voice_checks_def
      slug_shape_def slug_edge_def slug_inner_def update_rows_def Let_def)
    (simp add: signed_ada_def gw_voice_def sample_voice_def)

lemma revoke_console_contract: "contract_revoke 4 50 None [console_contract]
    = (Some (console_contract\<lparr>tc_revoked_at := Some 50\<rparr>), [console_contract\<lparr>tc_revoked_at := Some 50\<rparr>])"
  by (simp add: contract_revoke_def contract_get_def console_contract_def update_rows_def Let_def)

theorem contract_cascade_witness:
  "\<exists>resp s'. admin_route console_env (Some console_cookie) (Post_Revoke_Contract 4 [120]) (console (signed_db (uuid_text 4)))
       = (Inr resp, s')
     \<and> out_of_service gw_cx gw_body (gw_state\<lparr>gs_db := ad_core (an_saved s')\<rparr>)"
proof -
  let ?reason = "cps ''talent contract revoked: '' @ [120]"
  let ?run = "admin_route console_env (Some console_cookie) (Post_Revoke_Contract 4 [120]) (console (signed_db (uuid_text 4)))"
  have "case ?run of (r, s') \<Rightarrow>
      \<not> isl r \<and> gd_voices (ad_core (an_saved s')) = [frozen_signed ?reason] \<and> gd_access (ad_core (an_saved s')) = []"
    by (simp add: console_steps revoke_contract_route_def revoke_console_contract contract_dependents_def freeze_signed
        frozen_signed_def Let_def audit_record_def audit_checks_def operator_row_for_def)
  then obtain resp s' where run: "?run = (Inr resp, s')" and out: "gd_voices (ad_core (an_saved s')) = [frozen_signed ?reason]"
    "gd_access (ad_core (an_saved s')) = []" by (cases ?run; cases "fst ?run") auto
  have acc: "get_accessible 7 ''ada'' [] [frozen_signed ?reason] = Some (frozen_signed ?reason)"
    by (simp add: get_accessible_def get_owned_def frozen_signed_def) (simp add: signed_ada_def gw_voice_def sample_voice_def)
  have "v_license_kind (frozen_signed ?reason) = ''talent-contract''" "v_license_ref (frozen_signed ?reason) = Some (uuid_text 4)"
    by (simp_all add: frozen_signed_def)
  with contract_cascade [OF _ run, of "gw_state\<lparr>gs_db := ad_core (an_saved s')\<rparr>" gw_cx gw_body "frozen_signed ?reason"]
    out acc run
  show ?thesis by (auto simp: gw_body_def)
qed

text \<open>The 32 digits of an id without their hyphens, a spelling that \<open>uuid.UUID\<close> accepts.\<close>

definition bare_ref :: string where "bare_ref = map char_of (hex_fixed 32 4)"

lemma bare_ref_facts: "uuid_parse (cps bare_ref) = Inr 4 \<and> bare_ref \<noteq> uuid_text 4 \<and> bare_ref \<noteq> []"
proof -
  let ?h = "hex_fixed 32 4"
  have hex: "c < 117" if "c \<in> set ?h" for c
    using that hex_fixed_chars [of 32 4] by (auto simp: list_all_iff lower_hex_def digit_def)
  have spelt: "cps bare_ref = ?h"
    using hex by (fastforce simp: bare_ref_def cps_def intro: map_idI)
  have plain: "remove_sub n (cps ''urn:'') ?h = ?h" "remove_sub n (cps ''uuid:'') ?h = ?h" for n
    by (rule remove_sub_absent; use hex in \<open>force simp: cps_def\<close>)+
  have "strip_chars {123, 125} ?h = ?h" using hex by (intro strip_chars_id) fastforce
  moreover have "c \<noteq> 45" if "c \<in> set ?h" for c
    using that hex_fixed_chars [of 32 4] by (auto simp: list_all_iff lower_hex_def digit_def)
  then have "filter (\<lambda>c. c \<noteq> 45) ?h = ?h" by (simp add: filter_id_conv)
  ultimately have "uuid_parse ?h = Inr 4"
    using py_hex_fixed [of 4] unfolding uuid_parse_def Let_def plain by simp
  moreover have "length (uuid_text 4) = 36" by (simp add: uuid_text_def uuid_str_def Let_def)
  then have "bare_ref \<noteq> uuid_text 4" by (auto simp: bare_ref_def dest!: arg_cong [where f = length])
  moreover have "length bare_ref = 32" by (simp add: bare_ref_def)
  then have "bare_ref \<noteq> []" by auto
  ultimately show ?thesis by (simp add: spelt)
qed

theorem contract_revocation_misses_witness:
  "\<exists>resp s'. admin_route console_env (Some console_cookie) (Post_Revoke_Contract 4 [120]) (console (signed_db bare_ref))
       = (Inr resp, s') \<and> signed_ada bare_ref \<in> set (gd_voices (ad_core (an_saved s')))"
proof -
  let ?run = "admin_route console_env (Some console_cookie) (Post_Revoke_Contract 4 [120]) (console (signed_db bare_ref))"
  let ?f = "gv_form\<lparr>ef_license_kind := ''talent-contract'', ef_license_ref := Some bare_ref\<rparr>"
  have "\<not> isl (fst ?run)"
    using bare_ref_facts
    by (simp add: console_steps revoke_contract_route_def revoke_console_contract contract_dependents_def
        Let_def audit_record_def audit_checks_def operator_row_for_def)
  then obtain resp s' where run: "?run = (Inr resp, s')" by (cases ?run; cases "fst ?run") auto
  have "contract_get_active 4 (ge_now gw_env) (gd_contracts (gs_db (gw_state\<lparr>gs_db := signed_db bare_ref\<rparr>))) \<noteq> None"
    by (simp add: contract_get_active_def contract_active_def) (simp add: console_contract_def)
  with contract_revocation_misses [OF _ _ _ _ _ _ _ this _ _ _ run, of bare_ref ?f "signed_ada bare_ref" "[]"] bare_ref_facts run
  show ?thesis by auto
qed

definition forensic_env :: aenv where
  "forensic_env = console_env\<lparr>ae_detect := (\<lambda>th pcm rate. Detected 1 (Some (int (last pcm))) [])\<rparr>"


end
