(* ===== verification/Stream_Input.thy ===== *)
theory Stream_Input
  imports Gateway_Sync Operators
begin

text \<open>
  The WebSocket route of \<^verbatim>\<open>src/server/ws.py\<close>: text arrives in pieces, is cut into segments at
  sentence boundaries, and each segment goes through the queue like an HTTP request while its
  audio is sent back. JSON decoding, \<open>hash\<close> and \<open>str\<close> of containers are parameters.
\<close>

subsection \<open>Text\<close>

definition min_buffer_chars :: nat where "min_buffer_chars = 12"
definition max_buffer_chars :: nat where "max_buffer_chars = 240"
definition accumulated_limit :: nat where "accumulated_limit = 20000"

text \<open>\<open>_SENTENCE_END\<close>: a full stop, exclamation or question mark before white space or the end.\<close>

definition boundary_at :: "ustr \<Rightarrow> nat \<Rightarrow> bool" where
  "boundary_at buf i \<longleftrightarrow> buf ! i \<in> {46, 33, 63} \<and> (Suc i = length buf \<or> py_space (buf ! Suc i))"

definition sentence_ends :: "ustr \<Rightarrow> nat list" where
  "sentence_ends buf = map Suc (filter (boundary_at buf) [0..<length buf])"

definition split_at_last_boundary :: "ustr \<Rightarrow> ustr \<times> ustr" where
  "split_at_last_boundary buf =
     (case sentence_ends buf of
        [] \<Rightarrow> ([], buf)
      | es \<Rightarrow> (strip_spaces (take (last es) buf), dropWhile py_space (drop (last es) buf)))"

text \<open>The last blank below the ceiling, or the ceiling.\<close>

definition hard_cut :: "ustr \<Rightarrow> nat" where
  "hard_cut buf =
     (case filter (\<lambda>i. buf ! i = 32) [0..<min max_buffer_chars (length buf)] of
        [] \<Rightarrow> max_buffer_chars
      | is \<Rightarrow> if last is = 0 then max_buffer_chars else last is)"

definition next_segment :: "bool \<Rightarrow> ustr \<Rightarrow> ustr \<times> ustr" where
  "next_segment force buf =
     (case split_at_last_boundary buf of (segment, remainder) \<Rightarrow>
        if force then (strip_spaces buf, [])
        else if segment \<noteq> [] \<and> min_buffer_chars \<le> length segment then (segment, remainder)
        else if max_buffer_chars \<le> length buf
        then (strip_spaces (take (hard_cut buf) buf), dropWhile py_space (drop (hard_cut buf) buf))
        else ([], buf))"

subsection \<open>A connection\<close>

record ws_config =
  wc_voice_settings :: "dict option"
  wc_model_id :: "string option"
  wc_audio_format :: string
  wc_seed :: "int option"
  wc_previous_text :: "ustr option"
  wc_next_text :: "ustr option"
  wc_pronunciation_dict :: "(string \<times> ustr) list option"

datatype ws_frame =
    Error_Frame string ustr
  | Audio_Frame bytes ustr nat string \<comment> \<open>PCM, caption, sentence number, format label\<close>
  | Sentence_End nat ustr
  | Done_Frame
  | Close_Frame int string

text \<open>
  \<open>ws_segments\<close> are the segments handed to \<open>_flush_segment\<close>, oldest first; their number selects
  what the environment answers next. \<open>ws_frames\<close> is what was sent.
\<close>

record ws_state =
  ws_gateway :: gstate
  ws_config_of :: ws_config
  ws_buffer :: ustr
  ws_seq :: nat
  ws_segments :: "ustr list"
  ws_frames :: "ws_frame list"

datatype ws_stop =
    Raised py_error
  | Disconnected
  | Waiting \<comment> \<open>the inputs given end before the connection does\<close>

type_synonym 'a wact = "(ws_state, ws_stop, 'a) act"

text \<open>
  \<open>we_gateway E n\<close> and \<open>we_polls E n\<close>: what the gateway's environment and the result stream answer
  for the n-th segment; \<open>we_db_up E n\<close>: whether its statements reach the database.
\<close>

record ws_env =
  we_loads :: "ustr \<Rightarrow> json option"
  we_str :: "json \<Rightarrow> ustr"
  we_hash :: "ustr \<Rightarrow> string"
  we_gateway :: "nat \<Rightarrow> genv"
  we_polls :: "nat \<Rightarrow> poll list"
  we_db_up :: "nat \<Rightarrow> bool"

definition fresh_config :: ws_config where
  "fresh_config = \<lparr>wc_voice_settings = None, wc_model_id = None, wc_audio_format = ''pcm16'', wc_seed = None,
     wc_previous_text = None, wc_next_text = None, wc_pronunciation_dict = None\<rparr>"

definition ws_start :: "gstate \<Rightarrow> ws_state" where
  "ws_start g = \<lparr>ws_gateway = g, ws_config_of = fresh_config, ws_buffer = [], ws_seq = 0, ws_segments = [], ws_frames = []\<rparr>"

definition send :: "ws_frame \<Rightarrow> unit wact" where
  "send f = modifyA (\<lambda>s. s\<lparr>ws_frames := ws_frames s @ [f]\<rparr>)"

definition send_error :: "string \<Rightarrow> unit wact" where
  "send_error code = send (Error_Frame code [])"

definition set_config :: "(ws_config \<Rightarrow> ws_config) \<Rightarrow> unit wact" where
  "set_config f = modifyA (\<lambda>s. s\<lparr>ws_config_of := f (ws_config_of s)\<rparr>)"

text \<open>A step of the gateway, with its outcome as a value.\<close>

definition on_gateway :: "'a gact \<Rightarrow> (http_error + 'a) wact" where
  "on_gateway m s = (case m (ws_gateway s) of (r, g) \<Rightarrow> (Inr r, s\<lparr>ws_gateway := g\<rparr>))"

subsection \<open>Configuration\<close>

text \<open>\<open>VoiceSettings(**value).model_dump(exclude_none=True)\<close>, without pydantic's coercions of text.\<close>

definition settings_fields :: "string list" where
  "settings_fields = [''stability'', ''similarity_boost'', ''style'', ''use_speaker_boost'', ''speed'', ''pitch'']"

definition settings_dump :: "json \<Rightarrow> dict option" where
  "settings_dump v =
     (case v of
        JObj d \<Rightarrow>
          (let kept = map (\<lambda>k. (k, the (map_of d k)))
                        (filter (\<lambda>k. map_of d k \<noteq> None \<and> map_of d k \<noteq> Some JNull) settings_fields)
           in if voice_settings_ok (Some kept) then Some kept else None)
      | _ \<Rightarrow> None)"

text \<open>\<open>resolve_model\<close> on a JSON value; a list or an object cannot be a key of \<open>_BY_ID\<close>.\<close>

definition resolve_json :: "json \<Rightarrow> (py_error + model_preset) option" where
  "resolve_json v =
     (if \<not> json_truthy v then Some (Inr default_model)
      else case v of
             JList _ \<Rightarrow> Some (Inl (TypeError ''unhashable type''))
           | JObj _ \<Rightarrow> Some (Inl (TypeError ''unhashable type''))
           | _ \<Rightarrow> map_option Inr (find (\<lambda>p. v = JStr (cps (mp_model_id p))) presets))"

definition ws_audio_format :: "json \<Rightarrow> py_error + string" where
  "ws_audio_format raw =
     (if raw = JNull \<or> raw = JStr [] then Inr ''pcm16''
      else case find (\<lambda>f. raw = JStr (cps f)) [''pcm16'', ''mp3'', ''opus'', ''wav''] of
             Some f \<Rightarrow> Inr f
           | None \<Rightarrow> Inl (ValueError ''unsupported audio_format for WS stream-input''))"

fun str_of :: "ws_env \<Rightarrow> json \<Rightarrow> ustr" where
  "str_of E (JStr s) = s"
| "str_of E v = we_str E v"

text \<open>
  \<open>_validate_pronunciation_dict\<close> on a JSON value: \<open>len\<close> and \<open>items\<close> raise what the caller does not
  catch when the value is no object.
\<close>

definition pron_json :: "json \<Rightarrow> py_error + (string \<times> ustr) list" where
  "pron_json v =
     (let too_long = (\<lambda>n. 64 < n);
          bad = Inl (ValueError ''pronunciation_dict'');
          no_items = Inl (AttributeError ''items'')
      in case v of
           JObj d \<Rightarrow>
             if list_all (\<lambda>(k, x). case x of JStr s \<Rightarrow> True | _ \<Rightarrow> False) d
                \<and> validate_pronunciation_dict (Some (map (\<lambda>(k, x). (k, text_of x)) d))
             then Inr (map (\<lambda>(k, x). (k, text_of x)) d) else bad
         | JStr s \<Rightarrow> if too_long (length s) then bad else no_items
         | JList xs \<Rightarrow> if too_long (length xs) then bad else no_items
         | _ \<Rightarrow> Inl (TypeError ''object has no len()''))"

text \<open>
  \<open>_apply_config\<close>: one field after the other, what came before a rejected field stays applied.
  The result is the error code.
\<close>

definition given :: "dict \<Rightarrow> string \<Rightarrow> json option" where
  "given msg k = (case map_of msg k of Some JNull \<Rightarrow> None | v \<Rightarrow> v)"

definition field_step :: "dict \<Rightarrow> string \<Rightarrow> (json \<Rightarrow> string option wact) \<Rightarrow> string option wact \<Rightarrow> string option wact" where
  "field_step msg k f rest =
     (case given msg k of
        None \<Rightarrow> rest
      | Some v \<Rightarrow> bindA (f v) (\<lambda>code. case code of None \<Rightarrow> rest | Some c \<Rightarrow> ret (Some c)))"

definition accept :: "(ws_config \<Rightarrow> ws_config) \<Rightarrow> string option wact" where
  "accept f = seqA (set_config f) (ret None)"

definition text_field :: "ws_env \<Rightarrow> string \<Rightarrow> (ustr \<Rightarrow> ws_config \<Rightarrow> ws_config) \<Rightarrow> json \<Rightarrow> string option wact" where
  "text_field E code f v =
     (if length (str_of E v) > 4000 then ret (Some code) else accept (f (str_of E v)))"

definition apply_config :: "ws_env \<Rightarrow> dict \<Rightarrow> string option wact" where
  "apply_config E msg =
     field_step msg ''voice_settings'' (\<lambda>v.
       case settings_dump v of
         None \<Rightarrow> ret (Some ''invalid_voice_settings'')
       | Some d \<Rightarrow> accept (\<lambda>c. c\<lparr>wc_voice_settings := Some d\<rparr>))
     (field_step msg ''model_id'' (\<lambda>v.
       case resolve_json v of
         None \<Rightarrow> ret (Some ''unknown_model_id'')
       | Some (Inl e) \<Rightarrow> throw (Raised e)
       | Some (Inr p) \<Rightarrow> accept (\<lambda>c. c\<lparr>wc_model_id := Some (mp_model_id p)\<rparr>))
     (field_step msg ''audio_format'' (\<lambda>v.
       case ws_audio_format v of
         Inl e \<Rightarrow> ret (Some ''unsupported_audio_format'')
       | Inr f \<Rightarrow> accept (\<lambda>c. c\<lparr>wc_audio_format := f\<rparr>))
     (field_step msg ''seed'' (\<lambda>v.
       case json_int v of
         Inl e \<Rightarrow> ret (Some ''invalid_seed'')
       | Inr n \<Rightarrow> if n < 0 \<or> n > 2147483647 then ret (Some ''invalid_seed'') else accept (\<lambda>c. c\<lparr>wc_seed := Some n\<rparr>))
     (field_step msg ''previous_text'' (text_field E ''previous_text_too_long'' (\<lambda>t c. c\<lparr>wc_previous_text := Some t\<rparr>))
     (field_step msg ''next_text'' (text_field E ''next_text_too_long'' (\<lambda>t c. c\<lparr>wc_next_text := Some t\<rparr>))
     (field_step msg ''pronunciation_dict'' (\<lambda>v.
       case pron_json v of
         Inl (ValueError m) \<Rightarrow> ret (Some ''invalid_pronunciation_dict'')
       | Inl e \<Rightarrow> throw (Raised e)
       | Inr d \<Rightarrow> accept (\<lambda>c. c\<lparr>wc_pronunciation_dict := Some d\<rparr>))
     (ret None)))))))"

subsection \<open>One segment\<close>

definition segment_job ::
  "genv \<Rightarrow> auth_context \<Rightarrow> string \<Rightarrow> ustr option \<Rightarrow> uuid \<Rightarrow> ustr \<Rightarrow> ws_config \<Rightarrow> tts_job" where
  "segment_job G cx slug app rid segment c =
     \<lparr>tj_request_id = uuid_str rid, tj_tenant_id = uuid_str (cx_tenant_id cx),
      tj_api_key_id = uuid_str (cx_api_key_id cx), tj_voice_id = slug, tj_text = segment,
      tj_language = ''tr'', tj_audio_format = wc_audio_format c, tj_model_id = wc_model_id c,
      tj_voice_settings = wc_voice_settings c, tj_params = None, tj_seed = wc_seed c,
      tj_previous_text = wc_previous_text c, tj_next_text = wc_next_text c,
      tj_pronunciation_dict = wc_pronunciation_dict c, tj_app_label = app,
      tj_callback_url = None, tj_enqueued_at_ms = Some (ge_now G)\<rparr>"

text \<open>Forwarding the chunks; the result says whether an error chunk ended it.\<close>

fun forward :: "tts_result list \<Rightarrow> bool wact" where
  "forward [] = ret False"
| "forward (c # cs) =
     (if is_error c then seqA (send (Error_Frame ''worker_error'' (the (tr_error c)))) (ret True)
      else if tr_final c then forward cs
      else
        (let caption = (case tr_sentence_text c of None \<Rightarrow> [] | Some t \<Rightarrow> t) in
         bindA (getsA (\<lambda>s. (ws_seq s, wc_audio_format (ws_config_of s)))) (\<lambda>(q, fmt).
         seqA (send (Audio_Frame (tr_pcm_bytes c) caption q fmt))
         (seqA (send (Sentence_End q caption))
         (seqA (modifyA (\<lambda>s. s\<lparr>ws_seq := Suc q\<rparr>))
         (forward cs))))))"

definition relay :: "poll list \<Rightarrow> ustr \<Rightarrow> unit wact" where
  "relay polls segment =
     (case consume_result_stream polls of (cs, e) \<Rightarrow>
        bindA (forward cs) (\<lambda>failed.
        if failed then ret ()
        else case e of
               Finished \<Rightarrow> set_config (\<lambda>c. c\<lparr>wc_previous_text := Some segment\<rparr>)
             | Timed_Out \<Rightarrow> send_error ''timeout''
             | Decode_Error err \<Rightarrow> throw (Raised err)
             | Still_Reading \<Rightarrow> throw Waiting))"

text \<open>The backpressure refusal: its audit row is attempted, a failure of that write is swallowed.\<close>

definition audit_refusal :: "genv \<Rightarrow> auth_context \<Rightarrow> bool \<Rightarrow> string option \<Rightarrow> dict \<Rightarrow> unit wact" where
  "audit_refusal G cx db_up why payload =
     (if db_up
      then bindA (on_gateway (seqA (audit (audit_row_for G cx ''tts.backpressure'' ''denied'' None None
                    (payload @ [(''reason'', j_opt (\<lambda>r. JStr (cps r)) why), (''surface'', JStr (cps ''ws''))]))) commit))
                 (\<lambda>_. ret ())
      else ret ())"

definition reserve_segment :: "genv \<Rightarrow> auth_context \<Rightarrow> uuid \<Rightarrow> string \<Rightarrow> job_row gact" where
  "reserve_segment G cx rid rhash =
     bindA (in_db (\<lambda>d. bindS (idem_reserve (cx_tenant_id cx) (ge_now G) rid (cx_api_key_id cx) rhash None (gd_jobs d))
                          (\<lambda>(row, t). Inr (row, d\<lparr>gd_jobs := t\<rparr>)))) (\<lambda>row.
     seqA commit (ret row))"

definition enqueue_segment ::
  "ws_env \<Rightarrow> genv \<Rightarrow> auth_context \<Rightarrow> string \<Rightarrow> ustr option \<Rightarrow> nat \<Rightarrow> ustr \<Rightarrow> unit wact" where
  "enqueue_segment E G cx slug app n segment =
     (let rid = ge_uuid G 0 in
      bindA (if we_db_up E n then on_gateway (reserve_segment G cx rid (we_hash E segment))
             else ret (Inl (Crash (RuntimeError ''database'')))) (\<lambda>reserved.
      case reserved of
        Inl e \<Rightarrow> send_error ''internal''
      | Inr row \<Rightarrow>
          bindA (getsA ws_config_of) (\<lambda>c.
          bindA (on_gateway (submit G (segment_job G cx slug app rid segment c))) (\<lambda>queued.
          case queued of
            Inl e \<Rightarrow> send_error ''queue_unavailable''
          | Inr _ \<Rightarrow> relay (we_polls E n) segment))))"

definition flush_segment :: "ws_env \<Rightarrow> auth_context \<Rightarrow> string \<Rightarrow> ustr option \<Rightarrow> ustr \<Rightarrow> unit wact" where
  "flush_segment E cx slug app segment =
     bindA (getsA (\<lambda>s. length (ws_segments s))) (\<lambda>n.
     seqA (modifyA (\<lambda>s. s\<lparr>ws_segments := ws_segments s @ [segment]\<rparr>))
     (let G = we_gateway E n in
      if int (length segment) > ge_max_chars G then send_error ''segment_too_long''
      else case ge_depth G of
             None \<Rightarrow> throw (Raised (RuntimeError ''redis''))
           | Some depth \<Rightarrow>
               (case compute_backpressure_decision (ge_depth_limit G) depth (ge_cluster G) of
                  (True, _, _) \<Rightarrow> enqueue_segment E G cx slug app n segment
                | (False, why, payload) \<Rightarrow>
                    seqA (audit_refusal G cx (we_db_up E n) why payload) (send_error ''queue_saturated''))))"

subsection \<open>The inbound loop\<close>

datatype ws_input = Quiet | Left | Frame ustr

text \<open>Step 3: the text of a message; the result says whether the loop goes on to the flush logic.\<close>

definition append_text :: "dict \<Rightarrow> bool wact" where
  "append_text msg =
     (case map_of msg ''text'' of
        Some (JStr t) \<Rightarrow>
          bindA (getsA ws_buffer) (\<lambda>b.
          if length b + length t > accumulated_limit
          then seqA (send_error ''buffer_overflow'') (seqA (modifyA (\<lambda>s. s\<lparr>ws_buffer := []\<rparr>)) (ret False))
          else seqA (modifyA (\<lambda>s. s\<lparr>ws_buffer := b @ t\<rparr>)) (ret True))
      | _ \<Rightarrow> ret True)"

definition wants_flush :: "dict \<Rightarrow> bool" where
  "wants_flush msg = (case map_of msg ''flush'' of None \<Rightarrow> False | Some v \<Rightarrow> json_truthy v)"

definition flush_step :: "ws_env \<Rightarrow> auth_context \<Rightarrow> string \<Rightarrow> ustr option \<Rightarrow> bool \<Rightarrow> unit wact" where
  "flush_step E cx slug app force =
     bindA (getsA ws_buffer) (\<lambda>b.
     case next_segment force b of (segment, remainder) \<Rightarrow>
       seqA (modifyA (\<lambda>s. s\<lparr>ws_buffer := remainder\<rparr>))
       (if segment = [] then ret () else flush_segment E cx slug app segment))"

text \<open>One message; the result says whether the client asked to close.\<close>

definition ws_message :: "ws_env \<Rightarrow> auth_context \<Rightarrow> string \<Rightarrow> ustr option \<Rightarrow> ustr \<Rightarrow> bool wact" where
  "ws_message E cx slug app raw =
     (case we_loads E raw of
        None \<Rightarrow> seqA (send_error ''invalid_json'') (ret False)
      | Some (JObj msg) \<Rightarrow>
          bindA (apply_config E msg) (\<lambda>code.
          case code of
            Some c \<Rightarrow> seqA (send_error c) (ret False)
          | None \<Rightarrow>
              if map_of msg ''close'' = Some (JBool True) then ret True
              else bindA (append_text msg) (\<lambda>go_on.
                   if go_on then seqA (flush_step E cx slug app (wants_flush msg)) (ret False)
                   else ret False))
      | Some _ \<Rightarrow> seqA (send_error ''invalid_message'') (ret False))"

fun ws_loop :: "ws_env \<Rightarrow> auth_context \<Rightarrow> string \<Rightarrow> ustr option \<Rightarrow> ws_input list \<Rightarrow> unit wact" where
  "ws_loop E cx slug app [] = throw Waiting"
| "ws_loop E cx slug app (Quiet # ms) = send_error ''idle_timeout''"
| "ws_loop E cx slug app (Left # ms) = throw Disconnected"
| "ws_loop E cx slug app (Frame raw # ms) =
     bindA (ws_message E cx slug app raw) (\<lambda>closing. if closing then ret () else ws_loop E cx slug app ms)"

text \<open>The text still buffered when the loop ends is one last segment.\<close>

definition drain :: "ws_env \<Rightarrow> auth_context \<Rightarrow> string \<Rightarrow> ustr option \<Rightarrow> unit wact" where
  "drain E cx slug app =
     bindA (getsA (\<lambda>s. strip_spaces (ws_buffer s))) (\<lambda>tail.
     if tail = [] then ret ()
     else seqA (flush_segment E cx slug app tail) (modifyA (\<lambda>s. s\<lparr>ws_buffer := []\<rparr>)))"

text \<open>
  A disconnect is logged, every other exception escapes; the socket and the session are closed
  in both cases.
\<close>

definition ws_session :: "ws_env \<Rightarrow> auth_context \<Rightarrow> string \<Rightarrow> ustr option \<Rightarrow> ws_input list \<Rightarrow> unit wact" where
  "ws_session E cx slug app ms s =
     (case seqA (ws_loop E cx slug app ms) (seqA (drain E cx slug app) (send Done_Frame)) s of
        (Inl Waiting, s') \<Rightarrow> (Inl Waiting, s')
      | (r, s') \<Rightarrow>
          (case r of Inl (Raised e) \<Rightarrow> Inl (Raised e) | _ \<Rightarrow> Inr (),
           s'\<lparr>ws_frames := ws_frames s' @ [Close_Frame 1000 []],
              ws_gateway := (ws_gateway s')\<lparr>gs_db := gs_saved (ws_gateway s')\<rparr>\<rparr>))"

subsection \<open>The handshake\<close>

definition ws_credential :: "ustr option \<Rightarrow> ustr option \<Rightarrow> ustr option" where
  "ws_credential api_key header =
     (let has = (\<lambda>x. x \<noteq> None \<and> x \<noteq> Some [])
      in if has api_key \<and> \<not> has header then Some (cps ''Bearer '' @ the api_key)
         else if has header then header else None)"

definition refusal_reason :: "auth_error \<Rightarrow> int \<times> string" where
  "refusal_reason e =
     (case e of
        Escapes _ \<Rightarrow> (1011, ''internal'')
      | Http code _ _ \<Rightarrow>
          (1008, if code = 403 then ''forbidden'' else if code = 429 then ''rate limited'' else ''auth failed''))"

definition voice_refusal :: "auth_context \<Rightarrow> string \<Rightarrow> gdb \<Rightarrow> string + voice" where
  "voice_refusal cx slug d =
     (case get_accessible (cx_tenant_id cx) slug (gd_access d) (gd_voices d) of
        None \<Rightarrow> Inl ''voice not found''
      | Some v \<Rightarrow>
          if v_deleted_at v \<noteq> None then Inl ''voice not found''
          else if lifecycle_state v \<noteq> ''active'' then Inl (''voice '' @ lifecycle_state v)
          else if latest_active (v_id v) (gd_consents d) = None then Inl ''voice no active consent''
          else Inr v)"

text \<open>\<open>auth\<close> is the outcome of \<open>authenticate_bearer\<close> for the Authorization value it is given.\<close>

definition stream_input_endpoint ::
  "ws_env \<Rightarrow> (ustr \<Rightarrow> auth_error + tenant_row \<times> api_key_row) \<Rightarrow> ustr option \<Rightarrow> ustr option \<Rightarrow> ustr option \<Rightarrow> string
   \<Rightarrow> ws_input list \<Rightarrow> gstate \<Rightarrow> (ws_stop + unit) \<times> ws_state" where
  "stream_input_endpoint E auth api_key header app slug ms g =
     (let refuse = (\<lambda>(code, reason). (Inr (), (ws_start g)\<lparr>ws_frames := [Close_Frame code reason]\<rparr>))
      in case ws_credential api_key header of
           None \<Rightarrow> refuse (1008, ''missing api key'')
         | Some h \<Rightarrow>
             (case auth h of
                Inl e \<Rightarrow> refuse (refusal_reason e)
              | Inr tk \<Rightarrow>
                  (case voice_refusal (context_of tk) slug (gs_db g) of
                     Inl reason \<Rightarrow> refuse (1008, reason)
                   | Inr v \<Rightarrow> ws_session E (context_of tk) (v_voice_id v) app ms (ws_start g))))"

end
