(* ===== verification/Stream_Facts.thy ===== *)
theory Stream_Facts
  imports Stream_Input Py_Text
begin

text \<open>
  What a WebSocket client can rely on: every letter it sent is handed to synthesis once and in
  order, the captions count up without a gap, a segment's audio is what the worker archived;
  and the text it loses when it leaves too much of it for the end.
\<close>

subsection \<open>Text\<close>

lemma split_ink: "split_at_last_boundary buf = (seg, rem) \<Longrightarrow> ink seg @ ink rem = ink buf"
  by (auto simp: split_at_last_boundary_def ink_cut split: list.splits)

lemma next_segment_ink: "next_segment force buf = (seg, rem) \<Longrightarrow> ink seg @ ink rem = ink buf"
  by (auto simp: next_segment_def ink_cut dest: split_ink split: prod.splits if_splits)

lemma next_segment_shrinks: "next_segment force buf = (seg, rem) \<Longrightarrow> length rem \<le> length buf"
  by (auto simp: next_segment_def split_at_last_boundary_def intro: order_trans [OF length_dropWhile_le]
      split: prod.splits if_splits list.splits)

subsection \<open>Steps that leave the text alone\<close>

definition same_text :: "ws_state \<Rightarrow> ws_state \<Rightarrow> bool" where
  "same_text s s' \<longleftrightarrow> ws_buffer s' = ws_buffer s \<and> ws_segments s' = ws_segments s"

named_theorems text_rules

lemma same_text_order: "reflp same_text" "transp same_text"
  by (auto simp: same_text_def reflp_def transp_def)

lemmas [text_rules] = keeps_basic [OF same_text_order(1)] keeps_bind [OF same_text_order(2)] keeps_seq [OF same_text_order(2)]

lemma text_send [text_rules]: "keeps same_text (send f)" "keeps same_text (send_error c)"
  by (simp_all add: keeps_def send_def send_error_def modifyA_def same_text_def)

lemma text_config [text_rules]: "keeps same_text (set_config f)"
  by (simp add: keeps_def set_config_def modifyA_def same_text_def)

lemma text_gateway [text_rules]: "keeps same_text (on_gateway m)"
  by (simp add: keeps_def on_gateway_def same_text_def split: prod.split)

lemma text_seq [text_rules]: "keeps same_text (modifyA (\<lambda>s. s\<lparr>ws_seq := q\<rparr>))"
  by (simp add: keeps_def modifyA_def same_text_def)

lemma text_forward [text_rules]: "keeps same_text (forward cs)"
  by (induction cs) (auto simp: Let_def intro!: text_rules)

lemma text_relay [text_rules]: "keeps same_text (relay polls segment)"
  unfolding relay_def by (auto intro!: text_rules split: prod.split read_end.split)

lemma text_enqueue [text_rules]: "keeps same_text (enqueue_segment E G cx slug app n segment)"
  unfolding enqueue_segment_def Let_def by (auto intro!: text_rules split: sum.split)

lemma text_refusal [text_rules]: "keeps same_text (audit_refusal G cx up why payload)"
  unfolding audit_refusal_def by (auto intro!: text_rules)

lemma keepsD: "keeps R m \<Longrightarrow> m s = (r, s') \<Longrightarrow> R s s'"
  by (metis keeps_def snd_conv)

lemma flush_segment_text:
  assumes "flush_segment E cx slug app segment s = (r, s')"
  shows "ws_buffer s' = ws_buffer s \<and> ws_segments s' = ws_segments s @ [segment]"
proof -
  let ?s = "s\<lparr>ws_segments := ws_segments s @ [segment]\<rparr>" and ?n = "length (ws_segments s)"
  let ?G = "we_gateway E ?n"
  let ?m = "if int (length segment) > ge_max_chars ?G then send_error ''segment_too_long''
      else case ge_depth ?G of
             None \<Rightarrow> throw (Raised (RuntimeError ''redis''))
           | Some depth \<Rightarrow>
               (case compute_backpressure_decision (ge_depth_limit ?G) depth (ge_cluster ?G) of
                  (True, _, _) \<Rightarrow> enqueue_segment E ?G cx slug app ?n segment
                | (False, why, payload) \<Rightarrow>
                    seqA (audit_refusal ?G cx (we_db_up E ?n) why payload) (send_error ''queue_saturated''))"
  have "keeps same_text ?m" by (auto intro!: text_rules split: option.split prod.split bool.split)
  moreover have "?m ?s = (r, s')"
    using assms by (simp add: flush_segment_def bindA_def seqA_def getsA_def modifyA_def Let_def)
  ultimately have "same_text ?s s'" by (rule keepsD)
  then show ?thesis by (simp add: same_text_def)
qed

subsection \<open>The outcome of a configuration does not depend on the state\<close>

definition blind :: "'a wact \<Rightarrow> bool" where
  "blind m \<longleftrightarrow> (\<forall>s t. fst (m s) = fst (m t))"

named_theorems blind_rules

lemma blind_basic [blind_rules]: "blind (ret x)" "blind (throw e)"
  by (simp_all add: blind_def ret_def throw_def)

lemma blind_bind [blind_rules]:
  assumes "blind m" "\<And>x. blind (f x)"
  shows "blind (bindA m f)"
  unfolding blind_def
proof (intro allI)
  fix s t
  obtain r s1 t1 where "m s = (r, s1)" "m t = (r, t1)"
    using assms(1) unfolding blind_def by (metis prod.collapse)
  then show "fst (bindA m f s) = fst (bindA m f t)"
    using assms(2) by (cases r) (simp_all add: bindA_def blind_def)
qed

lemma blind_accept [blind_rules]: "blind (accept f)"
  by (simp add: blind_def accept_def set_config_def act_eval)

lemma blind_field [blind_rules]: "(\<And>v. blind (f v)) \<Longrightarrow> blind rest \<Longrightarrow> blind (field_step msg k f rest)"
  unfolding field_step_def by (auto intro!: blind_rules split: option.split)

lemma blind_text [blind_rules]: "blind (text_field E code f v)"
  unfolding text_field_def by (simp add: blind_rules)

lemma blind_config: "blind (apply_config E msg)"
  unfolding apply_config_def by (intro blind_rules) (auto intro!: blind_rules split: option.split sum.split py_error.split)

lemma text_accept [text_rules]: "keeps same_text (accept f)"
  unfolding accept_def by (intro text_rules)

lemma text_field_rule [text_rules]:
  "(\<And>v. keeps same_text (f v)) \<Longrightarrow> keeps same_text rest \<Longrightarrow> keeps same_text (field_step msg k f rest)"
  unfolding field_step_def by (auto intro!: text_rules split: option.split)

lemma text_text_field [text_rules]: "keeps same_text (text_field E code f v)"
  unfolding text_field_def by (simp add: text_rules)

lemma text_apply_config: "keeps same_text (apply_config E msg)"
  unfolding apply_config_def by (intro text_rules) (auto intro!: text_rules split: option.split sum.split py_error.split)

subsection \<open>Every letter once\<close>

text \<open>The text a message contributes, and what a client has said before its session ended.\<close>

definition config_accepted :: "ws_env \<Rightarrow> dict \<Rightarrow> bool" where
  "config_accepted E msg \<longleftrightarrow> fst (apply_config E msg (ws_start \<lparr>gs_db = \<lparr>gd_voices = [], gd_access = [], gd_consents = [],
     gd_contracts = [], gd_deletions = [], gd_jobs = [], gd_usages = [], gd_log = []\<rparr>,
     gs_saved = \<lparr>gd_voices = [], gd_access = [], gd_consents = [], gd_contracts = [], gd_deletions = [], gd_jobs = [],
       gd_usages = [], gd_log = []\<rparr>, gs_queue = [], gs_files = Map.empty\<rparr>)) = Inr None"

definition asks_close :: "dict \<Rightarrow> bool" where
  "asks_close msg \<longleftrightarrow> map_of msg ''close'' = Some (JBool True)"

definition text_in :: "dict \<Rightarrow> ustr" where
  "text_in msg = (case map_of msg ''text'' of Some (JStr t) \<Rightarrow> t | _ \<Rightarrow> [])"

fun said :: "ws_env \<Rightarrow> ws_input list \<Rightarrow> ustr" where
  "said E (Frame raw # ms) =
     (case we_loads E raw of
        Some (JObj msg) \<Rightarrow>
          if \<not> config_accepted E msg then said E ms
          else if asks_close msg then [] else text_in msg @ said E ms
      | _ \<Rightarrow> said E ms)"
| "said E _ = []"

definition letters :: "ws_state \<Rightarrow> ustr" where
  "letters s = concat (map ink (ws_segments s)) @ ink (ws_buffer s)"

lemma same_text_letters: "same_text s s' \<Longrightarrow> letters s' = letters s \<and> ws_buffer s' = ws_buffer s"
  by (simp add: same_text_def letters_def)

lemma flush_step_letters:
  assumes "flush_step E cx slug app force s = (r, s')"
  shows "letters s' = letters s \<and> length (ws_buffer s') \<le> length (ws_buffer s)"
proof -
  obtain seg rem where n: "next_segment force (ws_buffer s) = (seg, rem)" by fastforce
  note facts = next_segment_ink [OF n] next_segment_shrinks [OF n]
  show ?thesis
  proof (cases "seg = []")
    case True
    then have "s' = s\<lparr>ws_buffer := rem\<rparr>" using assms n by (simp add: flush_step_def act_eval)
    then show ?thesis using facts True by (simp add: letters_def)
  next
    case False
    then have "flush_segment E cx slug app seg (s\<lparr>ws_buffer := rem\<rparr>) = (r, s')"
      using assms n by (simp add: flush_step_def act_eval)
    from flush_segment_text [OF this] show ?thesis using facts by (simp add: letters_def)
  qed
qed

lemma append_text_letters:
  assumes "append_text msg s = (r, s')" and "length (ws_buffer s) + length (text_in msg) \<le> accumulated_limit"
  shows "r = Inr True \<and> letters s' = letters s @ ink (text_in msg)
     \<and> ws_buffer s' = ws_buffer s @ text_in msg"
  using assms by (auto simp: append_text_def text_in_def letters_def act_eval split: option.splits json.splits if_splits)

lemma ws_message_letters:
  assumes "ws_message E cx slug app raw s = (Inr closing, s')"
    and "length (ws_buffer s) + length (said E (Frame raw # ms)) \<le> accumulated_limit"
  shows "\<exists>t. letters s' = letters s @ ink t \<and> length (ws_buffer s') \<le> length (ws_buffer s) + length t
     \<and> said E (Frame raw # ms) = t @ (if closing then [] else said E ms)"
proof (cases "\<exists>msg. we_loads E raw = Some (JObj msg)")
  case False
  then have "same_text s s' \<and> \<not> closing"
    using assms(1) by (auto simp: ws_message_def same_text_def act_eval send_error_def send_def split: option.splits json.splits)
  then show ?thesis using False same_text_letters
    by (intro exI [of _ "[]"]) (auto split: option.splits json.splits)
next
  case True
  then obtain msg where load: "we_loads E raw = Some (JObj msg)" by blast
  obtain v s1 where c: "apply_config E msg s = (v, s1)" by fastforce
  have keep: "letters s1 = letters s" "ws_buffer s1 = ws_buffer s"
    using same_text_letters keepsD [OF text_apply_config c] by blast+
  have verdict: "config_accepted E msg \<longleftrightarrow> v = Inr None"
    using blind_config [of E msg] c unfolding config_accepted_def blind_def by (metis fst_conv)
  show ?thesis
  proof (cases "v = Inr None")
    case rejected: False
    then obtain code where "v = Inr (Some code)" using assms(1) load c
      by (cases v) (auto simp: ws_message_def act_eval)
    then have "letters s' = letters s1" "ws_buffer s' = ws_buffer s1" "\<not> closing"
      using assms(1) load c by (auto simp: ws_message_def act_eval send_error_def send_def letters_def)
    then show ?thesis using keep load verdict rejected by (intro exI [of _ "[]"]) auto
  next
    case ok: True
    show ?thesis
    proof (cases "asks_close msg")
      case True
      then have "s' = s1" "closing" using assms(1) load c ok by (auto simp: ws_message_def act_eval asks_close_def)
      then show ?thesis using keep load verdict ok True by (intro exI [of _ "[]"]) auto
    next
      case False
      let ?t = "text_in msg"
      have room: "length (ws_buffer s1) + length ?t \<le> accumulated_limit"
        using assms(2) load verdict ok False keep by simp
      obtain r s2 where a: "append_text msg s1 = (r, s2)" by fastforce
      note app = append_text_letters [OF a room]
      obtain q s3 where f: "flush_step E cx slug app (wants_flush msg) s2 = (q, s3)" by fastforce
      then have "s' = s3" "\<not> closing"
        using assms(1) load c ok False a app by (auto simp: ws_message_def act_eval asks_close_def split: sum.splits)
      then show ?thesis
        using flush_step_letters [OF f] app keep load verdict ok False by (intro exI [of _ ?t]) auto
    qed
  qed
qed

text \<open>Only the client's disconnect is one.\<close>

definition stays :: "'a wact \<Rightarrow> bool" where
  "stays m \<longleftrightarrow> (\<forall>s. fst (m s) \<noteq> Inl Disconnected)"

named_theorems stay_rules

lemma stays_basic [stay_rules]: "stays (ret x)" "stays (throw (Raised e))" "stays (throw Waiting)" "stays (getsA f)"
    "stays (modifyA g)" "stays (send h)" "stays (send_error c)" "stays (set_config k)" "stays (on_gateway m)"
  by (simp_all add: stays_def act_eval send_def send_error_def set_config_def on_gateway_def split: prod.split)

lemma stays_bind [stay_rules]: "stays m \<Longrightarrow> (\<And>x. stays (f x)) \<Longrightarrow> stays (bindA m f)"
  by (auto simp: stays_def bindA_def split: prod.split sum.split) (metis fst_conv)

lemma stays_seq [stay_rules]: "stays m \<Longrightarrow> stays n \<Longrightarrow> stays (seqA m n)"
  unfolding seqA_def by (rule stays_bind)

lemma stays_field [stay_rules]: "(\<And>v. stays (f v)) \<Longrightarrow> stays rest \<Longrightarrow> stays (field_step msg k f rest)"
  unfolding field_step_def by (auto intro!: stay_rules split: option.split)

lemma stays_parts [stay_rules]: "stays (accept f)" "stays (text_field E code g v)"
  unfolding accept_def text_field_def by (auto intro!: stay_rules simp: accept_def)

lemma stays_config [stay_rules]: "stays (apply_config E msg)"
  unfolding apply_config_def by (intro stay_rules) (auto intro!: stay_rules split: option.split sum.split py_error.split)

lemma stays_forward [stay_rules]: "stays (forward cs)"
  by (induction cs) (auto simp: Let_def intro!: stay_rules)

lemma stays_relay [stay_rules]: "stays (relay polls segment)"
  unfolding relay_def by (auto intro!: stay_rules split: prod.split read_end.split)

lemma stays_flush [stay_rules]: "stays (flush_segment E cx slug app segment)"
  unfolding flush_segment_def enqueue_segment_def audit_refusal_def Let_def
  by (intro stay_rules) (auto intro!: stay_rules split: option.split prod.split bool.split sum.split)

lemma stays_append [stay_rules]: "stays (append_text msg)"
  unfolding append_text_def by (auto intro!: stay_rules split: option.split json.split)

lemma stays_step [stay_rules]: "stays (flush_step E cx slug app force)"
  unfolding flush_step_def by (auto intro!: stay_rules split: prod.split)

lemma stays_message: "stays (ws_message E cx slug app raw)"
  unfolding ws_message_def by (auto intro!: stay_rules split: option.split json.split)

lemma ws_loop_letters:
  assumes "ws_loop E cx slug app ms s = (r, s')" and "r = Inr () \<or> r = Inl Disconnected"
    and "length (ws_buffer s) + length (said E ms) \<le> accumulated_limit"
  shows "letters s' = letters s @ ink (said E ms) \<and> (r = Inl Disconnected \<longrightarrow> Left \<in> set ms)"
  using assms
proof (induction ms arbitrary: s)
  case Nil
  then show ?case by (auto simp: throw_def)
next
  case (Cons i ms)
  show ?case
  proof (cases i)
    case Quiet
    then show ?thesis using Cons.prems by (auto simp: send_error_def send_def modifyA_def letters_def)
  next
    case Left
    then show ?thesis using Cons.prems by (auto simp: throw_def)
  next
    case (Frame raw)
    obtain v s1 where m: "ws_message E cx slug app raw s = (v, s1)" by fastforce
    have msg_end: "v = Inl e \<Longrightarrow> r = Inl e" for e using Cons.prems(1) m Frame by (simp add: bindA_def)
    show ?thesis
    proof (cases v)
      case (Inl e)
      then have "e = Disconnected" using msg_end Cons.prems(2) by auto
      then show ?thesis using m Inl stays_message [of E cx slug app raw] unfolding stays_def by (metis fst_conv)
    next
      case (Inr closing)
      obtain t where t: "letters s1 = letters s @ ink t" "length (ws_buffer s1) \<le> length (ws_buffer s) + length t"
        "said E (Frame raw # ms) = t @ (if closing then [] else said E ms)"
        using ws_message_letters [OF m [unfolded Inr]] Cons.prems(3) Frame by blast
      show ?thesis
      proof (cases closing)
        case True
        then have "r = Inr ()" "s' = s1" using Cons.prems(1) m Inr Frame by (auto simp: bindA_def ret_def)
        then show ?thesis using t True Frame by simp
      next
        case False
        then have loop: "ws_loop E cx slug app ms s1 = (r, s')" using Cons.prems(1) m Inr Frame by (simp add: bindA_def)
        have "length (ws_buffer s1) + length (said E ms) \<le> accumulated_limit"
          using Cons.prems(3) Frame t False by simp
        from Cons.IH [OF loop Cons.prems(2) this] show ?thesis using t False Frame by auto
      qed
    qed
  qed
qed

lemma drain_letters:
  assumes "drain E cx slug app s = (Inr (), s')"
  shows "letters s' = letters s \<and> ink (ws_buffer s') = []"
proof (cases "strip_spaces (ws_buffer s) = []")
  case True
  then have "s' = s" using assms by (simp add: drain_def act_eval)
  moreover have "ink (ws_buffer s) = []" using True ink_strip [of "ws_buffer s"] by simp
  ultimately show ?thesis by simp
next
  case False
  then obtain s1 where f: "flush_segment E cx slug app (strip_spaces (ws_buffer s)) s = (Inr (), s1)"
    and s': "s' = s1\<lparr>ws_buffer := []\<rparr>"
    using assms by (auto simp: drain_def act_eval split: prod.splits sum.splits)
  show ?thesis using flush_segment_text [OF f] by (simp add: s' letters_def)
qed


subsection \<open>Captions\<close>

text \<open>
  Frames whose audio is numbered from \<open>n\<close> on, each audio frame followed at once by the
  sentence end with its number and caption.
\<close>

fun captioned :: "nat \<Rightarrow> ws_frame list \<Rightarrow> bool" where
  "captioned n [] = True"
| "captioned n (Audio_Frame pcm t q f # Sentence_End q' t' # fs) = (q = n \<and> q' = n \<and> t' = t \<and> captioned (Suc n) fs)"
| "captioned n (Audio_Frame pcm t q f # fs) = False"
| "captioned n (Sentence_End q t # fs) = False"
| "captioned n (_ # fs) = captioned n fs"

fun is_audio :: "ws_frame \<Rightarrow> bool" where
  "is_audio (Audio_Frame pcm t q f) = True"
| "is_audio _ = False"

definition audio_count :: "ws_frame list \<Rightarrow> nat" where
  "audio_count fs = length (filter is_audio fs)"

lemma captioned_append: "captioned n fs \<Longrightarrow> captioned n (fs @ gs) = captioned (n + audio_count fs) gs"
  by (induction n fs rule: captioned.induct) (auto simp: audio_count_def)

definition in_order :: "ws_state \<Rightarrow> bool" where
  "in_order s \<longleftrightarrow> captioned 0 (ws_frames s) \<and> audio_count (ws_frames s) = ws_seq s"

definition order_kept :: "ws_state \<Rightarrow> ws_state \<Rightarrow> bool" where
  "order_kept s s' \<longleftrightarrow> (in_order s \<longrightarrow> in_order s')"

named_theorems order_rules

lemma order_kept_order: "reflp order_kept" "transp order_kept"
  by (auto simp: order_kept_def reflp_def transp_def)

lemmas [order_rules] = keeps_basic [OF order_kept_order(1)] keeps_bind [OF order_kept_order(2)] keeps_seq [OF order_kept_order(2)]

lemma order_error [order_rules]: "keeps order_kept (send (Error_Frame c d))" "keeps order_kept (send_error c)"
    "keeps order_kept (send Done_Frame)"
  by (auto simp: keeps_def send_error_def send_def modifyA_def order_kept_def in_order_def captioned_append audio_count_def)

lemma order_other [order_rules]: "keeps order_kept (set_config f)" "keeps order_kept (on_gateway m)"
    "keeps order_kept (modifyA (\<lambda>s. s\<lparr>ws_buffer := b\<rparr>))" "keeps order_kept (modifyA (\<lambda>s. s\<lparr>ws_segments := h s\<rparr>))"
  by (auto simp: keeps_def set_config_def on_gateway_def modifyA_def order_kept_def in_order_def split: prod.split)

lemma order_forward [order_rules]: "keeps order_kept (forward cs)"
proof (induction cs)
  case Nil
  show ?case by (simp add: order_rules)
next
  case (Cons c cs)
  let ?t = "case tr_sentence_text c of None \<Rightarrow> [] | Some t \<Rightarrow> t"
  have step: "order_kept s (snd (forward (c # cs) s))" if "\<not> is_error c" "\<not> tr_final c" for s
  proof -
    let ?s = "s\<lparr>ws_frames := ws_frames s @ [Audio_Frame (tr_pcm_bytes c) ?t (ws_seq s) (wc_audio_format (ws_config_of s)),
                  Sentence_End (ws_seq s) ?t], ws_seq := Suc (ws_seq s)\<rparr>"
    have "forward (c # cs) s = forward cs ?s" using that by (simp add: act_eval send_def Let_def)
    moreover have "order_kept s ?s" by (auto simp: order_kept_def in_order_def captioned_append audio_count_def)
    moreover have "order_kept ?s (snd (forward cs ?s))" using Cons.IH by (simp add: keeps_def)
    ultimately show ?thesis by (simp add: order_kept_def)
  qed
  show ?case
  proof (cases "is_error c \<or> tr_final c")
    case True
    then show ?thesis using Cons.IH by (auto intro!: order_rules)
  next
    case False
    then show ?thesis using step by (simp add: keeps_def)
  qed
qed

lemma order_relay [order_rules]: "keeps order_kept (relay polls segment)"
  unfolding relay_def by (auto intro!: order_rules split: prod.split read_end.split)

lemma order_flush [order_rules]: "keeps order_kept (flush_segment E cx slug app segment)"
  unfolding flush_segment_def enqueue_segment_def audit_refusal_def Let_def
  by (intro order_rules) (auto intro!: order_rules split: option.split prod.split bool.split sum.split)

lemma order_field [order_rules]:
  "(\<And>v. keeps order_kept (f v)) \<Longrightarrow> keeps order_kept rest \<Longrightarrow> keeps order_kept (field_step msg k f rest)"
  unfolding field_step_def by (auto intro!: order_rules split: option.split)

lemma order_parts [order_rules]: "keeps order_kept (accept f)" "keeps order_kept (text_field E code g v)"
  unfolding accept_def text_field_def by (auto intro!: order_rules simp: accept_def)

lemma order_config [order_rules]: "keeps order_kept (apply_config E msg)"
  unfolding apply_config_def by (intro order_rules) (auto intro!: order_rules split: option.split sum.split py_error.split)

lemma order_message [order_rules]: "keeps order_kept (ws_message E cx slug app raw)"
  unfolding ws_message_def append_text_def flush_step_def
  by (auto intro!: order_rules split: option.split json.split prod.split)

lemma order_loop [order_rules]: "keeps order_kept (ws_loop E cx slug app ms)"
  by (induction E cx slug app ms rule: ws_loop.induct) (auto intro!: order_rules)

lemma order_drain [order_rules]: "keeps order_kept (drain E cx slug app)"
  unfolding drain_def by (auto intro!: order_rules)

text \<open>
  Captions count up. However a session goes, over all its segments, worker errors and
  timeouts included, its audio frames carry the numbers 0, 1, 2 and so on without a gap, and each
  is followed at once by the sentence end with its number and caption.
\<close>

theorem ws_captions_in_order:
  "case ws_session E cx slug app ms (ws_start g) of (r, s') \<Rightarrow>
     captioned 0 (ws_frames s') \<and> audio_count (ws_frames s') = ws_seq s'"
proof -
  let ?m = "seqA (ws_loop E cx slug app ms) (seqA (drain E cx slug app) (send Done_Frame))"
  obtain r s1 where m: "?m (ws_start g) = (r, s1)" by fastforce
  have "keeps order_kept ?m" by (intro order_rules)
  then have "order_kept (ws_start g) s1" using keepsD m by metis
  moreover have "in_order (ws_start g)" by (simp add: in_order_def ws_start_def audio_count_def)
  ultimately have "in_order s1" by (simp add: order_kept_def)
  then show ?thesis
    using m by (cases r rule: sum.exhaust; cases "projl r")
      (auto simp: ws_session_def in_order_def captioned_append audio_count_def)
qed

subsection \<open>What becomes of a segment\<close>

definition segment_admitted :: "ws_env \<Rightarrow> ustr \<Rightarrow> ws_state \<Rightarrow> bool" where
  "segment_admitted E segment s \<longleftrightarrow>
     (let n = length (ws_segments s); G = we_gateway E n in
      int (length segment) \<le> ge_max_chars G
      \<and> (case ge_depth G of None \<Rightarrow> False | Some d \<Rightarrow> fst (compute_backpressure_decision (ge_depth_limit G) d (ge_cluster G)))
      \<and> we_db_up E n \<and> ge_uuid G 0 \<notin> jr_request_id ` set (gd_jobs (gs_db (ws_gateway s))))"

text \<open>Steps that only touch configuration, numbers and frames.\<close>

definition same_gateway :: "ws_state \<Rightarrow> ws_state \<Rightarrow> bool" where
  "same_gateway s s' \<longleftrightarrow> ws_gateway s' = ws_gateway s"

named_theorems gateway_rules

lemma same_gateway_order: "reflp same_gateway" "transp same_gateway"
  by (auto simp: same_gateway_def reflp_def transp_def)

lemmas [gateway_rules] = keeps_basic [OF same_gateway_order(1)] keeps_bind [OF same_gateway_order(2)] keeps_seq [OF same_gateway_order(2)]

lemma gateway_basic [gateway_rules]: "keeps same_gateway (send f)" "keeps same_gateway (send_error c)"
    "keeps same_gateway (set_config h)" "keeps same_gateway (modifyA (\<lambda>s. s\<lparr>ws_seq := q\<rparr>))"
  by (simp_all add: keeps_def send_error_def send_def set_config_def modifyA_def same_gateway_def)

lemma gateway_forward [gateway_rules]: "keeps same_gateway (forward cs)"
  by (induction cs) (auto simp: Let_def intro!: gateway_rules)

lemma gateway_relay [gateway_rules]: "keeps same_gateway (relay polls segment)"
  unfolding relay_def by (auto intro!: gateway_rules split: prod.split read_end.split)

lemma reserve_segment_eval:
  "reserve_segment G cx rid h g =
     (let t = gd_jobs (gs_db g); row = new_job_row (cx_tenant_id cx) (ge_now G) rid (cx_api_key_id cx) h None;
          d = (gs_db g)\<lparr>gd_jobs := t @ [row]\<rparr>
      in if rid \<in> jr_request_id ` set t then (Inl (Crash IntegrityError), g)
         else (Inr row, g\<lparr>gs_db := d, gs_saved := d\<rparr>))"
  by (simp add: reserve_segment_def in_db_def idem_reserve_cases bindS_def act_eval commit_def Let_def)

definition reserved_gateway :: "ws_env \<Rightarrow> auth_context \<Rightarrow> ustr \<Rightarrow> nat \<Rightarrow> gstate \<Rightarrow> gstate" where
  "reserved_gateway E cx segment n g =
     (let G = we_gateway E n;
          d = (gs_db g)\<lparr>gd_jobs := gd_jobs (gs_db g)
                @ [new_job_row (cx_tenant_id cx) (ge_now G) (ge_uuid G 0) (cx_api_key_id cx) (we_hash E segment) None]\<rparr>
      in g\<lparr>gs_db := d, gs_saved := d\<rparr>)"

lemma flush_admitted:
  assumes "segment_admitted E segment s"
  shows "flush_segment E cx slug app segment s =
     (let n = length (ws_segments s); G = we_gateway E n; g = reserved_gateway E cx segment n (ws_gateway s);
          s1 = s\<lparr>ws_segments := ws_segments s @ [segment], ws_gateway := g\<rparr> in
      if ge_xadd_ok G
      then relay (we_polls E n) segment (s1\<lparr>ws_gateway := g\<lparr>gs_queue := gs_queue g
             @ [segment_job G cx slug app (ge_uuid G 0) segment (ws_config_of s)]\<rparr>\<rparr>)
      else send_error ''queue_unavailable'' s1)"
proof -
  let ?n = "length (ws_segments s)" let ?G = "we_gateway E ?n"
  obtain depth why payload where q: "ge_depth ?G = Some depth"
      "compute_backpressure_decision (ge_depth_limit ?G) depth (ge_cluster ?G) = (True, why, payload)"
    using assms by (cases "ge_depth ?G"; cases "compute_backpressure_decision (ge_depth_limit ?G) (the (ge_depth ?G)) (ge_cluster ?G)")
      (auto simp: segment_admitted_def Let_def)
  have ok: "\<not> int (length segment) > ge_max_chars ?G" "we_db_up E ?n"
      "ge_uuid ?G 0 \<notin> jr_request_id ` set (gd_jobs (gs_db (ws_gateway s)))"
    using assms by (auto simp: segment_admitted_def Let_def)
  have "flush_segment E cx slug app segment s
      = enqueue_segment E ?G cx slug app ?n segment (s\<lparr>ws_segments := ws_segments s @ [segment]\<rparr>)"
    using q ok by (simp add: flush_segment_def bindA_def seqA_def getsA_def modifyA_def Let_def)
  then show ?thesis
    using ok
    by (simp add: enqueue_segment_def on_gateway_def reserve_segment_eval submit_def bindA_def getsA_def modifyA_def
        throw_def reserved_gateway_def Let_def)
qed

lemma flush_refused:
  assumes "\<not> segment_admitted E segment s" and "flush_segment E cx slug app segment s = (r, s')"
    and "gs_db (ws_gateway s) = gs_saved (ws_gateway s)"
  shows "gs_queue (ws_gateway s') = gs_queue (ws_gateway s)
     \<and> gd_jobs (gs_saved (ws_gateway s')) = gd_jobs (gs_saved (ws_gateway s))
     \<and> (r = Inl (Raised (RuntimeError ''redis'')) \<and> ws_frames s' = ws_frames s
        \<or> r = Inr () \<and> (\<exists>code. ws_frames s' = ws_frames s @ [Error_Frame code []]))"
proof -
  let ?n = "length (ws_segments s)" let ?G = "we_gateway E ?n"
  show ?thesis
  proof (cases "ge_depth ?G")
    case None
    then show ?thesis using assms(2)
      by (auto simp: flush_segment_def bindA_def seqA_def getsA_def modifyA_def throw_def send_error_def send_def Let_def
          split: if_splits)
  next
    case (Some depth)
    obtain ok why payload where dec: "compute_backpressure_decision (ge_depth_limit ?G) depth (ge_cluster ?G) = (ok, why, payload)"
      by (cases "compute_backpressure_decision (ge_depth_limit ?G) depth (ge_cluster ?G)")
    show ?thesis
    proof (cases ok)
      case True
      then show ?thesis using assms Some dec
        by (auto simp: flush_segment_def enqueue_segment_def segment_admitted_def on_gateway_def reserve_segment_eval
            bindA_def seqA_def getsA_def modifyA_def ret_def send_error_def send_def Let_def split: if_splits)
    next
      case False
      then show ?thesis using assms(2,3) Some dec
        by (auto simp: flush_segment_def audit_refusal_def on_gateway_def audit_def in_db_def commit_def
            bindA_def seqA_def getsA_def modifyA_def ret_def send_error_def send_def Let_def split: if_splits prod.splits sum.splits)
    qed
  qed
qed


subsection \<open>What the client hears\<close>

fun relayed_frames :: "string \<Rightarrow> nat \<Rightarrow> (bytes \<times> ustr option) list \<Rightarrow> ws_frame list" where
  "relayed_frames fmt n [] = []"
| "relayed_frames fmt n (p # ps) =
     (let t = (case snd p of None \<Rightarrow> [] | Some t \<Rightarrow> t)
      in Audio_Frame (fst p) t n fmt # Sentence_End n t # relayed_frames fmt (Suc n) ps)"

fun frame_pcm :: "ws_frame \<Rightarrow> bytes" where
  "frame_pcm (Audio_Frame pcm t q f) = pcm"
| "frame_pcm _ = []"

fun is_error_frame :: "ws_frame \<Rightarrow> bool" where
  "is_error_frame (Error_Frame c d) = True"
| "is_error_frame _ = False"

lemma relayed_facts:
  "concat (map frame_pcm (relayed_frames fmt n ps)) = pieces_pcm ps"
  "audio_count (relayed_frames fmt n ps) = length ps" "\<not> list_ex is_error_frame (relayed_frames fmt n ps)"
  by (induction ps arbitrary: n) (simp_all add: audio_count_def pieces_pcm_def Let_def)

lemma forward_pieces:
  "forward (audio_chunks rid a k ps @ [final_chunk rid a m]) s
     = (Inr False, s\<lparr>ws_frames := ws_frames s @ relayed_frames (wc_audio_format (ws_config_of s)) (ws_seq s) ps,
                     ws_seq := ws_seq s + length ps\<rparr>)"
proof (induction ps arbitrary: k s)
  case Nil
  then show ?case by (simp add: ret_def)
next
  case (Cons p ps)
  have "tr_sentence_text (audio_chunk rid a k p) = snd p" by (simp add: audio_chunk_def)
  then show ?case using Cons.IH by (simp add: act_eval send_def Let_def)
qed

lemma relay_attempt:
  assumes "0 \<le> a" "list_all scalar rid" "list_all piece_ok ps" "length ps < 64 * m"
  shows "relay (replicate m \<lparr>po_expired = False,
            po_stream = entries_of dr 1 (audio_chunks rid a 0 ps @ [final_chunk rid a (int (length ps))])\<rparr>) segment s
     = (Inr (), s\<lparr>ws_frames := ws_frames s @ relayed_frames (wc_audio_format (ws_config_of s)) (ws_seq s) ps,
                  ws_seq := ws_seq s + length ps, ws_config_of := (ws_config_of s)\<lparr>wc_previous_text := Some segment\<rparr>\<rparr>)"
  unfolding relay_def consume_whole [OF assms] by (simp add: bindA_def forward_pieces set_config_def modifyA_def)

lemma segment_job_ids:
  assumes "rid < 2 ^ 128" "cx_tenant_id cx < 2 ^ 128" "cx_api_key_id cx < 2 ^ 128"
  shows "job_ids (segment_job G cx slug app rid segment c) = Inr (rid, cx_tenant_id cx, cx_api_key_id cx)"
  using assms by (simp add: job_ids_def segment_job_def uuid_parse_str)

text \<open>
  C7: the WebSocket end to end. When a segment is admitted and queued, a worker finishes its job
  and the result stream is polled before its deadline, then the frames the client gets for this
  segment contain no error, their audio put together is exactly the PCM in the archive under the
  segment's request id, one audio frame per billed sentence, and the segment becomes the previous
  text of the next one.
\<close>

theorem ws_client_hears:
  assumes "segment_admitted E segment s" and "ge_xadd_ok (we_gateway E (length (ws_segments s)))"
    and "ge_uuid (we_gateway E (length (ws_segments s))) 0 < 2 ^ 128" "cx_tenant_id cx < 2 ^ 128" "cx_api_key_id cx < 2 ^ 128"
    and "flush_segment E cx slug app segment s = (r, s')"
    and "0 \<le> attempt" and "process_one_job W (last (gs_queue (ws_gateway s'))) attempt q = (Inr (), q')"
    and "list_all result_ok (ps_stream q')" and "length (ps_stream q') \<le> 64 * m"
    and "we_polls E (length (ws_segments s)) = replicate m \<lparr>po_expired = False, po_stream = entries_of dr 1 (ps_stream q')\<rparr>"
  shows "\<exists>pcm frames. r = Inr () \<and> last (ps_archived q') = (ge_uuid (we_gateway E (length (ws_segments s))) 0, pcm) \<and> pcm \<noteq> []
     \<and> ws_frames s' = ws_frames s @ frames \<and> \<not> list_ex is_error_frame frames \<and> concat (map frame_pcm frames) = pcm
     \<and> map_option ur_sentence_count
         (usage_find (cx_tenant_id cx) (ge_uuid (we_gateway E (length (ws_segments s))) 0) (ps_usages q')) = Some (int (audio_count frames))
     \<and> wc_previous_text (ws_config_of s') = Some segment"
proof -
  let ?n = "length (ws_segments s)" let ?G = "we_gateway E ?n" let ?rid = "ge_uuid ?G 0"
  let ?job = "segment_job ?G cx slug app ?rid segment (ws_config_of s)"
  let ?g = "reserved_gateway E cx segment ?n (ws_gateway s)"
  let ?t = "s\<lparr>ws_segments := ws_segments s @ [segment], ws_gateway := ?g\<lparr>gs_queue := gs_queue ?g @ [?job]\<rparr>\<rparr>"
  have run: "relay (we_polls E ?n) segment ?t = (r, s')"
    using flush_admitted [OF assms(1), of cx slug app] assms(2,6) by (simp add: Let_def reserved_gateway_def)
  have "ws_gateway s' = ws_gateway ?t" using keepsD [OF gateway_relay run] by (simp add: same_gateway_def)
  then have job: "last (gs_queue (ws_gateway s')) = ?job" by simp
  obtain pieces where p: "ps_stream q' = audio_chunks (uuid_str ?rid) attempt 0 pieces
             @ [final_chunk (uuid_str ?rid) attempt (int (length pieces))]"
    "list_all piece_ok pieces" "pieces_pcm pieces \<noteq> []" "ps_archived q' = ps_archived q @ [(?rid, pieces_pcm pieces)]"
    "map_option ur_sentence_count (usage_find (cx_tenant_id cx) ?rid (ps_usages q')) = Some (int (length pieces))"
    using finished_job_pieces [OF segment_job_ids [OF assms(3-5)] assms(8) [unfolded job] assms(9)] by blast
  have "length pieces < 64 * m" using assms(10) p(1) by simp
  then have out: "r = Inr () \<and> s' = ?t\<lparr>ws_frames := ws_frames s @ relayed_frames (wc_audio_format (ws_config_of s)) (ws_seq s) pieces,
        ws_seq := ws_seq s + length pieces, ws_config_of := (ws_config_of s)\<lparr>wc_previous_text := Some segment\<rparr>\<rparr>"
    using run relay_attempt [OF assms(7) _ p(2), of "uuid_str ?rid" m dr segment ?t] unfolding assms(11) p(1) by simp
  show ?thesis
    by (intro exI [of _ "pieces_pcm pieces"]
        exI [of _ "relayed_frames (wc_audio_format (ws_config_of s)) (ws_seq s) pieces"])
      (use out p relayed_facts in simp)
qed

subsection \<open>Text left for the end\<close>

lemma no_boundary: "list_all (\<lambda>c. c \<notin> {46, 33, 63}) buf \<Longrightarrow> split_at_last_boundary buf = ([], buf)"
  by (auto simp: split_at_last_boundary_def sentence_ends_def boundary_at_def list_all_length split: list.split)

lemma letters_cut:
  assumes "max_buffer_chars \<le> n"
  shows "next_segment False (replicate n 97) = (replicate max_buffer_chars 97, replicate (n - max_buffer_chars) 97)"
proof -
  have cut: "hard_cut (replicate n 97) = max_buffer_chars"
    by (auto simp: hard_cut_def split: list.split)
  have strip: "strip_spaces (replicate max_buffer_chars 97) = replicate max_buffer_chars 97"
    by (rule strip_spaces_id) (simp_all add: max_buffer_chars_def py_space_def list_all_iff)
  have "dropWhile py_space (replicate k 97) = replicate k 97" for k :: nat
    by (cases k) (simp_all add: py_space_def)
  moreover have "split_at_last_boundary (replicate n 97) = ([], replicate n 97)"
    by (rule no_boundary) (simp add: list_all_iff)
  ultimately show ?thesis using assms strip by (simp add: next_segment_def cut min_absorb1)
qed

lemma flush_long:
  "int (length segment) > ge_max_chars (we_gateway E (length (ws_segments s))) \<Longrightarrow>
   flush_segment E cx slug app segment s
     = (Inr (), s\<lparr>ws_segments := ws_segments s @ [segment], ws_frames := ws_frames s @ [Error_Frame ''segment_too_long'' []]\<rparr>)"
  by (simp add: flush_segment_def act_eval send_error_def send_def Let_def)

lemma flush_queue:
  assumes "gs_db (ws_gateway s) = gs_saved (ws_gateway s)" and "flush_segment E cx slug app segment s = (r, s')"
  shows "\<exists>jobs. gs_queue (ws_gateway s') = gs_queue (ws_gateway s) @ jobs \<and> set (map tj_text jobs) \<subseteq> {segment}"
proof (cases "segment_admitted E segment s")
  case False
  then show ?thesis using flush_refused [OF False assms(2,1)] by (intro exI [of _ "[]"]) simp
next
  case True
  note run = flush_admitted [OF True, of cx slug app, unfolded assms(2)]
  let ?G = "we_gateway E (length (ws_segments s))"
  show ?thesis
  proof (cases "ge_xadd_ok ?G")
    case up: True
    then have "gs_queue (ws_gateway s') = gs_queue (ws_gateway s) @ [segment_job ?G cx slug app (ge_uuid ?G 0) segment (ws_config_of s)]"
      using keepsD [OF gateway_relay run [simplified, symmetric, simplified Let_def if_P [OF up]]]
      by (simp add: same_gateway_def reserved_gateway_def Let_def)
    then show ?thesis by (simp add: segment_job_def)
  next
    case False
    then show ?thesis using run
      by (intro exI [of _ "[]"]) (simp add: Let_def send_error_def send_def modifyA_def reserved_gateway_def)
  qed
qed

text \<open>
  C33: text left for the end is lost. One message makes at most one segment, so a client that sends
  a long text without a sentence end and then stops gets its first 240 letters spoken; the rest is
  flushed as one segment at the end and, when it is longer than the limit of a request, refused.
  The buffer admits 20000 letters, so every such text is within the documented bounds.
\<close>

theorem ws_tail_lost:
  assumes "gs_db g = gs_saved g"
    and "we_loads E raw = Some (JObj [(''text'', JStr (replicate n 97))])" and "n \<le> accumulated_limit"
    and "ge_max_chars (we_gateway E 1) < int (n - max_buffer_chars)" and "0 \<le> ge_max_chars (we_gateway E 1)"
    and "ws_session E cx slug app [Frame raw, Quiet] (ws_start g) = (Inr (), s')"
  shows "\<exists>jobs. gs_queue (ws_gateway s') = gs_queue g @ jobs \<and> set (map tj_text jobs) \<subseteq> {replicate max_buffer_chars 97}
     \<and> Error_Frame ''segment_too_long'' [] \<in> set (ws_frames s')"
proof -
  let ?a = "replicate max_buffer_chars 97 :: ustr" and ?b = "replicate (n - max_buffer_chars) 97 :: ustr"
  let ?s = "(ws_start g)\<lparr>ws_buffer := ?b\<rparr>"
  have n: "max_buffer_chars \<le> n" "n - max_buffer_chars \<noteq> 0" using assms(4,5) by auto
  obtain v s1 where f: "flush_segment E cx slug app ?a ?s = (v, s1)" by fastforce
  have cfg: "apply_config E [(''text'', JStr t)] s = (Inr None, s)" for t s
    by (simp add: apply_config_def field_step_def given_def ret_def)
  have "?a \<noteq> []" by (simp add: max_buffer_chars_def)
  then have msg: "ws_message E cx slug app raw (ws_start g) = (case v of Inl e \<Rightarrow> (Inl e, s1) | Inr _ \<Rightarrow> (Inr False, s1))"
    using assms(2,3) f letters_cut [OF n(1)]
    by (cases v) (simp_all add: ws_message_def bindA_def seqA_def cfg append_text_def flush_step_def getsA_def modifyA_def
        ret_def wants_flush_def ws_start_def)
  obtain jobs where q: "gs_queue (ws_gateway s1) = gs_queue g @ jobs" "set (map tj_text jobs) \<subseteq> {?a}"
    using flush_queue [OF _ f] assms(1) by (auto simp: ws_start_def)
  have v: "v = Inr ()"
  proof (cases v)
    case (Inl e)
    have "e \<noteq> Disconnected" using f Inl stays_flush [of E cx slug app ?a] unfolding stays_def by (metis fst_conv)
    then show ?thesis using assms(6) msg Inl
      by (cases e) (simp_all add: ws_session_def seqA_def bindA_def)
  qed simp
  let ?t = "s1\<lparr>ws_frames := ws_frames s1 @ [Error_Frame ''idle_timeout'' []]\<rparr>"
  have seg: "ws_buffer s1 = ?b" "length (ws_segments s1) = 1"
    using flush_segment_text [OF f] by (simp_all add: ws_start_def)
  have "strip_spaces ?b = ?b" using n(2) by (intro strip_spaces_id) (auto simp: list_all_iff py_space_def)
  moreover have "flush_segment E cx slug app ?b ?t = (Inr (), ?t\<lparr>ws_segments := ws_segments ?t @ [?b],
      ws_frames := ws_frames ?t @ [Error_Frame ''segment_too_long'' []]\<rparr>)"
    by (rule flush_long) (use assms(4) seg in simp)
  ultimately have "drain E cx slug app ?t = (Inr (), ?t\<lparr>ws_segments := ws_segments ?t @ [?b],
      ws_frames := ws_frames ?t @ [Error_Frame ''segment_too_long'' []], ws_buffer := []\<rparr>)"
    using seg n(2) by (simp add: drain_def bindA_def seqA_def getsA_def modifyA_def)
  then show ?thesis
    using assms(6) msg v q
    by (auto simp: ws_session_def seqA_def bindA_def send_error_def send_def modifyA_def)
qed

subsection \<open>A concrete connection\<close>

definition ws_sample :: "(nat \<Rightarrow> poll list) \<Rightarrow> ws_env" where
  "ws_sample polls = \<lparr>we_loads = (\<lambda>raw. Some (JObj [(''text'', JStr raw)])), we_str = (\<lambda>v. []), we_hash = (\<lambda>s. ''h''),
     we_gateway = (\<lambda>n. gw_env\<lparr>ge_uuid := (\<lambda>_. n + 5)\<rparr>), we_polls = polls, we_db_up = (\<lambda>n. True)\<rparr>"

lemma ws_sample_sel [simp]:
  "we_loads (ws_sample polls) raw = Some (JObj [(''text'', JStr raw)])" "we_polls (ws_sample polls) = polls"
  "we_gateway (ws_sample polls) n = gw_env\<lparr>ge_uuid := (\<lambda>_. n + 5)\<rparr>" "we_db_up (ws_sample polls) n"
  "we_hash (ws_sample polls) t = ''h''"
  by (simp_all add: ws_sample_def)

lemma ws_text_only: "apply_config E [(''text'', JStr t)] s = (Inr None, s)"
  by (simp add: apply_config_def field_step_def given_def ret_def)

lemma expired_relay: "relay [\<lparr>po_expired = True, po_stream = []\<rparr>] segment s = send_error ''timeout'' s"
  by (simp add: relay_def consume_result_stream_def bindA_def ret_def)

abbreviation lapsed :: "nat \<Rightarrow> poll list" where
  "lapsed n \<equiv> [\<lparr>po_expired = True, po_stream = []\<rparr>]"

lemma ws_sample_admits:
  assumes "length segment \<le> 4000" and "length (ws_segments s) + 5 \<notin> jr_request_id ` set (gd_jobs (gs_db (ws_gateway s)))"
  shows "segment_admitted (ws_sample polls) segment s"
  using assms by (simp add: segment_admitted_def compute_backpressure_decision_def Let_def)

lemma ws_sample_flush:
  assumes "length segment \<le> 4000" and "length (ws_segments s) + 5 \<notin> jr_request_id ` set (gd_jobs (gs_db (ws_gateway s)))"
  shows "fst (flush_segment (ws_sample lapsed) cx slug app segment s) = Inr ()"
  by (simp add: flush_admitted [OF ws_sample_admits [OF assms]] expired_relay send_error_def send_def modifyA_def Let_def)

lemma ws_sample_session:
  assumes "length t \<le> accumulated_limit" and "next_segment False t = (a, b)" and "length a \<le> 4000" "a \<noteq> []"
    and "ge_max_chars gw_env < int (length (strip_spaces b)) \<or> strip_spaces b = []"
  shows "\<exists>s'. ws_session (ws_sample lapsed) cx slug app [Frame t, Quiet] (ws_start gw_state) = (Inr (), s')"
proof -
  let ?E = "ws_sample lapsed" and ?s = "(ws_start gw_state)\<lparr>ws_buffer := b\<rparr>"
  have "fst (flush_segment ?E cx slug app a ?s) = Inr ()"
    by (rule ws_sample_flush) (use assms(3) in \<open>simp_all add: ws_start_def\<close>)
  then obtain s1 where f: "flush_segment ?E cx slug app a ?s = (Inr (), s1)" by (metis prod.collapse)
  have "ws_message ?E cx slug app t (ws_start gw_state) = (Inr False, s1)"
    using assms(1,2,4) f
    by (simp add: ws_message_def bindA_def seqA_def ws_text_only append_text_def flush_step_def getsA_def modifyA_def ret_def
        wants_flush_def ws_start_def)
  moreover have b: "ws_buffer s1 = b" using flush_segment_text [OF f] by simp
  let ?x = "s1\<lparr>ws_frames := ws_frames s1 @ [Error_Frame ''idle_timeout'' []]\<rparr>"
  have "fst (drain ?E cx slug app ?x) = Inr ()"
    using assms(5) b flush_long [of ?E ?x "strip_spaces b" cx slug app]
    by (auto simp: drain_def bindA_def seqA_def getsA_def modifyA_def ret_def)
  then obtain s2 where "drain ?E cx slug app ?x = (Inr (), s2)" by (metis prod.collapse)
  ultimately show ?thesis
    by (simp add: ws_session_def seqA_def bindA_def send_error_def send_def modifyA_def)
qed



theorem ws_tail_lost_witness:
  "\<exists>s' jobs. ws_session (ws_sample lapsed) gw_cx ''ada'' None [Frame (replicate 9000 97), Quiet] (ws_start gw_state) = (Inr (), s')
     \<and> gs_queue (ws_gateway s') = jobs \<and> set (map tj_text jobs) \<subseteq> {replicate 240 97}"
proof -
  let ?E = "ws_sample lapsed"
  have n: "next_segment False (replicate 9000 97) = (replicate max_buffer_chars 97, replicate (9000 - max_buffer_chars) 97)"
    by (rule letters_cut) (simp add: max_buffer_chars_def)
  have strip: "strip_spaces (replicate 8760 97) = replicate 8760 97"
    by (intro strip_spaces_id) (auto simp: list_all_iff py_space_def)
  obtain s' where run: "ws_session ?E gw_cx ''ada'' None [Frame (replicate 9000 97), Quiet] (ws_start gw_state) = (Inr (), s')"
    using ws_sample_session [OF _ n, of gw_cx "''ada''" None] strip by (auto simp: accumulated_limit_def max_buffer_chars_def)
  from ws_tail_lost [OF _ _ _ _ _ run, of 9000] run show ?thesis
    by (auto simp: accumulated_limit_def max_buffer_chars_def)
qed

definition ws_job :: tts_job where
  "ws_job = segment_job (gw_env\<lparr>ge_uuid := (\<lambda>_. 5)\<rparr>) gw_cx ''ada'' None 5 [77] fresh_config"

lemma ws_job_sel [simp]:
  "tj_voice_id ws_job = ''ada''" "tj_model_id ws_job = None" "tj_params ws_job = None"
  "tj_voice_settings ws_job = None" "tj_text ws_job = [77]" "tj_app_label ws_job = None" "tj_enqueued_at_ms ws_job = Some 100"
  by (simp_all add: ws_job_def segment_job_def fresh_config_def)

lemma ws_job_ids: "job_ids ws_job = Inr (5, 7, 2)"
  unfolding ws_job_def by (subst segment_job_ids) simp_all

lemma ws_job_run:
  "fst (process_one_job sample_env ws_job 1 gw_tables) = Inr ()"
  "ps_stream (snd (process_one_job sample_env ws_job 1 gw_tables))
     = audio_chunks (uuid_str 5) 1 0 [([1, 0, 2, 0], Some [77]), ([3, 0], None)] @ [final_chunk (uuid_str 5) 1 2]"
  "ps_archived (snd (process_one_job sample_env ws_job 1 gw_tables)) = [(5, [1, 0, 2, 0, 3, 0])]"
  by (simp_all add: run_simps ws_job_ids gw_tables_def)

theorem ws_client_hears_witness:
  "\<exists>frames. ws_frames (snd (flush_segment (ws_sample (\<lambda>n. replicate 1 \<lparr>po_expired = False, po_stream = entries_of False 1
        (ps_stream (snd (process_one_job sample_env ws_job 1 gw_tables)))\<rparr>)) gw_cx ''ada'' None [77] (ws_start gw_state))) = frames
     \<and> concat (map frame_pcm frames) = [1, 0, 2, 0, 3, 0]"
proof -
  let ?p = "process_one_job sample_env ws_job 1 gw_tables"
  let ?E = "ws_sample (\<lambda>n. replicate 1 \<lparr>po_expired = False, po_stream = entries_of False 1 (ps_stream (snd ?p))\<rparr>)"
  let ?s = "ws_start gw_state"
  obtain r s' where run: "flush_segment ?E gw_cx ''ada'' None [77] ?s = (r, s')" by fastforce
  have adm: "segment_admitted ?E [77] ?s" by (rule ws_sample_admits) (simp_all add: ws_start_def)
  have "ws_gateway s' = (reserved_gateway ?E gw_cx [77] 0 gw_state)\<lparr>gs_queue := [ws_job]\<rparr>"
  proof -
    note f = flush_admitted [OF adm, of gw_cx "''ada''" None, unfolded run]
    show ?thesis using keepsD [OF gateway_relay f [symmetric, simplified Let_def, simplified]]
      by (simp add: same_gateway_def ws_start_def reserved_gateway_def ws_job_def Let_def)
  qed
  then have job: "process_one_job sample_env (last (gs_queue (ws_gateway s'))) 1 gw_tables = (Inr (), snd ?p)"
    using ws_job_run(1) by (simp add: prod_eq_iff)
  have ok: "list_all result_ok (ps_stream (snd ?p))" "length (ps_stream (snd ?p)) \<le> 64 * 1"
    by (simp_all add: ws_job_run(2) result_ok_def audio_chunk_def final_chunk_def scalar_def)
  from ws_client_hears [OF adm _ _ _ _ run _ job ok, of False] run show ?thesis
    by (auto simp: ws_start_def ws_job_run(3))
qed

end
