(* ===== verification/Segmenter.thy ===== *)
theory Segmenter
  imports Py_Text
begin

text \<open>
  Sentence segmentation (\<^verbatim>\<open>src/frontend/lang_packs/tr/segment.py\<close>): abbreviations are protected,
  the text is split after sentence ends, short pieces are merged and long ones split. The set
  of word characters of Python's \<open>re\<close> is the parameter \<open>w\<close>.
\<close>

subsection \<open>Abbreviations\<close>

definition protected_abbrevs :: "ustr list" where
  "protected_abbrevs = [cps ''Dr'', cps ''Do'' @ [0xE7], cps ''Prof'', cps ''Av'', cps ''Sn'', cps ''Hz'', cps ''Sn'',
     cps ''No'', cps ''Cad'', cps ''Sok'', cps ''Mah'', cps ''Apt'', cps ''Bld'', cps ''Blv'']"

definition protected_multi_period :: "ustr list" where
  "protected_multi_period = [cps ''K.K.T.C'', cps ''M.'' @ [0xD6], cps ''M.S'', cps ''T.C'']"

definition placeholder :: nat where "placeholder = 1"

definition hide_dot :: "nat \<Rightarrow> nat" where
  "hide_dot c = (if c = 46 then placeholder else c)"

definition starts :: "ustr \<Rightarrow> ustr \<Rightarrow> bool" where
  "starts t s \<longleftrightarrow> take (length t) s = t"

text \<open>One abbreviation with its inner periods and an optional one after it.\<close>

definition multi_match :: "(nat \<Rightarrow> bool) \<Rightarrow> ustr \<Rightarrow> matcher" where
  "multi_match w abbrev p s =
     (if boundary w p (ahead_of s) \<and> starts abbrev s
      then (let n = length abbrev + (if starts [46] (drop (length abbrev) s) then 1 else 0)
            in Some (n, Inr (map hide_dot (take n s))))
      else None)"

definition single_match :: "(nat \<Rightarrow> bool) \<Rightarrow> matcher" where
  "single_match w p s =
     (case find (\<lambda>a. starts (a @ [46]) s) protected_abbrevs of
        Some a \<Rightarrow> if boundary w p (ahead_of s) then Some (Suc (length a), Inr (map hide_dot (take (Suc (length a)) s))) else None
      | None \<Rightarrow> None)"

definition protect_abbreviations :: "(nat \<Rightarrow> bool) \<Rightarrow> ustr \<Rightarrow> py_error + ustr" where
  "protect_abbreviations w t =
     bindS (fold (\<lambda>a r. bindS r (re_sub (multi_match w a) None)) protected_multi_period (Inr t))
           (re_sub (single_match w) None)"

definition restore_abbreviations :: "ustr \<Rightarrow> ustr" where
  "restore_abbreviations s = map (\<lambda>c. if c = placeholder then 46 else c) s"

subsection \<open>Pieces\<close>

definition min_segment :: nat where "min_segment = 12"
definition max_segment :: nat where "max_segment = 240"

definition sentence_end :: "nat \<Rightarrow> bool" where
  "sentence_end c \<longleftrightarrow> c \<in> {46, 33, 63, 0x2026}"

definition opens_sentence :: "ustr \<Rightarrow> bool" where
  "opens_sentence s \<longleftrightarrow> (case s of [] \<Rightarrow> False
     | c # _ \<Rightarrow> (65 \<le> c \<and> c \<le> 90) \<or> (48 \<le> c \<and> c \<le> 57)
              \<or> c \<in> {0xC7, 0x11E, 0x130, 0xD6, 0x15E, 0xDC, 34, 39, 40})"

definition join_to :: "ustr \<Rightarrow> ustr \<Rightarrow> ustr" where
  "join_to buf seg = (if buf \<noteq> [] then strip_spaces (buf @ 32 # seg) else seg)"

fun merge_loop :: "ustr list \<Rightarrow> ustr \<Rightarrow> ustr list \<Rightarrow> ustr list \<times> ustr" where
  "merge_loop merged buf [] = (merged, buf)"
| "merge_loop merged buf (seg # segs) =
     (let candidate = join_to buf seg
      in if length candidate < min_segment then merge_loop merged candidate segs
         else merge_loop (merged @ [candidate]) [] segs)"

definition merge_short :: "ustr list \<Rightarrow> ustr list" where
  "merge_short segs =
     (case merge_loop [] [] segs of (merged, buf) \<Rightarrow>
        if buf \<noteq> []
        then (if merged \<noteq> [] then butlast merged @ [strip_spaces (last merged @ 32 # buf)] else merged @ [buf])
        else merged)"

fun pack_parts :: "ustr \<Rightarrow> ustr list \<Rightarrow> ustr list" where
  "pack_parts buf [] = (if buf \<noteq> [] then [buf] else [])"
| "pack_parts buf (part # parts) =
     (let candidate = join_to buf part
      in if max_segment < length candidate \<and> buf \<noteq> [] then buf # pack_parts part parts
         else pack_parts candidate parts)"

text \<open>\<open>s.rfind(" ", 0, n)\<close>.\<close>

definition rfind_blank :: "nat \<Rightarrow> ustr \<Rightarrow> nat option" where
  "rfind_blank n s = (case filter (\<lambda>i. s ! i = 32) [0..<min n (length s)] of [] \<Rightarrow> None | is \<Rightarrow> Some (last is))"

definition clause_end :: "nat \<Rightarrow> bool" where
  "clause_end c \<longleftrightarrow> c \<in> {44, 59, 58}"

definition split_long :: "ustr \<Rightarrow> ustr list" where
  "split_long segment =
     (if length segment \<le> max_segment then [segment]
      else (let parts = split_runs clause_end (\<lambda>_. True) [] segment
            in if length parts = 1
               then (case rfind_blank (length segment div 2 + 40) segment of
                       None \<Rightarrow> [segment]
                     | Some ws \<Rightarrow> if ws < min_segment then [segment]
                                 else [strip_spaces (take ws segment), strip_spaces (drop ws segment)])
               else pack_parts [] parts))"

definition sentence_pieces :: "(nat \<Rightarrow> bool) \<Rightarrow> ustr \<Rightarrow> py_error + ustr list" where
  "sentence_pieces w t =
     bindS (protect_abbreviations w (strip_spaces t)) (\<lambda>s.
       Inr (filter (\<lambda>r. r \<noteq> []) (map strip_spaces (split_runs sentence_end opens_sentence [] s))))"

definition segment_sentences :: "(nat \<Rightarrow> bool) \<Rightarrow> ustr \<Rightarrow> py_error + ustr list" where
  "segment_sentences w t =
     (if t = [] \<or> strip_spaces t = [] then Inr []
      else bindS (sentence_pieces w t) (\<lambda>raw.
             Inr (map restore_abbreviations (concat (map split_long (merge_short raw))))))"


subsection \<open>Protection only hides periods\<close>

definition hidden :: "ustr \<Rightarrow> ustr \<Rightarrow> bool" where
  "hidden s s' \<longleftrightarrow> list_all2 (\<lambda>a b. b = a \<or> (a = 46 \<and> b = placeholder)) s s'"

definition hides :: "matcher \<Rightarrow> bool" where
  "hides m \<longleftrightarrow> (\<forall>p s n r. m p s = Some (n, r) \<longrightarrow> r = Inr (map hide_dot (take n s)) \<and> 1 \<le> n)"

lemma hidden_map: "hidden s (map hide_dot s)"
  by (auto simp: hidden_def hide_dot_def list_all2_conv_all_nth)

lemma hidden_append: "hidden a a' \<Longrightarrow> hidden b b' \<Longrightarrow> hidden (a @ b) (a' @ b')"
  by (simp add: hidden_def list_all2_appendI)

lemma hidden_trans: "hidden a b \<Longrightarrow> hidden b c \<Longrightarrow> hidden a c"
  unfolding hidden_def by (rule list_all2_trans) auto

lemma hides_sub: "hides m \<Longrightarrow> \<exists>s'. re_sub m p s = Inr s' \<and> hidden s s'"
proof (induction m p s rule: re_sub.induct)
  case (1 m p)
  then show ?case by (simp add: hidden_def)
next
  case (2 m p c cs)
  show ?case
  proof (cases "m p (c # cs)")
    case None
    then obtain s' where "re_sub m (Some c) cs = Inr s'" "hidden cs s'" using 2 by blast
    then show ?thesis using None by (simp add: re_sub.simps(2) hidden_def)
  next
    case (Some x)
    obtain n r where x: "x = (n, r)" by fastforce
    have r: "r = Inr (map hide_dot (take n (c # cs)))" "1 \<le> n"
      using 2(3) Some unfolding x hides_def by blast+
    obtain s' where s': "re_sub m (Some (last (c # take (n - 1) cs))) (drop (n - 1) cs) = Inr s'" "hidden (drop (n - 1) cs) s'"
      using "2.IH"(2) [OF Some [unfolded x] refl] 2(3) r by blast
    have "hidden (take n (c # cs) @ drop (n - 1) cs) (map hide_dot (take n (c # cs)) @ s')"
      by (intro hidden_append hidden_map s')
    moreover have "take n (c # cs) @ drop (n - 1) cs = c # cs" using r(2) by (cases n) simp_all
    ultimately show ?thesis using Some x r s' by (simp add: re_sub.simps(2))
  qed
qed

lemma hides_matchers: "hides (multi_match w (c # cs))" "hides (single_match w)"
  by (auto simp: hides_def multi_match_def single_match_def Let_def split: if_splits option.splits)

lemma protect_hides: "\<exists>s'. protect_abbreviations w t = Inr s' \<and> hidden t s'"
proof -
  have pass: "\<exists>s'. fold (\<lambda>a r. bindS r (re_sub (multi_match w a) None)) as (Inr t) = Inr s' \<and> hidden t s'"
    if "[] \<notin> set as" for as t
    using that
  proof (induction as arbitrary: t)
    case Nil
    then show ?case by (simp add: hidden_def list_all2_refl)
  next
    case (Cons a as)
    then obtain s1 where s1: "re_sub (multi_match w a) None t = Inr s1" "hidden t s1"
      using hides_sub hides_matchers(1) by (metis Cons.prems list.exhaust list.set_intros(1))
    moreover obtain s' where "fold (\<lambda>a r. bindS r (re_sub (multi_match w a) None)) as (Inr s1) = Inr s'" "hidden s1 s'"
      using Cons by auto
    ultimately show ?case using hidden_trans by auto
  qed
  obtain s1 where "fold (\<lambda>a r. bindS r (re_sub (multi_match w a) None)) protected_multi_period (Inr t) = Inr s1" "hidden t s1"
    using pass [of protected_multi_period t] by (auto simp: protected_multi_period_def cps_def)
  then show ?thesis using hides_sub [OF hides_matchers(2), of w None s1] hidden_trans
    by (auto simp: protect_abbreviations_def)
qed

lemma hidden_restore: "hidden s s' \<Longrightarrow> restore_abbreviations s' = restore_abbreviations s"
  unfolding hidden_def restore_abbreviations_def by (induction rule: list_all2_induct) auto

lemma restore_space: "py_space (if c = placeholder then 46 else c) = py_space c"
  by (simp add: py_space_def placeholder_def)

lemma restore_plain: "46 \<notin> set (restore_abbreviations s) \<Longrightarrow> restore_abbreviations s = s"
  by (induction s) (auto simp: restore_abbreviations_def split: if_splits)

lemma ink_restore [simp]: "ink (restore_abbreviations s) = restore_abbreviations (ink s)"
  unfolding restore_abbreviations_def by (rule ink_map) (rule restore_space)

lemma restore_concat: "restore_abbreviations (concat ss) = concat (map restore_abbreviations ss)"
  by (induction ss) (auto simp: restore_abbreviations_def)

lemma trimmed_restore [simp]: "trimmed (restore_abbreviations s) = trimmed s"
  by (auto simp: trimmed_def restore_abbreviations_def hd_map last_map restore_space)

lemma length_restore [simp]: "length (restore_abbreviations s) = length s"
  by (simp add: restore_abbreviations_def)

subsection \<open>Merging and splitting keep the text and the trim\<close>

abbreviation inks :: "ustr list \<Rightarrow> ustr" where
  "inks ss \<equiv> concat (map ink ss)"

abbreviation clean :: "ustr list \<Rightarrow> bool" where
  "clean ss \<equiv> list_all trimmed ss"

lemma join_ink [simp]: "ink (join_to buf seg) = ink buf @ ink seg"
  by (simp add: join_to_def)

lemma join_trimmed: "trimmed seg \<Longrightarrow> buf = [] \<or> trimmed buf \<Longrightarrow> trimmed (join_to buf seg)"
  by (auto simp: join_to_def trimmed_joined trimmed_strip trimmed_def [of "[]"])

lemma merge_loop_ink: "merge_loop merged buf segs = (m, b) \<Longrightarrow> inks m @ ink b = inks merged @ ink buf @ inks segs"
  by (induction merged buf segs rule: merge_loop.induct) (auto simp: Let_def split: if_splits)

lemma merge_loop_clean:
  "merge_loop merged buf segs = (m, b) \<Longrightarrow> clean merged \<Longrightarrow> buf = [] \<or> trimmed buf \<Longrightarrow> clean segs
     \<Longrightarrow> clean m \<and> (b = [] \<or> trimmed b)"
  by (induction merged buf segs rule: merge_loop.induct) (auto simp: Let_def join_trimmed split: if_splits)

lemma inks_butlast: "ss \<noteq> [] \<Longrightarrow> inks (butlast ss) @ ink (last ss) @ t = inks ss @ t"
  by (induction ss) auto

lemma merge_short_ink: "inks (merge_short segs) = inks segs"
proof -
  obtain m b where l: "merge_loop [] [] segs = (m, b)" by fastforce
  from merge_loop_ink [OF l] show ?thesis by (auto simp: merge_short_def l inks_butlast)
qed

lemma merge_short_clean: "clean segs \<Longrightarrow> clean (merge_short segs)"
proof -
  assume segs: "clean segs"
  obtain m b where l: "merge_loop [] [] segs = (m, b)" by fastforce
  have "clean (butlast m)" if "clean m" using that by (auto simp: list_all_iff dest: in_set_butlastD)
  moreover have "trimmed (last m)" if "clean m" "m \<noteq> []" using that by (auto simp: list_all_iff)
  ultimately show ?thesis using merge_loop_clean [OF l] segs
    by (auto simp: merge_short_def l trimmed_joined trimmed_strip)
qed

lemma pack_parts_ink: "inks (pack_parts buf parts) = ink buf @ inks parts"
  by (induction buf parts rule: pack_parts.induct) (auto simp: Let_def)

lemma pack_parts_clean: "buf = [] \<or> trimmed buf \<Longrightarrow> clean parts \<Longrightarrow> clean (pack_parts buf parts)"
  by (induction buf parts rule: pack_parts.induct) (auto simp: Let_def join_trimmed)

text \<open>Where every run after a clause end is a separator, the pieces of a stripped text are stripped.\<close>

lemma split_all_clean:
  assumes "\<And>c. before c \<Longrightarrow> \<not> py_space c" "piece = [] \<or> \<not> py_space (hd piece)" "piece @ s \<noteq> []"
    and "\<not> py_space (last (piece @ s))" "piece = [] \<longrightarrow> \<not> py_space (hd s)"
  shows "clean (split_runs before (\<lambda>_. True) piece s)"
  using assms
proof (induction before "\<lambda>_ :: ustr. True" piece s rule: split_runs.induct)
  case (2 before piece c cs)
  show ?case
  proof (cases "py_space c \<and> piece \<noteq> [] \<and> before (last piece)")
    case True
    have ne: "dropWhile py_space cs \<noteq> []"
    proof
      assume "dropWhile py_space cs = []"
      then have "py_space (last (c # cs))" using True by (cases cs rule: rev_cases) (auto simp: dropWhile_eq_Nil_conv)
      then show False using 2(6) by simp
    qed
    have "last (dropWhile py_space cs) = last (c # cs)"
      using ne last_dropWhile [OF ne] by auto
    then have "clean (split_runs before (\<lambda>_. True) [] (dropWhile py_space cs))"
      using 2(1) True ne 2(3,6) hd_dropWhile [of py_space cs] by simp
    moreover have "trimmed piece" using True 2(3,4) by (auto simp: trimmed_def)
    ultimately show ?thesis using True by simp
  next
    case False
    moreover have "piece @ [c] \<noteq> [] \<and> \<not> py_space (hd (piece @ [c]))" using 2(4,7) by (auto simp: hd_append)
    ultimately show ?thesis using 2(2) 2(3,6) by auto
  qed
qed (auto simp: trimmed_def)

lemma clause_end_space: "clause_end c \<Longrightarrow> \<not> py_space c"
  by (auto simp: clause_end_def py_space_def)

lemma clause_parts_clean: "trimmed s \<Longrightarrow> clean (split_runs clause_end (\<lambda>_. True) [] s)"
  by (rule split_all_clean) (simp_all add: clause_end_space trimmed_def)

lemma split_long_ink: "inks (split_long s) = ink s"
  by (simp add: split_long_def Let_def pack_parts_ink split_runs_ink ink_cut split: option.split)

lemma rfind_blank_Some: "rfind_blank n s = Some i \<Longrightarrow> i < n \<and> i < length s \<and> s ! i = 32"
proof -
  assume f: "rfind_blank n s = Some i"
  let ?is = "filter (\<lambda>i. s ! i = 32) [0..<min n (length s)]"
  have "?is \<noteq> []" "i = last ?is" using f by (auto simp: rfind_blank_def split: list.splits)
  then have "i \<in> set ?is" by (metis last_in_set)
  then show ?thesis by auto
qed

lemma split_long_clean: "trimmed s \<Longrightarrow> clean (split_long s)"
  by (auto simp: split_long_def Let_def min_segment_def pack_parts_clean clause_parts_clean
      intro!: strip_take_trimmed strip_drop_trimmed split: option.split dest: rfind_blank_Some)


subsection \<open>Segments\<close>

lemma concat_maps: "(\<And>x. x \<in> set xs \<Longrightarrow> inks (f x) = ink x) \<Longrightarrow> inks (concat (map f xs)) = inks xs"
  by (induction xs) auto

lemma inks_filter_strip: "inks (filter (\<lambda>r. r \<noteq> []) (map strip_spaces ss)) = inks ss"
proof (induction ss)
  case (Cons s ss)
  have "strip_spaces s = [] \<Longrightarrow> ink s = []" by (metis ink_simps(1) ink_strip)
  with Cons show ?case by auto
qed simp

lemma sentence_pieces_total:
  "\<exists>raw. sentence_pieces w t = Inr raw \<and> clean raw \<and> restore_abbreviations (inks raw) = restore_abbreviations (ink t)"
proof -
  obtain s where s: "protect_abbreviations w (strip_spaces t) = Inr s" "hidden (strip_spaces t) s"
    using protect_hides by blast
  have "restore_abbreviations (ink s) = restore_abbreviations (ink t)"
    using hidden_restore [OF s(2)] by (metis ink_restore ink_strip)
  then show ?thesis using s
    by (auto simp: sentence_pieces_def inks_filter_strip split_runs_ink list_all_iff intro: strip_trimmed)
qed

lemma inks_restored: "concat (map (ink \<circ> restore_abbreviations) ss) = restore_abbreviations (inks ss)"
  by (simp add: restore_concat o_def)

lemma segment_sentences_total:
  "\<exists>segs. segment_sentences w t = Inr segs \<and> clean segs \<and> inks segs = restore_abbreviations (ink t)"
proof (cases "t = [] \<or> strip_spaces t = []")
  case True
  then have "ink t = []" by (metis ink_simps(1) ink_strip)
  with True show ?thesis by (auto simp: segment_sentences_def restore_abbreviations_def)
next
  case False
  obtain raw where raw: "sentence_pieces w t = Inr raw" "clean raw" "restore_abbreviations (inks raw) = restore_abbreviations (ink t)"
    using sentence_pieces_total by blast
  let ?segs = "concat (map split_long (merge_short raw))"
  have "clean ?segs" using split_long_clean merge_short_clean [OF raw(2)] by (auto simp: list_all_iff)
  moreover have "inks ?segs = inks raw" by (simp add: concat_maps split_long_ink merge_short_ink)
  ultimately show ?thesis using False raw by (simp add: segment_sentences_def inks_restored list_all_iff)
qed


subsection \<open>Lengths\<close>

definition weight :: "ustr list \<Rightarrow> nat" where
  "weight ss = sum_list (map (\<lambda>s. Suc (length s)) ss)"

definition buffer_weight :: "ustr \<Rightarrow> nat" where
  "buffer_weight s = (if s = [] then 0 else Suc (length s))"

lemma weight_simps [simp]: "weight [] = 0" "weight (s # ss) = Suc (length s) + weight ss" "weight (ss @ ts) = weight ss + weight ts"
  by (simp_all add: weight_def)

lemma strip_length: "length (strip_spaces s) \<le> length s"
  using length_dropWhile_le [of py_space "rev (dropWhile py_space s)"] length_dropWhile_le [of py_space s]
  by (simp add: strip_spaces_def)

lemma split_runs_weight: "weight (split_runs before ahead piece s) \<le> Suc (length piece + length s)"
proof (induction before ahead piece s rule: split_runs.induct)
  case (2 before ahead piece c cs)
  have "length (dropWhile py_space cs) \<le> length cs" by (rule length_dropWhile_le)
  with 2 show ?case by auto
qed simp

lemma strips_weight: "weight (filter (\<lambda>r. r \<noteq> []) (map strip_spaces ss)) \<le> weight ss"
proof (induction ss)
  case (Cons s ss)
  then show ?case using strip_length [of s] by auto
qed simp

lemma join_weight: "buffer_weight (join_to buf seg) \<le> buffer_weight buf + Suc (length seg)"
  using strip_length [of "buf @ 32 # seg"] by (auto simp: join_to_def buffer_weight_def)

lemma merge_loop_weight:
  "merge_loop merged buf segs = (m, b) \<Longrightarrow> weight m + buffer_weight b \<le> weight merged + buffer_weight buf + weight segs"
proof (induction merged buf segs rule: merge_loop.induct)
  case (2 merged buf seg segs)
  let ?c = "join_to buf seg"
  have c: "buffer_weight ?c \<le> buffer_weight buf + Suc (length seg)" by (rule join_weight)
  show ?case
  proof (cases "length ?c < min_segment")
    case True
    with 2 c show ?thesis by (auto simp: Let_def)
  next
    case False
    then have "buffer_weight ?c = Suc (length ?c)" by (auto simp: buffer_weight_def min_segment_def)
    with 2 c False show ?thesis by (auto simp: Let_def buffer_weight_def [of "[]"])
  qed
qed auto

lemma merge_loop_long:
  "merge_loop merged buf segs = (m, b) \<Longrightarrow> list_all (\<lambda>s. min_segment \<le> length s) merged
     \<Longrightarrow> list_all (\<lambda>s. min_segment \<le> length s) m"
  by (induction merged buf segs rule: merge_loop.induct) (auto simp: Let_def split: if_splits)

lemma weight_butlast: "ss \<noteq> [] \<Longrightarrow> weight (butlast ss) + Suc (length (last ss)) = weight ss"
  by (induction ss) auto

lemma merge_short_bounds:
  assumes "clean segs"
  shows "weight (merge_short segs) \<le> weight segs
    \<and> (length (merge_short segs) \<le> 1 \<or> list_all (\<lambda>s. min_segment \<le> length s) (merge_short segs))"
proof -
  obtain m b where l: "merge_loop [] [] segs = (m, b)" by fastforce
  have w: "weight m + buffer_weight b \<le> weight segs" using merge_loop_weight [OF l] by (simp add: buffer_weight_def)
  have long: "list_all (\<lambda>s. min_segment \<le> length s) m" using merge_loop_long [OF l] by simp
  have ok: "clean m" "b = [] \<or> trimmed b" using merge_loop_clean [OF l] assms by auto
  show ?thesis
  proof (cases "b = [] \<or> m = []")
    case True
    then show ?thesis using w long by (auto simp: merge_short_def l buffer_weight_def)
  next
    case False
    then have "trimmed (last m)" using ok(1) by (auto simp: list_all_iff)
    then have "strip_spaces (last m @ 32 # b) = last m @ 32 # b"
      using ok(2) False by (simp add: trimmed_joined trimmed_strip)
    moreover have "min_segment \<le> length (last m)" using long False by (auto simp: list_all_iff)
    moreover have "list_all (\<lambda>s. min_segment \<le> length s) (butlast m)" using long by (auto simp: list_all_iff dest: in_set_butlastD)
    ultimately show ?thesis using False w weight_butlast [of m]
      by (auto simp: merge_short_def l buffer_weight_def)
  qed
qed

lemma weight_member: "s \<in> set ss \<Longrightarrow> Suc (length s) \<le> weight ss"
  by (induction ss) auto

lemma split_long_short: "list_all (\<lambda>s. length s \<le> max_segment) ss \<Longrightarrow> concat (map split_long ss) = ss"
  by (induction ss) (auto simp: split_long_def)

lemma hidden_length: "hidden s s' \<Longrightarrow> length s' = length s"
  by (simp add: hidden_def list_all2_lengthD)


text \<open>
  C29: segmentation keeps the text. It never fails; every segment is non-empty and stripped, and
  the segments put together are the text, each letter once and in order, white space aside. The
  one letter that does not survive is the control character U+0001, which comes out as a full
  stop.
\<close>

theorem segmentation_faithful:
  "case segment_sentences w t of
     Inl e \<Rightarrow> False
   | Inr segs \<Rightarrow> list_all (\<lambda>s. s \<noteq> [] \<and> strip_spaces s = s) segs
               \<and> concat (map ink segs) = map (\<lambda>c. if c = 1 then 46 else c) (ink t)"
proof -
  obtain segs where "segment_sentences w t = Inr segs" "clean segs" "inks segs = restore_abbreviations (ink t)"
    using segment_sentences_total by blast
  then show ?thesis
    by (auto simp: list_all_iff trimmed_strip restore_abbreviations_def placeholder_def) (auto simp: trimmed_def)
qed

text \<open>
  The documented length bounds. A text of at most 240 letters is cut into segments of
  twelve to 240 letters, or stays one segment.
\<close>

theorem segment_bounds:
  assumes "length (strip_spaces t) \<le> 240" and "segment_sentences w t = Inr segs"
  shows "(\<forall>s\<in>set segs. length s \<le> 240) \<and> (length segs \<le> 1 \<or> (\<forall>s\<in>set segs. 12 \<le> length s))"
proof (cases "t = [] \<or> strip_spaces t = []")
  case True
  then show ?thesis using assms(2) by (auto simp: segment_sentences_def)
next
  case False
  obtain s where s: "protect_abbreviations w (strip_spaces t) = Inr s" "hidden (strip_spaces t) s"
    using protect_hides by blast
  define raw where "raw = filter (\<lambda>r. r \<noteq> []) (map strip_spaces (split_runs sentence_end opens_sentence [] s))"
  have "weight raw \<le> Suc (length s)"
    using strips_weight split_runs_weight [of sentence_end opens_sentence "[]" s] order_trans unfolding raw_def by fastforce
  then have w: "weight raw \<le> 241" using assms(1) hidden_length [OF s(2)] by simp
  have "clean raw" by (auto simp: raw_def list_all_iff intro: strip_trimmed)
  note m = merge_short_bounds [OF this]
  have short: "length x \<le> 240" if "x \<in> set (merge_short raw)" for x
    using m w weight_member [OF that] by linarith
  then have "concat (map split_long (merge_short raw)) = merge_short raw"
    by (intro split_long_short) (simp add: list_all_iff max_segment_def)
  then have "segs = map restore_abbreviations (merge_short raw)"
    using assms(2) False s(1) by (simp add: segment_sentences_def sentence_pieces_def raw_def)
  then show ?thesis using m short by (auto simp: list_all_iff min_segment_def)
qed

text \<open>Evaluation on concrete texts.\<close>

lemmas segment_eval = segment_sentences_def sentence_pieces_def protect_abbreviations_def protected_multi_period_def
  protected_abbrevs_def multi_match_def single_match_def starts_def boundary_def word_at_def re_sub.simps
  hide_dot_def placeholder_def merge_short_def join_to_def min_segment_def max_segment_def split_long_def
  restore_abbreviations_def sentence_end_def opens_sentence_def strip_spaces_def py_space_def latin_word_def cps_def Let_def

theorem segment_bounds_witness:
  "segment_sentences latin_word (cps ''Merhaba Ayse. Dr. Ali geldi!'') = Inr [cps ''Merhaba Ayse.'', cps ''Dr. Ali geldi!'']
   \<and> list_all (\<lambda>s. 12 \<le> length s) [cps ''Merhaba Ayse.'', cps ''Dr. Ali geldi!'']"
proof -
  have run: "segment_sentences latin_word (cps ''Merhaba Ayse. Dr. Ali geldi!'') = Inr [cps ''Merhaba Ayse.'', cps ''Dr. Ali geldi!'']"
    by (simp add: segment_eval)
  have "length (strip_spaces (cps ''Merhaba Ayse. Dr. Ali geldi!'')) \<le> 240"
    by (rule order_trans [OF strip_length]) (simp add: cps_def)
  from segment_bounds [OF this run] run show ?thesis by simp
qed

text \<open>Beyond 240 letters a short clause becomes a segment of its own.\<close>

lemma protect_plain:
  assumes "46 \<notin> set t"
  shows "protect_abbreviations w t = Inr t"
proof -
  have no: "\<not> starts a s" if "46 \<in> set a" "46 \<notin> set s" for a s
    using that by (metis in_set_takeD starts_def)
  have pass: "re_sub (multi_match w a) None t = Inr t" if "46 \<in> set a" for a
    using that assms no [OF that] by (intro re_sub_none) (auto simp: multi_match_def)
  have "re_sub (single_match w) None t = Inr t"
  proof (rule re_sub_none)
    fix q pre c suf
    assume "t = pre @ c # suf"
    then have "46 \<notin> set (c # suf)" using assms by simp
    then have "find (\<lambda>a. starts (a @ [46]) (c # suf)) protected_abbrevs = None" using no by (simp add: find_None)
    then show "single_match w q (c # suf) = None" by (simp add: single_match_def)
  qed
  then show ?thesis using pass by (simp add: protect_abbreviations_def protected_multi_period_def cps_def)
qed

lemma split_runs_whole: "list_all (\<lambda>c. \<not> before c) (piece @ s) \<Longrightarrow> split_runs before ahead piece s = [piece @ s]"
proof (induction before ahead piece s rule: split_runs.induct)
  case (2 before ahead piece c cs)
  have "piece \<noteq> [] \<Longrightarrow> \<not> before (last piece)" using 2(3) by (simp add: list_all_iff)
  with 2 show ?case by auto
qed simp

lemma clause_cut_short:
  "segment_sentences w (cps ''Evet, '' @ replicate 240 97) = Inr [cps ''Evet,'', replicate 240 97]"
proof -
  let ?t = "cps ''Evet, '' @ replicate 240 97"
  have t: "strip_spaces ?t = ?t" by (rule trimmed_strip) (simp add: trimmed_def cps_def py_space_def)
  have "split_runs sentence_end opens_sentence [] ?t = [?t]"
    using split_runs_whole [of sentence_end "[]" ?t] by (simp add: list_all_iff sentence_end_def cps_def)
  moreover have "protect_abbreviations w ?t = Inr ?t" by (rule protect_plain) (simp add: cps_def)
  ultimately have "sentence_pieces w ?t = Inr [?t]" using t by (simp add: sentence_pieces_def cps_def)
  moreover have "merge_short [?t] = [?t]" by (simp add: merge_short_def join_to_def min_segment_def cps_def)
  moreover have "split_long ?t = [cps ''Evet,'', replicate 240 97]"
  proof -
    have "dropWhile py_space (replicate 240 97) = replicate 240 97" by (simp add: py_space_def)
    moreover have "split_runs clause_end (\<lambda>_. True) [] (replicate 240 97) = [replicate 240 97]"
      using split_runs_whole [of clause_end "[]" "replicate 240 97"] by (simp add: list_all_iff clause_end_def)
    ultimately have "split_runs clause_end (\<lambda>_. True) [] ?t = [cps ''Evet,'', replicate 240 97]"
      by (simp add: cps_def clause_end_def py_space_def)
    moreover have "strip_spaces (cps ''Evet,'' @ 32 # replicate 240 97) = cps ''Evet,'' @ 32 # replicate 240 97"
      by (rule trimmed_strip) (simp add: trimmed_def cps_def py_space_def)
    ultimately show ?thesis by (simp add: split_long_def max_segment_def join_to_def cps_def)
  qed
  ultimately show ?thesis using t
    by (simp add: segment_sentences_def restore_abbreviations_def placeholder_def cps_def)
qed


subsection \<open>Abbreviations hold their sentence together\<close>

text \<open>What the splitter needs to know of \<open>\w\<close>: letters of the abbreviations count, the rest does not.\<close>

definition plain_words :: "(nat \<Rightarrow> bool) \<Rightarrow> bool" where
  "plain_words w \<longleftrightarrow> (\<forall>a\<in>set protected_abbrevs. list_all w a) \<and> \<not> w 46 \<and> \<not> w placeholder \<and> (\<forall>c. py_space c \<longrightarrow> \<not> w c)"

definition last_of :: "nat option \<Rightarrow> ustr \<Rightarrow> nat option" where
  "last_of p s = (if s = [] then p else Some (last s))"

definition abbrev_at :: "(nat \<Rightarrow> bool) \<Rightarrow> nat option \<Rightarrow> ustr \<Rightarrow> bool" where
  "abbrev_at w p s \<longleftrightarrow> (\<exists>pre a post. s = pre @ a @ 46 # post \<and> a \<in> set protected_abbrevs \<and> \<not> word_at w (last_of p pre))"

lemma hidden_parts: "hidden s (u @ v) \<Longrightarrow> \<exists>h1 h2. s = h1 @ h2 \<and> hidden h1 u"
  by (auto simp: hidden_def list_all2_append2)

lemma hidden_plain: "hidden s s' \<Longrightarrow> placeholder \<notin> set s' \<Longrightarrow> s = s'"
  unfolding hidden_def by (induction rule: list_all2_induct) auto

lemma longer_prefix: "xs @ ys = us @ vs \<Longrightarrow> length us \<le> length xs \<Longrightarrow> \<exists>w. xs = us @ w \<and> w @ ys = vs"
  by (auto simp: append_eq_append_conv2)

lemma abbrev_letters: "a \<in> set protected_abbrevs \<Longrightarrow> a \<noteq> [] \<and> 46 \<notin> set a \<and> placeholder \<notin> set a"
  by (auto simp: protected_abbrevs_def cps_def placeholder_def)

lemma starts_iff: "starts t s \<longleftrightarrow> (\<exists>r. s = t @ r)"
  unfolding starts_def by (metis append_eq_conv_conj append_take_drop_id)

lemma single_match_finds:
  assumes "plain_words w" "a \<in> set protected_abbrevs" "\<not> word_at w p"
  shows "single_match w p (a @ 46 # post) \<noteq> None"
proof -
  have "find (\<lambda>b. starts (b @ [46]) (a @ 46 # post)) protected_abbrevs \<noteq> None"
    using assms(2) by (auto simp: find_None starts_iff)
  moreover have "word_at w (ahead_of (a @ 46 # post))"
    using assms(1,2) abbrev_letters [OF assms(2)] by (cases a) (auto simp: plain_words_def word_at_def)
  ultimately show ?thesis using assms(3) by (auto simp: single_match_def boundary_def)
qed

lemma single_match_span:
  assumes "single_match w p s = Some (n, r)"
  obtains a where "a \<in> set protected_abbrevs" "n = Suc (length a)" "starts (a @ [46]) s" "r = Inr (a @ [placeholder])"
proof -
  obtain a where a: "find (\<lambda>b. starts (b @ [46]) s) protected_abbrevs = Some a" "n = Suc (length a)"
    and r: "r = Inr (map hide_dot (take (Suc (length a)) s))"
    using assms by (auto simp: single_match_def split: option.splits if_splits)
  note in_list = find_SomeD [OF a(1)]
  then have "take (Suc (length a)) s = a @ [46]" by (simp add: starts_def)
  moreover have "map hide_dot a = a"
    using abbrev_letters in_list by (intro map_idI) (auto simp: hide_dot_def)
  ultimately have "r = Inr (a @ [placeholder])" using r by (simp add: hide_dot_def)
  then show ?thesis using that in_list a(2) by blast
qed

text \<open>Inside a protected abbreviation no other one can begin.\<close>

lemma abbrev_at_after:
  assumes w: "plain_words w" and a: "a \<in> set protected_abbrevs"
    and s: "abbrev_at w p (a @ placeholder # r)"
  shows "abbrev_at w (Some placeholder) r"
proof -
  obtain pre b post where eq: "a @ placeholder # r = pre @ b @ 46 # post" and b: "b \<in> set protected_abbrevs"
    and start: "\<not> word_at w (last_of p pre)" using s unfolding abbrev_at_def by blast
  note al = abbrev_letters [OF a] and bl = abbrev_letters [OF b]
  have "\<not> length pre \<le> length a"
  proof
    assume "length pre \<le> length a"
    then obtain v where v: "a = pre @ v" "v @ placeholder # r = b @ 46 # post"
      using longer_prefix [OF eq] by blast
    have "pre = []"
    proof (rule ccontr)
      assume "pre \<noteq> []"
      then have "last pre \<in> set a" using v(1) by simp
      then show False using start w a \<open>pre \<noteq> []\<close> by (auto simp: plain_words_def last_of_def word_at_def list_all_iff)
    qed
    then have "a @ placeholder # r = b @ 46 # post" using v by simp
    then show False using al bl
      by (auto simp: append_eq_append_conv2 Cons_eq_append_conv append_eq_Cons_conv placeholder_def)
  qed
  then obtain v where v: "pre = a @ v" "v @ b @ 46 # post = placeholder # r" "v \<noteq> []"
    using longer_prefix [OF eq [symmetric]] by fastforce
  then obtain u where u: "pre = (a @ [placeholder]) @ u" "r = u @ b @ 46 # post"
    by (cases v) auto
  have "\<not> word_at w (last_of (Some placeholder) u)"
    using start u(1) by (cases "u = []") (auto simp: last_of_def)
  then show ?thesis using u(2) b unfolding abbrev_at_def by blast
qed

lemma protected_complete:
  "plain_words w \<Longrightarrow> re_sub (single_match w) p t = Inr s \<Longrightarrow> word_at w q = word_at w p \<Longrightarrow> \<not> abbrev_at w q s"
proof (induction "single_match w" p t arbitrary: s q rule: re_sub.induct)
  case (1 p)
  then show ?case by (auto simp: abbrev_at_def dest: abbrev_letters)
next
  case (2 p c cs)
  show ?case
  proof (cases "single_match w p (c # cs)")
    case None
    then obtain r where r: "re_sub (single_match w) (Some c) cs = Inr r" "s = c # r"
      using 2(4) by (auto simp: re_sub_skip bindS_Inr)
    have rest: "\<not> abbrev_at w (Some c) r" using 2(1) [OF None] 2(3) r(1) by blast
    show ?thesis
    proof
      assume "abbrev_at w q s"
      then obtain pre a post where s: "c # r = pre @ a @ 46 # post" "a \<in> set protected_abbrevs" "\<not> word_at w (last_of q pre)"
        unfolding abbrev_at_def r(2) by blast
      show False
      proof (cases pre)
        case Nil
        have "hidden (c # cs) (c # r)" using hides_sub [OF hides_matchers(2), of w p "c # cs"] None r by (auto simp: re_sub_skip)
        then have "hidden (c # cs) ((a @ [46]) @ post)" using s(1) Nil by simp
        then obtain h1 h2 where h: "c # cs = h1 @ h2" "hidden h1 (a @ [46])"
          using hidden_parts by blast
        have "h1 = a @ [46]"
          using hidden_plain [OF h(2)] abbrev_letters [OF s(2)] by (simp add: placeholder_def)
        then have "single_match w p (a @ 46 # h2) \<noteq> None"
          using single_match_finds [OF 2(3) s(2)] s(3) 2(5) Nil by (simp add: last_of_def)
        then show False using None h(1) \<open>h1 = a @ [46]\<close> by simp
      next
        case (Cons x pre')
        then have "r = pre' @ a @ 46 # post" "\<not> word_at w (last_of (Some c) pre')" using s by (auto simp: last_of_def)
        then show False using rest s(2) unfolding abbrev_at_def by blast
      qed
    qed
  next
    case (Some x)
    obtain n rep where x: "x = (n, rep)" by fastforce
    obtain a where a: "a \<in> set protected_abbrevs" "n = Suc (length a)" "starts (a @ [46]) (c # cs)" "rep = Inr (a @ [placeholder])"
      using single_match_span [OF Some [unfolded x]] by blast
    then have taken: "c # take (n - 1) cs = a @ [46]" by (simp add: starts_def)
    have run: "re_sub (single_match w) p (c # cs)
        = bindS (re_sub (single_match w) (Some 46) (drop (n - 1) cs)) (\<lambda>r. Inr ((a @ [placeholder]) @ r))"
      using taken Some by (simp add: re_sub.simps(2) x a(4) del: last.simps One_nat_def)
    then obtain r where r: "re_sub (single_match w) (Some 46) (drop (n - 1) cs) = Inr r" "s = (a @ [placeholder]) @ r"
      using 2(4) unfolding run bindS_Inr by auto
    have "word_at w (Some placeholder) = word_at w (Some (last (a @ [46])))"
      using 2(3) by (simp add: plain_words_def word_at_def)
    then have "\<not> abbrev_at w (Some placeholder) r"
      using 2(2) [OF Some x [symmetric], unfolded taken] 2(3) r(1) by simp
    then show ?thesis using abbrev_at_after [OF 2(3) a(1)] r(2) by auto
  qed
qed


text \<open>Every piece but the last of a split begins where a separator ended and ends before the next.\<close>

lemma split_runs_ends:
  assumes "r \<in> set (butlast (split_runs before ahead piece s))"
  shows "\<exists>pre post. piece @ s = pre @ r @ post \<and> (pre = [] \<or> py_space (last pre)) \<and> r \<noteq> [] \<and> before (last r)"
  using assms
proof (induction before ahead piece s rule: split_runs.induct)
  case (2 before ahead piece c cs)
  show ?case
  proof (cases "py_space c \<and> piece \<noteq> [] \<and> before (last piece) \<and> ahead (dropWhile py_space cs)")
    case True
    consider "r = piece" | "r \<in> set (butlast (split_runs before ahead [] (dropWhile py_space cs)))"
      using 2(3) True by auto
    then show ?thesis
    proof cases
      case 1
      then show ?thesis using True by (intro exI [of _ "[]"] exI [of _ "c # cs"]) simp
    next
      case 2
      then obtain pre post where p: "dropWhile py_space cs = pre @ r @ post" "pre = [] \<or> py_space (last pre)" "r \<noteq> []" "before (last r)"
        using "2.IH"(1) [OF True] by auto
      let ?pre = "piece @ (c # takeWhile py_space cs) @ pre"
      have "list_all py_space (c # takeWhile py_space cs)" using True by (auto simp: list_all_iff dest: set_takeWhileD)
      then have "py_space (last (c # takeWhile py_space cs))" by (metis last_in_set list.distinct(1) list_all_iff)
      then have "py_space (last ?pre)" using p(2) by (cases "pre = []") (simp_all add: last_append)
      moreover have "piece @ c # cs = ?pre @ r @ post" using p(1) takeWhile_dropWhile_id [of py_space cs] by simp
      ultimately show ?thesis using p(3,4) by blast
    qed
  next
    case False
    then have "r \<in> set (butlast (split_runs before ahead (piece @ [c]) cs))" using 2(3) by auto
    then show ?thesis using "2.IH"(2) [OF False] by simp
  qed
qed simp

text \<open>
  Abbreviations do not end a sentence. Whatever the text, no sentence but the last that the
  splitter makes of it ends with one of the protected abbreviations and its full stop.
\<close>

theorem abbreviations_hold:
  assumes "plain_words w" and "protect_abbreviations w (strip_spaces t) = Inr s"
    and "r \<in> set (butlast (split_runs sentence_end opens_sentence [] s))" and "a \<in> set protected_abbrevs"
    and "restore_abbreviations r = u @ a @ [46]"
  shows "u \<noteq> [] \<and> w (last u)"
proof (rule ccontr)
  assume no: "\<not> (u \<noteq> [] \<and> w (last u))"
  obtain t1 where "re_sub (single_match w) None t1 = Inr s" using assms(2) by (auto simp: protect_abbreviations_def bindS_Inr)
  then have held: "\<not> abbrev_at w None s" using protected_complete [OF assms(1)] by blast
  obtain pre post where s: "s = pre @ r @ post" "pre = [] \<or> py_space (last pre)" "r \<noteq> []" "sentence_end (last r)"
    using split_runs_ends [OF assms(3)] by auto
  obtain u' a' x where r: "r = u' @ a' @ [x]" "restore_abbreviations u' = u" "restore_abbreviations a' = a"
    using assms(5) unfolding restore_abbreviations_def
    by (auto simp: map_eq_append_conv append_eq_map_conv Cons_eq_map_conv)
  have "a' = a" using restore_plain [of a'] r(3) abbrev_letters [OF assms(4)] by simp
  have "x = 46"
  proof -
    have "(if x = placeholder then 46 else x) = 46" using assms(5) r by (simp add: restore_abbreviations_def)
    then show ?thesis using s(4) r(1) by (auto simp: sentence_end_def placeholder_def split: if_splits)
  qed
  then have "s = (pre @ u') @ a @ 46 # post" using s(1) r(1) \<open>a' = a\<close> by simp
  moreover have "\<not> word_at w (last_of None (pre @ u'))"
  proof (cases "u' = []")
    case True
    then show ?thesis using s(2) assms(1) by (auto simp: last_of_def word_at_def plain_words_def)
  next
    case False
    then have "last u = (if last u' = placeholder then 46 else last u')" "u \<noteq> []"
      using r(2) by (auto simp: restore_abbreviations_def last_map)
    then have "\<not> w (last u')" using no assms(1) by (auto simp: plain_words_def split: if_splits)
    then show ?thesis using False by (simp add: last_of_def word_at_def)
  qed
  ultimately have "abbrev_at w None s" unfolding abbrev_at_def using assms(4) by blast
  with held show False by blast
qed


theorem abbreviations_hold_witness:
  "protect_abbreviations latin_word (cps ''AbDr. Ali'') = Inr (cps ''AbDr. Ali'')
   \<and> butlast (split_runs sentence_end opens_sentence [] (cps ''AbDr. Ali'')) = [cps ''AbDr.'']
   \<and> latin_word (last (cps ''Ab''))"
proof -
  have words: "plain_words latin_word"
    by (auto simp: plain_words_def protected_abbrevs_def latin_word_def placeholder_def py_space_def cps_def)
  have s: "protect_abbreviations latin_word (strip_spaces (cps ''AbDr. Ali'')) = Inr (cps ''AbDr. Ali'')"
    "protect_abbreviations latin_word (cps ''AbDr. Ali'') = Inr (cps ''AbDr. Ali'')"
    by (simp_all add: segment_eval)
  have r: "butlast (split_runs sentence_end opens_sentence [] (cps ''AbDr. Ali'')) = [cps ''AbDr.'']"
    by (simp add: segment_eval)
  have "cps ''Dr'' \<in> set protected_abbrevs" by (simp add: protected_abbrevs_def)
  moreover have "restore_abbreviations (cps ''AbDr.'') = cps ''Ab'' @ cps ''Dr'' @ [46]" by (simp add: segment_eval)
  ultimately show ?thesis using abbreviations_hold [OF words s(1), unfolded r, of "cps ''AbDr.''" "cps ''Dr''" "cps ''Ab''"] s(2) r
    by (simp add: latin_word_def)
qed

end
