(* ===== verification/Normalizer.thy ===== *)
theory Normalizer
  imports Turkish_Numbers Segmenter
begin

text \<open>
  Text normalization (\<^verbatim>\<open>src/frontend/lang_packs/tr/normalize.py\<close>): invisible characters,
  abbreviations, pronunciations, times, numbers, symbols and white space. Parameters are what
  Python takes from the Unicode database: the word characters of \<open>re\<close>, NFKC, and which characters
  \<open>re.IGNORECASE\<close> identifies. \<open>\d\<close> is an ASCII digit here.
\<close>

subsection \<open>Unicode\<close>

record unicode =
  uc_word :: "nat \<Rightarrow> bool"
  uc_nfkc :: "ustr \<Rightarrow> ustr"
  uc_same :: "nat \<Rightarrow> nat \<Rightarrow> bool"

definition invisible_mark :: "nat \<Rightarrow> bool" where
  "invisible_mark c \<longleftrightarrow> (0x200B \<le> c \<and> c \<le> 0x200F) \<or> (0x202A \<le> c \<and> c \<le> 0x202E) \<or> c = 0x2060 \<or> c = 0xFEFF"

text \<open>\<open>replace("\r\n", "\n")\<close>.\<close>

fun unify_crlf :: "ustr \<Rightarrow> ustr" where
  "unify_crlf (c # d # s) = (if c = 13 \<and> d = 10 then 10 # unify_crlf s else c # unify_crlf (d # s))"
| "unify_crlf s = s"

subsection \<open>Tables\<close>

definition abbreviations :: "(ustr \<times> ustr) list" where
  "abbreviations =
     [(cps ''TBMM'', cps ''T'' @ [0xFC] @ cps ''rkiye B'' @ [0xFC, 0x79, 0xFC] @ cps ''k Millet Meclisi''),
      (cps ''KKTC'', cps ''Kuzey K'' @ [0x131] @ cps ''br'' @ [0x131] @ cps ''s T'' @ [0xFC] @ cps ''rk Cumhuriyeti''),
      (cps ''THY'', cps ''T'' @ [0xFC] @ cps ''rk Hava Yollar'' @ [0x131]),
      (cps ''vb.'', cps ''ve benzeri''), (cps ''vs.'', cps ''vesaire''),
      (cps ''Prof.'', cps ''profes'' @ [0xF6] @ cps ''r''), (cps ''Do'' @ [0xE7, 46], cps ''do'' @ [0xE7] @ cps ''ent''),
      (cps ''Dr.'', cps ''doktor''), (cps ''Av.'', cps ''avukat''), (cps ''Bn.'', cps ''bayan''),
      (cps ''Sn.'', cps ''say'' @ [0x131] @ cps ''n''), (cps ''Mah.'', cps ''mahalle''), (cps ''Sok.'', cps ''sokak''),
      (cps ''Cad.'', cps ''cadde''), (cps ''No.'', cps ''numara'')]"

definition symbol_map :: "(nat \<times> ustr) list" where
  "symbol_map =
     [(37, cps ''y'' @ [0xFC] @ cps ''zde''), (0x20BA, cps ''lira''), (0x20AC, cps ''euro''), (36, cps ''dolar''),
      (0xA3, cps ''sterlin''), (38, cps ''ve''), (43, cps ''art'' @ [0x131]), (61, cps ''e'' @ [0x15F] @ cps ''ittir''),
      (0xD7, [0xE7] @ cps ''arp'' @ [0x131]), (0xF7, cps ''b'' @ [0xF6] @ cps ''l'' @ [0xFC])]"

definition code_mix_lexicon :: "(ustr \<times> ustr) list" where
  "code_mix_lexicon =
     [(cps ''iPhone'', cps ''ayp'' @ [0x131] @ cps ''n''), (cps ''iphone'', cps ''ayp'' @ [0x131] @ cps ''n''),
      (cps ''Android'', cps ''androyd''), (cps ''android'', cps ''androyd''),
      (cps ''Bluetooth'', cps ''blutut''), (cps ''bluetooth'', cps ''blutut''),
      (cps ''WiFi'', cps ''vayfay''), (cps ''wifi'', cps ''vayfay''),
      (cps ''Google'', cps ''gug'' @ [0x131] @ cps ''l''), (cps ''google'', cps ''gug'' @ [0x131] @ cps ''l''),
      (cps ''Apple'', cps ''ep'' @ [0x131] @ cps ''l''), (cps ''apple'', cps ''ep'' @ [0x131] @ cps ''l''),
      (cps ''Microsoft'', cps ''maykrosoft''), (cps ''YouTube'', cps ''yutub''), (cps ''youtube'', cps ''yutub'')]"

subsection \<open>Literal patterns\<close>

text \<open>\<open>(?<!\w)abbr\<close>, and \<open>\btoken\b\<close> with a relation between the pattern's and the text's characters.\<close>

definition abbr_match :: "(nat \<Rightarrow> bool) \<Rightarrow> ustr \<Rightarrow> ustr \<Rightarrow> matcher" where
  "abbr_match w abbr full p s = (if \<not> word_at w p \<and> starts abbr s then Some (length abbr, Inr full) else None)"

definition token_match :: "(nat \<Rightarrow> bool) \<Rightarrow> (nat \<Rightarrow> nat \<Rightarrow> bool) \<Rightarrow> ustr \<Rightarrow> (ustr \<Rightarrow> ustr) \<Rightarrow> matcher" where
  "token_match w same token f p s =
     (let m = take (length token) s; rest = drop (length token) s
      in if list_all2 same token m \<and> boundary w p (ahead_of s) \<and> boundary w (Some (last m)) (ahead_of rest)
         then Some (length token, Inr (f m)) else None)"

text \<open>\<open>for ... in table: text = re.sub(...)\<close>.\<close>

fun sub_all :: "matcher list \<Rightarrow> ustr \<Rightarrow> py_error + ustr" where
  "sub_all [] t = Inr t"
| "sub_all (m # ms) t = bindS (re_sub m None t) (sub_all ms)"

definition expand_abbreviations :: "(nat \<Rightarrow> bool) \<Rightarrow> ustr \<Rightarrow> py_error + ustr" where
  "expand_abbreviations w = sub_all (map (\<lambda>(abbr, full). abbr_match w abbr full) abbreviations)"

definition expand_code_mix :: "(nat \<Rightarrow> bool) \<Rightarrow> ustr \<Rightarrow> py_error + ustr" where
  "expand_code_mix w = sub_all (map (\<lambda>(token, pron). token_match w (=) token (\<lambda>_. pron)) code_mix_lexicon)"

fun expand_symbols :: "(nat \<times> ustr) list \<Rightarrow> ustr \<Rightarrow> ustr" where
  "expand_symbols [] t = t"
| "expand_symbols ((c, word) # ss) t = expand_symbols ss (replace_char c (32 # word @ [32]) t)"

subsection \<open>A caller's pronunciations\<close>

text \<open>
  The replacement is a template of \<open>re.sub\<close>: a backslash starts an escape, an octal code or a
  reference to a group, of which the pattern has none but the match itself. \<open>None\<close> in the parsed
  template stands for the match.
\<close>

definition octal :: "nat \<Rightarrow> bool" where "octal c \<longleftrightarrow> 48 \<le> c \<and> c \<le> 55"

definition template_escapes :: "(nat \<times> nat) list" where
  "template_escapes = [(97, 7), (98, 8), (102, 12), (110, 10), (114, 13), (116, 9), (118, 11), (92, 92)]"

text \<open>What follows a backslash: the part it stands for, and how many characters it takes.\<close>

definition template_escape :: "ustr \<Rightarrow> (nat option list \<times> nat) option" where
  "template_escape s =
     (case s of [] \<Rightarrow> None
      | d # ds \<Rightarrow>
         if d = 103
         then (let name = takeWhile (\<lambda>c. c \<noteq> 62) (tl ds)
               in if starts [60] ds \<and> Suc (length name) < length ds \<and> name \<noteq> [] \<and> list_all (\<lambda>c. c = 48) name
                  then Some ([None], length name + 3) else None)
         else if d = 48
         then (let code = takeWhile octal (take 2 ds) in Some ([Some (foldl (\<lambda>a c. a * 8 + (c - 48)) 0 code)], Suc (length code)))
         else if digit d
         then (let code = takeWhile octal (take 3 s); v = foldl (\<lambda>a c. a * 8 + (c - 48)) 0 code
               in if length code = 3 \<and> v \<le> 255 then Some ([Some v], 3) else None)
         else (case map_of template_escapes d of
                 Some x \<Rightarrow> Some ([Some x], 1)
               | None \<Rightarrow> if (65 \<le> d \<and> d \<le> 90) \<or> (97 \<le> d \<and> d \<le> 122) then None else Some ([Some 92, Some d], 1)))"

function parse_template :: "ustr \<Rightarrow> py_error + nat option list" where
  "parse_template [] = Inr []"
| "parse_template (c # cs) =
     (if c \<noteq> 92 then bindS (parse_template cs) (\<lambda>ps. Inr (Some c # ps))
      else (case template_escape cs of
              None \<Rightarrow> Inl (RuntimeError ''re.error'')
            | Some (parts, n) \<Rightarrow> bindS (parse_template (drop n cs)) (\<lambda>ps. Inr (parts @ ps))))"
  by pat_completeness auto
termination by (relation "measure length") auto

definition fill_template :: "nat option list \<Rightarrow> ustr \<Rightarrow> ustr" where
  "fill_template parts m = concat (map (\<lambda>p. case p of None \<Rightarrow> m | Some c \<Rightarrow> [c]) parts)"

fun expand_user_pronunciation :: "unicode \<Rightarrow> (ustr \<times> ustr) list \<Rightarrow> ustr \<Rightarrow> py_error + ustr" where
  "expand_user_pronunciation U [] t = Inr t"
| "expand_user_pronunciation U ((token, pron) # mapping) t =
     (if token = [] then expand_user_pronunciation U mapping t
      else bindS (parse_template pron) (\<lambda>parts.
           bindS (re_sub (token_match (uc_word U) (uc_same U) token (fill_template parts)) None t)
                 (expand_user_pronunciation U mapping)))"

subsection \<open>Times and numbers\<close>

definition saat :: ustr where "saat = cps ''saat ''"

definition expand_time :: "ustr \<Rightarrow> ustr \<Rightarrow> py_error + ustr" where
  "expand_time hh mm =
     bindS (bindS (py_int hh) number_to_turkish) (\<lambda>h.
     bindS (py_int mm) (\<lambda>m.
     if m = 0 then Inr (saat @ h) else bindS (number_to_turkish m) (\<lambda>w. Inr (saat @ h @ 32 # w))))"

definition hour_shape :: "ustr \<Rightarrow> bool" where
  "hour_shape hh \<longleftrightarrow> length hh = 1 \<or> (length hh = 2 \<and> (hd hh \<in> {48, 49} \<or> (hd hh = 50 \<and> hh ! 1 \<le> 51)))"

definition time_match :: "(nat \<Rightarrow> bool) \<Rightarrow> matcher" where
  "time_match w p s =
     (let hh = takeWhile digit s; mm = take 2 (drop (Suc (length hh)) s); rest = drop (length hh + 3) s
      in if \<not> word_at w p \<and> hour_shape hh \<and> starts [58] (drop (length hh) s) \<and> length mm = 2 \<and> hd mm \<le> 53
           \<and> list_all digit mm \<and> \<not> word_at w (ahead_of rest)
         then Some (length hh + 3, expand_time hh mm) else None)"

text \<open>An optional minus sign: its length, and the text without it.\<close>

definition sign_length :: "ustr \<Rightarrow> nat" where
  "sign_length s = (if starts [45] s then 1 else 0)"

definition signed_words :: "ustr \<Rightarrow> (ustr \<Rightarrow> py_error + ustr) \<Rightarrow> py_error + ustr" where
  "signed_words raw f =
     bindS (f (drop (sign_length raw) raw)) (\<lambda>w. Inr ((if starts [45] raw then eksi_word else []) @ w))"

definition expand_thousand_grouped :: "ustr \<Rightarrow> py_error + ustr" where
  "expand_thousand_grouped raw = signed_words raw (\<lambda>raw.
     if 44 \<in> set raw
     then (case split_once 44 raw of (int_part, frac_part) \<Rightarrow>
             decimal_to_turkish (replace_char 46 [] int_part @ 46 # frac_part))
     else bindS (py_int (replace_char 46 [] raw)) number_to_turkish)"

definition expand_integer :: "ustr \<Rightarrow> py_error + ustr" where
  "expand_integer raw = signed_words raw (\<lambda>raw. bindS (py_int raw) number_to_turkish)"

text \<open>How many groups of a full stop and three digits the text starts with.\<close>

function dot_groups :: "ustr \<Rightarrow> nat" where
  "dot_groups s =
     (if starts [46] s \<and> length (takeWhile digit (take 3 (drop 1 s))) = 3 then Suc (dot_groups (drop 4 s)) else 0)"
  by pat_completeness auto
termination
proof (relation "measure length")
  fix s :: ustr
  assume "starts [46] s \<and> length (takeWhile digit (take 3 (drop 1 s))) = 3"
  then show "(drop 4 s, s) \<in> measure length" by (cases s) (auto simp: starts_def)
qed simp

declare dot_groups.simps [simp del]

text \<open>Backtracking: as many groups as the look-ahead allows, with decimals if it allows them.\<close>

fun grouped_end :: "(nat \<Rightarrow> bool) \<Rightarrow> ustr \<Rightarrow> nat \<Rightarrow> nat option" where
  "grouped_end w s 0 = None"
| "grouped_end w s (Suc k) =
     (let r = drop (4 * Suc k) s; frac = takeWhile digit (drop 1 r)
      in if starts [44] r \<and> frac \<noteq> [] \<and> \<not> word_at w (ahead_of (drop (Suc (length frac)) r))
         then Some (4 * Suc k + Suc (length frac))
         else if \<not> word_at w (ahead_of r) then Some (4 * Suc k)
         else grouped_end w s k)"

definition grouped_match :: "(nat \<Rightarrow> bool) \<Rightarrow> matcher" where
  "grouped_match w p s =
     (let sign = sign_length s; int_part = takeWhile digit (drop sign s); rest = drop (sign + length int_part) s
      in if \<not> word_at w p \<and> 1 \<le> length int_part \<and> length int_part \<le> 3
         then (case grouped_end w rest (dot_groups rest) of
                 None \<Rightarrow> None
               | Some n \<Rightarrow> let k = sign + length int_part + n in Some (k, expand_thousand_grouped (take k s)))
         else None)"

definition decimal_match :: "(nat \<Rightarrow> bool) \<Rightarrow> matcher" where
  "decimal_match w p s =
     (let sign = sign_length s; int_part = takeWhile digit (drop sign s);
          rest = drop (sign + length int_part) s; frac = takeWhile digit (drop 1 rest);
          k = sign + length int_part + Suc (length frac)
      in if \<not> word_at w p \<and> int_part \<noteq> [] \<and> (starts [46] rest \<or> starts [44] rest) \<and> frac \<noteq> []
           \<and> \<not> word_at w (ahead_of (drop k s))
         then Some (k, decimal_to_turkish (take k s)) else None)"

definition integer_match :: "(nat \<Rightarrow> bool) \<Rightarrow> matcher" where
  "integer_match w p s =
     (let sign = sign_length s; int_part = takeWhile digit (drop sign s); k = sign + length int_part
      in if \<not> word_at w p \<and> 1 \<le> length int_part \<and> length int_part \<le> 15 \<and> \<not> word_at w (ahead_of (drop k s))
         then Some (k, expand_integer (take k s)) else None)"

subsection \<open>White space\<close>

definition blank_match :: matcher where
  "blank_match p s = (let n = length (takeWhile (\<lambda>c. c \<in> {32, 9, 0xA0}) s) in if n = 0 then None else Some (n, Inr [32]))"

definition newline_match :: matcher where
  "newline_match p s = (let n = length (takeWhile (\<lambda>c. c = 10) s) in if n < 3 then None else Some (n, Inr [10, 10]))"

subsection \<open>The pipeline\<close>

definition normalize_text :: "unicode \<Rightarrow> (ustr \<times> ustr) list option \<Rightarrow> ustr \<Rightarrow> py_error + ustr" where
  "normalize_text U pronunciation_dict t =
     (if t = [] then Inr []
      else let w = uc_word U;
               t = uc_nfkc U (filter (\<lambda>c. \<not> invisible_mark c) t);
               t = map (\<lambda>c. if c = 13 then 10 else c) (unify_crlf t)
           in bindS (expand_abbreviations w t) (\<lambda>t.
              bindS (expand_user_pronunciation U (case pronunciation_dict of None \<Rightarrow> [] | Some d \<Rightarrow> d) t) (\<lambda>t.
              bindS (expand_code_mix w t) (\<lambda>t.
              bindS (sub_all [time_match w, grouped_match w, decimal_match w, integer_match w] t) (\<lambda>t.
              bindS (sub_all [blank_match, newline_match] (expand_symbols symbol_map t)) (\<lambda>t.
                Inr (strip_spaces t)))))))"


subsection \<open>Patterns that do not occur\<close>

lemma starts_head: "starts a s \<Longrightarrow> a \<noteq> [] \<Longrightarrow> hd a \<in> set s"
  unfolding starts_def by (metis hd_in_set in_set_takeD)

lemma abbr_absent: "a \<noteq> [] \<Longrightarrow> hd a \<notin> set t \<Longrightarrow> re_sub (abbr_match w a full) p t = Inr t"
  by (rule re_sub_none) (auto simp: abbr_match_def dest: starts_head)

lemma token_absent: "a \<noteq> [] \<Longrightarrow> hd a \<notin> set t \<Longrightarrow> re_sub (token_match w (=) a f) p t = Inr t"
proof (rule re_sub_none)
  fix q pre c suf
  assume t: "a \<noteq> []" "hd a \<notin> set t" "t = pre @ c # suf"
  then have "hd a \<notin> set (c # suf)" by auto
  then have "\<not> starts a (c # suf)" using t(1) starts_head by blast
  then show "token_match w (=) a f q (c # suf) = None"
    by (auto simp: token_match_def starts_def list.rel_eq Let_def)
qed

lemma sub_all_id: "list_all (\<lambda>m. re_sub m None t = Inr t) ms \<Longrightarrow> sub_all ms t = Inr t"
  by (induction ms) auto

definition letter_free :: "ustr \<Rightarrow> bool" where
  "letter_free t \<longleftrightarrow> list_all (\<lambda>c. c < 65) t"

lemma abbreviations_absent: "letter_free t \<Longrightarrow> expand_abbreviations w t = Inr t"
  unfolding expand_abbreviations_def
  by (rule sub_all_id) (auto simp: abbreviations_def cps_def letter_free_def list_all_iff intro!: abbr_absent)

lemma code_mix_absent: "letter_free t \<Longrightarrow> expand_code_mix w t = Inr t"
  unfolding expand_code_mix_def
  by (rule sub_all_id) (auto simp: code_mix_lexicon_def cps_def letter_free_def list_all_iff intro!: token_absent)

lemma starts_char: "starts [x] s \<Longrightarrow> x \<in> set s"
  using starts_head [of "[x]" s] by simp

lemma time_absent: "58 \<notin> set t \<Longrightarrow> re_sub (time_match w) p t = Inr t"
  by (rule re_sub_none) (auto simp: time_match_def Let_def dest!: starts_char in_set_dropD)

lemma decimal_absent: "46 \<notin> set t \<Longrightarrow> 44 \<notin> set t \<Longrightarrow> re_sub (decimal_match w) p t = Inr t"
  by (rule re_sub_none) (auto simp: decimal_match_def Let_def dest!: starts_char in_set_dropD)

lemma no_groups: "46 \<notin> set s \<Longrightarrow> dot_groups s = 0"
  by (subst dot_groups.simps) (auto dest: starts_char)

lemma grouped_absent: "46 \<notin> set t \<Longrightarrow> re_sub (grouped_match w) p t = Inr t"
proof (rule re_sub_none)
  fix q pre c suf
  assume t: "46 \<notin> set t" "t = pre @ c # suf"
  have "dot_groups (drop n (c # suf)) = 0" for n using t by (intro no_groups) (auto dest: in_set_dropD)
  then show "grouped_match w q (c # suf) = None" by (simp add: grouped_match_def Let_def)
qed

subsection \<open>Spoken words\<close>

text \<open>Lower-case words with single blanks between them.\<close>

definition spoken_letter :: "nat \<Rightarrow> bool" where
  "spoken_letter c \<longleftrightarrow> (97 \<le> c \<and> c \<le> 122) \<or> c \<in> {0xE7, 0xF6, 0xFC, 0x131, 0x15F}"

definition spoken_atom :: "ustr \<Rightarrow> bool" where
  "spoken_atom s \<longleftrightarrow> s \<noteq> [] \<and> list_all spoken_letter s"

inductive spoken :: "ustr \<Rightarrow> bool" where
  one: "spoken_atom s \<Longrightarrow> spoken s"
| more: "spoken_atom s \<Longrightarrow> spoken t \<Longrightarrow> spoken (s @ 32 # t)"

lemma spoken_append: "spoken s \<Longrightarrow> spoken t \<Longrightarrow> spoken (s @ 32 # t)"
  by (induction s rule: spoken.induct) (auto intro: spoken.intros)

lemma spoken_join: "ws \<noteq> [] \<Longrightarrow> list_all spoken ws \<Longrightarrow> spoken (join_sp ws)"
  by (induction ws rule: join_sp.induct) (auto intro: spoken_append)

lemma spoken_chars: "spoken s \<Longrightarrow> list_all (\<lambda>c. spoken_letter c \<or> c = 32) s"
  by (induction s rule: spoken.induct) (auto simp: spoken_atom_def list_all_iff)

lemma spoken_letter_plain: "spoken_letter c \<Longrightarrow> \<not> py_space c \<and> c \<noteq> 32 \<and> c \<noteq> 9 \<and> c \<noteq> 10 \<and> c \<noteq> 0xA0"
  by (auto simp: spoken_letter_def py_space_def)

lemma spoken_trimmed: "spoken s \<Longrightarrow> trimmed s"
proof (induction s rule: spoken.induct)
  case (one s)
  then show ?case by (cases s rule: rev_cases) (auto simp: trimmed_def spoken_atom_def list_all_iff spoken_letter_plain hd_append)
next
  case (more s t)
  have "trimmed s" using more(1)
    by (cases s rule: rev_cases) (auto simp: trimmed_def spoken_atom_def list_all_iff spoken_letter_plain hd_append)
  with more show ?case by (simp add: trimmed_joined)
qed

lemma symbols_absent: "list_all (\<lambda>(c, w). c \<notin> set t) ss \<Longrightarrow> expand_symbols ss t = t"
proof (induction ss)
  case (Cons s ss)
  obtain c w where s: "s = (c, w)" by fastforce
  have "concat (map (\<lambda>x. if x = c then v else [x]) t) = t" if "c \<notin> set t" for v
    using that by (induction t) auto
  then show ?case using Cons s by (simp add: replace_char_def)
qed simp

lemma spoken_symbols: "spoken t \<Longrightarrow> expand_symbols symbol_map t = t"
  by (rule symbols_absent)
    (use spoken_chars [of t] in \<open>auto simp: symbol_map_def spoken_letter_def list_all_iff\<close>)

lemma blank_skip: "list_all spoken_letter s \<Longrightarrow> re_sub blank_match p (s @ t) = bindS (re_sub blank_match (last_of p s) t) (\<lambda>r. Inr (s @ r))"
proof (induction s arbitrary: p)
  case (Cons c s)
  then have "blank_match p ((c # s) @ t) = None" using spoken_letter_plain [of c] by (simp add: blank_match_def)
  then show ?case using Cons
    by (cases "re_sub blank_match (last_of (Some c) s) t") (auto simp: re_sub_skip last_of_def)
qed (auto simp: last_of_def bindS_def split: sum.split)

lemma spoken_blanks: "spoken t \<Longrightarrow> re_sub blank_match p t = Inr t"
proof (induction t arbitrary: p rule: spoken.induct)
  case (one s)
  then show ?case using blank_skip [of s p "[]"] by (simp add: spoken_atom_def)
next
  case (more s t)
  have "trimmed t" using spoken_trimmed more(2) .
  then obtain c cs where t: "t = c # cs" by (cases t) (auto simp: trimmed_def)
  have "c \<noteq> 32 \<and> c \<noteq> 9 \<and> c \<noteq> 0xA0" using \<open>trimmed t\<close> t by (auto simp: trimmed_def py_space_def)
  then have "blank_match q (32 # t) = Some (Suc 0, Inr [32])" for q by (simp add: blank_match_def t)
  then have "re_sub blank_match q (32 # t) = Inr (32 # t)" for q using more(3) by (simp add: re_sub.simps(2))
  then show ?case using more(1) blank_skip [of s p "32 # t"] by (simp add: spoken_atom_def)
qed

lemma newlines_absent: "10 \<notin> set t \<Longrightarrow> re_sub newline_match p t = Inr t"
  by (rule re_sub_none) (auto simp: newline_match_def Let_def)

lemma spoken_stable:
  assumes "spoken t"
  shows "sub_all [blank_match, newline_match] (expand_symbols symbol_map t) = Inr t" "strip_spaces t = t"
proof -
  have "10 \<notin> set t" using spoken_chars [OF assms] by (auto simp: list_all_iff spoken_letter_def)
  then show "sub_all [blank_match, newline_match] (expand_symbols symbol_map t) = Inr t"
    by (simp add: assms spoken_symbols spoken_blanks newlines_absent)
  show "strip_spaces t = t" using spoken_trimmed [OF assms] by (rule trimmed_strip)
qed


text \<open>Number words are spoken words.\<close>

lemma spoken_word: "spoken_atom s \<Longrightarrow> spoken s"
  by (rule spoken.one)

lemma word_atoms:
  "0 < d \<Longrightarrow> d < 10 \<Longrightarrow> spoken (ones_words ! d)" "0 < d \<Longrightarrow> d < 10 \<Longrightarrow> spoken (tens_words ! d)" "spoken yuz_word"
  by (drule digit_cases, elim disjE; simp add: word_defs spoken_word spoken_atom_def spoken_letter_def)+
     (simp add: yuz_word_def cps_def spoken_word spoken_atom_def spoken_letter_def)

lemma below_thousand_spoken:
  assumes "0 < n" "n < 1000"
  shows "\<exists>w. below_thousand n = Inr w \<and> spoken w"
proof -
  obtain h d e where lt: "h < 10" "d < 10" "e < 10" and n: "n = 100 * h + 10 * d + e"
    and w: "below_thousand n = Inr (join_sp (group_words h d e))" using below_thousand_words [OF assms] by blast
  have "group_words h d e \<noteq> []" using n assms(1) by (auto simp: group_words_def)
  moreover have "list_all spoken (group_words h d e)" using lt by (auto simp: group_words_def word_atoms spoken_append)
  ultimately show ?thesis using w spoken_join by blast
qed

lemma scale_names: "(v, name) \<in> set scales \<Longrightarrow> spoken name"
  by (auto simp: scales_def bin_word_def cps_def intro!: spoken_word) (auto simp: spoken_atom_def spoken_letter_def)

lemma scale_loop_spoken:
  assumes "set ss \<subseteq> set scales" "sorted_wrt (>) (map fst ss)" "ss \<noteq> [] \<longrightarrow> n < 1000 * fst (hd ss)"
    and "list_all spoken parts" "\<forall>i. Suc i < length ss \<longrightarrow> fst (ss ! i) \<le> 1000 * fst (ss ! Suc i)"
    and "scale_loop ss n parts = Inr (parts', r)"
  shows "list_all spoken parts'"
  using assms
proof (induction ss n parts rule: scale_loop.induct)
  case (2 v name ss rem parts)
  have v: "(v, name) \<in> set scales" using 2(4) by simp
  then have pos: "0 < v" by (auto simp: scales_def)
  have next_ok: "ss \<noteq> [] \<longrightarrow> m < 1000 * fst (hd ss)" if "m < v" for m
    using 2(8) that by (cases ss) (force dest: spec [of _ 0])+
  have rest: "set ss \<subseteq> set scales" "sorted_wrt (>) (map fst ss)"
    "\<forall>i. Suc i < length ss \<longrightarrow> fst (ss ! i) \<le> 1000 * fst (ss ! Suc i)"
    using 2(4,5,8) by (auto dest: spec [of _ "Suc _"])
  show ?case
  proof (cases "v \<le> rem")
    case True
    have count: "0 < rem div v" "rem div v < 1000"
      using True pos 2(6) by (simp_all add: div_greater_zero_iff less_mult_imp_div_less)
    obtain w where w: "below_thousand (rem div v) = Inr w" "spoken w" using below_thousand_spoken [OF count] by blast
    have sp: "spoken (strip_spaces (w @ 32 # name))"
      using spoken_append [OF w(2) scale_names [OF v]] by (simp add: trimmed_strip spoken_trimmed)
    have m: "ss \<noteq> [] \<longrightarrow> rem mod v < 1000 * fst (hd ss)" using next_ok pos by simp
    show ?thesis
    proof (cases "name = bin_word \<and> rem div v = 1")
      case b: True
      have "spoken bin_word" using scale_names [OF v] b by simp
      then show ?thesis using "2.IH"(1) [OF True b rest(1,2) m _ rest(3)] 2(7,9) True b by simp
    next
      case b: False
      then show ?thesis using "2.IH"(2) [OF True b rest(1,2) m _ rest(3)] 2(7,9) True w sp by auto
    qed
  next
    case False
    then show ?thesis using "2.IH"(3) [OF False rest(1,2) next_ok 2(7) rest(3)] 2(9) by simp
  qed
qed simp

lemma number_spoken_positive:
  assumes "0 < n" "n < 10 ^ 15"
  shows "\<exists>w. number_to_turkish n = Inr w \<and> spoken w"
proof -
  have n: "nat n < 10 ^ 15" "0 < nat n" using assms by (simp_all add: nat_less_iff)
  obtain parts r m where s: "scale_loop scales (nat n) [] = Inr (parts, r)" "r < 1000"
    and m: "fold hear (concat (map spoken_words parts)) (0, 0) = (m, 0)" "nat n = m + r"
    using scales_heard [OF n(1)] by blast
  have sp: "list_all spoken parts"
    by (rule scale_loop_spoken [OF _ _ _ _ _ s(1)])
       (use n in \<open>auto simp: scales_def less_Suc_eq nth_Cons split: nat.splits\<close>)
  obtain w where r: "0 < r \<Longrightarrow> below_thousand r = Inr w \<and> spoken w"
    using below_thousand_spoken [of r] s(2) by blast
  let ?ws = "parts @ (if r > 0 then [w] else [])"
  have "list_all spoken ?ws" using sp r by auto
  moreover have "?ws \<noteq> []" using m n(2) by auto
  moreover have "spoken w \<Longrightarrow> w \<noteq> []" for w using spoken_trimmed by (auto simp: trimmed_def)
  then have "filter (\<lambda>p. p \<noteq> []) ?ws = ?ws" using \<open>list_all spoken ?ws\<close> by (intro filter_True) (auto simp: list_all_iff)
  ultimately have "spoken (join_sp (filter (\<lambda>p. p \<noteq> []) ?ws))" using spoken_join by simp
  moreover have "number_to_turkish n = Inr (join_sp (filter (\<lambda>p. p \<noteq> []) ?ws))"
    using assms s(1) r by (subst number_to_turkish.simps) auto
  ultimately show ?thesis by blast
qed


subsection \<open>A number is spoken as itself\<close>

lemma show_nat_length: "length (show_nat n) \<le> Suc k \<longleftrightarrow> n < 10 ^ Suc k"
proof (induction k arbitrary: n)
  case 0
  show ?case by (subst show_nat.simps) auto
next
  case (Suc k)
  show ?case
  proof (cases "n < 10")
    case True
    then have "length (show_nat n) = 1" by (subst show_nat.simps) simp
    moreover have "(1 :: nat) \<le> 10 ^ k" by simp
    then have "n < 10 ^ Suc (Suc k)" using True unfolding power_Suc by linarith
    ultimately show ?thesis by simp
  next
    case False
    then have "length (show_nat n) = Suc (length (show_nat (n div 10)))" by (subst show_nat.simps) simp
    moreover have "n div 10 < 10 ^ Suc k \<longleftrightarrow> n < 10 ^ Suc (Suc k)" by (simp add: div_less_iff_less_mult mult.commute)
    ultimately show ?thesis using Suc.IH [of "n div 10"] by simp
  qed
qed

lemma unsigned_digits: "\<not> starts [45] (show_nat n)"
proof
  assume "starts [45] (show_nat n)"
  then have "digit 45" using show_nat_digits [of n] starts_char by (metis list_all_iff)
  then show False by (simp add: digit_def)
qed

lemma integer_match_whole:
  assumes "\<bar>i\<bar> < 10 ^ 15"
  shows "integer_match w None (show_int i) = Some (length (show_int i), expand_integer (show_int i))"
proof -
  have all [simp]: "takeWhile digit (show_nat n) = show_nat n" for n
    using show_nat_digits [of n] by (simp add: takeWhile_eq_all_conv list_all_iff)
  have len: "length (show_nat (nat \<bar>i\<bar>)) \<le> 15"
    using show_nat_length [of "nat \<bar>i\<bar>" 14] assms by (simp add: nat_less_iff)
  have len0: "1 \<le> length (show_nat n)" for n using show_nat_nonempty [of n] by (cases "show_nat n") auto
  note head = unsigned_digits
  show ?thesis
  proof (cases "i < 0")
    case True
    then show ?thesis using len len0
      by (simp add: integer_match_def show_int_def sign_length_def starts_def word_at_def Let_def)
  next
    case False
    then show ?thesis using len len0 head
      by (simp add: integer_match_def show_int_def sign_length_def word_at_def)
  qed
qed

lemma expand_integer_words: "\<bar>i\<bar> < 10 ^ 15 \<Longrightarrow> expand_integer (show_int i) = number_to_turkish i"
proof -
  assume "\<bar>i\<bar> < 10 ^ 15"
  note head = unsigned_digits
  have read: "py_int (show_nat n) = Inr (int n)" for n using py_int_show [of "int n"] by (simp add: show_int_def)
  show ?thesis
  proof (cases "i < 0")
    case True
    have "expand_integer (show_int i) = bindS (number_to_turkish (- i)) (\<lambda>w. Inr (eksi_word @ w))"
      using True read by (simp add: expand_integer_def signed_words_def show_int_def sign_length_def starts_def)
    also have "\<dots> = number_to_turkish i" using True by (subst (2) number_to_turkish.simps) simp
    finally show ?thesis .
  next
    case False
    then show ?thesis using read head
      by (simp add: expand_integer_def signed_words_def show_int_def sign_length_def bindS_def split: sum.split)
  qed
qed

lemma number_spoken_words: "\<bar>i\<bar> < 10 ^ 15 \<Longrightarrow> \<exists>w. number_to_turkish i = Inr w \<and> spoken w"
proof -
  assume i: "\<bar>i\<bar> < 10 ^ 15"
  consider "i = 0" | "0 < i" | "i < 0" by linarith
  then show ?thesis
  proof cases
    case 1
    have "spoken zero_word" by (simp add: zero_word_def cps_def spoken_word spoken_atom_def spoken_letter_def)
    with 1 show ?thesis by (subst number_to_turkish.simps) simp
  next
    case 2
    then show ?thesis using number_spoken_positive i by simp
  next
    case 3
    then obtain u where u: "number_to_turkish (- i) = Inr u" "spoken u" using number_spoken_positive [of "- i"] i by auto
    have "spoken (cps ''eksi'')" by (simp add: cps_def spoken_word spoken_atom_def spoken_letter_def)
    then have "spoken (eksi_word @ u)" using spoken_append [OF _ u(2), of "cps ''eksi''"] by (simp add: eksi_word_def cps_def)
    then show ?thesis using u(1) 3 by (subst number_to_turkish.simps) simp
  qed
qed

lemma normalize_number:
  assumes "\<bar>i\<bar> < 10 ^ 15" and "uc_nfkc U (show_int i) = show_int i"
  shows "normalize_text U None (show_int i) = number_to_turkish i"
proof -
  let ?t = "show_int i"
  have chars: "list_all (\<lambda>c. (48 \<le> c \<and> c \<le> 57) \<or> c = 45) ?t"
    using show_int_chars [of i] by (auto simp: list_all_iff digit_def)
  have free: "letter_free ?t" "46 \<notin> set ?t" "44 \<notin> set ?t" "58 \<notin> set ?t" "13 \<notin> set ?t"
    using chars by (auto simp: letter_free_def list_all_iff)
  have vis: "filter (\<lambda>c. \<not> invisible_mark c) ?t = ?t"
    using chars by (auto simp: filter_id_conv list_all_iff invisible_mark_def)
  have crlf: "unify_crlf s = s" if "13 \<notin> set s" for s using that by (induction s rule: unify_crlf.induct) auto
  have cr: "map (\<lambda>c. if c = 13 then 10 else c) ?t = ?t" using free(5) by (auto intro!: map_idI)
  obtain w where w: "number_to_turkish i = Inr w" "spoken w" using number_spoken_words [OF assms(1)] by blast
  obtain c cs where t: "?t = c # cs" using show_int_plain(3) by (cases ?t) auto
  have "re_sub (integer_match (uc_word U)) None ?t = Inr w"
    using integer_match_whole [OF assms(1), of "uc_word U"] expand_integer_words [OF assms(1)] w(1) unfolding t
    by (simp add: re_sub.simps(2))
  then have "sub_all [time_match (uc_word U), grouped_match (uc_word U), decimal_match (uc_word U), integer_match (uc_word U)] ?t = Inr w"
    using free by (simp add: time_absent grouped_absent decimal_absent)
  then show ?thesis
    using free vis crlf [OF free(5)] cr w spoken_stable [OF w(2)] assms(2)
    by (simp add: normalize_text_def abbreviations_absent code_mix_absent)
qed


text \<open>
  C38: a number is heard as it was written. A text that is one integer below 10^15 in absolute
  value passes the frontend as words (the rest of the pipeline leaves them alone), a negative one
  as \<open>eksi\<close> and the words of its absolute value, and a listener who reads the words back arrives
  at the number.
\<close>

theorem number_read_aloud:
  assumes "\<bar>i\<bar> < 10 ^ 15" and "uc_nfkc U (show_int i) = show_int i"
  shows "\<exists>w. normalize_text U None (show_int i) = Inr w
     \<and> (if i = 0 then w = zero_word
        else if i < 0 then (\<exists>u. w = eksi_word @ u \<and> heard u = nat (- i)) else heard w = nat i)"
proof -
  consider "i = 0" | "0 < i" | "i < 0" by linarith
  then show ?thesis
  proof cases
    case 1
    then show ?thesis using normalize_number [OF assms] by (simp add: number_to_turkish.simps [of 0])
  next
    case 2
    then show ?thesis using normalize_number [OF assms] positive_heard [of i] assms(1) by auto
  next
    case 3
    then obtain u where "number_to_turkish (- i) = Inr u" "heard u = nat (- i)" using positive_heard [of "- i"] assms(1) by auto
    then show ?thesis using normalize_number [OF assms] 3 by (simp add: number_to_turkish.simps [of i])
  qed
qed

definition latin :: unicode where
  "latin = \<lparr>uc_word = latin_word, uc_nfkc = (\<lambda>s. s), uc_same = (=)\<rparr>"

theorem number_read_aloud_witness:
  "\<exists>w. normalize_text latin None (show_int 1905) = Inr w \<and> heard w = 1905"
  using number_read_aloud [of 1905 latin] by (simp add: latin_def)

subsection \<open>A pronunciation that is no template\<close>

lemma pronunciation_raises:
  "(token, pron) \<in> set mapping \<Longrightarrow> token \<noteq> [] \<Longrightarrow> parse_template pron = Inl e \<Longrightarrow> \<exists>e. expand_user_pronunciation U mapping t = Inl e"
proof (induction mapping arbitrary: t)
  case (Cons m ms)
  obtain k v where m: "m = (k, v)" by fastforce
  show ?case
  proof (cases "(token, pron) = m")
    case True
    then show ?thesis using Cons.prems m by auto
  next
    case False
    then have rest: "\<exists>e. expand_user_pronunciation U ms t' = Inl e" for t' using Cons by auto
    then show ?thesis using m by (cases "k = []") (auto simp: bindS_def split: sum.split)
  qed
qed simp

lemma normalize_raises:
  assumes "(token, pron) \<in> set d" "token \<noteq> []" "parse_template pron = Inl e" "t \<noteq> []"
  shows "\<exists>e. normalize_text U (Some d) t = Inl e"
proof -
  have "\<exists>e. expand_user_pronunciation U d s = Inl e" for s using pronunciation_raises [OF assms(1-3)] .
  then show ?thesis using assms(4)
    by (auto simp: normalize_text_def Let_def bindS_def split: sum.split) (metis Inr_Inl_False)
qed

text \<open>A backslash before a letter that is no escape, or at the end, is enough.\<close>

lemma bad_escapes: "parse_template [92] = Inl (RuntimeError ''re.error'')" "parse_template [92, 49] = Inl (RuntimeError ''re.error'')"
  by (simp_all add: template_escape_def digit_def octal_def)

end
