(* ===== verification/Crossfade.thy ===== *)
theory Crossfade
  imports Audio_Post
begin

text \<open>
  The seam between two sentences (\<open>crossfade_concat\<close> of \<^verbatim>\<open>src/audio/postprocess.py\<close>): trim the tail
  to its last zero crossing, fade it out, a gap of silence, fade the next sentence in. The two
  cosine ramps, \<open>np.cos(np.linspace(...))\<close> of a given length, are parameters: numpy's cosine over
  floats, with values between 0 and 1.
\<close>

record ramps =
  rp_out :: "nat \<Rightarrow> rat list"
  rp_in :: "nat \<Rightarrow> rat list"

definition ramps_ok :: "ramps \<Rightarrow> bool" where
  "ramps_ok R \<longleftrightarrow> (\<forall>n. length (rp_out R n) = n \<and> list_all (\<lambda>x. 0 \<le> x \<and> x \<le> 1) (rp_out R n)
     \<and> length (rp_in R n) = n \<and> list_all (\<lambda>x. 0 \<le> x \<and> x \<le> 1) (rp_in R n))"

text \<open>\<open>np.where(np.diff(np.sign(window)) != 0)[0]\<close>.\<close>

definition sign_changes :: "sample list \<Rightarrow> nat list" where
  "sign_changes w = filter (\<lambda>i. sgn (sint (w ! Suc i)) \<noteq> sgn (sint (w ! i))) [0..<length w - 1]"

definition trim_tail :: "nat \<Rightarrow> sample list \<Rightarrow> sample list" where
  "trim_tail fade prev =
     (let n = min fade (length prev); start = length prev - n; changes = sign_changes (drop start prev)
      in if 1 < n \<and> changes \<noteq> [] then take (min (start + (last changes + 1)) (length prev)) prev else prev)"

definition floats :: "sample list \<Rightarrow> rat list" where
  "floats ss = map (\<lambda>w. of_int (sint w)) ss"

definition fade_out :: "ramps \<Rightarrow> nat \<Rightarrow> sample list \<Rightarrow> rat list" where
  "fade_out R fade prev =
     (let f = min fade (length prev); k = length prev - f
      in take k (floats prev) @ map2 (*) (drop k (floats prev)) (rp_out R f))"

definition fade_in :: "ramps \<Rightarrow> nat \<Rightarrow> sample list \<Rightarrow> rat list" where
  "fade_in R fade next =
     (let f = min fade (length next) in map2 (*) (take f (floats next)) (rp_in R f) @ drop f (floats next))"

definition ms_samples :: "int \<Rightarrow> int \<Rightarrow> int" where
  "ms_samples ms sample_rate = py_round (of_int (ms * sample_rate) / 1000)"

definition crossfade_concat :: "ramps \<Rightarrow> bytes \<Rightarrow> bytes \<Rightarrow> int \<Rightarrow> int \<Rightarrow> int \<Rightarrow> py_error + bytes" where
  "crossfade_concat R prev next sample_rate fade_ms gap_ms =
     (if prev = [] then Inr next
      else if next = [] then Inr prev
      else bindS (frombuffer prev) (\<lambda>p. bindS (frombuffer next) (\<lambda>n.
        let fade = nat (max 1 (ms_samples fade_ms sample_rate));
            gap = ms_samples gap_ms sample_rate;
            tail = fade_out R fade (trim_tail fade p)
        in if gap < 0 then Inl (ValueError ''negative dimensions are not allowed'')
           else Inr (tobytes (map (\<lambda>x. to_int16 (clip (-32768) 32767 x))
                  (tail @ replicate (nat gap) 0 @ fade_in R fade n))))))"

subsection \<open>The seam\<close>

definition quieter :: "sample \<Rightarrow> sample \<Rightarrow> bool" where
  "quieter x w \<longleftrightarrow> \<bar>sint x\<bar> \<le> \<bar>sint w\<bar>"

abbreviation cast :: "rat \<Rightarrow> sample" where
  "cast x \<equiv> to_int16 (clip (-32768) 32767 x)"

lemma cast_int:
  assumes "- 32768 \<le> k" "k \<le> 32767"
  shows "cast (of_int k) = of_int k"
proof -
  have "(- 32768 :: rat) \<le> of_int k" "(of_int k :: rat) \<le> 32767" using assms by simp_all
  then have "clip (-32768) 32767 (of_int k :: rat) = of_int k" by (simp add: clip_def)
  then show ?thesis by (simp add: to_int16_def)
qed

lemma cast_float: "cast (of_int (sint w)) = w"
  using cast_int [of "sint w"] sint16 [of w] by simp

lemma cast_floats: "map cast (floats ss) = ss"
  by (induction ss) (simp_all add: floats_def cast_float del: of_int_sint)

lemma floats_parts: "take k (floats ss) = floats (take k ss)" "drop k (floats ss) = floats (drop k ss)"
  by (simp_all only: floats_def take_map drop_map)

lemma cast_zero: "cast 0 = 0"
  by (simp add: clip_def to_int16_def)

lemma scaled_up:
  fixes x :: rat
  assumes "0 \<le> x" "x \<le> 1" "0 \<le> k" "k \<le> 32768"
  shows "0 \<le> of_int k * x" "of_int k * x \<le> of_int k" "\<lfloor>of_int k * x\<rfloor> \<le> k" "0 \<le> \<lfloor>of_int k * x\<rfloor>"
proof -
  show le: "0 \<le> of_int k * x" using assms by simp
  show up: "of_int k * x \<le> of_int k" using assms mult_left_le [of x "of_int k"] by simp
  show "\<lfloor>of_int k * x\<rfloor> \<le> k" using up by linarith
  show "0 \<le> \<lfloor>of_int k * x\<rfloor>" using le by simp
qed

lemma cast_scaled_int:
  assumes "0 \<le> x" "x \<le> 1" "- 32768 \<le> k" "k \<le> 32767"
  shows "\<bar>sint (cast (of_int k * x))\<bar> \<le> \<bar>k\<bar>"
proof (cases "0 \<le> k")
  case True
  let ?v = "of_int k * x"
  note b = scaled_up [OF assms(1,2) True]
  have "(of_int k :: rat) \<le> 32767" using assms(4) by simp
  then have "?v \<le> 32767" using b(2) assms(4) by linarith
  then have "cast ?v = of_int \<lfloor>?v\<rfloor>" using b(1) assms(4) by (simp add: clip_def to_int16_def)
  moreover have "sint (of_int \<lfloor>?v\<rfloor> :: sample) = \<lfloor>?v\<rfloor>" using b(3,4) assms(4) by (intro sint_of_range) linarith+
  ultimately show ?thesis using b(3,4) assms(4) True by simp
next
  case False
  let ?v = "of_int k * x" and ?u = "of_int (- k) * x"
  have k: "0 \<le> - k" "- k \<le> 32768" using False assms(3) by auto
  note b = scaled_up [OF assms(1,2) k]
  have v: "?v = - ?u" by simp
  have "(of_int (- k) :: rat) \<le> 32768" using assms(3) by simp
  then have "?u \<le> 32768" using b(2) by linarith
  then have c: "clip (-32768) 32767 ?v = ?v" using b(1) by (simp add: clip_def)
  have j: "(if 0 \<le> ?v then \<lfloor>?v\<rfloor> else \<lceil>?v\<rceil>) = - \<lfloor>?u\<rfloor>"
  proof (cases "0 \<le> ?v")
    case True
    then have "?u = 0" "?v = 0" using b(1) v by linarith+
    then show ?thesis by (simp only: order_refl if_True floor_zero minus_zero)
  next
    case False
    then show ?thesis by (simp add: ceiling_def)
  qed
  have "cast ?v = of_int (- \<lfloor>?u\<rfloor>)" unfolding to_int16_def c j ..
  moreover have "sint (of_int (- \<lfloor>?u\<rfloor>) :: sample) = - \<lfloor>?u\<rfloor>" using b(3,4) k by (intro sint_of_range) linarith+
  ultimately show ?thesis using b(3,4) False by simp
qed

lemma cast_scaled: "0 \<le> x \<Longrightarrow> x \<le> 1 \<Longrightarrow> quieter (cast (of_int (sint w) * x)) w"
  using cast_scaled_int [of x "sint w"] sint16 [of w] by (simp add: quieter_def del: of_int_sint)

lemma faded_quieter:
  "length rs = length ss \<Longrightarrow> list_all (\<lambda>x. 0 \<le> x \<and> x \<le> 1) rs \<Longrightarrow> list_all2 quieter (map cast (map2 (*) (floats ss) rs)) ss"
proof (induction rs ss rule: list_induct2)
  case (Cons x rs w ss)
  then show ?case by (simp add: floats_def cast_scaled del: of_int_sint)
qed (simp add: floats_def)

lemma quieter_same: "list_all2 quieter ss ss"
  by (simp add: list_all2_same quieter_def)

lemma trim_tail_take: "\<exists>k. trim_tail fade prev = take k prev \<and> k \<le> length prev \<and> length prev < k + max 1 fade \<and> (prev \<noteq> [] \<longrightarrow> 0 < k)"
proof (cases "1 < min fade (length prev) \<and> sign_changes (drop (length prev - min fade (length prev)) prev) \<noteq> []")
  case True
  let ?n = "min fade (length prev)" and ?cs = "sign_changes (drop (length prev - min fade (length prev)) prev)"
  have "last ?cs \<in> set ?cs" using True by simp
  then have "last ?cs < ?n - 1" by (auto simp: sign_changes_def)
  moreover have "trim_tail fade prev = take (min (length prev - ?n + (last ?cs + 1)) (length prev)) prev"
    using True by (simp add: trim_tail_def Let_def)
  ultimately show ?thesis using True
    by (intro exI [of _ "min (length prev - ?n + (last ?cs + 1)) (length prev)"]) auto
next
  case False
  then have "trim_tail fade prev = prev" by (auto simp: trim_tail_def Let_def)
  then show ?thesis by (intro exI [of _ "length prev"]) auto
qed

lemma fade_out_shape:
  assumes "ramps_ok R"
  shows "list_all2 quieter (map cast (fade_out R fade p)) p"
    and "take (length p - fade) (map cast (fade_out R fade p)) = take (length p - fade) p"
proof -
  let ?f = "min fade (length p)" let ?k = "length p - ?f"
  have split: "map cast (fade_out R fade p) = take ?k p @ map cast (map2 (*) (floats (drop ?k p)) (rp_out R ?f))"
    by (simp only: fade_out_def Let_def floats_parts map_append cast_floats)
  have "list_all2 quieter (map cast (map2 (*) (floats (drop ?k p)) (rp_out R ?f))) (drop ?k p)"
    using assms by (intro faded_quieter) (simp_all add: ramps_ok_def)
  from list_all2_appendI [OF quieter_same this]
  have "list_all2 quieter (take ?k p @ map cast (map2 (*) (floats (drop ?k p)) (rp_out R ?f))) (take ?k p @ drop ?k p)" by blast
  then show "list_all2 quieter (map cast (fade_out R fade p)) p" unfolding split append_take_drop_id .
  show "take (length p - fade) (map cast (fade_out R fade p)) = take (length p - fade) p" 
    unfolding split by (simp del: map_map)
qed

lemma fade_in_shape:
  assumes "ramps_ok R"
  shows "list_all2 quieter (map cast (fade_in R fade n)) n" and "drop fade (map cast (fade_in R fade n)) = drop fade n"
proof -
  let ?f = "min fade (length n)"
  have split: "map cast (fade_in R fade n) = map cast (map2 (*) (floats (take ?f n)) (rp_in R ?f)) @ drop ?f n"
    by (simp only: fade_in_def Let_def floats_parts map_append cast_floats)
  have q: "list_all2 quieter (map cast (map2 (*) (floats (take ?f n)) (rp_in R ?f))) (take ?f n)"
    using assms by (intro faded_quieter) (simp_all add: ramps_ok_def)
  have "list_all2 quieter (map cast (map2 (*) (floats (take ?f n)) (rp_in R ?f)) @ drop ?f n) (take ?f n @ drop ?f n)"
    by (rule list_all2_appendI [OF q quieter_same])
  then show "list_all2 quieter (map cast (fade_in R fade n)) n" unfolding split append_take_drop_id .
  have "length (map cast (map2 (*) (floats (take ?f n)) (rp_in R ?f))) = ?f" using list_all2_lengthD [OF q] by simp
  then show "drop fade (map cast (fade_in R fade n)) = drop fade n" 
    unfolding split by (simp del: map_map)
qed

lemma ms_samples_nonneg: "0 \<le> ms \<Longrightarrow> 0 \<le> sample_rate \<Longrightarrow> 0 \<le> ms_samples ms sample_rate"
  by (simp add: ms_samples_def py_round_def Let_def add_nonneg_nonneg)

text \<open>
  C37: the seam between two sentences. With ramps between 0 and 1 and non-empty buffers, the result
  is the first sentence, then the gap of exact silence, then the whole second sentence. Less than
  one fade window of the first is cut off, and never all of it; no sample is louder than the one
  it came from, and outside the two windows every sample is untouched.
\<close>

theorem crossfade_seam:
  assumes "ramps_ok R" and "ps \<noteq> []" "ns \<noteq> []" and "0 \<le> gap_ms" "0 \<le> sample_rate"
  shows "let fade = nat (max 1 (ms_samples fade_ms sample_rate)) in
    \<exists>out inn. crossfade_concat R (tobytes ps) (tobytes ns) sample_rate fade_ms gap_ms
        = Inr (tobytes (out @ replicate (nat (ms_samples gap_ms sample_rate)) 0 @ inn))
      \<and> out \<noteq> [] \<and> length out \<le> length ps \<and> length ps < length out + fade
      \<and> list_all2 quieter out (take (length out) ps) \<and> take (length out - fade) out = take (length out - fade) ps
      \<and> list_all2 quieter inn ns \<and> drop fade inn = drop fade ns"
proof -
  define fade where "fade = nat (max 1 (ms_samples fade_ms sample_rate))"
  have fade: "max 1 fade = fade" by (simp add: fade_def)
  obtain k where k: "trim_tail fade ps = take k ps" "k \<le> length ps" "length ps < k + fade" "0 < k"
    using trim_tail_take [of fade ps] assms(2) fade by metis
  let ?out = "map cast (fade_out R fade (take k ps))" and ?inn = "map cast (fade_in R fade ns)"
  note o = fade_out_shape [OF assms(1), where fade = fade and p = "take k ps"]
    and i = fade_in_shape [OF assms(1), where fade = fade and n = ns]
  have len: "length ?out = k" using list_all2_lengthD [OF o(1)] k(2) by simp
  have ne: "tobytes ss \<noteq> []" if "ss \<noteq> []" for ss using that by (cases ss) (auto simp: tobytes_def)
  have "crossfade_concat R (tobytes ps) (tobytes ns) sample_rate fade_ms gap_ms
      = Inr (tobytes (?out @ replicate (nat (ms_samples gap_ms sample_rate)) 0 @ ?inn))"
    using ms_samples_nonneg [OF assms(4,5)] ne [OF assms(2)] ne [OF assms(3)]
    by (simp add: crossfade_concat_def fade_def [symmetric] k(1) bindS_def cast_zero Let_def)
  moreover have "?out \<noteq> []" using len k(4) by (metis length_0_conv less_numeral_extra(3))
  moreover have "list_all2 quieter ?out (take (length ?out) ps)" using o(1) unfolding len .
  moreover have "take (length ?out - fade) ?out = take (length ?out - fade) ps"
  proof -
    have "length (take k ps) = k" using k(2) by simp
    then show ?thesis using o(2) unfolding len by (simp only: take_take min.absorb1 diff_le_self)
  qed
  ultimately show ?thesis unfolding fade_def [symmetric] Let_def using i k(2,3) len
    by (intro exI [of _ ?out] exI [of _ ?inn]) simp
qed

definition flat_ramps :: ramps where
  "flat_ramps = \<lparr>rp_out = (\<lambda>n. map (\<lambda>i. 1 - of_nat i / of_nat n) [0..<n]), rp_in = (\<lambda>n. map (\<lambda>i. of_nat i / of_nat n) [0..<n])\<rparr>"

theorem crossfade_seam_witness:
  "\<exists>out inn. crossfade_concat flat_ramps (tobytes [5, 7]) (tobytes [9]) 1000 1 2 = Inr (tobytes (out @ [0, 0] @ inn))
     \<and> length out = 2 \<and> length inn = 1"
proof -
  have "ramps_ok flat_ramps" by (auto simp: ramps_ok_def flat_ramps_def list_all_iff)
  from crossfade_seam [OF this, of "[5, 7]" "[9]" 2 1000 1] show ?thesis
    by (force simp: ms_samples_def py_round_def Let_def numeral_2_eq_2 dest!: list_all2_lengthD)
qed

end
