(* ===== verification/Engine.thy ===== *)
theory Engine
  imports Normalizer Pipeline Wav Crossfade "HOL-Library.While_Combinator"
begin

text \<open>
  The synthesis engine (\<^verbatim>\<open>src/worker/engine.py\<close>): the bounded cache of loaded models, one per
  adapter in least-recently-used order, the adapter and the knobs of a voice, and
  \<open>synthesize_stream\<close>, which runs the text frontend and yields one chunk per segment. The model
  library (\<open>voxcpm\<close>), the file system and torch's devices are parameters; metrics, logs and the
  best-effort seed leave no trace in the state. In a sequential run the second lookup under the
  lock repeats the first.
\<close>

subsection \<open>An insertion-ordered dictionary used as a recency list\<close>

lemma remdups_snoc: "remdups (ks @ [k]) = filter (\<lambda>x. x \<noteq> k) (remdups ks) @ [k]"
  by (induction ks) auto

lemma filter_suffix:
  assumes "distinct xs" "k \<in> set xs"
  shows "length (filter (\<lambda>x. x \<noteq> k) xs) = length xs - 1"
  using assms
proof (induction xs)
  case (Cons a xs)
  show ?case
  proof (cases "a = k")
    case True
    then have "filter (\<lambda>x. x \<noteq> k) xs = xs" using Cons.prems(1) by (auto simp: filter_id_conv)
    with True show ?thesis by simp
  next
    case False
    then have "k \<in> set xs" "0 < length xs" using Cons.prems(2) by auto
    with False Cons show ?thesis by simp
  qed
qed simp

lemma drop_filter_in:
  assumes "distinct xs" "k \<in> set (drop m xs)"
  shows "filter (\<lambda>x. x \<noteq> k) (drop m xs) = drop m (filter (\<lambda>x. x \<noteq> k) xs)"
proof -
  have "k \<notin> set (take m xs)" using assms by (metis append_take_drop_id disjoint_iff distinct_append)
  then have t: "filter (\<lambda>x. x \<noteq> k) (take m xs) = take m xs" by (auto simp: filter_id_conv)
  have "m \<le> length xs" using assms(2) by (cases "m \<le> length xs") auto
  then have "length (take m xs) = m" by simp
  moreover have "filter (\<lambda>x. x \<noteq> k) xs = take m xs @ filter (\<lambda>x. x \<noteq> k) (drop m xs)"
    using t by (metis append_take_drop_id filter_append)
  ultimately show ?thesis by simp
qed

lemma drop_filter_out:
  assumes "distinct xs" "k \<in> set (take m xs)"
  shows "drop m xs = drop (m - 1) (filter (\<lambda>x. x \<noteq> k) xs)"
proof -
  have ne: "k \<notin> set (drop m xs)" using assms by (metis append_take_drop_id disjoint_iff distinct_append)
  have f: "filter (\<lambda>x. x \<noteq> k) xs = filter (\<lambda>x. x \<noteq> k) (take m xs) @ drop m xs"
  proof -
    have "filter (\<lambda>x. x \<noteq> k) (drop m xs) = drop m xs" using ne by (auto simp: filter_id_conv)
    then show ?thesis using filter_append [of "\<lambda>x. x \<noteq> k" "take m xs" "drop m xs"] by simp
  qed
  have l: "length (filter (\<lambda>x. x \<noteq> k) (take m xs)) = length (take m xs) - 1"
    using assms by (intro filter_suffix) simp_all
  show ?thesis
  proof (cases "m \<le> length xs")
    case True
    then have "length (take m xs) = m" by simp
    with f l show ?thesis by simp
  next
    case False
    then show ?thesis using l by simp
  qed
qed

text \<open>The reference: the last \<open>n\<close> distinct keys of the history, most recent last.\<close>

definition recent :: "nat \<Rightarrow> 'k list \<Rightarrow> 'k list" where
  "recent n ks = (let r = remdups ks in drop (length r - n) r)"

text \<open>
  What the cache needs of \<open>OrderedDict\<close>: lookups, the order of the keys, \<open>move_to_end\<close>, a new key
  at the end, and dropping the first. Serving a key is: on a hit move it to the end; on a miss
  make room and put it there.
\<close>

locale ordered_dict =
  fixes get :: "'d \<Rightarrow> 'k \<Rightarrow> 'v option"
    and order :: "'d \<Rightarrow> 'k list"
    and to_end :: "'k \<Rightarrow> 'd \<Rightarrow> 'd"
    and put :: "'k \<Rightarrow> 'v \<Rightarrow> 'd \<Rightarrow> 'd"
    and pop_first :: "'d \<Rightarrow> 'd"
  assumes get_order: "get d k \<noteq> None \<longleftrightarrow> k \<in> set (order d)"
    and order_to_end: "k \<in> set (order d) \<Longrightarrow> order (to_end k d) = filter (\<lambda>x. x \<noteq> k) (order d) @ [k]"
    and order_put: "k \<notin> set (order d) \<Longrightarrow> order (put k v d) = order d @ [k]"
    and order_pop: "order (pop_first d) = tl (order d)"
begin

definition serve :: "nat \<Rightarrow> 'k \<Rightarrow> 'v \<Rightarrow> 'd \<Rightarrow> 'd" where
  "serve n k v d =
     (case get d k of
        Some _ \<Rightarrow> to_end k d
      | None \<Rightarrow> put k v (if n \<le> length (order d) then pop_first d else d))"

lemma serve_recent:
  assumes "order d = recent n ks" "0 < n"
  shows "order (serve n k v d) = recent n (ks @ [k])"
proof -
  define r where "r = remdups ks"
  define m where "m = length r - n"
  have dis: "distinct r" by (simp add: r_def)
  have d: "order d = drop m r" using assms(1) by (simp add: recent_def r_def m_def Let_def)
  let ?f = "filter (\<lambda>x. x \<noteq> k) r"
  have new: "recent n (ks @ [k]) = drop (Suc (length ?f) - n) (?f @ [k])"
    by (simp add: recent_def remdups_snoc r_def Let_def)
  consider (hit) "k \<in> set (drop m r)" | (old) "k \<in> set (take m r)" "k \<notin> set (drop m r)" | (fresh) "k \<notin> set r"
    by (metis append_take_drop_id Un_iff set_append)
  then show ?thesis
  proof cases
    case hit
    then have "k \<in> set r" by (auto dest: in_set_dropD)
    then have "Suc (length ?f) = length r" using filter_suffix [OF dis] by (cases r) auto
    moreover have "m \<le> length ?f"
    proof -
      have "m < length r" using hit by (cases "m < length r") auto
      then show ?thesis using \<open>Suc (length ?f) = length r\<close> by simp
    qed
    moreover have "get d k \<noteq> None" using hit d get_order by simp
    moreover have "order (to_end k d) = filter (\<lambda>x. x \<noteq> k) (drop m r) @ [k]" using order_to_end [of k d] hit d by simp
    ultimately show ?thesis using d drop_filter_in [OF dis hit] new
      by (auto simp: serve_def m_def)
  next
    case old
    then have in_r: "k \<in> set r" by (auto dest: in_set_takeD)
    then have f: "Suc (length ?f) = length r" using filter_suffix [OF dis] by (cases r) auto
    have "n < length r" using old(1) by (cases "n < length r") (auto simp: m_def)
    then have full: "length (order d) = n" "0 < m" by (simp_all add: d m_def)
    have "get d k = None" using old d get_order by (metis option.exhaust)
    moreover have "k \<notin> set (tl (drop m r))" using old(2) by (cases "drop m r") auto
    ultimately have "order (serve n k v d) = tl (drop m r) @ [k]"
      using full by (simp add: serve_def order_put order_pop d)
    moreover have "tl (drop m r) = drop m ?f"
      using drop_filter_out [OF dis old(1)] full(2) by (metis Suc_pred' drop_Suc tl_drop)
    moreover have "length r - (n + length ?f) = 0" using f assms(2) by linarith
    ultimately show ?thesis using new f by (simp add: m_def)
  next
    case fresh
    then have f: "?f = r" by (auto simp: filter_id_conv)
    have "k \<notin> set (drop m r)" using fresh by (auto dest: in_set_dropD)
    then have "get d k = None" using d get_order by (metis option.exhaust)
    moreover have "n \<le> length (order d) \<longleftrightarrow> n \<le> length r" by (auto simp: d m_def)
    moreover have "k \<notin> set (tl (drop m r))" using \<open>k \<notin> set (drop m r)\<close> by (cases "drop m r") auto
    ultimately have "order (serve n k v d) = (if n \<le> length r then tl (drop m r) else drop m r) @ [k]"
      using \<open>k \<notin> set (drop m r)\<close> by (simp add: serve_def order_put order_pop d)
    then show ?thesis using new f assms(2)
      by (auto simp: m_def tl_drop drop_Suc Suc_diff_le)
  qed
qed

end


subsection \<open>The ordered dictionary as a list of pairs\<close>

definition od_to_end :: "'k \<Rightarrow> ('k \<times> 'v) list \<Rightarrow> ('k \<times> 'v) list" where
  "od_to_end k d = filter (\<lambda>(x, _). x \<noteq> k) d @ (case map_of d k of None \<Rightarrow> [] | Some v \<Rightarrow> [(k, v)])"

definition od_put :: "'k \<Rightarrow> 'v \<Rightarrow> ('k \<times> 'v) list \<Rightarrow> ('k \<times> 'v) list" where
  "od_put k v d = (if map_of d k = None then d @ [(k, v)] else map (\<lambda>(x, u). (x, if x = k then v else u)) d)"

interpretation od: ordered_dict map_of "map fst" od_to_end od_put tl
proof
  fix d :: "('k \<times> 'v) list" and k v
  show "map_of d k \<noteq> None \<longleftrightarrow> k \<in> set (map fst d)" by (auto simp: map_of_eq_None_iff)
  have "map fst (filter (\<lambda>(x, _). x \<noteq> k) d) = filter (\<lambda>x. x \<noteq> k) (map fst d)" by (induction d) auto
  moreover assume "k \<in> set (map fst d)"
  then have "\<exists>v. map_of d k = Some v" by (metis map_of_eq_None_iff list.set_map not_Some_eq)
  ultimately show "map fst (od_to_end k d) = filter (\<lambda>x. x \<noteq> k) (map fst d) @ [k]" by (auto simp: od_to_end_def)
next
  fix d :: "('k \<times> 'v) list" and k v
  assume "k \<notin> set (map fst d)"
  then show "map fst (od_put k v d) = map fst d @ [k]" by (simp add: od_put_def map_of_eq_None_iff)
next
  fix d :: "('k \<times> 'v) list"
  show "map fst (tl d) = tl (map fst d)" by (simp add: map_tl)
qed

subsection \<open>The engine\<close>

record adapter_spec =
  ad_path :: ustr
  ad_config_path :: "ustr option"

type_synonym cache_key = "string \<times> (ustr \<times> ustr option) option"

definition adapter_key :: "adapter_spec \<Rightarrow> ustr \<times> ustr option" where
  "adapter_key a = (ad_path a, ad_config_path a)"

record engine =
  eg_model_id :: string
  eg_hf_revision :: "string option"
  eg_device :: string
  eg_cfg_value :: rat
  eg_inference_timesteps :: int
  eg_load_denoiser :: bool
  eg_optimize :: bool
  eg_cache_size :: int
  eg_default_adapter :: "adapter_spec option"

text \<open>\<open>es_model\<close> is the pointer \<open>/health\<close> reads.\<close>

record 'm engine_state =
  es_models :: "(cache_key \<times> 'm) list"
  es_model :: "'m option"
  es_evictions_total :: nat
  es_sample_rate :: int

datatype engine_exn =
    Missing_File ustr
  | Engine_Error py_error
  | Never_Returns

type_synonym ('m, 'a) eact = "('m engine_state, engine_exn, 'a) act"

text \<open>The arguments of \<open>VoxCPM.from_pretrained\<close> and of \<open>model.generate\<close> that vary.\<close>

record load_args =
  lo_model_id :: string
  lo_load_denoiser :: bool
  lo_optimize :: bool
  lo_device :: string
  lo_lora :: "(dict \<times> ustr) option"
  lo_revision :: "string option"

record generate_args =
  gn_text :: ustr
  gn_reference :: string
  gn_cfg_value :: rat
  gn_inference_timesteps :: int

text \<open>
  \<open>ev_expand\<close>: \<open>expandvars\<close>, \<open>expanduser\<close> and \<open>resolve\<close> on the text of a value; \<open>ev_read_json\<close>: the
  parsed content of a file; \<open>ev_lora_config\<close>: \<open>LoRAConfig(**payload)\<close>; \<open>ev_parse_float\<close>: \<open>float\<close>
  of a string.
\<close>

record 'm engine_env =
  ev_str :: "json \<Rightarrow> ustr"
  ev_lower :: "ustr \<Rightarrow> ustr"
  ev_parse_float :: "ustr \<Rightarrow> py_error + rat"
  ev_expand :: "ustr \<Rightarrow> ustr"
  ev_exists :: "ustr \<Rightarrow> bool"
  ev_is_file :: "ustr \<Rightarrow> bool"
  ev_read_json :: "ustr \<Rightarrow> py_error + json"
  ev_lora_config :: "dict \<Rightarrow> py_error + dict"
  ev_from_pretrained :: "load_args \<Rightarrow> py_error + 'm"
  ev_model_rate :: "'m \<Rightarrow> int option"
  ev_generate :: "'m \<Rightarrow> generate_args \<Rightarrow> py_error + rat list"
  ev_unicode :: unicode

text \<open>\<open>_resolve_device\<close>; \<open>None\<close> when torch cannot be imported, else whether CUDA and MPS are there.\<close>

definition resolve_device :: "(bool \<times> bool) option \<Rightarrow> string \<Rightarrow> string" where
  "resolve_device torch requested =
     (if requested \<noteq> ''auto'' then requested
      else case torch of
             Some (True, _) \<Rightarrow> ''cuda''
           | Some (False, True) \<Rightarrow> ''mps''
           | _ \<Rightarrow> ''cpu'')"

definition engine_init ::
  "(bool \<times> bool) option \<Rightarrow> string \<Rightarrow> string \<Rightarrow> rat \<Rightarrow> int \<Rightarrow> bool \<Rightarrow> (ustr option \<times> ustr option) \<Rightarrow> bool \<Rightarrow> int
   \<Rightarrow> string option \<Rightarrow> py_error + engine \<times> 'm engine_state" where
  "engine_init torch model_id device cfg steps denoiser lora optimize cache_size revision =
     (if cache_size < 1 then Inl (ValueError ''cache_size must be >= 1 (base model always cached)'')
      else Inr (\<lparr>eg_model_id = model_id, eg_hf_revision = revision, eg_device = resolve_device torch device,
                 eg_cfg_value = cfg, eg_inference_timesteps = steps, eg_load_denoiser = denoiser,
                 eg_optimize = optimize, eg_cache_size = cache_size,
                 eg_default_adapter = (case lora of (None, _) \<Rightarrow> None
                   | (Some p, c) \<Rightarrow> Some \<lparr>ad_path = p, ad_config_path = c\<rparr>)\<rparr>,
                \<lparr>es_models = [], es_model = None, es_evictions_total = 0, es_sample_rate = 48000\<rparr>))"

subsection \<open>A voice's adapter and knobs\<close>

text \<open>\<open>raw.get(a) or raw.get(b) or ...\<close>, kept when it is true.\<close>

fun first_true :: "dict \<Rightarrow> string list \<Rightarrow> json option" where
  "first_true raw [] = None"
| "first_true raw (k # ks) =
     (case map_of raw k of Some v \<Rightarrow> if json_truthy v then Some v else first_true raw ks | None \<Rightarrow> first_true raw ks)"

definition lora_from_mapping :: "'m engine_env \<Rightarrow> dict option \<Rightarrow> py_error + adapter_spec option" where
  "lora_from_mapping E raw =
     (case raw of None \<Rightarrow> Inr None
      | Some raw \<Rightarrow>
          if raw = [] then Inr None
          else if ev_lower E (ev_str E (case map_of raw ''type'' of None \<Rightarrow> JStr (cps ''lora'') | Some v \<Rightarrow> v)) \<noteq> cps ''lora''
          then Inl (ValueError ''unsupported adapter type'')
          else (case first_true raw [''path'', ''lora_path'', ''uri''] of
                  None \<Rightarrow> Inl (ValueError ''lora adapter requires path'')
                | Some p \<Rightarrow> Inr (Some \<lparr>ad_path = ev_expand E (ev_str E p),
                    ad_config_path = map_option (\<lambda>c. ev_expand E (ev_str E c))
                      (first_true raw [''config_path'', ''lora_config_path''])\<rparr>)))"

definition adapter_dict :: "voice_view \<Rightarrow> dict option" where
  "adapter_dict v = map_option (\<lambda>(t, p). [(''type'', JStr (cps t)), (''path'', JStr (cps p))]) (vv_adapter v)"

definition adapter_for_voice :: "engine \<Rightarrow> 'm engine_env \<Rightarrow> voice_view \<Rightarrow> py_error + adapter_spec option" where
  "adapter_for_voice g E v =
     bindS (lora_from_mapping E (adapter_dict v)) (\<lambda>a. Inr (case a of None \<Rightarrow> eg_default_adapter g | Some _ \<Rightarrow> a))"

definition read_lora_config :: "'m engine_env \<Rightarrow> adapter_spec \<Rightarrow> engine_exn + dict" where
  "read_lora_config E a =
     (let p = (case ad_config_path a of Some c \<Rightarrow> c | None \<Rightarrow> ad_path a @ cps ''/lora_config.json'')
      in if \<not> ev_is_file E p then Inl (Missing_File p)
         else (case ev_read_json E p of
                 Inl e \<Rightarrow> Inl (Engine_Error e)
               | Inr (JObj raw) \<Rightarrow>
                   (case (case map_of raw ''lora_config'' of None \<Rightarrow> JObj raw | Some v \<Rightarrow> v) of
                      JObj payload \<Rightarrow> (case ev_lora_config E payload of Inl e \<Rightarrow> Inl (Engine_Error e) | Inr c \<Rightarrow> Inr c)
                    | _ \<Rightarrow> Inl (Engine_Error (TypeError ''argument after ** must be a mapping'')))
               | Inr _ \<Rightarrow> Inl (Engine_Error (AttributeError ''get''))))"

definition py_float :: "'m engine_env \<Rightarrow> json \<Rightarrow> py_error + rat" where
  "py_float E v = (case num_of v of Some q \<Rightarrow> Inr q
     | None \<Rightarrow> (case v of JStr s \<Rightarrow> ev_parse_float E s | _ \<Rightarrow> Inl (TypeError ''float() argument'')))"

definition py_int_of :: "json \<Rightarrow> py_error + int" where
  "py_int_of v = (case num_of v of Some q \<Rightarrow> Inr (trunc q)
     | None \<Rightarrow> (case v of JStr s \<Rightarrow> py_int s | _ \<Rightarrow> Inl (TypeError ''int() argument'')))"

definition engine_params_for_voice ::
  "engine \<Rightarrow> 'm engine_env \<Rightarrow> voice_view \<Rightarrow> dict option \<Rightarrow> py_error + rat \<times> int" where
  "engine_params_for_voice g E v overrides =
     (let base = (case overrides of None \<Rightarrow> vv_engine_params v
                  | Some o' \<Rightarrow> if o' = [] then vv_engine_params v else dict_merge (vv_engine_params v) o');
          steps = (case map_of base ''inference_timesteps'' of Some n \<Rightarrow> n
                   | None \<Rightarrow> (case map_of base ''timesteps'' of Some n \<Rightarrow> n | None \<Rightarrow> JInt (eg_inference_timesteps g)))
      in bindS (py_float E (case map_of base ''cfg_value'' of Some c \<Rightarrow> c | None \<Rightarrow> JFloat (eg_cfg_value g))) (\<lambda>c.
         bindS (py_int_of steps) (\<lambda>n. Inr (c, n))))"

subsection \<open>The cache\<close>

definition cache_key_of :: "engine \<Rightarrow> adapter_spec option \<Rightarrow> cache_key" where
  "cache_key_of g a = (eg_model_id g, map_option adapter_key a)"

definition evict_oldest :: "'m engine_state \<Rightarrow> 'm engine_state" where
  "evict_oldest s =
     (if es_models s = [] then s
      else s\<lparr>es_models := tl (es_models s), es_evictions_total := Suc (es_evictions_total s)\<rparr>)"

text \<open>\<open>while len(self._models) >= self._cache_size: self._evict_oldest_locked()\<close>.\<close>

definition make_room :: "engine \<Rightarrow> 'm engine_state \<Rightarrow> 'm engine_state option" where
  "make_room g = while_option (\<lambda>s. eg_cache_size g \<le> int (length (es_models s))) evict_oldest"

definition make_roomA :: "engine \<Rightarrow> ('m, unit) eact" where
  "make_roomA g s = (case make_room g s of None \<Rightarrow> (Inl Never_Returns, s) | Some s' \<Rightarrow> (Inr (), s'))"

definition lift_py :: "py_error + 'a \<Rightarrow> ('m, 'a) eact" where
  "lift_py r = (case r of Inl e \<Rightarrow> throw (Engine_Error e) | Inr x \<Rightarrow> ret x)"

definition lift_exn :: "engine_exn + 'a \<Rightarrow> ('m, 'a) eact" where
  "lift_exn r = (case r of Inl e \<Rightarrow> throw e | Inr x \<Rightarrow> ret x)"

definition load_arguments :: "engine \<Rightarrow> (dict \<times> ustr) option \<Rightarrow> load_args" where
  "load_arguments g lora =
     \<lparr>lo_model_id = eg_model_id g, lo_load_denoiser = eg_load_denoiser g, lo_optimize = eg_optimize g,
      lo_device = eg_device g, lo_lora = lora,
      lo_revision = (if truthy (eg_hf_revision g) \<and> eg_hf_revision g \<noteq> Some ''main'' then eg_hf_revision g else None)\<rparr>"

definition adapter_arguments :: "'m engine_env \<Rightarrow> adapter_spec option \<Rightarrow> engine_exn + (dict \<times> ustr) option" where
  "adapter_arguments E adapter =
     (case adapter of None \<Rightarrow> Inr None
      | Some a \<Rightarrow> if \<not> ev_exists E (ad_path a) then Inl (Missing_File (ad_path a))
                 else (case read_lora_config E a of Inl e \<Rightarrow> Inl e | Inr c \<Rightarrow> Inr (Some (c, ad_path a))))"

definition cached_model :: "engine \<Rightarrow> adapter_spec option \<Rightarrow> ('m, 'm option) eact" where
  "cached_model g adapter =
     (let key = cache_key_of g adapter
      in bindA (getsA (\<lambda>s. map_of (es_models s) key)) (\<lambda>m.
         case m of
           None \<Rightarrow> ret None
         | Some m \<Rightarrow> seqA (modifyA (\<lambda>s. s\<lparr>es_models := od_to_end key (es_models s), es_model := Some m\<rparr>)) (ret (Some m))))"

definition cold_load :: "engine \<Rightarrow> 'm engine_env \<Rightarrow> adapter_spec option \<Rightarrow> ('m, 'm) eact" where
  "cold_load g E adapter =
     seqA (make_roomA g)
     (bindA (lift_exn (adapter_arguments E adapter)) (\<lambda>lora.
      bindA (lift_py (ev_from_pretrained E (load_arguments g lora))) (\<lambda>m.
      seqA (modifyA (\<lambda>s. s\<lparr>es_sample_rate := (case ev_model_rate E m of
               None \<Rightarrow> es_sample_rate s | Some r \<Rightarrow> if r = 0 then es_sample_rate s else r)\<rparr>))
      (seqA (modifyA (\<lambda>s. s\<lparr>es_models := od_put (cache_key_of g adapter) m (es_models s), es_model := Some m\<rparr>))
      (ret m)))))"

definition model_for_adapter :: "engine \<Rightarrow> 'm engine_env \<Rightarrow> adapter_spec option \<Rightarrow> ('m, 'm) eact" where
  "model_for_adapter g E adapter =
     bindA (cached_model g adapter) (\<lambda>c.
     case c of
       Some m \<Rightarrow> ret m
     | None \<Rightarrow> bindA (cached_model g adapter) (\<lambda>c.
               case c of Some m \<Rightarrow> ret m | None \<Rightarrow> cold_load g E adapter))"

definition load_base :: "engine \<Rightarrow> 'm engine_env \<Rightarrow> ('m, unit) eact" where
  "load_base g E =
     bindA (getsA es_models) (\<lambda>ms.
       if ms \<noteq> [] then ret () else bindA (model_for_adapter g E (eg_default_adapter g)) (\<lambda>_. ret ()))"

definition warmup_voice :: "engine \<Rightarrow> 'm engine_env \<Rightarrow> voice_view \<Rightarrow> ('m, unit) eact" where
  "warmup_voice g E v =
     seqA (load_base g E)
     (bindA (lift_py (adapter_for_voice g E v)) (\<lambda>a.
      bindA (model_for_adapter g E a) (\<lambda>_. ret ())))"

subsection \<open>Synthesis\<close>

definition generate_one ::
  "engine \<Rightarrow> 'm engine_env \<Rightarrow> voice_view \<Rightarrow> string \<Rightarrow> dict option \<Rightarrow> ustr \<Rightarrow> ('m, rat list) eact" where
  "generate_one g E v path overrides segment =
     bindA (lift_py (adapter_for_voice g E v)) (\<lambda>a.
     bindA (model_for_adapter g E a) (\<lambda>m.
     bindA (lift_py (engine_params_for_voice g E v overrides)) (\<lambda>(c, n).
       lift_py (ev_generate E m \<lparr>gn_text = segment, gn_reference = path, gn_cfg_value = c, gn_inference_timesteps = n\<rparr>))))"

text \<open>The request's pronunciations: a dictionary, or nothing; a value must be a string to replace anything.\<close>

fun pron_entries :: "dict \<Rightarrow> py_error + (ustr \<times> ustr) list" where
  "pron_entries [] = Inr []"
| "pron_entries ((k, v) # d) =
     (if k = [] then pron_entries d
      else (case v of JStr s \<Rightarrow> bindS (pron_entries d) (\<lambda>r. Inr ((cps k, s) # r))
            | _ \<Rightarrow> Inl (TypeError ''expected str'')))"

definition frontend_segments :: "'m engine_env \<Rightarrow> request_meta option \<Rightarrow> ustr \<Rightarrow> py_error + ustr list" where
  "frontend_segments E meta t =
     bindS (case (case meta of None \<Rightarrow> None | Some m \<Rightarrow> map_of m ''pronunciation_dict'') of
              Some (JObj d) \<Rightarrow> if t = [] then Inr None else bindS (pron_entries d) (\<lambda>p. Inr (Some p))
            | _ \<Rightarrow> Inr None) (\<lambda>pron.
     bindS (normalize_text (ev_unicode E) pron t) (\<lambda>normalized.
       segment_sentences (uc_word (ev_unicode E)) normalized))"

text \<open>The generator's loop: the chunks yielded so far are out when an exception ends it.\<close>

fun yield_segments ::
  "engine \<Rightarrow> 'm engine_env \<Rightarrow> voice_view \<Rightarrow> string \<Rightarrow> dict option \<Rightarrow> ustr list \<Rightarrow> 'm engine_state
   \<Rightarrow> (synth_chunk list \<times> engine_exn option) \<times> 'm engine_state" where
  "yield_segments g E v path overrides [] s = (([], None), s)"
| "yield_segments g E v path overrides (seg # segs) s =
     (case generate_one g E v path overrides seg s of
        (Inl e, s') \<Rightarrow> (([], Some e), s')
      | (Inr wav, s') \<Rightarrow>
          (case yield_segments g E v path overrides segs s' of
             ((chunks, end), s'') \<Rightarrow>
               ((\<lparr>sc_pcm = float_to_pcm16_bytes wav, sc_sample_rate = es_sample_rate s', sc_sentence_text = Some seg\<rparr> # chunks, end), s'')))"

definition synthesize_stream_engine ::
  "engine \<Rightarrow> 'm engine_env \<Rightarrow> ustr \<Rightarrow> voice_view \<Rightarrow> string \<Rightarrow> dict option \<Rightarrow> request_meta option \<Rightarrow> 'm engine_state
   \<Rightarrow> (synth_chunk list \<times> engine_exn option) \<times> 'm engine_state" where
  "synthesize_stream_engine g E t v path overrides meta s =
     (case load_base g E s of
        (Inl e, s') \<Rightarrow> (([], Some e), s')
      | (Inr _, s') \<Rightarrow>
          if \<not> ev_is_file E (cps path) then (([], Some (Missing_File (cps path))), s')
          else (case frontend_segments E meta t of
                  Inl e \<Rightarrow> (([], Some (Engine_Error e)), s')
                | Inr segs \<Rightarrow> yield_segments g E v path overrides segs s'))"

text \<open>
  \<open>synthesize\<close> joins the chunks as they come, so an exception of the seam stops the generator where
  it stands. The accumulator: the PCM so far, the last chunk's rate, and how many chunks.
\<close>

record synth_result =
  sy_pcm :: bytes
  sy_sample_rate :: int
  sy_duration :: rat
  sy_sentence_count :: nat

fun join_segments ::
  "engine \<Rightarrow> 'm engine_env \<Rightarrow> ramps \<Rightarrow> voice_view \<Rightarrow> string \<Rightarrow> dict option \<Rightarrow> ustr list
   \<Rightarrow> bytes \<times> int \<times> nat \<Rightarrow> ('m, bytes \<times> int \<times> nat) eact" where
  "join_segments g E R v path overrides [] acc = ret acc"
| "join_segments g E R v path overrides (seg # segs) (pcm, sr, i) =
     bindA (generate_one g E v path overrides seg) (\<lambda>wav.
     bindA (getsA es_sample_rate) (\<lambda>sr.
     bindA (lift_py (if i = 0 then Inr (float_to_pcm16_bytes wav)
                     else crossfade_concat R pcm (float_to_pcm16_bytes wav) sr 4 80)) (\<lambda>pcm.
       join_segments g E R v path overrides segs (pcm, sr, Suc i))))"

definition synthesize_engine ::
  "engine \<Rightarrow> 'm engine_env \<Rightarrow> ramps \<Rightarrow> ustr \<Rightarrow> voice_view \<Rightarrow> string \<Rightarrow> dict option \<Rightarrow> request_meta option
   \<Rightarrow> ('m, synth_result) eact" where
  "synthesize_engine g E R t v path overrides meta =
     bindA (getsA es_sample_rate) (\<lambda>sr.
     seqA (load_base g E)
     (if \<not> ev_is_file E (cps path) then throw (Missing_File (cps path))
      else bindA (lift_py (frontend_segments E meta t)) (\<lambda>segs.
           bindA (join_segments g E R v path overrides segs ([], sr, 0)) (\<lambda>(pcm, sr, n).
             ret \<lparr>sy_pcm = pcm, sy_sample_rate = sr,
                  sy_duration = (if sr = 0 then 0 else of_nat (length pcm) / (2 * of_int sr)), sy_sentence_count = n\<rparr>))))"

text \<open>\<open>get_engine\<close>: the first call constructs, every later one ignores its arguments.\<close>

definition get_engine :: "(py_error + 'e) \<Rightarrow> 'e option \<Rightarrow> (py_error + 'e) \<times> 'e option" where
  "get_engine built singleton =
     (case singleton of
        Some e \<Rightarrow> (Inr e, singleton)
      | None \<Rightarrow> (case built of Inl x \<Rightarrow> (Inl x, None) | Inr e \<Rightarrow> (Inr e, Some e)))"

text \<open>The engine as the pipeline calls it, in a given state of its cache.\<close>

definition engine_of :: "engine \<Rightarrow> 'm engine_env \<Rightarrow> 'm engine_state \<Rightarrow> engine_fun" where
  "engine_of g E s t v path language overrides meta =
     (case overrides of (c, n) \<Rightarrow>
        case synthesize_stream_engine g E t v path (Some [(''cfg_value'', c), (''inference_timesteps'', n)]) meta s of
          ((chunks, end), _) \<Rightarrow> (chunks, end \<noteq> None))"

end
