(* ===== verification/Engine_Facts.thy ===== *)
theory Engine_Facts
  imports Engine Pipeline_Facts
begin

text \<open>
  What the engine guarantees: its eviction loop ends, its cache holds at most \<open>cache_size\<close> models
  and exactly the most recently used ones, and the chunks it yields caption the whole text; and
  what that means for a job in the pipeline, with a pronunciation that no attempt survives.
\<close>

subsection \<open>Eviction\<close>

lemma make_room_loop:
  assumes "1 \<le> eg_cache_size g"
  shows "make_room g s = Some (let k = Suc (length (es_models s)) - nat (eg_cache_size g)
     in s\<lparr>es_models := drop k (es_models s), es_evictions_total := es_evictions_total s + k\<rparr>)"
proof (induction "length (es_models s)" arbitrary: s rule: less_induct)
  case less
  let ?n = "nat (eg_cache_size g)" and ?l = "length (es_models s)"
  have n: "1 \<le> ?n" "eg_cache_size g = int ?n" using assms by auto
  show ?case
  proof (cases "?n \<le> ?l")
    case False
    then have "\<not> eg_cache_size g \<le> int ?l" using n by linarith
    then show ?thesis using False by (simp add: make_room_def while_option_unfold Suc_leI)
  next
    case True
    then have full: "eg_cache_size g \<le> int ?l" "es_models s \<noteq> []" using n by auto
    let ?s = "evict_oldest s"
    have ev: "es_models ?s = tl (es_models s)" "es_evictions_total ?s = Suc (es_evictions_total s)"
      "?s = s\<lparr>es_models := tl (es_models s), es_evictions_total := Suc (es_evictions_total s)\<rparr>"
      using full(2) by (simp_all add: evict_oldest_def)
    have "make_room g s = make_room g ?s" using full(1) unfolding make_room_def by (subst while_option_unfold) simp
    also have "\<dots> = Some (let k = Suc (length (es_models ?s)) - ?n
        in ?s\<lparr>es_models := drop k (es_models ?s), es_evictions_total := es_evictions_total ?s + k\<rparr>)"
      by (rule less) (use full ev in simp)
    also have "\<dots> = Some (let k = Suc ?l - ?n
        in s\<lparr>es_models := drop k (es_models s), es_evictions_total := es_evictions_total s + k\<rparr>)"
    proof -
      have k: "Suc ?l - ?n = Suc (Suc (length (es_models ?s)) - ?n)"
        using True full(2) n(1) ev(1) by (cases "es_models s") auto
      show ?thesis unfolding k Let_def ev(1) using ev(3) by (simp add: drop_Suc)
    qed
    finally show ?thesis .
  qed
qed

lemma make_room_hangs: "eg_cache_size g < 1 \<Longrightarrow> make_room g s = None"
proof (rule ccontr)
  assume "eg_cache_size g < 1" "make_room g s \<noteq> None"
  then obtain t where "make_room g s = Some t" by auto
  then have "\<not> eg_cache_size g \<le> int (length (es_models t))" unfolding make_room_def by (rule while_option_stop)
  with \<open>eg_cache_size g < 1\<close> show False by simp
qed

lemma engine_init_size: "engine_init torch m d c n den lora opt sz hf = Inr (g, s) \<Longrightarrow>
    1 \<le> eg_cache_size g \<and> eg_cache_size g = sz \<and> es_models s = []"
  by (auto simp: engine_init_def split: if_splits)

subsection \<open>The engine returns\<close>

text \<open>An action that ends with a value or an exception of its own, never in the loop.\<close>

definition returns :: "('m, 'a) eact \<Rightarrow> bool" where
  "returns m \<longleftrightarrow> (\<forall>s. fst (m s) \<noteq> Inl Never_Returns)"

named_theorems return_rules

lemma returns_bind [return_rules]: "returns m \<Longrightarrow> (\<And>x. returns (f x)) \<Longrightarrow> returns (bindA m f)"
  by (auto simp: returns_def bindA_def split: prod.split sum.split) (metis fst_conv)+

lemma returns_seq [return_rules]: "returns m \<Longrightarrow> returns n \<Longrightarrow> returns (seqA m n)"
  unfolding seqA_def by (rule returns_bind)

lemma returns_basic [return_rules]: "returns (ret x)" "returns (getsA f)" "returns (modifyA h)" "returns (lift_py r)"
  by (auto simp: returns_def ret_def getsA_def modifyA_def lift_py_def throw_def split: sum.split)

lemma returns_adapter [return_rules]: "returns (lift_exn (adapter_arguments E a))"
  by (auto simp: returns_def lift_exn_def throw_def ret_def adapter_arguments_def read_lora_config_def Let_def
      split: sum.splits option.splits json.splits)

lemma returns_case [return_rules]:
  "returns n \<Longrightarrow> (\<And>x. returns (f x)) \<Longrightarrow> returns (case o' of None \<Rightarrow> n | Some x \<Rightarrow> f x)"
  "returns m \<Longrightarrow> returns n \<Longrightarrow> returns (if b then m else n)"
  "(\<And>a b. returns (k a b)) \<Longrightarrow> returns (case p of (a, b) \<Rightarrow> k a b)"
  by (auto split: option.split prod.split)

lemma returns_room [return_rules]: "1 \<le> eg_cache_size g \<Longrightarrow> returns (make_roomA g)"
  by (simp add: returns_def make_roomA_def make_room_loop Let_def)

lemma returns_model [return_rules]: "1 \<le> eg_cache_size g \<Longrightarrow> returns (model_for_adapter g E a)"
  unfolding model_for_adapter_def cached_model_def cold_load_def Let_def by (intro return_rules)

lemma returns_load [return_rules]: "1 \<le> eg_cache_size g \<Longrightarrow> returns (load_base g E)"
  unfolding load_base_def by (intro return_rules)

lemma returns_one [return_rules]: "1 \<le> eg_cache_size g \<Longrightarrow> returns (generate_one g E v path ov seg)"
  unfolding generate_one_def by (intro return_rules)

lemma returns_yield: "1 \<le> eg_cache_size g \<Longrightarrow> snd (fst (yield_segments g E v path ov segs s)) \<noteq> Some Never_Returns"
proof (induction segs arbitrary: s)
  case (Cons seg segs)
  obtain r s1 where r: "generate_one g E v path ov seg s = (r, s1)" by fastforce
  moreover have "r \<noteq> Inl Never_Returns" using returns_one [OF Cons.prems] r unfolding returns_def by (metis fst_conv)
  ultimately show ?case using Cons by (auto split: sum.split prod.split) (metis fst_conv snd_conv)
qed simp

text \<open>
  C18: the engine returns. For every engine that can be constructed, from every state of its
  cache, the eviction loop before a load ends, and so a synthesis ends with its chunks or with an
  exception of the model, the file system or the frontend. The check of the constructor is
  needed: with a cache size of 0 the loop never ends, whatever the cache holds.
\<close>

theorem engine_returns:
  assumes "engine_init torch m d c n den lora opt sz hf = Inr (g, s0 :: 'm engine_state)"
  shows "snd (fst (synthesize_stream_engine g E t v path ov meta s)) \<noteq> Some Never_Returns
    \<and> fst (warmup_voice g E v s) \<noteq> Inl Never_Returns
    \<and> make_room (g\<lparr>eg_cache_size := 0\<rparr>) s = None"
proof -
  have g: "1 \<le> eg_cache_size g" using engine_init_size [OF assms] by simp
  obtain r s1 where l: "load_base g E s = (r, s1)" by fastforce
  have "r \<noteq> Inl Never_Returns" using returns_load [OF g] l unfolding returns_def by (metis fst_conv)
  then have "snd (fst (synthesize_stream_engine g E t v path ov meta s)) \<noteq> Some Never_Returns"
    using l returns_yield [OF g, of E v path ov _ s1] by (auto simp: synthesize_stream_engine_def split: sum.split)
  moreover have "returns (warmup_voice g E v)" unfolding warmup_voice_def by (intro return_rules g)
  ultimately show ?thesis using make_room_hangs [of "g\<lparr>eg_cache_size := 0\<rparr>" s] by (simp add: returns_def)
qed

subsection \<open>The cache is bounded\<close>

definition cache_ok :: "engine \<Rightarrow> 'm engine_state \<Rightarrow> bool" where
  "cache_ok g s \<longleftrightarrow> int (length (es_models s)) \<le> eg_cache_size g \<and> distinct (map fst (es_models s))"

definition keeps_cache :: "engine \<Rightarrow> 'm engine_state \<Rightarrow> 'm engine_state \<Rightarrow> bool" where
  "keeps_cache g s s' \<longleftrightarrow> (cache_ok g s \<longrightarrow> cache_ok g s')"

named_theorems cache_rules

lemma keeps_cache_order: "reflp (keeps_cache g)" "transp (keeps_cache g)"
  by (auto simp: keeps_cache_def reflp_def transp_def)

lemmas [cache_rules] = keeps_basic [OF keeps_cache_order(1)] keeps_bind [OF keeps_cache_order(2)]
  keeps_seq [OF keeps_cache_order(2)]

lemma cache_lift [cache_rules]: "keeps (keeps_cache g) (lift_py r)" "keeps (keeps_cache g) (lift_exn r')"
  by (auto simp: lift_py_def lift_exn_def intro: cache_rules split: sum.split)

lemma cache_case [cache_rules]:
  "keeps R n \<Longrightarrow> (\<And>x. keeps R (f x)) \<Longrightarrow> keeps R (case o' of None \<Rightarrow> n | Some x \<Rightarrow> f x)"
  "keeps R m \<Longrightarrow> keeps R n \<Longrightarrow> keeps R (if b then m else n)"
  "(\<And>a b. keeps R (k a b)) \<Longrightarrow> keeps R (case p of (a, b) \<Rightarrow> k a b)"
  by (auto split: option.split prod.split)


lemma cache_hit [cache_rules]: "keeps (keeps_cache g) (cached_model g a :: ('m, 'm option) eact)"
proof -
  let ?k = "cache_key_of g a"
  have "cache_ok g (s\<lparr>es_models := od_to_end ?k (es_models s), es_model := x\<rparr>)"
    if "cache_ok g s" "map_of (es_models s) ?k = Some m" for s :: "'m engine_state" and m x
  proof -
    define k where "k = ?k"
    note that = that [folded k_def]
    have k: "k \<in> set (map fst (es_models s))" using that(2) by (metis map_of_eq_None_iff list.set_map option.distinct(1))
    have "map fst (od_to_end k (es_models s)) = filter (\<lambda>x. x \<noteq> k) (map fst (es_models s)) @ [k]"
      by (rule od.order_to_end [OF k])
    moreover from this have "length (od_to_end k (es_models s)) = Suc (length (filter (\<lambda>x. x \<noteq> k) (map fst (es_models s))))"
      by (metis length_append_singleton length_map)
    moreover have "length (filter (\<lambda>x. x \<noteq> k) (map fst (es_models s))) = length (es_models s) - 1"
      using filter_suffix [OF _ k] that(1) by (simp add: cache_ok_def)
    moreover have "0 < length (es_models s)" using k by auto
    ultimately show ?thesis using that(1) unfolding k_def [symmetric] by (simp add: cache_ok_def distinct_filter)
  qed
  then show ?thesis
    by (auto simp: keeps_def keeps_cache_def cached_model_def Let_def act_eval split: option.split)
qed

lemma cold_load_room:
  assumes "1 \<le> eg_cache_size g" "length (es_models s) \<le> nat (eg_cache_size g)" and "cold_load g E a s = (r, s')"
  defines "room \<equiv> (if nat (eg_cache_size g) \<le> length (es_models s) then tl (es_models s) else es_models s)"
  shows "(es_models s' = room \<and> (\<exists>e. r = Inl e)) \<or> (\<exists>m. r = Inr m \<and> es_models s' = od_put (cache_key_of g a) m room)"
proof -
  let ?k = "Suc (length (es_models s)) - nat (eg_cache_size g)"
  have "drop ?k (es_models s) = room"
    using assms(1,2) by (cases "es_models s") (auto simp: room_def Suc_diff_le drop_Suc)
  then obtain t where t: "make_roomA g s = (Inr (), t)" "es_models t = room"
    using make_room_loop [OF assms(1), of s] by (simp add: make_roomA_def Let_def)
  show ?thesis using assms(3) t
    by (auto simp: cold_load_def act_eval lift_exn_def lift_py_def split: sum.splits)
qed

lemma cold_load_keeps:
  assumes "1 \<le> eg_cache_size g" "cache_ok g s" "map_of (es_models s) (cache_key_of g a) = None" "cold_load g E a s = (r, s')"
  shows "cache_ok g s'"
proof -
  let ?room = "if nat (eg_cache_size g) \<le> length (es_models s) then tl (es_models s) else es_models s"
  have len: "length (es_models s) \<le> nat (eg_cache_size g)" using assms(2) unfolding cache_ok_def by linarith
  have fresh: "cache_key_of g a \<notin> set (map fst ?room)"
    using assms(3) by (cases "es_models s") (auto simp: map_of_eq_None_iff split: if_splits)
  have room: "int (length ?room) < eg_cache_size g" "distinct (map fst ?room)"
    using assms(1,2) len by (cases "es_models s"; auto simp: cache_ok_def split: if_splits)+
  from cold_load_room [OF assms(1) len assms(4)] show ?thesis
  proof (elim disjE conjE exE)
    assume "es_models s' = ?room"
    then show ?thesis using room by (simp add: cache_ok_def)
  next
    fix m assume "es_models s' = od_put (cache_key_of g a) m ?room"
    then have "es_models s' = ?room @ [(cache_key_of g a, m)]" using fresh by (simp add: od_put_def map_of_eq_None_iff)
    then show ?thesis using room fresh by (simp add: cache_ok_def)
  qed
qed

lemma cache_model [cache_rules]:
  assumes "1 \<le> eg_cache_size g"
  shows "keeps (keeps_cache g) (model_for_adapter g (E :: 'm engine_env) a)"
  unfolding keeps_def keeps_cache_def
proof (intro allI impI)
  fix s :: "'m engine_state" assume ok: "cache_ok g s"
  show "cache_ok g (snd (model_for_adapter g E a s))"
  proof (cases "map_of (es_models s) (cache_key_of g a)")
    case None
    then have "model_for_adapter g E a s = cold_load g E a s"
      by (simp add: model_for_adapter_def cached_model_def act_eval Let_def)
    then show ?thesis using cold_load_keeps [OF assms ok None] by (metis prod.collapse)
  next
    case (Some m)
    then have "snd (model_for_adapter g E a s) = snd (cached_model g a s)"
      by (simp add: model_for_adapter_def cached_model_def act_eval Let_def)
    moreover have "keeps (keeps_cache g) (cached_model g a :: ('m, 'm option) eact)" by (rule cache_hit)
    ultimately show ?thesis using ok by (simp add: keeps_def keeps_cache_def)
  qed
qed

lemma cache_load [cache_rules]: "1 \<le> eg_cache_size g \<Longrightarrow> keeps (keeps_cache g) (load_base g E)"
  unfolding load_base_def by (intro cache_rules)

lemma cache_one [cache_rules]: "1 \<le> eg_cache_size g \<Longrightarrow> keeps (keeps_cache g) (generate_one g E v path ov seg)"
  unfolding generate_one_def by (intro cache_rules)

lemma cache_yield: "1 \<le> eg_cache_size g \<Longrightarrow> cache_ok g s \<Longrightarrow> cache_ok g (snd (yield_segments g E v path ov segs s))"
proof (induction segs arbitrary: s)
  case (Cons seg segs)
  obtain r s1 where r: "generate_one g E v path ov seg s = (r, s1)" by fastforce
  then have "cache_ok g s1" using cache_one [OF Cons.prems(1)] Cons.prems(2) by (metis keeps_def keeps_cache_def snd_conv)
  then show ?case using Cons r by (auto split: sum.split prod.split) (metis snd_conv)
qed simp

lemma cache_stream:
  assumes "1 \<le> eg_cache_size g" "cache_ok g s"
  shows "cache_ok g (snd (synthesize_stream_engine g E t v path ov meta s))"
proof -
  obtain r s1 where l: "load_base g E s = (r, s1)" by fastforce
  then have "cache_ok g s1" using cache_load [OF assms(1)] assms(2) by (metis keeps_def keeps_cache_def snd_conv)
  then show ?thesis using l cache_yield [OF assms(1), of s1 E v path ov] by (auto simp: synthesize_stream_engine_def split: sum.split)
qed

text \<open>
  What a worker asks of its engine over its life: warm-ups and syntheses, each with what the
  outside answers at that time.
\<close>

datatype 'm engine_call =
    Warm "'m engine_env" voice_view
  | Speak "'m engine_env" ustr voice_view string "dict option" "request_meta option"

primrec after_call :: "engine \<Rightarrow> 'm engine_call \<Rightarrow> 'm engine_state \<Rightarrow> 'm engine_state" where
  "after_call g (Warm E v) s = snd (warmup_voice g E v s)"
| "after_call g (Speak E t v path ov meta) s = snd (synthesize_stream_engine g E t v path ov meta s)"

text \<open>
  The memory of a worker is bounded. Whatever a worker asks of its engine, in whatever order
  and however the loads and the model fail, never more than \<open>cache_size\<close> models are cached, and
  none twice.
\<close>

theorem cache_bounded:
  assumes "engine_init torch m d c n den lora opt sz hf = Inr (g, s0 :: 'm engine_state)"
  shows "int (length (es_models (fold (after_call g) calls s0))) \<le> sz
    \<and> distinct (map fst (es_models (fold (after_call g) calls s0)))"
proof -
  have g: "1 \<le> eg_cache_size g" "eg_cache_size g = sz" "es_models s0 = []" using engine_init_size [OF assms] by auto
  have warm: "keeps (keeps_cache g) (warmup_voice g E v)" for E :: "'m engine_env" and v
    unfolding warmup_voice_def by (intro cache_rules g)
  have step: "cache_ok g (after_call g call s)" if "cache_ok g s" for call :: "'m engine_call" and s
    using that cache_stream [OF g(1)] warm by (cases call) (auto simp: keeps_def keeps_cache_def)
  have "cache_ok g s \<Longrightarrow> cache_ok g (fold (after_call g) calls s)" for s
    by (induction calls arbitrary: s) (auto intro: step)
  moreover have "cache_ok g s0" using g by (simp add: cache_ok_def)
  ultimately show ?thesis using g(2) by (auto simp: cache_ok_def)
qed


subsection \<open>Least recently used\<close>

lemma model_served:
  assumes "1 \<le> eg_cache_size g" "cache_ok g s" "model_for_adapter g E a s = (Inr m, s')"
  shows "map fst (es_models s') = map fst (od.serve (nat (eg_cache_size g)) (cache_key_of g a) m (es_models s))"
proof (cases "map_of (es_models s) (cache_key_of g a)")
  case None
  then have "cold_load g E a s = (Inr m, s')"
    using assms(3) by (simp add: model_for_adapter_def cached_model_def act_eval Let_def)
  moreover have "length (es_models s) \<le> nat (eg_cache_size g)" using assms(2) unfolding cache_ok_def by linarith
  ultimately show ?thesis using cold_load_room [OF assms(1), of s E a "Inr m" s'] None
    by (auto simp: od.serve_def)
next
  case (Some m')
  then show ?thesis using assms(3)
    by (auto simp: model_for_adapter_def cached_model_def act_eval Let_def od.serve_def)
qed

text \<open>Models asked for one after the other, every load succeeding.\<close>

primrec ask_models :: "engine \<Rightarrow> ('m engine_env \<times> adapter_spec option) list \<Rightarrow> ('m, unit) eact" where
  "ask_models g [] = ret ()"
| "ask_models g (q # qs) = bindA (model_for_adapter g (fst q) (snd q)) (\<lambda>_. ask_models g qs)"

lemma ask_models_recent:
  "1 \<le> eg_cache_size g \<Longrightarrow> cache_ok g s \<Longrightarrow> map fst (es_models s) = recent (nat (eg_cache_size g)) ks
   \<Longrightarrow> ask_models g qs s = (Inr (), s')
   \<Longrightarrow> map fst (es_models s') = recent (nat (eg_cache_size g)) (ks @ map (\<lambda>q. cache_key_of g (snd q)) qs)"
proof (induction qs arbitrary: s ks)
  case (Cons q qs)
  obtain m s1 where m: "model_for_adapter g (fst q) (snd q) s = (Inr m, s1)" "ask_models g qs s1 = (Inr (), s')"
    using Cons.prems(4) by (auto simp: bindA_Inr)
  have ok: "cache_ok g s1"
    using cache_model [OF Cons.prems(1)] Cons.prems(2) m(1) by (metis keeps_def keeps_cache_def snd_conv)
  have "map fst (es_models s1) = recent (nat (eg_cache_size g)) (ks @ [cache_key_of g (snd q)])"
    using model_served [OF Cons.prems(1,2) m(1)] od.serve_recent [OF Cons.prems(3)] Cons.prems(1) by simp
  from Cons.IH [OF Cons.prems(1) ok this m(2)] show ?case by simp
qed simp

text \<open>
  C19: the cache implements \<open>least recently used\<close>. After any sequence of requests for adapters that
  all succeed, the cached keys are exactly the last \<open>cache_size\<close> distinct ones of the history,
  least recently used first; in particular the base model has no privilege.
\<close>

theorem cache_is_lru:
  assumes "engine_init torch m d c n den lora opt sz hf = Inr (g, s0 :: 'm engine_state)"
    and "ask_models g qs s0 = (Inr (), s)"
  shows "map fst (es_models s) = recent (nat sz) (map (\<lambda>q. cache_key_of g (snd q)) qs)"
proof -
  have g: "1 \<le> eg_cache_size g" "eg_cache_size g = sz" "es_models s0 = []" using engine_init_size [OF assms(1)] by auto
  have "cache_ok g s0" "map fst (es_models s0) = recent (nat (eg_cache_size g)) []"
    using g by (simp_all add: cache_ok_def recent_def)
  from ask_models_recent [OF g(1) this assms(2)] show ?thesis using g(2) by simp
qed

subsection \<open>Captions\<close>

lemma yield_captions:
  "yield_segments g E v path ov segs s = ((chunks, None), s') \<Longrightarrow> map sc_sentence_text chunks = map Some segs"
proof (induction segs arbitrary: s chunks)
  case (Cons seg segs)
  then show ?case by (auto split: prod.splits sum.splits)
qed simp

lemma engine_captions:
  assumes "engine_of g E s t v path lang ov meta = (chunks, False)"
  shows "\<exists>segs. frontend_segments E meta t = Inr segs \<and> map sc_sentence_text chunks = map Some segs"
proof -
  obtain c n where ov: "ov = (c, n)" by fastforce
  let ?ov = "Some [(''cfg_value'', c), (''inference_timesteps'', n)]"
  obtain s' where "synthesize_stream_engine g E t v path ?ov meta s = ((chunks, None), s')"
    using assms by (auto simp: engine_of_def ov split: prod.splits)
  then show ?thesis
    by (auto simp: synthesize_stream_engine_def split: prod.splits sum.splits if_splits dest: yield_captions)
qed

lemma lift_err_Inr: "lift_err r s = (Inr x, s') \<longleftrightarrow> r = Inr x \<and> s' = s"
  by (cases r) (auto simp: lift_err_def)

subsection \<open>One body or a stream\<close>

lemma lift_py_Inr: "lift_py r s = (Inr x, s') \<longleftrightarrow> r = Inr x \<and> s' = s"
  by (auto simp: lift_py_def throw_def ret_def split: sum.split)

text \<open>The chunks of a stream joined one after the other.\<close>

fun join_chunks :: "ramps \<Rightarrow> synth_chunk list \<Rightarrow> bytes \<times> int \<times> nat \<Rightarrow> py_error + bytes \<times> int \<times> nat" where
  "join_chunks R [] acc = Inr acc"
| "join_chunks R (c # cs) (pcm, sr, i) =
     bindS (if i = 0 then Inr (sc_pcm c) else crossfade_concat R pcm (sc_pcm c) (sc_sample_rate c) 4 80) (\<lambda>pcm.
       join_chunks R cs (pcm, sc_sample_rate c, Suc i))"

lemma join_is_stream:
  "join_segments g E R v path ov segs acc s = (Inr acc', s')
   \<Longrightarrow> \<exists>chunks. yield_segments g E v path ov segs s = ((chunks, None), s') \<and> join_chunks R chunks acc = Inr acc'
      \<and> length chunks = length segs"
proof (induction segs arbitrary: acc s)
  case (Cons seg segs)
  obtain pcm sr i where acc: "acc = (pcm, sr, i)" by (cases acc)
  from Cons.prems obtain wav s1 pcm' where w: "generate_one g E v path ov seg s = (Inr wav, s1)"
    "(if i = 0 then Inr (float_to_pcm16_bytes wav)
      else crossfade_concat R pcm (float_to_pcm16_bytes wav) (es_sample_rate s1) 4 80) = Inr pcm'"
    "join_segments g E R v path ov segs (pcm', es_sample_rate s1, Suc i) s1 = (Inr acc', s')"
    unfolding acc by (auto simp: bindA_Inr getsA_def lift_py_Inr)
  from Cons.IH [OF w(3)] obtain chunks where c: "yield_segments g E v path ov segs s1 = ((chunks, None), s')"
    "join_chunks R chunks (pcm', es_sample_rate s1, Suc i) = Inr acc'" "length chunks = length segs" by blast
  then show ?case using w(1,2) unfolding acc by (cases "i = 0") (auto simp: bindS_def)
qed (simp add: ret_def)

text \<open>
  C28: the one-body synthesis says what the stream says. When it succeeds, the stream of the same
  request in the same state ends without an exception and in the same state of the cache; the body
  is its chunks put together by the cross-fade in their order, the rate is the last chunk's, and
  the count is the number of sentences the frontend found.
\<close>

theorem synthesize_is_joined_stream:
  assumes "synthesize_engine g E R t v path ov meta s = (Inr r, s')"
  shows "\<exists>chunks segs. synthesize_stream_engine g E t v path ov meta s = ((chunks, None), s')
    \<and> frontend_segments E meta t = Inr segs \<and> map sc_sentence_text chunks = map Some segs
    \<and> join_chunks R chunks ([], es_sample_rate s, 0) = Inr (sy_pcm r, sy_sample_rate r, sy_sentence_count r)
    \<and> sy_sentence_count r = length segs"
proof -
  obtain s1 segs pcm sr n where l: "load_base g E s = (Inr (), s1)" "ev_is_file E (cps path)" "frontend_segments E meta t = Inr segs"
    "join_segments g E R v path ov segs ([], es_sample_rate s, 0) s1 = (Inr (pcm, sr, n), s')"
    and r: "sy_pcm r = pcm" "sy_sample_rate r = sr" "sy_sentence_count r = n"
    using assms by (auto simp: synthesize_engine_def bindA_Inr seqA_def getsA_def lift_py_Inr throw_def ret_def split: if_splits)
  from join_is_stream [OF l(4)] obtain chunks where c: "yield_segments g E v path ov segs s1 = ((chunks, None), s')"
    "join_chunks R chunks ([], es_sample_rate s, 0) = Inr (pcm, sr, n)" "length chunks = length segs" by blast
  have count: "join_chunks R cs acc = Inr (p, q, k) \<Longrightarrow> k = snd (snd acc) + length cs" for cs acc p q k
    by (induction R cs acc rule: join_chunks.induct) (auto simp: bindS_Inr)
  show ?thesis using l c r count [OF c(2)] yield_captions [OF c(1)]
    by (intro exI [of _ chunks] exI [of _ segs]) (simp add: synthesize_stream_engine_def)
qed

text \<open>A job that ended normally was fed by an engine that did not raise.\<close>

lemma finished_engine:
  assumes "job_ids job = Inr (rid, tenant, api_key)" and "process_one_job W job attempt s = (Inr (), s')"
  shows "\<exists>v path settings ov bits chunks pieces.
     pe_engine W (tj_text job) (voice_view_from_db v) path (tj_language job) ov (nonempty (Some (request_meta_of job))) = (chunks, False)
     \<and> list_all2 (piece_of W settings bits) chunks pieces
     \<and> ps_stream s' = audio_chunks (uuid_str rid) attempt 0 pieces @ [final_chunk (uuid_str rid) attempt (int (length pieces))]"
proof -
  obtain s1 row bits s2 s3 v path s4 where d: "redis_cmd W (\<lambda>_. []) s = (Inr (), s1)"
    and l: "lookup_voice W tenant (tj_voice_id job) s1 = (Inr (row, bits), s2)"
    and w: "require_watermark W job attempt row bits s2 = (Inr (), s3)"
    and row: "row = Some v" and r: "resolve_reference W job attempt v s3 = (Inr path, s4)"
    and y: "synthesize_and_commit W job attempt (rid, tenant, api_key) v bits path s4 = (Inr (), s')"
    using assms by (auto simp: process_one_job_def act_cases lift_err_def poison_def split: option.splits)
  have empty: "ps_stream s4 = []"
  proof -
    have "ps_stream s1 = []" using redis_cmd_out [OF d] by auto
    moreover have "ps_stream s2 = ps_stream s1" using l by (auto simp: lookup_voice_def Let_def dest!: db_read_out)
    moreover have "s3 = s2" using require_watermark_out [OF assms(1) w] by auto
    moreover have "s4 = s3" using resolve_reference_out [OF assms(1) r] by auto
    ultimately show ?thesis by simp
  qed
  let ?settings = "layered_settings (v_settings_defaults v) (tj_voice_settings job)"
  obtain p s5 ov s6 acc s7 uri s8 where st: "stream_stage W job rid attempt (voice_view_from_db v) path ?settings ov bits s6 = (Inr acc, s7)"
    and pick: "pick_preset W job attempt s4 = (Inr p, s5)" and s6: "s6 = s5"
    and ar: "archive_stage W job rid attempt acc s7 = (Inr uri, s8)"
    and cf: "seqA (or_transient ''db_commit_failed'' (db_commit W (success_tx W job rid tenant api_key v p ?settings ov acc uri)))
           (or_transient ''publish_final_failed'' (publish_final W rid (la_seq acc) attempt)) s8 = (Inr (), s')"
    using y by (auto simp: synthesize_and_commit_def bindA_Inr Let_def lift_err_Inr)
  have "s5 = s4" using pick_preset_out [OF assms(1) pick] by auto
  obtain chunks raises where eng: "pe_engine W (tj_text job) (voice_view_from_db v) path (tj_language job) ov
      (nonempty (Some (request_meta_of job))) = (chunks, raises)" by fastforce
  have loop: "chunk_loop W rid attempt ?settings bits chunks loop_start s6 = (Inr acc, s7)" and "\<not> raises"
    using st eng by (auto simp: stream_stage_def or_transient_def act_cases split: if_splits)
  have start: "la_seq loop_start = 0" "la_pcm loop_start = []" "la_align loop_start = []"
    by (simp_all add: loop_start_def)
  obtain ps where ps: "ps_stream s7 = ps_stream s6 @ audio_chunks (uuid_str rid) attempt 0 ps"
      "list_all2 (piece_of W ?settings bits) chunks ps" "la_seq acc = int (length ps)"
    using chunk_loop_out [OF loop] unfolding start append_Nil add_0 list.size by (auto simp: list_all2_lengthD)
  have "ps_stream s8 = ps_stream s7" using archive_stage_out [OF assms(1) ar] by (auto simp: poison_end_def)
  moreover have "ps_stream s' = ps_stream s8 @ [final_chunk (uuid_str rid) attempt (la_seq acc)]"
    using commit_final_out [OF cf] by auto
  ultimately have "ps_stream s' = audio_chunks (uuid_str rid) attempt 0 ps @ [final_chunk (uuid_str rid) attempt (int (length ps))]"
    using empty ps s6 \<open>s5 = s4\<close> by simp
  moreover have "pe_engine W (tj_text job) (voice_view_from_db v) path (tj_language job) ov
      (nonempty (Some (request_meta_of job))) = (chunks, False)" using eng \<open>\<not> raises\<close> by simp
  ultimately show ?thesis using ps(2) by blast
qed


definition caption_of :: "tts_result \<Rightarrow> ustr" where
  "caption_of c = (case tr_sentence_text c of None \<Rightarrow> [] | Some t \<Rightarrow> t)"

lemma captions_of: "map tr_sentence_text cs = map Some ts \<Longrightarrow> map caption_of cs = ts"
  by (induction cs arbitrary: ts) (auto simp: caption_of_def map_eq_Cons_conv Cons_eq_map_conv)

text \<open>The pronunciations of a job as the frontend applies them.\<close>

definition job_pronunciations :: "tts_job \<Rightarrow> (ustr \<times> ustr) list option" where
  "job_pronunciations job =
     map_option (\<lambda>d. map (\<lambda>(k, v). (cps k, v)) (filter (\<lambda>(k, v). k \<noteq> []) d)) (nonempty (tj_pronunciation_dict job))"

lemma pron_entries_job: "pron_entries (map (\<lambda>(k, v). (k, JStr v)) d) = Inr (map (\<lambda>(k, v). (cps k, v)) (filter (\<lambda>(k, v). k \<noteq> []) d))"
  by (induction d) auto

lemma meta_pronunciations:
  "map_of (request_meta_of job) ''pronunciation_dict''
     = map_option (\<lambda>d. JObj (map (\<lambda>(k, v). (k, JStr v)) d)) (nonempty (tj_pronunciation_dict job))"
  by (auto simp: request_meta_of_def meta_field_def split: option.split)

lemma job_frontend:
  "frontend_segments E (nonempty (Some (request_meta_of job))) (tj_text job)
     = bindS (normalize_text (ev_unicode E) (job_pronunciations job) (tj_text job)) (segment_sentences (uc_word (ev_unicode E)))"
proof -
  have meta: "(case nonempty (Some (request_meta_of job)) of None \<Rightarrow> None | Some m \<Rightarrow> map_of m ''pronunciation_dict'')
      = map_of (request_meta_of job) ''pronunciation_dict''"
    by (cases "request_meta_of job") (auto simp: nonempty_def)
  have empty: "normalize_text U p [] = Inr []" for U p by (simp add: normalize_text_def)
  show ?thesis unfolding frontend_segments_def meta meta_pronunciations
    by (cases "nonempty (tj_pronunciation_dict job)"; cases "tj_text job = []")
      (simp_all add: pron_entries_job job_pronunciations_def empty)
qed

lemma audio_captions: "map tr_sentence_text (audio_chunks rid attempt n ps) = map snd ps"
  by (induction ps arbitrary: n) (auto simp: audio_chunk_def)

text \<open>
  C4: a finished job has spoken its whole text. When an attempt with this engine ends normally,
  the captions of the sentences it published, put together, are the normalized text of the
  request, under its pronunciations, each letter once and in order, white space aside: no
  sentence is skipped, repeated or cut between the frontend and the client.
\<close>

theorem job_speaks_its_text:
  assumes "job_ids job = Inr (rid, tenant, api_key)" and "pe_engine W = engine_of g E es"
    and "process_one_job W job attempt s = (Inr (), s')"
  shows "\<exists>t. normalize_text (ev_unicode E) (job_pronunciations job) (tj_text job) = Inr t
    \<and> concat (map (\<lambda>c. ink (caption_of c)) (ps_stream s')) = map (\<lambda>c. if c = 1 then 46 else c) (ink t)"
proof -
  obtain v path settings ov bits chunks pieces where
    eng: "engine_of g E es (tj_text job) (voice_view_from_db v) path (tj_language job) ov (nonempty (Some (request_meta_of job))) = (chunks, False)"
    and pc: "list_all2 (piece_of W settings bits) chunks pieces"
    and st: "ps_stream s' = audio_chunks (uuid_str rid) attempt 0 pieces @ [final_chunk (uuid_str rid) attempt (int (length pieces))]"
    using finished_engine [OF assms(1,3)] unfolding assms(2) by blast
  obtain segs where segs: "frontend_segments E (nonempty (Some (request_meta_of job))) (tj_text job) = Inr segs"
    "map sc_sentence_text chunks = map Some segs" using engine_captions [OF eng] by blast
  obtain t where t: "normalize_text (ev_unicode E) (job_pronunciations job) (tj_text job) = Inr t"
    "segment_sentences (uc_word (ev_unicode E)) t = Inr segs" using segs(1) unfolding job_frontend by (auto simp: bindS_Inr)
  have "map snd pieces = map Some segs"
    unfolding segs(2) [symmetric] using pc by (induction rule: list_all2_induct) (auto simp: piece_of_def)
  then have "map tr_sentence_text (audio_chunks (uuid_str rid) attempt 0 pieces) = map Some segs"
    by (simp add: audio_captions)
  then have "map caption_of (audio_chunks (uuid_str rid) attempt 0 pieces) = segs"
    by (rule captions_of)
  moreover have "caption_of (final_chunk (uuid_str rid) attempt k) = []" for k by (simp add: caption_of_def final_chunk_def)
  ultimately have "concat (map (\<lambda>c. ink (caption_of c)) (ps_stream s')) = concat (map ink segs)"
    unfolding st by (metis (no_types, lifting) append_Nil2 concat.simps concat_append ink_simps(1) list.map(1,2) map_append map_map comp_apply map_cong)
  moreover obtain segs' where "segment_sentences (uc_word (ev_unicode E)) t = Inr segs'" "concat (map ink segs') = restore_abbreviations (ink t)"
    using segment_sentences_total by blast
  ultimately show ?thesis using t by (auto simp: restore_abbreviations_def placeholder_def)
qed

subsection \<open>A request that can never be spoken\<close>

definition same_archive :: "pstate \<Rightarrow> pstate \<Rightarrow> bool" where
  "same_archive s s' \<longleftrightarrow> ps_archived s' = ps_archived s"

named_theorems archive_rules

lemma same_archive_order: "reflp same_archive" "transp same_archive"
  by (auto simp: same_archive_def reflp_def transp_def)

lemmas [archive_rules] = keeps_basic [OF same_archive_order(1)] keeps_bind [OF same_archive_order(2)]
  keeps_seq [OF same_archive_order(2)] keeps_catch [OF same_archive_order(2)]

lemma archive_commands [archive_rules]:
  "keeps same_archive (redis_cmd W f)" "keeps same_archive (db_commit W tx)" "keeps same_archive (db_read W x)"
  "keeps same_archive (lift_err r)"
  by (auto simp: keeps_def same_archive_def redis_cmd_def db_commit_def db_read_def lift_err_def throw_def ret_def Let_def
      split: sum.split prod.split)

lemma archive_poison [archive_rules]: "keeps same_archive (poison W job code msg n attempt)"
  unfolding poison_def mark_terminal_failure_def publish_error_def xadd_result_def
  by (intro archive_rules cache_case)

lemma archive_stream [archive_rules]: "keeps same_archive (stream_stage W job rid attempt view path settings ov bits)"
  unfolding keeps_def
  by (metis prod.collapse same_archive_def same_store_def stream_stage_out)

text \<open>What comes after an action that always raises does not run.\<close>

lemma keeps_dead:
  assumes "keeps R m" "\<And>s x. fst (m s) \<noteq> Inr x"
  shows "keeps R (bindA m f)" "fst (bindA m f s) \<noteq> Inr y"
proof -
  have dead: "\<exists>e. fst (m s) = Inl e" for s using assms(2) [of s] by (cases "fst (m s)") auto
  have run: "\<exists>e. bindA m f s = (Inl e, snd (m s))" for s
    using dead [of s] by (cases "m s") (auto simp: bindA_def)
  then show "keeps R (bindA m f)" using assms(1) unfolding keeps_def by (metis snd_conv)
  show "fst (bindA m f s) \<noteq> Inr y" using run [of s] by auto
qed


lemma archive_process:
  assumes "\<And>rid view path settings ov bits s acc. fst (stream_stage W job rid attempt view path settings ov bits s) \<noteq> Inr acc"
  shows "keeps same_archive (process_one_job W job attempt)" "fst (process_one_job W job attempt s) \<noteq> Inr ()"
proof -
  have stream: "keeps same_archive (bindA (stream_stage W job rid attempt view path settings ov bits) f)"
    for rid view path settings ov bits and f :: "loop_acc \<Rightarrow> unit pact"
    by (rule keeps_dead(1) [OF archive_stream assms])
  have syn: "keeps same_archive (synthesize_and_commit W job attempt ids v bits path)"
    "fst (synthesize_and_commit W job attempt ids v bits path s) \<noteq> Inr ()" for ids v bits path s
  proof -
    show "keeps same_archive (synthesize_and_commit W job attempt ids v bits path)"
      unfolding synthesize_and_commit_def pick_preset_def Let_def
      by (auto intro!: stream archive_rules cache_case split: prod.split sum.split)
    show "fst (synthesize_and_commit W job attempt ids v bits path s) \<noteq> Inr ()"
    proof
      assume "fst (synthesize_and_commit W job attempt ids v bits path s) = Inr ()"
      then obtain s' where "synthesize_and_commit W job attempt ids v bits path s = (Inr (), s')" by (metis prod.collapse)
      then show False using assms
        by (auto simp: synthesize_and_commit_def bindA_Inr Let_def split: prod.splits) (metis fst_conv)
    qed
  qed
  show "keeps same_archive (process_one_job W job attempt)"
    unfolding process_one_job_def lookup_voice_def require_watermark_def resolve_reference_def Let_def
    by (auto intro!: archive_rules cache_case syn split: prod.split option.split resolve_reply.split)
  show "fst (process_one_job W job attempt s) \<noteq> Inr ()"
  proof
    assume "fst (process_one_job W job attempt s) = Inr ()"
    then obtain s' where "process_one_job W job attempt s = (Inr (), s')" by (metis prod.collapse)
    then show False using syn(2)
      by (auto simp: process_one_job_def act_cases poison_def lift_err_Inr split: option.splits) (metis fst_conv)
  qed
qed

text \<open>
  C34: one backslash starves a request. A pronunciation that is not a valid template of \<open>re.sub\<close>,
  a lone backslash for example, passes the validation of the gateway; on the worker the frontend
  raises whether or not the token occurs in the text, so no attempt ever ends normally or archives
  anything, and the job is redelivered until its budget is spent.
\<close>

theorem bad_pronunciation_starves:
  assumes "pe_engine W = engine_of g E es" and "tj_pronunciation_dict job = Some d"
    and "(k, pron) \<in> set d" "k \<noteq> []" "parse_template pron = Inl e" "tj_text job \<noteq> []"
  shows "fst (process_one_job W job attempt s) \<noteq> Inr ()
    \<and> ps_archived (snd (process_one_job W job attempt s)) = ps_archived s"
proof -
  let ?meta = "nonempty (Some (request_meta_of job))"
  have "nonempty (tj_pronunciation_dict job) = Some d" using assms(2,3) by (cases d) (auto simp: nonempty_def)
  then obtain p where p: "job_pronunciations job = Some p" "(cps k, pron) \<in> set p" using assms(3,4)
    by (force simp: job_pronunciations_def)
  have "cps k \<noteq> []" using assms(4) by (simp add: cps_def)
  then obtain e' where "normalize_text (ev_unicode E) (job_pronunciations job) (tj_text job) = Inl e'"
    unfolding p(1) using normalize_raises [OF p(2) _ assms(5,6), of "ev_unicode E"] by blast
  then have fe: "frontend_segments E ?meta (tj_text job) = Inl e'" by (simp add: job_frontend)
  have "snd (engine_of g E es (tj_text job) view path lang ov ?meta)" for view path lang ov
  proof -
    obtain c n where ov: "ov = (c, n)" by fastforce
    obtain r s1 where "load_base g E es = (r, s1)" by fastforce
    then show ?thesis by (cases r) (simp_all add: engine_of_def synthesize_stream_engine_def ov fe)
  qed
  then have raises: "\<exists>chunks. pe_engine W (tj_text job) view path lang ov ?meta = (chunks, True)" for view path lang ov
    unfolding assms(1) by (metis prod.collapse)
  have "fst (stream_stage W job rid attempt view path settings ov bits t) \<noteq> Inr acc" for rid view path settings ov bits t acc
  proof
    assume "fst (stream_stage W job rid attempt view path settings ov bits t) = Inr acc"
    then obtain t' where run: "stream_stage W job rid attempt view path settings ov bits t = (Inr acc, t')" by (metis prod.collapse)
    obtain chunks where "pe_engine W (tj_text job) view path (tj_language job) ov ?meta = (chunks, True)" using raises by blast
    with run show False by (simp add: stream_stage_def or_transient_def act_cases)
  qed
  note dead = archive_process [OF this]
  show ?thesis using dead(1) dead(2) [of s] by (simp add: keeps_def same_archive_def)
qed


subsection \<open>Samples\<close>

definition sample_model :: "unit engine_env" where
  "sample_model = \<lparr>ev_str = (\<lambda>v. case v of JStr s \<Rightarrow> s | _ \<Rightarrow> []), ev_lower = (\<lambda>s. s),
     ev_parse_float = (\<lambda>_. Inl (ValueError ''float'')), ev_expand = (\<lambda>s. s), ev_exists = (\<lambda>_. True), ev_is_file = (\<lambda>_. True),
     ev_read_json = (\<lambda>_. Inr (JObj [])), ev_lora_config = Inr, ev_from_pretrained = (\<lambda>_. Inr ()),
     ev_model_rate = (\<lambda>_. None), ev_generate = (\<lambda>_ _. Inr [1/2, 0]), ev_unicode = latin\<rparr>"

definition sample_engine_of :: "int \<Rightarrow> engine" where
  "sample_engine_of n = fst (projr (engine_init None ''m'' ''cpu'' 2 10 False (None, None) False n None :: py_error + engine \<times> unit engine_state))"

definition sample_start :: "unit engine_state" where
  "sample_start = \<lparr>es_models = [], es_model = None, es_evictions_total = 0, es_sample_rate = 48000\<rparr>"

definition sample_view :: voice_view where
  "sample_view = voice_view_from_db (sample_voice\<lparr>v_owner := 7, v_voice_id := ''ada''\<rparr>)"

lemma sample_init: "engine_init None ''m'' ''cpu'' 2 10 False (None, None) False 2 None = Inr (sample_engine_of 2, sample_start)"
  by (simp add: sample_engine_of_def engine_init_def sample_start_def)

definition sample_lora :: "string \<Rightarrow> adapter_spec" where
  "sample_lora p = \<lparr>ad_path = cps p, ad_config_path = None\<rparr>"

theorem engine_returns_witness:
  "snd (fst (synthesize_stream_engine (sample_engine_of 2) sample_model [77] sample_view ''r'' None None sample_start)) \<noteq> Some Never_Returns
   \<and> make_room ((sample_engine_of 2)\<lparr>eg_cache_size := 0\<rparr>) sample_start = None"
  using engine_returns [OF sample_init] by blast

theorem cache_bounded_witness:
  "int (length (es_models (fold (after_call (sample_engine_of 2)) [] sample_start))) \<le> 2"
  using cache_bounded [OF sample_init, of "[]"] by blast

lemmas cache_eval = model_for_adapter_def cached_model_def cold_load_def make_roomA_def make_room_loop
  lift_exn_def lift_py_def adapter_arguments_def read_lora_config_def load_arguments_def act_eval
  cache_key_of_def adapter_key_def od_put_def od_to_end_def sample_model_def

lemma sample_asks:
  "\<exists>s. ask_models (sample_engine_of 2) (map (Pair sample_model) [None, Some (sample_lora ''a''), None, Some (sample_lora ''b'')]) sample_start
     = (Inr (), s)"
  by (simp add: cache_eval sample_engine_of_def engine_init_def sample_start_def sample_lora_def cps_def Let_def)

theorem cache_is_lru_witness:
  "\<exists>s. map fst (es_models s) = [(''m'', None), (''m'', Some (cps ''b'', None))]
     \<and> ask_models (sample_engine_of 2) (map (Pair sample_model) [None, Some (sample_lora ''a''), None, Some (sample_lora ''b'')]) sample_start
         = (Inr (), s)"
proof -
  obtain s where s: "ask_models (sample_engine_of 2) (map (Pair sample_model) [None, Some (sample_lora ''a''), None, Some (sample_lora ''b'')])
      sample_start = (Inr (), s)" using sample_asks by blast
  have "eg_model_id (sample_engine_of 2) = ''m''" by (simp add: sample_engine_of_def engine_init_def)
  then show ?thesis using cache_is_lru [OF sample_init s] s
    by (intro exI [of _ s]) (simp add: recent_def cache_key_of_def adapter_key_def sample_lora_def cps_def Let_def)
qed

lemmas normalize_eval = normalize_text_def expand_abbreviations_def abbreviations_def abbr_match_def expand_code_mix_def
  code_mix_lexicon_def token_match_def symbol_map_def replace_char_def invisible_mark_def hour_shape_def time_match_def
  sign_length_def grouped_match_def decimal_match_def integer_match_def dot_groups.simps blank_match_def newline_match_def
  latin_def latin_word_def cps_def Let_def starts_def boundary_def word_at_def re_sub.simps strip_spaces_def
  py_space_def digit_def

lemma sample_speech: "normalize_text latin None [77, 0x131] = Inr [77, 0x131]"
  by (simp add: normalize_eval)

lemma sample_segments: "segment_sentences latin_word [77, 0x131] = Inr [[77, 0x131]]"
  by (simp add: segment_eval)

definition sample_worker :: penv where
  "sample_worker = sample_env\<lparr>pe_engine := engine_of (sample_engine_of 2) sample_model sample_start\<rparr>"

lemma sample_frontend: "frontend_segments sample_model (Some [(''seed'', JInt 3)]) [77, 0x131] = Inr [[77, 0x131]]"
  using sample_speech sample_segments by (simp add: frontend_segments_def sample_model_def latin_def bindS_def)

lemma sample_pcm: "float_to_pcm16_bytes [1/2, 0] = [255, 63, 0, 0]"
proof -
  have "\<lfloor>32767 / 2 :: rat\<rfloor> = 16383" by (rule floor_unique) simp_all
  then show ?thesis by (simp add: float_to_pcm16_bytes_def tobytes_def to_int16_def clip_def trunc_def)
qed

lemma sample_engine_says:
  assumes "vv_adapter v = None" "vv_engine_params v = []"
  shows "engine_of (sample_engine_of 2) sample_model sample_start [77, 0x131] v path lang (JFloat c, JInt n) (Some [(''seed'', JInt 3)])
     = ([\<lparr>sc_pcm = [255, 63, 0, 0], sc_sample_rate = 48000, sc_sentence_text = Some [77, 0x131]\<rparr>], False)"
  using assms sample_frontend
  by (simp add: engine_of_def synthesize_stream_engine_def load_base_def cache_eval generate_one_def adapter_for_voice_def
    lora_from_mapping_def adapter_dict_def engine_params_for_voice_def py_float_def py_int_of_def num_of_def sample_engine_of_def
    engine_init_def sample_start_def dict_merge_def Let_def bindS_def sample_pcm)

lemma sample_said:
  "engine_of (sample_engine_of 2) sample_model sample_start [77, 0x131] (voice_view_from_db (sample_voice\<lparr>v_owner := 7, v_voice_id := ''ada''\<rparr>))
      path lang (JFloat c, JInt n) (nonempty (Some (request_meta_of sample_job)))
     = ([\<lparr>sc_pcm = [255, 63, 0, 0], sc_sample_rate = 48000, sc_sentence_text = Some [77, 0x131]\<rparr>], False)"
proof -
  have "nonempty (Some (request_meta_of sample_job)) = Some [(''seed'', JInt 3)]"
    by (simp add: nonempty_def request_meta_of_def meta_field_def sample_job_def)
  then show ?thesis by (simp add: sample_engine_says voice_view_from_db_def sample_voice_def)
qed

lemma sample_worker_run: "fst (process_one_job sample_worker sample_job 1 sample_state) = Inr ()"
  by (simp add: run_simps sample_said sample_worker_def)

theorem job_speaks_its_text_witness:
  "\<exists>t. normalize_text latin None [77, 0x131] = Inr t
     \<and> concat (map (\<lambda>c. ink (caption_of c)) (ps_stream (snd (process_one_job sample_worker sample_job 1 sample_state))))
        = map (\<lambda>c. if c = 1 then 46 else c) (ink t)"
proof -
  have run: "process_one_job sample_worker sample_job 1 sample_state
      = (Inr (), snd (process_one_job sample_worker sample_job 1 sample_state))"
    using sample_worker_run by (metis prod.collapse)
  have "pe_engine sample_worker = engine_of (sample_engine_of 2) sample_model sample_start"
    by (simp add: sample_worker_def)
  from job_speaks_its_text [OF sample_ids this run] show ?thesis
    by (simp add: sample_model_def job_pronunciations_def sample_job_def nonempty_def)
qed

theorem bad_pronunciation_starves_witness:
  "fst (process_one_job sample_worker (sample_job\<lparr>tj_pronunciation_dict := Some [(''Ali'', [92])]\<rparr>) 1 sample_state) \<noteq> Inr ()
   \<and> ps_archived (snd (process_one_job sample_worker (sample_job\<lparr>tj_pronunciation_dict := Some [(''Ali'', [92])]\<rparr>) 1 sample_state)) = []"
proof -
  have "pe_engine sample_worker = engine_of (sample_engine_of 2) sample_model sample_start"
    by (simp add: sample_worker_def)
  from bad_pronunciation_starves [OF this, of "sample_job\<lparr>tj_pronunciation_dict := Some [(''Ali'', [92])]\<rparr>"
      "[(''Ali'', [92])]" "''Ali''" "[92]" "RuntimeError ''re.error''" 1 sample_state]
  show ?thesis by (simp add: template_escape_def sample_job_def sample_state_def)
qed

theorem synthesize_is_joined_stream_witness:
  "\<exists>(r :: synth_result) chunks segs s'. synthesize_stream_engine (sample_engine_of 2) sample_model [77, 0x131] sample_view ''r'' None
        (Some [(''seed'', JInt 3)]) sample_start = ((chunks, None), s')
     \<and> frontend_segments sample_model (Some [(''seed'', JInt 3)]) [77, 0x131] = Inr segs
     \<and> map sc_sentence_text chunks = map Some segs
     \<and> join_chunks flat_ramps chunks ([], es_sample_rate sample_start, 0) = Inr (sy_pcm r, sy_sample_rate r, sy_sentence_count r)
     \<and> sy_sentence_count r = length segs"
proof -
  obtain r s' where "synthesize_engine (sample_engine_of 2) sample_model flat_ramps [77, 0x131] sample_view ''r'' None
      (Some [(''seed'', JInt 3)]) sample_start = (Inr r, s')"
    using sample_frontend
    by (simp add: synthesize_engine_def load_base_def cache_eval generate_one_def adapter_for_voice_def sample_view_def
      voice_view_from_db_def sample_voice_def lora_from_mapping_def adapter_dict_def engine_params_for_voice_def py_float_def
      py_int_of_def num_of_def sample_engine_of_def engine_init_def sample_start_def Let_def bindS_def)
  from synthesize_is_joined_stream [OF this] show ?thesis
    by - (rule exI [of _ r], elim exE, intro exI, assumption)
qed

end
