(* ===== verification/Storage.thy ===== *)
theory Storage
  imports Wire Effects
begin

text \<open>
  Object storage (\<^verbatim>\<open>src/storage/r2.py\<close> and \<^verbatim>\<open>src/storage/reference_resolver.py\<close>): \<open>s3://\<close> URIs, the
  R2 bucket, the local cache of downloaded objects with its byte limit, and the resolution of a
  voice's reference. boto3's client is the map of objects and a failure per call; SHA-256, the
  local disk and the checks of \<open>urlsplit\<close> on bracketed or non-ASCII hosts are parameters. A
  download's \<open>.part\<close> file is gone when the call ends, and leaves no trace here.
\<close>

subsection \<open>URLs\<close>

record url =
  ur_scheme :: ustr
  ur_netloc :: ustr
  ur_path :: ustr

definition ascii_alpha :: "nat \<Rightarrow> bool" where
  "ascii_alpha c \<longleftrightarrow> (65 \<le> c \<and> c \<le> 90) \<or> (97 \<le> c \<and> c \<le> 122)"

definition scheme_char :: "nat \<Rightarrow> bool" where
  "scheme_char c \<longleftrightarrow> ascii_alpha c \<or> (48 \<le> c \<and> c \<le> 57) \<or> c \<in> {43, 45, 46}"

definition lower_ascii :: "nat \<Rightarrow> nat" where
  "lower_ascii c = (if 65 \<le> c \<and> c \<le> 90 then c + 32 else c)"

definition url_clean :: "ustr \<Rightarrow> ustr" where
  "url_clean u = filter (\<lambda>c. c \<notin> {9, 10, 13}) (dropWhile (\<lambda>c. c \<le> 32) u)"

definition split_scheme :: "ustr \<Rightarrow> ustr \<times> ustr" where
  "split_scheme u =
     (let s = takeWhile (\<lambda>c. c \<noteq> 58) u
      in if s \<noteq> [] \<and> length s < length u \<and> ascii_alpha (hd s) \<and> list_all scheme_char s
         then (map lower_ascii s, drop (Suc (length s)) u) else ([], u))"

text \<open>\<open>urlparse\<close>, without the query and the fragment, which the callers do not read.\<close>

definition urlparse :: "(ustr \<Rightarrow> bool) \<Rightarrow> ustr \<Rightarrow> py_error + url" where
  "urlparse host_ok u =
     (case split_scheme (url_clean u) of (scheme, rest) \<Rightarrow>
        let authority = take 2 rest = [47, 47];
            netloc = (if authority then takeWhile (\<lambda>c. c \<notin> {47, 63, 35}) (drop 2 rest) else []);
            rest = (if authority then dropWhile (\<lambda>c. c \<notin> {47, 63, 35}) (drop 2 rest) else rest)
        in if (91 \<in> set netloc) \<noteq> (93 \<in> set netloc)
              \<or> (91 \<in> set netloc \<or> list_ex (\<lambda>c. 128 \<le> c) netloc) \<and> \<not> host_ok netloc
           then Inl (ValueError ''Invalid URL'')
           else Inr \<lparr>ur_scheme = scheme, ur_netloc = netloc, ur_path = takeWhile (\<lambda>c. c \<notin> {63, 35}) rest\<rparr>)"

record s3uri =
  su_bucket :: ustr
  su_key :: ustr

definition s3_text :: "s3uri \<Rightarrow> ustr" where
  "s3_text u = cps ''s3://'' @ su_bucket u @ 47 # su_key u"

definition s3_parse :: "(ustr \<Rightarrow> bool) \<Rightarrow> ustr \<Rightarrow> py_error + s3uri" where
  "s3_parse host_ok uri =
     (if uri = [] then Inl (ValueError ''empty URI'')
      else bindS (urlparse host_ok uri) (\<lambda>p.
        if ur_scheme p \<notin> {cps ''s3'', cps ''r2''} then Inl (ValueError ''not an s3:// or r2:// URI'')
        else if ur_netloc p = [] then Inl (ValueError ''URI missing bucket'')
        else (let key = dropWhile (\<lambda>c. c = 47) (ur_path p)
              in if key = [] then Inl (ValueError ''URI missing object key'')
                 else Inr \<lparr>su_bucket = ur_netloc p, su_key = key\<rparr>)))"

subsection \<open>The bucket and the cache\<close>

record cache_file =
  cf_name :: ustr
  cf_data :: bytes
  cf_mtime :: int

record r2_state =
  r2_objects :: "((ustr \<times> ustr) \<times> bytes) list"
  r2_cache :: "cache_file list"

datatype r2_exn = R2_Py py_error | R2_Client | R2_No_File

type_synonym 'a r2act = "(r2_state, r2_exn, 'a) act"

record r2_env =
  re_bucket :: ustr
  re_cache_dir :: ustr
  re_max_bytes :: int
  re_sha :: "ustr \<Rightarrow> ustr" \<comment> \<open>the first 32 hex digits\<close>
  re_host_ok :: "ustr \<Rightarrow> bool"
  re_fails :: bool \<comment> \<open>the client raises on this call\<close>
  re_now :: int
  re_presign :: "ustr \<Rightarrow> ustr \<Rightarrow> int \<Rightarrow> r2_exn + ustr"

definition lift_s3 :: "py_error + 'a \<Rightarrow> 'a r2act" where
  "lift_s3 r = (case r of Inl e \<Rightarrow> throw (R2_Py e) | Inr x \<Rightarrow> ret x)"

definition client :: "r2_env \<Rightarrow> unit r2act" where
  "client E = (if re_fails E then throw R2_Client else ret ())"

definition put_object :: "ustr \<times> ustr \<Rightarrow> bytes \<Rightarrow> r2_state \<Rightarrow> r2_state" where
  "put_object k data s = s\<lparr>r2_objects := (k, data) # filter (\<lambda>(k', _). k' \<noteq> k) (r2_objects s)\<rparr>"

definition upload_bytes :: "r2_env \<Rightarrow> bytes \<Rightarrow> ustr \<Rightarrow> ustr option \<Rightarrow> s3uri r2act" where
  "upload_bytes E data key bucket =
     (let target = (case bucket of None \<Rightarrow> re_bucket E | Some b \<Rightarrow> if b = [] then re_bucket E else b)
      in seqA (client E)
         (seqA (modifyA (put_object (target, key) data))
         (ret \<lparr>su_bucket = target, su_key = key\<rparr>)))"

definition upload_file :: "r2_env \<Rightarrow> bytes option \<Rightarrow> ustr \<Rightarrow> ustr option \<Rightarrow> s3uri r2act" where
  "upload_file E content key bucket =
     (case content of None \<Rightarrow> throw R2_No_File | Some data \<Rightarrow> upload_bytes E data key bucket)"

definition object_exists :: "r2_env \<Rightarrow> ustr \<Rightarrow> bool r2act" where
  "object_exists E uri =
     bindA (lift_s3 (s3_parse (re_host_ok E) uri)) (\<lambda>u.
     seqA (client E) (getsA (\<lambda>s. map_of (r2_objects s) (su_bucket u, su_key u) \<noteq> None)))"

definition delete_object :: "r2_env \<Rightarrow> ustr \<Rightarrow> unit r2act" where
  "delete_object E uri =
     bindA (lift_s3 (s3_parse (re_host_ok E) uri)) (\<lambda>u.
     seqA (client E)
     (modifyA (\<lambda>s. s\<lparr>r2_objects := filter (\<lambda>(k, _). k \<noteq> (su_bucket u, su_key u)) (r2_objects s)\<rparr>)))"

definition presigned_get_url :: "r2_env \<Rightarrow> ustr \<Rightarrow> int \<Rightarrow> ustr r2act" where
  "presigned_get_url E uri expires_in =
     (if expires_in \<le> 0 \<or> 7 * 24 * 3600 < expires_in then throw (R2_Py (ValueError ''expires_in must be in (0, 7 days]''))
      else bindA (lift_s3 (s3_parse (re_host_ok E) uri)) (\<lambda>u.
        case re_presign E (su_bucket u) (su_key u) expires_in of Inl e \<Rightarrow> throw e | Inr x \<Rightarrow> ret x))"

subsection \<open>The download cache\<close>

text \<open>\<open>Path(key).suffix\<close>: from the last full stop of the last component, unless it is its first or last character.\<close>

definition path_name :: "ustr \<Rightarrow> ustr" where
  "path_name p = (let parts = filter (\<lambda>w. w \<noteq> [] \<and> w \<noteq> [46]) (split_on 47 p) in if parts = [] then [] else last parts)"

definition path_suffix :: "ustr \<Rightarrow> ustr" where
  "path_suffix p =
     (let name = path_name p; tail = takeWhile (\<lambda>c. c \<noteq> 46) (rev name)
      in if length tail < length name \<and> Suc (length tail) < length name \<and> tail \<noteq> [] then 46 # rev tail else [])"

definition cache_name :: "r2_env \<Rightarrow> ustr \<Rightarrow> s3uri \<Rightarrow> ustr" where
  "cache_name E uri u = re_sha E uri @ (if path_suffix (su_key u) = [] then cps ''.bin'' else path_suffix (su_key u))"

definition part_file :: "cache_file \<Rightarrow> bool" where
  "part_file f \<longleftrightarrow> take 5 (rev (cf_name f)) = rev (cps ''.part'')"

definition file_size :: "cache_file \<Rightarrow> int" where
  "file_size f = int (length (cf_data f))"

fun evict_files :: "int \<Rightarrow> ustr \<Rightarrow> cache_file list \<Rightarrow> int \<Rightarrow> cache_file list \<Rightarrow> cache_file list" where
  "evict_files limit protected [] held d = d"
| "evict_files limit protected (f # fs) held d =
     (if cf_name f = protected then evict_files limit protected fs held d
      else (let held = held - file_size f; d = filter (\<lambda>g. cf_name g \<noteq> cf_name f) d
            in if held \<le> limit then d else evict_files limit protected fs held d))"

definition enforce_cache_limit :: "int \<Rightarrow> ustr \<Rightarrow> cache_file list \<Rightarrow> cache_file list" where
  "enforce_cache_limit limit protected d =
     (if limit \<le> 0 then d
      else (let files = filter (\<lambda>f. \<not> part_file f) d; held = sum_list (map file_size files)
            in if held \<le> limit then d else evict_files limit protected (sort_key cf_mtime files) held d))"

definition cached_file :: "ustr \<Rightarrow> r2_state \<Rightarrow> cache_file option" where
  "cached_file name s = find (\<lambda>f. cf_name f = name \<and> cf_data f \<noteq> []) (r2_cache s)"

definition replace_file :: "cache_file \<Rightarrow> cache_file list \<Rightarrow> cache_file list" where
  "replace_file f d = filter (\<lambda>g. cf_name g \<noteq> cf_name f) d @ [f]"

text \<open>In a sequential run the second look under the lock repeats the first. The result is the file's name.\<close>

definition fetch_object :: "r2_env \<Rightarrow> s3uri \<Rightarrow> bytes r2act" where
  "fetch_object E u =
     seqA (client E) (bindA (getsA (\<lambda>s. map_of (r2_objects s) (su_bucket u, su_key u))) (\<lambda>o'.
       case o' of None \<Rightarrow> throw R2_Client | Some data \<Rightarrow> ret data))"

definition download_to_cache :: "r2_env \<Rightarrow> ustr \<Rightarrow> ustr r2act" where
  "download_to_cache E uri =
     bindA (lift_s3 (s3_parse (re_host_ok E) uri)) (\<lambda>u.
       let name = cache_name E uri u in
       bindA (getsA (cached_file name)) (\<lambda>c.
         if c \<noteq> None then ret name
         else bindA (fetch_object E u) (\<lambda>data.
              seqA (modifyA (\<lambda>s. s\<lparr>r2_cache := replace_file \<lparr>cf_name = name, cf_data = data, cf_mtime = re_now E\<rparr> (r2_cache s)\<rparr>))
              (seqA (modifyA (\<lambda>s. s\<lparr>r2_cache := enforce_cache_limit (re_max_bytes E) name (r2_cache s)\<rparr>))
              (ret name)))))"

definition file_content :: "ustr \<Rightarrow> r2_state \<Rightarrow> bytes option" where
  "file_content name s = map_option cf_data (find (\<lambda>f. cf_name f = name) (r2_cache s))"

subsection \<open>Resolving a reference\<close>

text \<open>\<open>unquote\<close>: escapes to bytes; \<open>decode\<close> is UTF-8 with replacement characters.\<close>

definition hex_value :: "nat \<Rightarrow> nat option" where
  "hex_value c = (if 48 \<le> c \<and> c \<le> 57 then Some (c - 48) else if 65 \<le> c \<and> c \<le> 70 then Some (c - 55)
     else if 97 \<le> c \<and> c \<le> 102 then Some (c - 87) else None)"

definition flush_bytes :: "(bytes \<Rightarrow> ustr) \<Rightarrow> bytes \<Rightarrow> ustr" where
  "flush_bytes decode acc = (if acc = [] then [] else decode acc)"

function unquote_from :: "(bytes \<Rightarrow> ustr) \<Rightarrow> bytes \<Rightarrow> ustr \<Rightarrow> ustr" where
  "unquote_from decode acc [] = flush_bytes decode acc"
| "unquote_from decode acc (c # s) =
     (if c = 37 \<and> 2 \<le> length s
      then (case (hex_value (s ! 0), hex_value (s ! 1)) of
              (Some h, Some l) \<Rightarrow> unquote_from decode (acc @ [16 * h + l]) (drop 2 s)
            | _ \<Rightarrow> unquote_from decode (acc @ [c]) s)
      else if c < 128 then unquote_from decode (acc @ [c]) s
      else flush_bytes decode acc @ c # unquote_from decode [] s)"
  by pat_completeness auto
termination by (relation "measure (\<lambda>(_, _, s). length s)") auto

datatype reference_exn = Unsupported_URI | Reference_Missing ustr | Reference_Failed r2_exn

text \<open>
  \<open>ld_absolute\<close>: \<open>expanduser\<close> and, for a relative path, \<open>resolve\<close>. The remote fetcher is
  \<open>download_to_cache\<close> of the store built from the environment, or an error when that cannot be built.
\<close>

record local_disk =
  ld_decode :: "bytes \<Rightarrow> ustr"
  ld_absolute :: "ustr \<Rightarrow> ustr"
  ld_is_file :: "ustr \<Rightarrow> bool"

definition remote_fetcher :: "r2_env option \<Rightarrow> ustr \<Rightarrow> ustr r2act" where
  "remote_fetcher env uri =
     (case env of None \<Rightarrow> throw (R2_Py (RuntimeError ''R2 storage requires NEUROVOICE_R2_ACCOUNT_ID + NEUROVOICE_R2_BUCKET env''))
      | Some E \<Rightarrow> download_to_cache E uri)"

definition resolve_reference_uri ::
  "local_disk \<Rightarrow> (ustr \<Rightarrow> bool) \<Rightarrow> r2_env option \<Rightarrow> ustr \<Rightarrow> (r2_state, reference_exn, ustr) act" where
  "resolve_reference_uri L host_ok env uri s =
     (if uri = [] then (Inl Unsupported_URI, s)
      else case urlparse host_ok uri of
        Inl e \<Rightarrow> (Inl (Reference_Failed (R2_Py e)), s)
      | Inr p \<Rightarrow>
          if ur_scheme p = [] \<or> ur_scheme p = cps ''file''
          then (let path = ld_absolute L (if ur_scheme p = cps ''file'' then unquote_from (ld_decode L) [] (ur_path p) else uri)
                in if \<not> ld_is_file L path then (Inl (Reference_Missing path), s) else (Inr path, s))
          else if ur_scheme p = cps ''s3'' \<or> ur_scheme p = cps ''r2''
          then (case remote_fetcher env uri s of
                  (Inl R2_No_File, s') \<Rightarrow> (Inl (Reference_Missing []), s')
                | (Inl (R2_Py (RuntimeError m)), s') \<Rightarrow> (Inl Unsupported_URI, s')
                | (Inl e, s') \<Rightarrow> (Inl (Reference_Failed e), s')
                | (Inr name, s') \<Rightarrow>
                    if file_content name s' = None then (Inl (Reference_Missing name), s') else (Inr name, s'))
          else (Inl Unsupported_URI, s))"

end
