(* ===== verification/Runtime.thy ===== *)
theory Runtime
  imports Storage Engine
begin

text \<open>
  The worker's boot (\<^verbatim>\<open>src/worker/runtime.py\<close>): the archive function over R2, the warm-up of the
  voices of the environment, and the boot sequence. The environment's variables, the rows of the
  database and the answer of Redis' \<open>PING\<close> are parameters.
\<close>

subsection \<open>The archive\<close>

definition archive_key :: "ustr \<Rightarrow> uuid \<Rightarrow> ustr" where
  "archive_key today rid = cps ''tts-outputs/'' @ today @ 47 # uuid_str rid @ cps ''.wav''"

definition archive_to_r2 :: "r2_env \<Rightarrow> ustr \<Rightarrow> uuid \<Rightarrow> bytes \<Rightarrow> int \<Rightarrow> ustr r2act" where
  "archive_to_r2 E today rid pcm sample_rate =
     bindA (lift_s3 (pcm16_to_wav_bytes pcm sample_rate 1)) (\<lambda>wav.
     bindA (upload_bytes E wav (archive_key today rid) None) (\<lambda>u. ret (s3_text u)))"

definition build_archive_to_r2 ::
  "ustr option \<Rightarrow> ustr option \<Rightarrow> r2_env \<Rightarrow> (ustr \<Rightarrow> uuid \<Rightarrow> bytes \<Rightarrow> int \<Rightarrow> ustr r2act) option" where
  "build_archive_to_r2 account bucket E =
     (if (account = None \<or> account = Some []) \<or> bucket = None \<or> bucket = Some [] then None else Some (archive_to_r2 E))"

text \<open>The archive as the pipeline calls it, on a given content of the bucket.\<close>

definition archive_reply :: "r2_env \<Rightarrow> ustr \<Rightarrow> r2_state \<Rightarrow> uuid \<Rightarrow> bytes \<Rightarrow> int \<Rightarrow> archive_reply" where
  "archive_reply E today r rid pcm sample_rate =
     (case archive_to_r2 E today rid pcm sample_rate r of
        (Inl e, _) \<Rightarrow> ArchRaises
      | (Inr uri, _) \<Rightarrow> ArchUri (Some (map char_of uri)))"

subsection \<open>Boot\<close>

definition parse_warmup_voice_list :: "ustr option \<Rightarrow> ustr list" where
  "parse_warmup_voice_list raw =
     (case raw of None \<Rightarrow> []
      | Some r \<Rightarrow> if r = [] then [] else filter (\<lambda>v. v \<noteq> []) (map strip_spaces (split_on 44 r)))"

record boot_env =
  be_voices :: voice_table
  be_db_fails :: "ustr \<Rightarrow> bool"
  be_disk :: local_disk
  be_host_ok :: "ustr \<Rightarrow> bool"
  be_r2 :: "r2_env option"
  be_ping :: bool

text \<open>
  \<open>engine.warmup_voice\<close> gets the table's row, which has \<open>adapter_uri\<close> and \<open>adapter_type\<close> but no
  attribute \<open>adapter\<close>: reading it raises after the base model was loaded.
\<close>

definition warmup_row :: "engine \<Rightarrow> 'm engine_env \<Rightarrow> voice \<Rightarrow> ('m, unit) eact" where
  "warmup_row g E row = seqA (load_base g E) (throw (Engine_Error (AttributeError ''adapter'')))"

definition warm_voice :: "engine \<Rightarrow> 'm engine_env \<Rightarrow> boot_env \<Rightarrow> ustr \<Rightarrow> 'm engine_state \<times> r2_state \<Rightarrow> 'm engine_state \<times> r2_state" where
  "warm_voice g E B voice_id st =
     (if be_db_fails B voice_id then st
      else case find (\<lambda>v. cps (v_voice_id v) = voice_id \<and> v_deleted_at v = None) (be_voices B) of
        None \<Rightarrow> st
      | Some row \<Rightarrow>
          if lifecycle_state row \<noteq> ''active'' then st
          else (case resolve_reference_uri (be_disk B) (be_host_ok B) (be_r2 B) (cps (v_reference_uri row)) (snd st) of
                  (Inl e, r) \<Rightarrow> (fst st, r)
                | (Inr path, r) \<Rightarrow> (snd (warmup_row g E row (fst st)), r)))"

definition warmup_voices_from_env ::
  "engine \<Rightarrow> 'm engine_env \<Rightarrow> boot_env \<Rightarrow> ustr option \<Rightarrow> 'm engine_state \<times> r2_state \<Rightarrow> 'm engine_state \<times> r2_state" where
  "warmup_voices_from_env g E B raw st = fold (warm_voice g E B) (parse_warmup_voice_list raw) st"

datatype boot_exn = Boot_Engine engine_exn | Boot_Redis

definition boot_worker ::
  "engine \<Rightarrow> 'm engine_env \<Rightarrow> boot_env \<Rightarrow> ustr option \<Rightarrow> bool \<Rightarrow> 'm engine_state \<times> r2_state
   \<Rightarrow> (boot_exn + unit) \<times> 'm engine_state \<times> r2_state" where
  "boot_worker g E B raw warmup st =
     (case (if warmup then load_base g E (fst st) else (Inr (), fst st)) of
        (Inl e, es) \<Rightarrow> (Inl (Boot_Engine e), es, snd st)
      | (Inr _, es) \<Rightarrow>
          let st' = (if warmup then warmup_voices_from_env g E B raw (es, snd st) else (es, snd st))
          in if be_ping B then (Inr (), st') else (Inl Boot_Redis, st'))"

end
