(* ===== verification/Storage_Facts.thy ===== *)
theory Storage_Facts
  imports Storage
begin

text \<open>
  What the object store guarantees: an object's URI reads back, the cache stays within its byte
  limit and gives the bucket's bytes as long as objects are written once; and what it does not:
  a deleted object is served from the cache for ever.
\<close>

subsection \<open>URIs read back\<close>

definition bucket_ok :: "ustr \<Rightarrow> bool" where
  "bucket_ok b \<longleftrightarrow> b \<noteq> [] \<and> list_all (\<lambda>c. 32 < c \<and> c < 128 \<and> c \<notin> {47, 63, 35, 91, 93}) b"

definition key_ok :: "ustr \<Rightarrow> bool" where
  "key_ok k \<longleftrightarrow> k \<noteq> [] \<and> hd k \<noteq> 47 \<and> list_all (\<lambda>c. c \<notin> {9, 10, 13, 63, 35}) k"

lemma s3_prefix: "cps ''s3://'' = [115, 51, 58, 47, 47]" "cps ''s3'' = [115, 51]"
  by (simp_all add: cps_def)

lemma take_until: "list_all P xs \<Longrightarrow> \<not> P y \<Longrightarrow> takeWhile P (xs @ y # ys) = xs \<and> dropWhile P (xs @ y # ys) = y # ys"
  by (induction xs) auto

abbreviation kept :: "nat \<Rightarrow> bool" where "kept \<equiv> \<lambda>c. c \<notin> {9, 10, 13}"

lemma kept_id: "list_all kept xs \<Longrightarrow> filter kept xs = xs"
  by (induction xs) auto

lemma split_s3: "split_scheme (115 # 51 # 58 # rest) = ([115, 51], rest)"
  by (simp add: split_scheme_def scheme_char_def ascii_alpha_def lower_ascii_def)

lemma parse_text:
  assumes "bucket_ok b"
  shows "urlparse host_ok ([115, 51, 58, 47, 47] @ b @ 47 # k)
    = Inr \<lparr>ur_scheme = [115, 51], ur_netloc = b, ur_path = takeWhile (\<lambda>c. c \<notin> {63, 35}) (47 # filter kept k)\<rparr>"
proof -
  let ?P = "\<lambda>c::nat. c \<notin> {47, 63, 35}"
  have b: "list_all ?P b" "91 \<notin> set b" "93 \<notin> set b" "\<not> list_ex (\<lambda>c. 128 \<le> c) b" "list_all kept b"
  proof -
    have all: "32 < c \<and> c < 128 \<and> c \<notin> {47, 63, 35, 91, 93}" if "c \<in> set b" for c
      using assms that by (simp add: bucket_ok_def list_all_iff)
    show "list_all ?P b" "list_all kept b" using all by (force simp: list_all_iff)+
    show "91 \<notin> set b" "93 \<notin> set b" using all [of 91] all [of 93] by auto
    show "\<not> list_ex (\<lambda>c. 128 \<le> c) b" using all by (force simp: list_ex_iff)
  qed
  have c: "url_clean ([115, 51, 58, 47, 47] @ b @ 47 # k) = 115 # 51 # 58 # 47 # 47 # b @ 47 # filter kept k"
    using kept_id [OF b(5)] by (simp add: url_clean_def)
  have w: "takeWhile ?P (b @ 47 # r) = b" "dropWhile ?P (b @ 47 # r) = 47 # r" for r using take_until [OF b(1), of 47 r] by auto
  have n: "take 2 (47 # 47 # r) = [47, 47::nat]" "drop 2 (47 # 47 # r) = r" for r by simp_all
  have none: "(91 \<in> set b) = False" "(93 \<in> set b) = False" "list_ex (\<lambda>c. 128 \<le> c) b = False" using b by simp_all
  show ?thesis
    by (simp only: urlparse_def c split_s3 Let_def prod.case n w none simp_thms if_True if_False)
qed

lemma s3_reads_back:
  assumes "bucket_ok (su_bucket u)" "key_ok (su_key u)"
  shows "s3_parse host_ok (s3_text u) = Inr u
    \<and> s3_parse host_ok (s3_text \<lparr>su_bucket = su_bucket u, su_key = su_key u @ 63 # v\<rparr>) = Inr u"
proof -
  obtain b k where u: "u = \<lparr>su_bucket = b, su_key = k\<rparr>" by (cases u)
  have b: "bucket_ok b" "b \<noteq> []" and k: "k \<noteq> []" "hd k \<noteq> 47" "list_all kept k" "list_all (\<lambda>c. c \<notin> {63, 35}) k"
    using assms by (auto simp: u key_ok_def bucket_ok_def list_all_iff)
  have d: "dropWhile (\<lambda>c. c = 47) (47 # k) = k" using k(1,2) by (cases k) auto
  have "s3_parse host_ok ([115, 51, 58, 47, 47] @ b @ 47 # r) = Inr u"
    if "takeWhile (\<lambda>c. c \<notin> {63, 35}) (47 # filter kept r) = 47 # k" for r
    unfolding s3_parse_def parse_text [OF b(1)] that bindS_def
    using b(2) k(1) d by (simp add: s3_prefix u Let_def)
  moreover have "takeWhile (\<lambda>c. c \<notin> {63, 35}) (47 # filter kept k) = 47 # k" unfolding kept_id [OF k(3)]
    using k(4) by (simp add: list_all_iff takeWhile_eq_all_conv)
  moreover have "takeWhile (\<lambda>c. c \<notin> {63, 35}) (47 # filter kept (k @ 63 # v)) = 47 # k"
    unfolding filter_append kept_id [OF k(3)] using take_until [OF k(4), of 63 "filter kept v"] by simp
  ultimately show ?thesis by (simp add: s3_text_def s3_prefix(1) u)
qed

text \<open>
  C39: an object's address reads back. The URI of an object in a bucket parses to its bucket and
  key, whatever host check the library makes; a question mark or number sign cuts the key there,
  so two objects whose keys differ only behind one have the same address.
\<close>

theorem s3_uri_roundtrip:
  assumes "bucket_ok (su_bucket u)" "key_ok (su_key u)"
  shows "s3_parse host_ok (s3_text u) = Inr u
    \<and> s3_parse host_ok (s3_text \<lparr>su_bucket = su_bucket u, su_key = su_key u @ 63 # v\<rparr>) = Inr u"
  by (rule s3_reads_back [OF assms])

theorem s3_uri_roundtrip_witness:
  "s3_parse (\<lambda>_. False) (s3_text \<lparr>su_bucket = cps ''nv'', su_key = cps ''a/b.wav''\<rparr>)
     = Inr \<lparr>su_bucket = cps ''nv'', su_key = cps ''a/b.wav''\<rparr>"
  using s3_uri_roundtrip [of "\<lparr>su_bucket = cps ''nv'', su_key = cps ''a/b.wav''\<rparr>" "\<lambda>_. False"]
  by (simp add: bucket_ok_def key_ok_def cps_def)

subsection \<open>The byte limit\<close>

definition counted :: "cache_file list \<Rightarrow> cache_file list" where
  "counted d = filter (\<lambda>f. \<not> part_file f) d"

definition weight :: "cache_file list \<Rightarrow> int" where
  "weight d = sum_list (map file_size (counted d))"

definition fits_limit :: "int \<Rightarrow> cache_file list \<Rightarrow> bool" where
  "fits_limit limit d \<longleftrightarrow> weight d \<le> limit \<or> length (counted d) \<le> 1"

lemma weight_drop:
  "distinct (map cf_name d) \<Longrightarrow> f \<in> set d \<Longrightarrow> \<not> part_file f
   \<Longrightarrow> weight (filter (\<lambda>g. cf_name g \<noteq> cf_name f) d) = weight d - file_size f"
proof (induction d)
  case (Cons g d)
  show ?case
  proof (cases "g = f")
    case True
    then have "\<forall>g \<in> set d. cf_name g \<noteq> cf_name f" using Cons.prems(1) by (metis distinct.simps(2) image_eqI list.set_map list.simps(9))
    then have "filter (\<lambda>g. cf_name g \<noteq> cf_name f) d = d" by (simp add: filter_id_conv)
    then show ?thesis using True Cons.prems(3) by (simp add: weight_def counted_def)
  next
    case False
    then have "f \<in> set d" using Cons.prems(2) by simp
    then have "cf_name g \<noteq> cf_name f" using Cons.prems(1) by auto
    then show ?thesis using Cons \<open>f \<in> set d\<close> by (simp add: weight_def counted_def)
  qed
qed simp

lemma evict_files_names: "distinct (map cf_name d) \<Longrightarrow> distinct (map cf_name (evict_files limit p fs held d))"
  by (induction limit p fs held d rule: evict_files.induct) (simp_all add: Let_def distinct_map_filter)

lemma evict_files_protects: "filter (\<lambda>f. cf_name f = p) (evict_files limit p fs held d) = filter (\<lambda>f. cf_name f = p) d"
proof (induction limit p fs held d rule: evict_files.induct)
  case (2 limit p f fs held d)
  have "filter (\<lambda>g. cf_name g = p) (filter (\<lambda>g. cf_name g \<noteq> cf_name f) d) = filter (\<lambda>g. cf_name g = p) d" if "cf_name f \<noteq> p"
    using that by (induction d) auto
  then show ?case using 2 by (simp add: Let_def)
qed simp

lemma evict_files_subset: "set (evict_files limit p fs held d) \<subseteq> set d"
  by (induction limit p fs held d rule: evict_files.induct) (auto simp: Let_def split: if_splits)

lemma evict_files_bound:
  assumes "distinct (map cf_name d)" "held = weight d" "set fs \<subseteq> set (counted d)" "distinct fs"
  shows "weight (evict_files limit p fs held d) \<le> limit
    \<or> (\<forall>f \<in> set fs \<inter> set (evict_files limit p fs held d). cf_name f = p)"
  using assms
proof (induction limit p fs held d rule: evict_files.induct)
  case (2 limit p f fs held d)
  show ?case
  proof (cases "cf_name f = p")
    case True
    then show ?thesis using 2 by auto
  next
    case False
    let ?d = "filter (\<lambda>g. cf_name g \<noteq> cf_name f) d"
    have f: "f \<in> set d" "\<not> part_file f" using 2(5) by (auto simp: counted_def)
    note w = weight_drop [OF 2(3) f]
    have names: "cf_name g \<noteq> cf_name f" if "g \<in> set fs" for g
      using that 2(3,5,6) f(1) by (auto simp: counted_def dest: inj_on_eq_iff simp: distinct_map)
    show ?thesis
    proof (cases "weight d - file_size f \<le> limit")
      case True
      then show ?thesis using False 2(4) w by simp
    next
      case over: False
      have "weight (evict_files limit p fs (held - file_size f) ?d) \<le> limit
        \<or> (\<forall>g \<in> set fs \<inter> set (evict_files limit p fs (held - file_size f) ?d). cf_name g = p)"
      proof (rule "2.IH"(2) [OF False])
        show "\<not> held - file_size f \<le> limit" using over 2(4) by simp
        show "distinct (map cf_name ?d)" using 2(3) by (rule distinct_map_filter)
        show "held - file_size f = weight ?d" using w 2(4) by simp
        show "set fs \<subseteq> set (counted ?d)" using 2(5) names by (auto simp: counted_def)
        show "distinct fs" using 2(6) by simp
      qed simp_all
      moreover have "f \<notin> set (evict_files limit p fs (held - file_size f) ?d)"
        using evict_files_subset [of limit p fs "held - file_size f" ?d] by auto
      ultimately show ?thesis using False over 2(4) by auto
    qed
  qed
qed simp

lemma enforce_within:
  assumes "0 < limit" "distinct (map cf_name d)"
  shows "fits_limit limit (enforce_cache_limit limit p d)"
proof -
  let ?fs = "sort_key cf_mtime (counted d)" and ?r = "enforce_cache_limit limit p d"
  show ?thesis
  proof (cases "weight d \<le> limit")
    case True
    then show ?thesis using assms(1) by (simp add: enforce_cache_limit_def fits_limit_def weight_def counted_def Let_def)
  next
    case False
    then have r: "?r = evict_files limit p ?fs (weight d) d"
      using assms(1) by (simp add: enforce_cache_limit_def weight_def counted_def Let_def)
    have "distinct (map cf_name (counted d))" using assms(2) by (simp add: counted_def distinct_map_filter)
    then have "distinct ?fs" by (simp add: distinct_map)
    from evict_files_bound [OF assms(2) refl _ this, of limit p]
    have "weight ?r \<le> limit \<or> (\<forall>f \<in> set (counted d) \<inter> set ?r. cf_name f = p)" unfolding r by simp
    moreover have "set ?r \<subseteq> set d" unfolding r by (rule evict_files_subset)
    ultimately have "weight ?r \<le> limit \<or> (\<forall>f \<in> set (counted ?r). cf_name f = p)" by (auto simp: counted_def)
    moreover have "distinct (map cf_name (counted ?r))"
      unfolding r counted_def using evict_files_names [OF assms(2)] by (simp add: distinct_map_filter)
    moreover have "length xs \<le> 1" if "\<forall>f \<in> set xs. cf_name f = p" "distinct (map cf_name xs)" for xs :: "cache_file list"
      using that by (cases xs rule: list.exhaust; cases "tl xs") auto
    ultimately show ?thesis by (auto simp: fits_limit_def)
  qed
qed

lemma enforce_names: "distinct (map cf_name d) \<Longrightarrow> distinct (map cf_name (enforce_cache_limit limit p d))"
  by (simp add: enforce_cache_limit_def evict_files_names Let_def)

lemma enforce_subset: "set (enforce_cache_limit limit p d) \<subseteq> set d"
  using evict_files_subset by (auto simp: enforce_cache_limit_def Let_def)

lemma enforce_protects: "filter (\<lambda>f. cf_name f = p) (enforce_cache_limit limit p d) = filter (\<lambda>f. cf_name f = p) d"
  by (simp add: enforce_cache_limit_def evict_files_protects Let_def)

lemma find_first_filter: "find P xs = (case filter P xs of [] \<Rightarrow> None | x # _ \<Rightarrow> Some x)"
  by (induction xs) auto

lemma replace_names: "distinct (map cf_name d) \<Longrightarrow> distinct (map cf_name (replace_file f d))"
  by (auto simp: replace_file_def distinct_map_filter)

text \<open>What a download does, on its three ways.\<close>

definition put_cached :: "r2_env \<Rightarrow> ustr \<Rightarrow> bytes \<Rightarrow> r2_state \<Rightarrow> r2_state" where
  "put_cached E name data s = s\<lparr>r2_cache := enforce_cache_limit (re_max_bytes E) name
     (replace_file \<lparr>cf_name = name, cf_data = data, cf_mtime = re_now E\<rparr> (r2_cache s))\<rparr>"

lemma download_cases:
  obtains e where "download_to_cache E uri s = (Inl e, s)"
  | u where "s3_parse (re_host_ok E) uri = Inr u" "cached_file (cache_name E uri u) s \<noteq> None"
      "download_to_cache E uri s = (Inr (cache_name E uri u), s)"
  | u data where "s3_parse (re_host_ok E) uri = Inr u" "cached_file (cache_name E uri u) s = None"
      "map_of (r2_objects s) (su_bucket u, su_key u) = Some data"
      "download_to_cache E uri s = (Inr (cache_name E uri u), put_cached E (cache_name E uri u) data s)"
proof -
  show thesis
  proof (cases "s3_parse (re_host_ok E) uri")
    case (Inl e)
    then show thesis using that(1) by (simp add: download_to_cache_def lift_s3_def act_eval)
  next
    case (Inr u)
    show thesis
    proof (cases "cached_file (cache_name E uri u) s")
      case (Some f)
      then show thesis using that(2) [OF Inr] Inr by (simp add: download_to_cache_def lift_s3_def act_eval Let_def)
    next
      case None
      then show thesis
        using Inr that(1) that(3) [OF Inr None]
        by (cases "re_fails E"; cases "map_of (r2_objects s) (su_bucket u, su_key u)")
          (simp_all add: download_to_cache_def fetch_object_def client_def lift_s3_def put_cached_def act_eval Let_def)
    qed
  qed
qed

lemma put_cached_content: "file_content name (put_cached E name data s) = Some data"
  by (simp add: file_content_def put_cached_def find_first_filter enforce_protects replace_file_def)

text \<open>
  What is asked of the store over its life; the clock and the failures of the client vary.
\<close>

datatype r2_call = Get ustr | Put bytes ustr | Erase ustr

definition call_env :: "r2_env \<Rightarrow> int \<Rightarrow> bool \<Rightarrow> r2_env" where
  "call_env E now fails = E\<lparr>re_now := now, re_fails := fails\<rparr>"

fun after_r2 :: "r2_env \<Rightarrow> int \<times> bool \<times> r2_call \<Rightarrow> r2_state \<Rightarrow> r2_state" where
  "after_r2 E (now, fails, Get uri) s = snd (download_to_cache (call_env E now fails) uri s)"
| "after_r2 E (now, fails, Put data key) s = snd (upload_bytes (call_env E now fails) data key None s)"
| "after_r2 E (now, fails, Erase uri) s = snd (delete_object (call_env E now fails) uri s)"

lemma call_env_sel [simp]:
  "re_max_bytes (call_env E now fails) = re_max_bytes E" "re_host_ok (call_env E now fails) = re_host_ok E"
  "cache_name (call_env E now fails) = cache_name E" "re_fails (call_env E now fails) = fails" "re_bucket (call_env E now fails) = re_bucket E"
  by (simp_all add: call_env_def cache_name_def fun_eq_iff)

lemma upload_state: "snd (upload_bytes E data key b s) = (if re_fails E then s
    else put_object (case b of None \<Rightarrow> re_bucket E | Some b \<Rightarrow> if b = [] then re_bucket E else b, key) data s)"
  by (simp add: upload_bytes_def client_def act_eval Let_def)

lemma delete_cache: "r2_cache (snd (delete_object E uri s)) = r2_cache s"
  by (cases "s3_parse (re_host_ok E) uri") (simp_all add: delete_object_def lift_s3_def client_def act_eval)

lemma cache_step:
  assumes "0 < re_max_bytes E" "distinct (map cf_name (r2_cache s))" "fits_limit (re_max_bytes E) (r2_cache s)"
  shows "distinct (map cf_name (r2_cache (after_r2 E call s))) \<and> fits_limit (re_max_bytes E) (r2_cache (after_r2 E call s))"
proof -
  obtain now fails c where call: "call = (now, fails, c)" by (cases call)
  show ?thesis
  proof (cases c)
    case (Get uri)
    show ?thesis
    proof (cases rule: download_cases [where E = "call_env E now fails" and uri = uri and s = s])
      case (3 u data)
      then show ?thesis using assms by (simp add: call Get put_cached_def enforce_names enforce_within replace_names)
    qed (use assms in \<open>simp_all add: call Get\<close>)
  qed (use assms in \<open>simp_all add: call upload_state put_object_def delete_cache\<close>)
qed

text \<open>
  C21: the cache stays within its bytes. Whatever is downloaded, uploaded and deleted in whatever
  order, and however the client fails, the files of the cache weigh at most the limit, unless a
  single object is larger, which is then alone; and no file is there twice.
\<close>

theorem cache_within_bytes:
  assumes "0 < re_max_bytes E" "r2_cache s = []"
  shows "fits_limit (re_max_bytes E) (r2_cache (fold (after_r2 E) calls s))
    \<and> distinct (map cf_name (r2_cache (fold (after_r2 E) calls s)))"
proof -
  have "distinct (map cf_name (r2_cache s)) \<and> fits_limit (re_max_bytes E) (r2_cache s)"
    using assms(2) by (simp add: fits_limit_def counted_def)
  then have "distinct (map cf_name (r2_cache (fold (after_r2 E) calls s))) \<and> fits_limit (re_max_bytes E) (r2_cache (fold (after_r2 E) calls s))"
  proof (induction calls arbitrary: s)
    case (Cons c calls)
    then show ?case using cache_step [OF assms(1), of s c] by simp
  qed simp
  then show ?thesis by simp
qed

subsection \<open>Transparency\<close>

definition sha_separates :: "r2_env \<Rightarrow> ustr set \<Rightarrow> bool" where
  "sha_separates E uris \<longleftrightarrow> (\<forall>x. length (re_sha E x) = 32) \<and> inj_on (re_sha E) uris"

definition coherent :: "r2_env \<Rightarrow> ustr set \<Rightarrow> r2_state \<Rightarrow> bool" where
  "coherent E uris s \<longleftrightarrow> (\<forall>uri \<in> uris. \<forall>u. \<forall>f \<in> set (r2_cache s).
     s3_parse (re_host_ok E) uri = Inr u \<longrightarrow> cf_name f = cache_name E uri u
     \<longrightarrow> map_of (r2_objects s) (su_bucket u, su_key u) = Some (cf_data f))"

text \<open>Every object is written once and never deleted.\<close>

fun written_once :: "r2_env \<Rightarrow> (int \<times> bool \<times> r2_call) list \<Rightarrow> r2_state \<Rightarrow> bool" where
  "written_once E [] s = True"
| "written_once E ((now, fails, c) # cs) s =
     ((case c of Get uri \<Rightarrow> True | Put data key \<Rightarrow> map_of (r2_objects s) (re_bucket E, key) = None | Erase uri \<Rightarrow> False)
      \<and> written_once E cs (after_r2 E (now, fails, c) s))"

fun asked :: "(int \<times> bool \<times> r2_call) list \<Rightarrow> ustr list" where
  "asked [] = []"
| "asked ((now, fails, Get uri) # cs) = uri # asked cs"
| "asked (_ # cs) = asked cs"

lemma names_apart:
  assumes "sha_separates E uris" "x \<in> uris" "y \<in> uris" "cache_name E x u = cache_name E y v"
  shows "x = y"
proof -
  have "take 32 (cache_name E x u) = re_sha E x" "take 32 (cache_name E y v) = re_sha E y"
    using assms(1) by (simp_all add: cache_name_def sha_separates_def)
  then show ?thesis using assms by (auto simp: sha_separates_def dest: inj_onD)
qed

lemma coherent_stored:
  assumes "sha_separates E uris" "uri \<in> uris" "coherent E uris s" "s3_parse (re_host_ok E) uri = Inr u"
    and "map_of (r2_objects s) (su_bucket u, su_key u) = Some data"
  shows "coherent E uris (put_cached E' (cache_name E uri u) data s)"
  unfolding coherent_def
proof (intro ballI allI impI)
  fix uri' v f
  assume v: "uri' \<in> uris" "s3_parse (re_host_ok E) uri' = Inr v" "cf_name f = cache_name E uri' v"
    and "f \<in> set (r2_cache (put_cached E' (cache_name E uri u) data s))"
  then consider "f \<in> set (r2_cache s)" | "f = \<lparr>cf_name = cache_name E uri u, cf_data = data, cf_mtime = re_now E'\<rparr>"
    using enforce_subset by (fastforce simp: put_cached_def replace_file_def)
  then show "map_of (r2_objects (put_cached E' (cache_name E uri u) data s)) (su_bucket v, su_key v) = Some (cf_data f)"
  proof cases
    case 1
    then show ?thesis using assms(3) v unfolding coherent_def by (auto simp: put_cached_def)
  next
    case 2
    then have "uri = uri'" using names_apart [OF assms(1,2) v(1)] v(3) by simp
    then show ?thesis using assms(4,5) v(2) 2 by (simp add: put_cached_def)
  qed
qed

lemma stored_env: "put_cached (call_env E now fails) name data s = put_cached (E\<lparr>re_now := now\<rparr>) name data s"
  by (simp add: put_cached_def call_env_def)

lemma put_lookup: "map_of (r2_objects (put_object k data s)) k' = (if k' = k then Some data else map_of (r2_objects s) k')"
proof -
  have "map_of (filter (\<lambda>(x, _). x \<noteq> k) os) k' = (if k' = k then None else map_of os k')" for os :: "((ustr \<times> ustr) \<times> bytes) list"
    by (induction os) auto
  then show ?thesis by (simp add: put_object_def)
qed

lemma put_cache: "r2_cache (put_object k data s) = r2_cache s"
  by (simp add: put_object_def)

lemma coherent_run:
  assumes "sha_separates E uris" "set (asked calls) \<subseteq> uris" "coherent E uris s" "written_once E calls s"
  shows "coherent E uris (fold (after_r2 E) calls s)"
  using assms(2-4)
proof (induction calls arbitrary: s)
  case (Cons call calls)
  obtain now fails c where call: "call = (now, fails, c)" by (cases call)
  have "coherent E uris (after_r2 E call s)"
  proof (cases c)
    case (Get uri)
    then have "uri \<in> uris" using Cons.prems(1) call by simp
    show ?thesis
    proof (cases rule: download_cases [where E = "call_env E now fails" and uri = uri and s = s])
      case (3 u data)
      then show ?thesis using coherent_stored [OF assms(1) \<open>uri \<in> uris\<close> Cons.prems(2)] by (simp add: call Get)
    qed (use Cons.prems(2) in \<open>simp_all add: call Get\<close>)
  next
    case (Put data key)
    then have "map_of (r2_objects s) (re_bucket E, key) = None" using Cons.prems(3) call by simp
    then have new: "map_of (r2_objects (put_object (re_bucket E, key) data s)) k = Some d" if "map_of (r2_objects s) k = Some d" for k d
      using that by (auto simp: put_lookup)
    have "coherent E uris (put_object (re_bucket E, key) data s)"
      using Cons.prems(2) unfolding coherent_def put_cache by (intro ballI allI impI new) blast
    then show ?thesis using Cons.prems(2) by (simp add: call Put upload_state)
  next
    case (Erase uri)
    then show ?thesis using Cons.prems(3) call by simp
  qed
  moreover have "set (asked calls) \<subseteq> uris" using Cons.prems(1) call by (cases c) auto
  moreover have "written_once E calls (after_r2 E call s)" using Cons.prems(3) call by simp
  ultimately show ?case using Cons.IH by simp
qed simp

text \<open>
  C20: the cache is transparent for objects that are written once. Whatever was uploaded and
  downloaded before, a download gives a file with exactly the bytes that the bucket holds under
  the URI, as long as no upload replaced an object, none was deleted, and SHA-256 kept the URIs
  apart.
\<close>

theorem cache_transparent:
  assumes "r2_cache s0 = []" "written_once E calls s0" "sha_separates E (insert uri (set (asked calls)))"
    and "download_to_cache E uri (fold (after_r2 E) calls s0) = (Inr name, s)"
  shows "\<exists>u data. s3_parse (re_host_ok E) uri = Inr u \<and> map_of (r2_objects s) (su_bucket u, su_key u) = Some data
    \<and> file_content name s = Some data"
proof -
  let ?s = "fold (after_r2 E) calls s0" and ?uris = "insert uri (set (asked calls))"
  have c: "coherent E ?uris ?s" using assms(1,2) by (intro coherent_run [OF assms(3)]) (auto simp: coherent_def)
  show ?thesis
  proof (cases rule: download_cases [where E = E and uri = uri and s = ?s])
    case (1 e)
    then show ?thesis using assms(4) by simp
  next
    case (2 u)
    then have n: "name = cache_name E uri u" "s = ?s" using assms(4) by auto
    obtain f where f: "cached_file name ?s = Some f" using 2(2) n by auto
    then have "f \<in> set (r2_cache ?s)" "cf_name f = name" by (auto simp: cached_file_def find_Some_iff)
    then obtain g where g: "find (\<lambda>f. cf_name f = name) (r2_cache ?s) = Some g"
      by (cases "find (\<lambda>f. cf_name f = name) (r2_cache ?s)") (auto simp: find_None_iff)
    then have "g \<in> set (r2_cache ?s)" "cf_name g = name" by (auto simp: find_Some_iff)
    then show ?thesis using c 2(1) g n by (auto simp: coherent_def file_content_def)
  next
    case (3 u data)
    then have n: "name = cache_name E uri u" "s = put_cached E name data ?s" using assms(4) by auto
    have "r2_objects s = r2_objects ?s" unfolding n(2) by (simp add: put_cached_def)
    then show ?thesis using 3(1,3) put_cached_content [of name E data ?s] n(2) by auto
  qed
qed

subsection \<open>Erasure\<close>

lemma cached_hit:
  assumes "s3_parse (re_host_ok E) uri = Inr u" "file_content (cache_name E uri u) s = Some data" "data \<noteq> []"
  shows "download_to_cache E uri s = (Inr (cache_name E uri u), s)"
proof -
  obtain f where "find (\<lambda>f. cf_name f = cache_name E uri u) (r2_cache s) = Some f" "cf_data f = data"
    using assms(2) by (auto simp: file_content_def)
  then have "f \<in> set (r2_cache s)" "cf_name f = cache_name E uri u" "cf_data f \<noteq> []" using assms(3) by (auto simp: find_Some_iff)
  then have "cached_file (cache_name E uri u) s \<noteq> None" by (auto simp: cached_file_def find_None_iff)
  then show ?thesis using assms(1) by (simp add: download_to_cache_def lift_s3_def act_eval Let_def split: option.split)
qed

lemma resolve_remote:
  assumes "s3_parse host_ok uri = Inr u" "re_host_ok E = host_ok" "download_to_cache E uri s = (Inr name, s')" "file_content name s' \<noteq> None"
  shows "resolve_reference_uri L host_ok (Some E) uri s = (Inr name, s')"
proof -
  obtain p where p: "uri \<noteq> []" "urlparse host_ok uri = Inr p" "ur_scheme p \<in> {cps ''s3'', cps ''r2''}"
    using assms(1) by (auto simp: s3_parse_def bindS_Inr split: if_splits)
  then show ?thesis using assms(3,4) by (auto simp: resolve_reference_uri_def remote_fetcher_def cps_def)
qed

text \<open>
  C32: erasure does not reach the caches. After a reference was downloaded once and its object
  deleted, as the purge of a voice does, the object is gone from the bucket, but resolving the
  reference still gives the cached file with the erased bytes, with or without a reachable bucket.
\<close>

theorem erased_reference_still_served:
  assumes "download_to_cache E uri s = (Inr name, s1)" "file_content name s1 = Some data" "data \<noteq> []"
    and "delete_object E uri s1 = (Inr (), s2)"
  shows "object_exists (E\<lparr>re_fails := False\<rparr>) uri s2 = (Inr False, s2)
    \<and> resolve_reference_uri L (re_host_ok E) (Some (E\<lparr>re_fails := b\<rparr>)) uri s2 = (Inr name, s2)
    \<and> file_content name s2 = Some data"
proof -
  obtain u where u: "s3_parse (re_host_ok E) uri = Inr u" "name = cache_name E uri u"
    using assms(1) by (cases rule: download_cases [where E = E and uri = uri and s = s]) auto
  have s2: "s2 = s1\<lparr>r2_objects := filter (\<lambda>(k, _). k \<noteq> (su_bucket u, su_key u)) (r2_objects s1)\<rparr>"
    using assms(4) u(1) by (simp add: delete_object_def lift_s3_def client_def act_eval split: if_splits)
  have gone: "map_of (filter (\<lambda>(k, _). k \<noteq> k') os) k' = None" for os :: "((ustr \<times> ustr) \<times> bytes) list" and k'
    by (induction os) auto
  have kept: "file_content name s2 = Some data" using assms(2) unfolding s2 by (simp add: file_content_def)
  have same: "cache_name (E\<lparr>re_fails := b\<rparr>) = cache_name E" by (simp add: fun_eq_iff cache_name_def)
  have "download_to_cache (E\<lparr>re_fails := b\<rparr>) uri s2 = (Inr name, s2)"
    using cached_hit [of "E\<lparr>re_fails := b\<rparr>" uri u s2 data] u kept assms(3) by (simp add: same)
  then have "resolve_reference_uri L (re_host_ok E) (Some (E\<lparr>re_fails := b\<rparr>)) uri s2 = (Inr name, s2)"
    using kept by (intro resolve_remote [OF u(1)]) simp_all
  moreover have "object_exists (E\<lparr>re_fails := False\<rparr>) uri s2 = (Inr False, s2)"
    using u(1) gone unfolding s2 by (simp add: object_exists_def lift_s3_def client_def act_eval)
  ultimately show ?thesis using kept by simp
qed

subsection \<open>Samples\<close>

definition sample_r2 :: r2_env where
  "sample_r2 = \<lparr>re_bucket = cps ''nv'', re_cache_dir = cps ''/tmp'', re_max_bytes = 4,
     re_sha = (\<lambda>u. take 32 (u @ replicate 32 0)), re_host_ok = (\<lambda>_. True), re_fails = False, re_now = 5,
     re_presign = (\<lambda>b k t. Inr (k @ cps ''?X-Amz-Signature''))\<rparr>"

definition sample_uri :: ustr where
  "sample_uri = s3_text \<lparr>su_bucket = cps ''nv'', su_key = cps ''ada.wav''\<rparr>"

lemma sample_parse: "s3_parse (re_host_ok sample_r2) sample_uri = Inr \<lparr>su_bucket = cps ''nv'', su_key = cps ''ada.wav''\<rparr>"
  by (simp add: sample_uri_def sample_r2_def s3_text_def s3_parse_def urlparse_def split_scheme_def url_clean_def
    scheme_char_def ascii_alpha_def lower_ascii_def bindS_def cps_def Let_def)

definition sample_disk :: local_disk where
  "sample_disk = \<lparr>ld_decode = (\<lambda>b. b), ld_absolute = (\<lambda>p. p), ld_is_file = (\<lambda>_. False)\<rparr>"

definition sample_bucket :: r2_state where
  "sample_bucket = \<lparr>r2_objects = [((cps ''nv'', cps ''ada.wav''), [1, 2])], r2_cache = []\<rparr>"

lemma sample_fetch:
  "download_to_cache sample_r2 sample_uri sample_bucket
     = (Inr (cache_name sample_r2 sample_uri \<lparr>su_bucket = cps ''nv'', su_key = cps ''ada.wav''\<rparr>),
        put_cached sample_r2 (cache_name sample_r2 sample_uri \<lparr>su_bucket = cps ''nv'', su_key = cps ''ada.wav''\<rparr>) [1, 2] sample_bucket)"
  using sample_parse
  by (simp add: download_to_cache_def lift_s3_def act_eval cached_file_def sample_bucket_def fetch_object_def client_def
    put_cached_def sample_r2_def Let_def)

theorem cache_within_bytes_witness:
  "fits_limit 4 (r2_cache (fold (after_r2 sample_r2) [(1, False, Get sample_uri), (2, True, Get sample_uri)] sample_bucket))"
  using cache_within_bytes [of sample_r2 sample_bucket "[(1, False, Get sample_uri), (2, True, Get sample_uri)]"]
  by (simp add: sample_r2_def sample_bucket_def)

theorem cache_transparent_witness:
  "\<exists>(u :: s3uri) data name s. download_to_cache sample_r2 sample_uri sample_bucket = (Inr name, s)
     \<and> map_of (r2_objects s) (su_bucket u, su_key u) = Some data \<and> file_content name s = Some data"
proof -
  have "sha_separates sample_r2 (insert sample_uri (set (asked [])))"
    by (auto simp: sha_separates_def sample_r2_def)
  moreover have "r2_cache sample_bucket = []" by (simp add: sample_bucket_def)
  moreover obtain name s where run: "download_to_cache sample_r2 sample_uri (fold (after_r2 sample_r2) [] sample_bucket) = (Inr name, s)"
    using sample_fetch by simp
  moreover have "written_once sample_r2 [] sample_bucket" by simp
  ultimately show ?thesis using cache_transparent [of sample_bucket sample_r2 "[]" sample_uri name s] by auto
qed

theorem erased_reference_still_served_witness:
  "\<exists>name s2. object_exists (sample_r2\<lparr>re_fails := False\<rparr>) sample_uri s2 = (Inr False, s2)
     \<and> resolve_reference_uri sample_disk (re_host_ok sample_r2) (Some (sample_r2\<lparr>re_fails := True\<rparr>)) sample_uri s2 = (Inr name, s2)
     \<and> file_content name s2 = Some [1, 2]"
proof -
  obtain s2 where "delete_object sample_r2 sample_uri (snd (download_to_cache sample_r2 sample_uri sample_bucket)) = (Inr (), s2)"
    using sample_parse by (simp add: delete_object_def lift_s3_def act_eval client_def sample_r2_def)
  from erased_reference_still_served [OF sample_fetch put_cached_content _ this [unfolded sample_fetch snd_conv]]
  show ?thesis by blast
qed

end
