(* ===== verification/Runtime_Facts.thy ===== *)
theory Runtime_Facts
  imports Runtime Storage_Facts Engine_Facts Job_Lifecycle
begin

text \<open>
  What the wiring gives: a finished job's audio lies in the bucket under the address that its row
  carries, and is what was published; and that the warm-up list warms nothing but the base model.
\<close>

subsection \<open>Warm-up\<close>

definition base_only :: "engine \<Rightarrow> 'm engine_state \<Rightarrow> bool" where
  "base_only g s \<longleftrightarrow> map fst (es_models s) = [] \<or> map fst (es_models s) = [cache_key_of g (eg_default_adapter g)]"

lemma load_base_only:
  assumes "1 \<le> eg_cache_size g" "base_only g s"
  shows "base_only g (snd (load_base g E s))"
proof (cases "es_models s = []")
  case False
  then show ?thesis using assms(2) by (simp add: load_base_def act_eval)
next
  case True
  obtain r s' where c: "cold_load g E (eg_default_adapter g) s = (r, s')" by fastforce
  then have "snd (load_base g E s) = s'"
    using True by (auto simp: load_base_def model_for_adapter_def cached_model_def act_eval Let_def split: sum.split)
  moreover have "es_models s' = [] \<or> (\<exists>m. es_models s' = [(cache_key_of g (eg_default_adapter g), m)])"
    using cold_load_room [OF assms(1) _ c] True assms(1) by (auto simp: od_put_def)
  ultimately show ?thesis by (auto simp: base_only_def)
qed

lemma warm_voice_base:
  assumes "1 \<le> eg_cache_size g" "base_only g (fst st)"
  shows "base_only g (fst (warm_voice g E B v st))"
proof -
  have "base_only g (snd (warmup_row g E row (fst st)))" for row
    using load_base_only [OF assms] by (simp add: warmup_row_def act_eval split: prod.split sum.split) (metis snd_conv)
  then show ?thesis using assms(2) by (auto simp: warm_voice_def split: option.split prod.split sum.split)
qed


subsection \<open>The archived audio\<close>

definition date_ok :: "ustr \<Rightarrow> bool" where
  "date_ok today \<longleftrightarrow> list_all (\<lambda>c. (48 \<le> c \<and> c \<le> 57) \<or> c = 47) today"

lemma uuid_text_chars: "list_all (\<lambda>c. c \<notin> {9, 10, 13, 63, 35} \<and> c < 256) (uuid_str u)"
proof -
  have h: "list_all (\<lambda>c. c \<notin> {9, 10, 13, 63, 35} \<and> c < 256) (hex_fixed k v)" for k v
    using hex_fixed_chars [of k v] by (auto simp: list_all_iff lower_hex_def digit_def)
  have "list_all P (take k xs)" "list_all P (drop k xs)" if "list_all P xs" for P k and xs :: "nat list"
    using that by (auto simp: list_all_iff dest: in_set_takeD in_set_dropD)
  then show ?thesis using h [of 32 u] by (simp add: uuid_str_def Let_def)
qed

lemma archive_key_ok:
  assumes "date_ok today"
  shows "key_ok (archive_key today rid)" "list_all (\<lambda>c. c < 256) (archive_key today rid)"
proof -
  have t: "list_all (\<lambda>c. c \<notin> {9, 10, 13, 63, 35} \<and> c < 256) today" using assms by (auto simp: date_ok_def list_all_iff)
  have "list_all (\<lambda>c. c \<notin> {9, 10, 13, 63, 35} \<and> c < 256) (archive_key today rid)"
    using t uuid_text_chars [of rid] by (simp add: archive_key_def cps_def)
  then show "key_ok (archive_key today rid)" "list_all (\<lambda>c. c < 256) (archive_key today rid)"
    by (auto simp: key_ok_def archive_key_def cps_def list_all_iff)
qed

lemma cps_char_of: "list_all (\<lambda>c. c < 256) u \<Longrightarrow> cps (map char_of u) = u"
  by (induction u) (simp_all add: cps_def)

lemma archive_done:
  assumes "archive_to_r2 E today rid pcm sr r = (Inr uri, r')"
  shows "\<exists>wav. pcm16_to_wav_bytes pcm sr 1 = Inr wav \<and> uri = s3_text \<lparr>su_bucket = re_bucket E, su_key = archive_key today rid\<rparr>
    \<and> map_of (r2_objects r') (re_bucket E, archive_key today rid) = Some wav"
  using assms
  by (auto simp: archive_to_r2_def upload_bytes_def client_def lift_s3_def act_cases put_lookup Let_def split: sum.splits if_splits)

lemma truthy_None: "\<not> truthy None"
  by simp

text \<open>The archive's address and audio, the final row and the stream of an attempt that ended normally.\<close>

lemma finished_archive:
  assumes "job_ids job = Inr (rid, tenant, api_key)" and "process_one_job W job attempt s = (Inr (), s')"
  shows "\<exists>f uri align pieces. pe_archive W = Some f \<and> f rid (pieces_pcm pieces) (pe_engine_rate W) = ArchUri (Some uri)
    \<and> ps_stream s' = audio_chunks (uuid_str rid) attempt 0 pieces @ [final_chunk (uuid_str rid) attempt (int (length pieces))]
    \<and> ps_jobs s' = idem_complete tenant (pe_now_ms W) rid (Some uri) align (ps_jobs s)"
proof -
  obtain s1 row bits s2 s3 v path s4 where d: "redis_cmd W (\<lambda>_. []) s = (Inr (), s1)"
    and l: "lookup_voice W tenant (tj_voice_id job) s1 = (Inr (row, bits), s2)"
    and w: "require_watermark W job attempt row bits s2 = (Inr (), s3)"
    and row: "row = Some v" and r: "resolve_reference W job attempt v s3 = (Inr path, s4)"
    and y: "synthesize_and_commit W job attempt (rid, tenant, api_key) v bits path s4 = (Inr (), s')"
    using assms by (auto simp: process_one_job_def act_cases lift_err_def poison_def split: option.splits)
  have before: "ps_stream s4 = [] \<and> ps_jobs s4 = ps_jobs s"
  proof -
    have "ps_stream s1 = [] \<and> ps_jobs s1 = ps_jobs s" using redis_cmd_out [OF d] by (auto simp: same_store_def same_tables_def)
    moreover have "ps_stream s2 = ps_stream s1 \<and> ps_jobs s2 = ps_jobs s1"
      using l by (auto simp: lookup_voice_def Let_def same_store_def same_tables_def dest!: db_read_out)
    moreover have "s3 = s2" using require_watermark_out [OF assms(1) w] by auto
    moreover have "s4 = s3" using resolve_reference_out [OF assms(1) r] by auto
    ultimately show ?thesis by simp
  qed
  let ?settings = "layered_settings (v_settings_defaults v) (tj_voice_settings job)"
  obtain p s5 ov s6 acc s7 uri s8 where st: "stream_stage W job rid attempt (voice_view_from_db v) path ?settings ov bits s6 = (Inr acc, s7)"
    and pick: "pick_preset W job attempt s4 = (Inr p, s5)" and s6: "s6 = s5"
    and ar: "archive_stage W job rid attempt acc s7 = (Inr uri, s8)"
    and cf: "seqA (or_transient ''db_commit_failed'' (db_commit W (success_tx W job rid tenant api_key v p ?settings ov acc uri)))
           (or_transient ''publish_final_failed'' (publish_final W rid (la_seq acc) attempt)) s8 = (Inr (), s')"
    using y by (auto simp: synthesize_and_commit_def bindA_Inr Let_def lift_err_Inr)
  have "s5 = s4" using pick_preset_out [OF assms(1) pick] by auto
  obtain pieces where ps: "ps_stream s7 = audio_chunks (uuid_str rid) attempt 0 pieces" "la_pcm acc = pieces_pcm pieces"
    "la_seq acc = int (length pieces)" "ps_jobs s7 = ps_jobs s"
    using stream_stage_out [OF st] before s6 \<open>s5 = s4\<close> by (auto simp: same_store_def same_tables_def)
  obtain f where f: "pe_archive W = Some f" "f rid (la_pcm acc) (pe_engine_rate W) = ArchUri (Some uri)"
    and s8: "s8 = s7\<lparr>ps_archived := ps_archived s7 @ [(rid, la_pcm acc)]\<rparr>"
    using ar by (auto simp: archive_stage_def act_cases poison_def split: option.splits archive_reply.splits if_splits)
       (metis option.collapse truthy_None)
  have "success_tx W job rid tenant api_key v p ?settings ov acc uri (ps_jobs s8, ps_usages s8) = Inr (ps_jobs s', ps_usages s')"
    and "ps_stream s' = ps_stream s8 @ [final_chunk (uuid_str rid) attempt (la_seq acc)]"
    using commit_final_out [OF cf] by auto
  then show ?thesis using f ps s8
    by (intro exI [of _ f] exI [of _ uri] exI [of _ "nonempty (Some (la_align acc))"] exI [of _ pieces])
      (auto simp: success_tx_def Let_def bindS_Inr)
qed

text \<open>
  C5: the address of a finished job leads to its audio. When an attempt ends normally in a worker
  that archives to R2, the job's row is complete and its address parses to an object of the
  bucket, which is a WAV file of exactly the audio that was published, at the engine's rate; the
  URL that the gateway signs for the client is for that object.
\<close>

theorem finished_job_downloads:
  assumes "job_ids job = Inr (rid, tenant, api_key)" and "pe_archive W = Some (archive_reply E today r)"
    and "bucket_ok (re_bucket E)" and "date_ok today"
    and "process_one_job W job attempt s = (Inr (), s')"
    and "idem_get tenant now rid (ps_jobs s) = Some row" and "idem_visible tenant (pe_now_ms W) rid row"
  shows "\<exists>x uri u r' wav. idem_get tenant now rid (ps_jobs s') = Some x \<and> jr_status x = ''complete'' \<and> jr_response_uri x = Some uri
    \<and> archive_to_r2 E today rid (concat (map tr_pcm_bytes (ps_stream s'))) (pe_engine_rate W) r = (Inr (cps uri), r')
    \<and> s3_parse (re_host_ok E) (cps uri) = Inr u \<and> map_of (r2_objects r') (su_bucket u, su_key u) = Some wav
    \<and> read_wav wav = Some (1, nat (pe_engine_rate W), 16, concat (map tr_pcm_bytes (ps_stream s')))
    \<and> fst (presigned_get_url E (cps uri) 3600 r') = re_presign E (su_bucket u) (su_key u) 3600"
proof -
  obtain f uri align pieces where fin: "pe_archive W = Some f" "f rid (pieces_pcm pieces) (pe_engine_rate W) = ArchUri (Some uri)"
    "ps_stream s' = audio_chunks (uuid_str rid) attempt 0 pieces @ [final_chunk (uuid_str rid) attempt (int (length pieces))]"
    "ps_jobs s' = idem_complete tenant (pe_now_ms W) rid (Some uri) align (ps_jobs s)"
    using finished_archive [OF assms(1,5)] by blast
  let ?pcm = "pieces_pcm pieces" and ?u = "\<lparr>su_bucket = re_bucket E, su_key = archive_key today rid\<rparr>"
  have pcm: "concat (map tr_pcm_bytes (ps_stream s')) = ?pcm" by (simp add: fin(3) stream_pcm)
  obtain addr r' where run: "archive_to_r2 E today rid ?pcm (pe_engine_rate W) r = (Inr addr, r')" "uri = map char_of addr"
    using fin(1,2) assms(2) by (auto simp: archive_reply_def split: prod.splits sum.splits)
  obtain wav where wav: "pcm16_to_wav_bytes ?pcm (pe_engine_rate W) 1 = Inr wav" "addr = s3_text ?u"
    "map_of (r2_objects r') (re_bucket E, archive_key today rid) = Some wav"
    using archive_done [OF run(1)] by blast
  have ok: "bucket_ok (su_bucket ?u)" "key_ok (su_key ?u)" using assms(3) archive_key_ok(1) [OF assms(4)] by simp_all
  have parse: "s3_parse (re_host_ok E) addr = Inr ?u" unfolding wav(2) using s3_reads_back [OF ok] by blast
  have "list_all (\<lambda>c. c < 256) addr"
    using assms(3) archive_key_ok(2) [OF assms(4), of rid] by (auto simp: wav(2) s3_text_def s3_prefix bucket_ok_def list_all_iff)
  then have cps: "cps uri = addr" by (simp add: run(2) cps_char_of)
  obtain x where x: "idem_get tenant now rid (ps_jobs s') = Some x" "jr_status x = ''complete''" "jr_response_uri x = Some uri"
    using get_completed_later [OF assms(6,7), of "Some uri" align] fin(4) by auto
  have "read_wav wav = Some (1, nat (pe_engine_rate W), 16, ?pcm)" using wav_file_read [OF wav(1)] by simp
  moreover have "fst (presigned_get_url E addr 3600 r') = re_presign E (su_bucket ?u) (su_key ?u) 3600"
    using parse by (auto simp: presigned_get_url_def lift_s3_def act_eval split: sum.split)
  ultimately show ?thesis
    using x run(1) parse wav(3) unfolding pcm cps by (intro exI [of _ x] exI [of _ uri] exI [of _ ?u] exI [of _ r'] exI [of _ wav]) (simp add: cps)
qed

subsection \<open>Samples\<close>

definition archiving_worker :: penv where
  "archiving_worker = sample_env\<lparr>pe_archive := Some (archive_reply sample_r2 (cps ''2026/05/29'') sample_bucket)\<rparr>"

lemma sample_archive:
  "\<exists>uri. archive_reply sample_r2 (cps ''2026/05/29'') sample_bucket rid [1, 0, 2, 0, 3, 0] 48000 = ArchUri (Some uri) \<and> uri \<noteq> []"
proof -
  obtain wav where "pcm16_to_wav_bytes [1, 0, 2, 0, 3, 0] 48000 1 = Inr wav" using wav_file_total [of 1 48000 "[1, 0, 2, 0, 3, 0]"] by auto
  then show ?thesis
    by (simp add: archive_reply_def archive_to_r2_def lift_s3_def upload_bytes_def client_def act_eval s3_text_def s3_prefix sample_r2_def Let_def)
qed

lemma archiving_run: "fst (process_one_job archiving_worker sample_job 1 sample_state) = Inr ()"
proof -
  obtain uri where "archive_reply sample_r2 (cps ''2026/05/29'') sample_bucket (Suc 0) [Suc 0, 0, 2, 0, 3, 0] 48000 = ArchUri (Some uri)" "uri \<noteq> []"
    using sample_archive [of 1] by auto
  then show ?thesis by (cases uri) (simp_all add: run_simps archiving_worker_def)
qed

theorem finished_job_downloads_witness:
  "let s' = snd (process_one_job archiving_worker sample_job 1 sample_state) in
   \<exists>x uri (u :: s3uri) (r' :: r2_state) wav. idem_get 7 160 1 (ps_jobs s') = Some x \<and> jr_response_uri x = Some uri
     \<and> s3_parse (re_host_ok sample_r2) (cps uri) = Inr u \<and> map_of (r2_objects r') (su_bucket u, su_key u) = Some wav
     \<and> read_wav wav = Some (1, 48000, 16, concat (map tr_pcm_bytes (ps_stream s')))"
proof -
  let ?s' = "snd (process_one_job archiving_worker sample_job 1 sample_state)"
  have run: "process_one_job archiving_worker sample_job 1 sample_state = (Inr (), ?s')" using archiving_run by (metis prod.collapse)
  have w: "pe_archive archiving_worker = Some (archive_reply sample_r2 (cps ''2026/05/29'') sample_bucket)" "pe_now_ms archiving_worker = 160"
    "pe_engine_rate archiving_worker = 48000" by (simp_all add: archiving_worker_def)
  have ok: "bucket_ok (re_bucket sample_r2)" "date_ok (cps ''2026/05/29'')" by (simp_all add: sample_r2_def bucket_ok_def date_ok_def cps_def)
  let ?row = "new_job_row 7 100 1 2 ''h'' None"
  have row: "idem_get 7 160 1 (ps_jobs sample_state) = Some ?row" "idem_visible 7 (pe_now_ms archiving_worker) 1 ?row"
    by (simp_all add: sample_state_def idem_get_def idem_visible_def new_job_row_def w default_ttl_def)
  show ?thesis using finished_job_downloads [OF sample_ids w(1) ok run row] unfolding w Let_def
    by (simp only: nat_numeral) (elim exE conjE, intro exI conjI, assumption+)
qed

definition sample_boot :: boot_env where
  "sample_boot = \<lparr>be_voices = [sample_voice\<lparr>v_voice_id := ''ada''\<rparr>], be_db_fails = (\<lambda>_. False), be_disk = sample_disk,
     be_host_ok = (\<lambda>_. True), be_r2 = Some sample_r2, be_ping = True\<rparr>"


end
