(* ===== verification/Spec2Isabelle.thy ===== *)
theory Spec2Isabelle
  imports Consumer Audio_Post Job_Lifecycle Gateway_Sync Gateway_Voices Turkish_Numbers Admin_Cascades Stream_Facts Engine_Facts Runtime_Facts
begin

text \<open>
  A verification development for the NeuroVoice text-to-speech service: a gateway that accepts
  synthesis requests over HTTP and WebSocket, a worker that turns queued jobs into audio, the
  tables and Redis structures between them, and an operator console.

  \<^bold>\<open>The parts and how they interact.\<close> A request is authenticated (key, tenant, two rate limits),
  its voice is looked up and checked (visibility, lifecycle, consent), the job is reserved in
  \<^verbatim>\<open>job_idempotency\<close> and put on a Redis stream. A worker takes it from its consumer group, runs
  the pipeline (reference audio, presets, text frontend, engine, PCM pass, watermark, archive),
  publishes PCM chunks on the request's result stream, commits the job and usage rows and then
  publishes the final marker. The gateway reads that stream back: as one body, as a byte stream,
  as WebSocket frames, or not at all for asynchronous jobs, whose rows it answers from. Operators
  govern voices, consents, contracts, keys and watermark records; what they revoke takes effect in
  the gateway's checks.

  \<^bold>\<open>Theories and the code they model\<close> (paths under \<^verbatim>\<open>src/src/\<close>).
  \<^item> \<open>NV_Prelude\<close>, \<open>Effects\<close>, \<open>Py_Text\<close>: identifiers, Python values, tables and the locale of a
    uniquely keyed table; stateful code that may raise, with invariants over it (\<open>keeps\<close>); strings,
    stripping, splitting and regular-expression substitution.
  \<^item> \<open>Wire\<close>, \<open>Result_Stream\<close>: \<^verbatim>\<open>server/queue.py\<close>, \<^verbatim>\<open>server/result_stream.py\<close>.
  \<^item> \<open>Job_Store\<close>, \<open>Usage_Store\<close>, \<open>Voice_Store\<close>, \<open>Governance\<close>, \<open>Operators\<close>: the repositories of
    \<^verbatim>\<open>repos/\<close> over the tables of \<^verbatim>\<open>db/models.py\<close>; \<open>Operators\<close> also has
    \<^verbatim>\<open>server/security/jwt_tokens.py\<close>.
  \<^item> \<open>Presets\<close>, \<open>Pipeline\<close>, \<open>Pipeline_Facts\<close>, \<open>Consumer\<close>: \<^verbatim>\<open>server/models.py\<close>,
    \<^verbatim>\<open>worker/pipeline.py\<close>, \<^verbatim>\<open>worker/live.py\<close>, \<^verbatim>\<open>audio/watermark.py\<close>, \<^verbatim>\<open>worker/consumer.py\<close>.
  \<^item> \<open>Turkish_Numbers\<close>, \<open>Segmenter\<close>, \<open>Normalizer\<close>: \<^verbatim>\<open>frontend/lang_packs/tr/\<close>.
  \<^item> \<open>Engine\<close>, \<open>Engine_Facts\<close>: \<^verbatim>\<open>worker/engine.py\<close>, the model cache and both forms of synthesis, and
    what they mean for a job in the pipeline.
  \<^item> \<open>Storage\<close>, \<open>Storage_Facts\<close>: \<^verbatim>\<open>storage/\<close>, the bucket, the download cache and the resolution
    of references; \<open>Runtime\<close>, \<open>Runtime_Facts\<close>: \<^verbatim>\<open>worker/runtime.py\<close>, archive and boot.
  \<^item> \<open>Audio_Post\<close>, \<open>Crossfade\<close>, \<open>Wav\<close>: \<^verbatim>\<open>audio/postprocess.py\<close>, \<^verbatim>\<open>audio/wav.py\<close>, samples as \<open>16 word\<close>.
  \<^item> \<open>Rate_Limit\<close>, \<open>Access_Control\<close>, \<open>Authentication\<close>: \<^verbatim>\<open>server/rate_limit.py\<close>,
    \<^verbatim>\<open>server/security/\<close>, \<^verbatim>\<open>server/auth.py\<close>.
  \<^item> \<open>Cluster\<close>: \<^verbatim>\<open>worker/heartbeat.py\<close>, \<^verbatim>\<open>server/heartbeat.py\<close> and the admission decision.
  \<^item> \<open>Gateway\<close>, \<open>Gateway_Jobs\<close>, \<open>Gateway_Sync\<close>, \<open>Gateway_Voices\<close>: the routes of \<^verbatim>\<open>server/main.py\<close>
    with \<^verbatim>\<open>server/schemas.py\<close>, \<^verbatim>\<open>registry/\<close> and \<^verbatim>\<open>audio/encoders.py\<close>.
  \<^item> \<open>Stream_Input\<close>, \<open>Stream_Facts\<close>: \<^verbatim>\<open>server/ws.py\<close>.
  \<^item> \<open>Admin\<close>, \<open>Admin_Facts\<close>, \<open>Admin_Cascades\<close>: \<^verbatim>\<open>server/admin/router.py\<close>.
  \<^item> \<open>Job_Lifecycle\<close>: the properties of an asynchronous job across gateway and worker.

  \<^bold>\<open>State and operations.\<close> A table is the list of its rows in insertion order; a session works on a
  copy that a commit publishes and an exception drops. Redis streams are lists of entries. A
  handler is one definition over explicit state (\<open>act\<close>: exception or value, and the state either
  way), composed as the code composes it; its environment record holds what it reads: one clock
  reading per handler, fresh ids, which commands fail, what other sessions commit meanwhile, and
  the library functions below.

  \<^bold>\<open>What the lemmas show.\<close> Tables: reachable tables keep their keys unique and their states legal.
  Pipeline and consumer: final markers are durable, acknowledged jobs have told their client, a
  request is billed once however often it is delivered, licensed audio is watermarked. Gateway: a
  submission happens completely or not at all and never twice, a retry is a replay, what a client
  hears is what the worker archived (refinements of the queue away), quotas hold in any minute.
  Console: every change is signed, revocations cascade, watermarks lead back. Text: nothing that
  is sent is lost or doubled by segmentation, numbers are heard as they were meant, a
  finished job has spoken its whole normalized text. Engine: the cache is bounded and least recently
  used, and synthesis always returns. Storage: a finished job's address leads to its audio, the
  download cache is transparent and within its bytes. The error properties record where the code falls short of its own documentation.

  \<^bold>\<open>Interfaces.\<close> Locales state what a client relies on (a uniquely keyed table,
  Redis' sorted sets, the ordered dictionary behind the model cache) and are interpreted on the
  model's definitions.

  \<^bold>\<open>Bounds and fuel.\<close> A poll of the result stream reads 64 entries, as the code does; the number of
  polls of a reader is a list of the environment, so a reader that is never answered ends only by
  its deadline. The eviction loop of the model cache is \<open>while_option\<close>, \<open>None\<close> for a loop that
  never ends; that it ends is a theorem. Loops over retries, heartbeats and history are folds over explicit lists of any
  length.

  \<^bold>\<open>Parameters\<close> (code outside the repository): the JSON text codec, Redis' replies, PostgreSQL's
  failures, the clock, voxcpm's models, torch's devices, the file system, numpy's cosine ramps, librosa, soundfile, ffmpeg, SHA-256, argon2, PyJWT's
  signature, the AudioSeal model, boto3's client (a map of objects with a failure per call), \<open>str\<close>, \<open>hash\<close> and \<open>lower\<close> of Python on values other than
  ASCII, Unicode's word characters, NFKC and case folding of \<open>re.IGNORECASE\<close>, and pydantic's coercions.

  \<^bold>\<open>Idealisations.\<close> Floats are rationals; error messages are shortened; metrics and log lines are
  omitted; \<open>int()\<close> reads ASCII digits only; JSON keys are ASCII.

  \<^bold>\<open>Not modelled.\<close> \<^verbatim>\<open>server/config.py\<close>, \<^verbatim>\<open>worker/main.py\<close>, \<^verbatim>\<open>db/session.py\<close>
  and the lifecycle, health and metrics part of \<^verbatim>\<open>server/main.py\<close> only read the environment and
  construct library objects; \<^verbatim>\<open>observability/\<close> declares collectors; \<^verbatim>\<open>audio/stats.py\<close> is
  floating-point numerics; \<^verbatim>\<open>live/\<close> is an unused sketch; \<^verbatim>\<open>eval/\<close>,
  \<^verbatim>\<open>finetune/\<close>, the scripts and the notebooks are offline tools, the migrations run once.
\<close>

end
